(* ===== verification/Go_Prelude.thy ===== *)
theory Go_Prelude
  imports Main
begin

text \<open>
  The part of the Go language and of its standard packages \<open>strings\<close> and \<open>strconv\<close>
  that the modelled packages use, with the facts about it the components share.

  A Go \<open>string\<close> is a sequence of bytes: here a list of the 256 characters of HOL.
  \<open>len(s)\<close> is \<open>length s\<close>, slicing is \<open>take\<close> and \<open>drop\<close>, a nil \<open>error\<close> is
  \<open>None\<close>. A Go \<open>int\<close> is a HOL \<open>int\<close>; the 64-bit range shows only in \<open>atoi\<close>,
  the one place where an \<open>int\<close> is made from input of any size.

  Bytes above 127 are never white space, never letters and never digits here. Go's
  \<open>TrimSpace\<close>, \<open>Fields\<close> and \<open>ToLower\<close> consult the Unicode tables for runes beyond
  ASCII; the model agrees with them on every ASCII string.
\<close>

named_theorems go_defs \<open>unfolding rules for small wrappers around the string library\<close>

section \<open>Bytes\<close>

type_synonym go_string = string

abbreviation code_of :: "char \<Rightarrow> nat" where
  "code_of c \<equiv> of_char c"

abbreviation newline :: char where
  "newline \<equiv> CHR 0x0A"

abbreviation carriage_return :: char where
  "carriage_return \<equiv> CHR 0x0D"

abbreviation null_byte :: char where
  "null_byte \<equiv> CHR 0x00"

definition in_range :: "char \<Rightarrow> char \<Rightarrow> char \<Rightarrow> bool" where
  "in_range lo hi c \<longleftrightarrow> code_of lo \<le> code_of c \<and> code_of c \<le> code_of hi"

definition is_digit :: "char \<Rightarrow> bool" where
  "is_digit c \<longleftrightarrow> in_range CHR ''0'' CHR ''9'' c"

definition is_lower :: "char \<Rightarrow> bool" where
  "is_lower c \<longleftrightarrow> in_range CHR ''a'' CHR ''z'' c"

definition is_upper :: "char \<Rightarrow> bool" where
  "is_upper c \<longleftrightarrow> in_range CHR ''A'' CHR ''Z'' c"

text \<open>The ASCII white space of \<open>unicode.IsSpace\<close>: tab, newline, vertical tab, form feed,
  carriage return, space.\<close>

definition is_space :: "char \<Rightarrow> bool" where
  "is_space c \<longleftrightarrow> code_of c \<in> {9, 10, 11, 12, 13, 32}"

text \<open>The control characters several validators refuse: below 0x20, or 0x7f.\<close>

definition is_control :: "char \<Rightarrow> bool" where
  "is_control c \<longleftrightarrow> code_of c < 32 \<or> code_of c = 127"

lemmas char_class_defs = in_range_def is_digit_def is_lower_def is_upper_def is_space_def
  is_control_def

lemma is_space_literals [simp]:
  "is_space newline" "is_space carriage_return" "is_space CHR '' ''" "is_space CHR 0x09"
  "\<not> is_space null_byte"
  by (simp_all add: is_space_def)

section \<open>Package strings\<close>

definition has_prefix :: "go_string \<Rightarrow> go_string \<Rightarrow> bool" where
  "has_prefix s p \<longleftrightarrow> take (length p) s = p"

definition has_suffix :: "go_string \<Rightarrow> go_string \<Rightarrow> bool" where
  "has_suffix s p \<longleftrightarrow> length p \<le> length s \<and> drop (length s - length p) s = p"

definition trim_prefix :: "go_string \<Rightarrow> go_string \<Rightarrow> go_string" where
  "trim_prefix s p = (if has_prefix s p then drop (length p) s else s)"

definition trim_suffix :: "go_string \<Rightarrow> go_string \<Rightarrow> go_string" where
  "trim_suffix s p = (if has_suffix s p then take (length s - length p) s else s)"

lemma has_prefix_iff: "has_prefix s p \<longleftrightarrow> (\<exists>t. s = p @ t)"
  by (metis append_eq_conv_conj append_take_drop_id has_prefix_def)

lemma has_suffix_iff: "has_suffix s p \<longleftrightarrow> (\<exists>t. s = t @ p)"
proof
  assume "has_suffix s p"
  then have "s = take (length s - length p) s @ p"
    by (metis append_take_drop_id has_suffix_def)
  then show "\<exists>t. s = t @ p" ..
qed (auto simp: has_suffix_def)

lemma has_prefix_append [simp]: "has_prefix (p @ s) p"
  by (simp add: has_prefix_def)

lemma has_suffix_append [simp]: "has_suffix (s @ p) p"
  by (simp add: has_suffix_def)

lemma trim_suffix_append [simp]: "trim_suffix (s @ p) p = s"
  by (simp add: trim_suffix_def)

lemma trim_prefix_append [simp]: "trim_prefix (p @ s) p = s"
  by (simp add: trim_prefix_def)

lemma set_trim_suffix: "set (trim_suffix s p) \<subseteq> set s"
  by (auto simp: trim_suffix_def dest: in_set_takeD)

text \<open>\<open>strings.TrimLeft\<close>, \<open>TrimRight\<close> and \<open>TrimFunc\<close> with a class of bytes.\<close>

definition trim_left :: "(char \<Rightarrow> bool) \<Rightarrow> go_string \<Rightarrow> go_string" where
  "trim_left P s = dropWhile P s"

definition trim_right :: "(char \<Rightarrow> bool) \<Rightarrow> go_string \<Rightarrow> go_string" where
  "trim_right P s = rev (dropWhile P (rev s))"

definition trim_both :: "(char \<Rightarrow> bool) \<Rightarrow> go_string \<Rightarrow> go_string" where
  "trim_both P s = trim_right P (trim_left P s)"

definition trim_space :: "go_string \<Rightarrow> go_string" where
  "trim_space s = trim_both is_space s"

lemma set_trim_right: "set (trim_right P s) \<subseteq> set s"
  by (auto simp: trim_right_def dest: set_dropWhileD)

lemma set_trim_left: "set (trim_left P s) \<subseteq> set s"
  by (auto simp: trim_left_def dest: set_dropWhileD)

lemma set_trim_space: "set (trim_space s) \<subseteq> set s"
  unfolding trim_space_def trim_both_def using set_trim_right set_trim_left by fast

lemma dropWhile_none: "(\<forall>c \<in> set s. \<not> P c) \<Longrightarrow> dropWhile P s = s"
  by (cases s) auto

lemma trim_both_none: "(\<forall>c \<in> set s. \<not> P c) \<Longrightarrow> trim_both P s = s"
  by (simp add: trim_both_def trim_left_def trim_right_def dropWhile_none)

lemma trim_both_ends:
  assumes "s = [] \<or> \<not> P (hd s)" and "s = [] \<or> \<not> P (last s)"
  shows "trim_both P s = s"
proof -
  have "dropWhile P s = s" using assms(1) by (cases s) auto
  moreover have "dropWhile P (rev s) = rev s" using assms(2) by (cases s rule: rev_cases) auto
  ultimately show ?thesis by (simp add: trim_both_def trim_left_def trim_right_def)
qed

lemma trim_space_id: "(\<forall>c \<in> set s. \<not> is_space c) \<Longrightarrow> trim_space s = s"
  by (simp add: trim_space_def trim_both_none)

lemma trim_right_idem: "trim_right P (trim_right P s) = trim_right P s"
  by (simp add: trim_right_def)

lemma trim_right_append: "\<exists>t. s = trim_right P s @ t"
proof -
  have "s = rev (takeWhile P (rev s) @ dropWhile P (rev s))" by simp
  then have "s = trim_right P s @ rev (takeWhile P (rev s))"
    by (simp only: rev_append trim_right_def)
  then show ?thesis ..
qed

lemma trim_right_id: "s = [] \<or> \<not> P (last s) \<Longrightarrow> trim_right P s = s"
  by (cases s rule: rev_cases) (auto simp: trim_right_def)

lemma trim_both_idem: "trim_both P (trim_both P s) = trim_both P s"
proof -
  let ?u = "dropWhile P s" and ?v = "trim_right P (dropWhile P s)"
  obtain t where t: "?u = ?v @ t" using trim_right_append [of ?u P] by blast
  have "dropWhile P ?v = ?v"
  proof (cases ?v)
    case Nil
    then show ?thesis by simp
  next
    case (Cons c w)
    with t have "?u = c # w @ t" by simp
    then have "\<not> P c" by (metis list.sel(1) hd_dropWhile list.distinct(1))
    with Cons show ?thesis by simp
  qed
  then show ?thesis by (simp add: trim_both_def trim_left_def trim_right_idem)
qed

lemma trim_space_idem [simp]: "trim_space (trim_space s) = trim_space s"
  by (simp add: trim_space_def trim_both_idem)

lemma trim_space_hd: "trim_space s \<noteq> [] \<Longrightarrow> \<not> is_space (hd (trim_space s))"
proof -
  let ?u = "dropWhile is_space s"
  assume ne: "trim_space s \<noteq> []"
  have v: "trim_space s = trim_right is_space ?u"
    by (simp add: trim_space_def trim_both_def trim_left_def)
  obtain r where r: "?u = trim_space s @ r" using trim_right_append [of ?u is_space] v by auto
  with ne have "hd (trim_space s) = hd ?u" by (metis hd_append2)
  moreover from r ne have "?u \<noteq> []" by auto
  ultimately show ?thesis using hd_dropWhile [of is_space s] by auto
qed

lemma trim_space_last: "trim_space s \<noteq> [] \<Longrightarrow> \<not> is_space (last (trim_space s))"
  using hd_dropWhile [of is_space "rev (trim_left is_space s)"]
  by (auto simp: trim_space_def trim_both_def trim_right_def last_rev)

subsection \<open>Split and Join\<close>

text \<open>\<open>strings.Split\<close> with a separator of one byte, which is all the sources use.\<close>

fun split_on :: "char \<Rightarrow> go_string \<Rightarrow> go_string list" where
  "split_on d [] = [[]]"
| "split_on d (c # s) =
     (if c = d then [] # split_on d s
      else (case split_on d s of [] \<Rightarrow> [[c]] | w # ws \<Rightarrow> (c # w) # ws))"

fun join :: "go_string \<Rightarrow> go_string list \<Rightarrow> go_string" where
  "join d [] = []"
| "join d [w] = w"
| "join d (w # v # ws) = w @ d @ join d (v # ws)"

lemma split_on_not_Nil [simp]: "split_on d s \<noteq> []"
  by (cases s) (auto split: list.splits)

lemma join_Cons: "ws \<noteq> [] \<Longrightarrow> join d (w # ws) = w @ d @ join d ws"
  by (cases ws) auto

lemma join_split_on [simp]: "join [d] (split_on d s) = s"
proof (induction s)
  case (Cons c s)
  then show ?case
    by (cases "split_on d s"; cases "tl (split_on d s)") (auto simp: join_Cons)
qed simp

lemma split_on_no_sep: "w \<in> set (split_on d s) \<Longrightarrow> d \<notin> set w"
proof (induction s arbitrary: w)
  case (Cons c s)
  then show ?case by (cases "split_on d s") (fastforce split: if_splits)+
qed simp

lemma set_split_on: "w \<in> set (split_on d s) \<Longrightarrow> set w \<subseteq> set s"
proof (induction s arbitrary: w)
  case (Cons c s)
  then show ?case by (cases "split_on d s") (fastforce split: if_splits)+
qed simp

lemma split_on_id: "d \<notin> set s \<Longrightarrow> split_on d s = [s]"
  by (induction s) auto

lemma split_on_append: "d \<notin> set w \<Longrightarrow> split_on d (w @ d # s) = w # split_on d s"
  by (induction w) auto

lemma split_on_append_sep: "split_on d (a @ d # b) = split_on d a @ split_on d b"
proof (induction a)
  case (Cons c a)
  then show ?case by (cases "split_on d a") auto
qed simp

lemma split_on_join:
  "ws \<noteq> [] \<Longrightarrow> (\<forall>w \<in> set ws. d \<notin> set w) \<Longrightarrow> split_on d (join [d] ws) = ws"
proof (induction ws)
  case (Cons w ws)
  then show ?case by (cases ws) (auto simp: split_on_id split_on_append)
qed simp

lemma join_append:
  "xs \<noteq> [] \<Longrightarrow> ys \<noteq> [] \<Longrightarrow> join d (xs @ ys) = join d xs @ d @ join d ys"
proof (induction xs)
  case (Cons x xs)
  then show ?case by (cases xs) (auto simp: join_Cons)
qed simp

lemma set_join: "set (join d ws) \<subseteq> set d \<union> (\<Union>w \<in> set ws. set w)"
  by (induction d ws rule: join.induct) auto

lemma two_le_length: "2 \<le> length ws \<longleftrightarrow> (\<exists>w v us. ws = w # v # us)"
  by (auto simp: Suc_le_length_iff numeral_2_eq_2)

text \<open>Lines, each ended by a newline.\<close>

definition unlines :: "go_string list \<Rightarrow> go_string" where
  "unlines ls = concat (map (\<lambda>l. l @ [newline]) ls)"

lemma unlines_simps [simp]:
  "unlines [] = []" "unlines (l # ls) = l @ newline # unlines ls"
  "unlines (ls @ ms) = unlines ls @ unlines ms"
  by (simp_all add: unlines_def)

lemma unlines_eq_Nil [simp]: "unlines ls = [] \<longleftrightarrow> ls = []"
  by (cases ls) simp_all

lemma split_unlines:
  "(\<forall>l \<in> set ls. newline \<notin> set l) \<Longrightarrow> split_on newline (unlines ls) = ls @ [[]]"
  by (induction ls) (simp_all add: split_on_append)

lemma join_newline: "ls \<noteq> [] \<Longrightarrow> join [newline] ls @ [newline] = unlines ls"
proof (induction ls)
  case (Cons l ls)
  then show ?case by (cases "ls = []") (simp_all add: join_Cons)
qed simp

lemma unlines_last: "ls \<noteq> [] \<Longrightarrow> last (unlines ls) = newline"
  by (induction ls) auto

subsection \<open>Fields\<close>

text \<open>\<open>strings.Fields\<close>: the maximal runs of bytes that are not white space.\<close>

fun fields_aux :: "go_string \<Rightarrow> go_string \<Rightarrow> go_string list" where
  "fields_aux w [] = (if w = [] then [] else [rev w])"
| "fields_aux w (c # s) =
     (if is_space c then (if w = [] then fields_aux [] s else rev w # fields_aux [] s)
      else fields_aux (c # w) s)"

definition go_fields :: "go_string \<Rightarrow> go_string list" where
  "go_fields s = fields_aux [] s"

lemma fields_aux_word:
  "x \<in> set (fields_aux w s) \<Longrightarrow> (\<forall>c \<in> set w. \<not> is_space c) \<Longrightarrow>
     x \<noteq> [] \<and> (\<forall>c \<in> set x. \<not> is_space c) \<and> set x \<subseteq> set w \<union> set s"
proof (induction s arbitrary: w)
  case Nil
  then show ?case by (simp split: if_splits)
next
  case (Cons c s)
  show ?case
  proof (cases "is_space c")
    case True
    with Cons.prems have "x = rev w \<and> w \<noteq> [] \<or> x \<in> set (fields_aux [] s)"
      by (simp split: if_splits)
    with Cons.prems(2) Cons.IH [of "[]"] show ?thesis by auto
  next
    case False
    with Cons.prems Cons.IH [of "c # w"] show ?thesis by simp
  qed
qed

lemma fields_word:
  "x \<in> set (go_fields s) \<Longrightarrow> x \<noteq> [] \<and> (\<forall>c \<in> set x. \<not> is_space c) \<and> set x \<subseteq> set s"
  using fields_aux_word [of x "[]" s] by (simp add: go_fields_def)

lemma fields_aux_run:
  "(\<forall>c \<in> set x. \<not> is_space c) \<Longrightarrow> fields_aux w (x @ s) = fields_aux (rev x @ w) s"
  by (induction x arbitrary: w) auto

lemma fields_single: "x \<noteq> [] \<Longrightarrow> (\<forall>c \<in> set x. \<not> is_space c) \<Longrightarrow> go_fields x = [x]"
  using fields_aux_run [of x "[]" "[]"] by (simp add: go_fields_def)

lemma fields_cons:
  "x \<noteq> [] \<Longrightarrow> (\<forall>c \<in> set x. \<not> is_space c) \<Longrightarrow> is_space d \<Longrightarrow> go_fields (x @ d # s) = x # go_fields s"
  using fields_aux_run [of x "[]" "d # s"] by (simp add: go_fields_def)

lemma fields_join:
  "(\<forall>x \<in> set xs. x \<noteq> [] \<and> (\<forall>c \<in> set x. \<not> is_space c)) \<Longrightarrow> go_fields (join '' '' xs) = xs"
proof (induction "'' ''" xs rule: join.induct)
  case 1
  then show ?case by (simp add: go_fields_def)
next
  case (2 w)
  then show ?case by (simp add: fields_single)
next
  case (3 w v ws)
  then show ?case by (simp add: fields_cons)
qed

lemma fields_fields [simp]: "go_fields (join '' '' (go_fields s)) = go_fields s"
  using fields_word by (intro fields_join) blast

lemma length_join_fields_aux: "length (join '' '' (fields_aux w s)) \<le> length w + length s"
proof (induction s arbitrary: w)
  case (Cons c s)
  have "length (join '' '' (rev w # fields_aux [] s)) \<le> length w + Suc (length s)"
    using Cons.IH [of "[]"] by (cases "fields_aux [] s") (auto simp: join_Cons)
  with Cons.IH [of "[]"] Cons.IH [of "c # w"] show ?case by auto
qed simp

lemma length_join_fields: "length (join '' '' (go_fields s)) \<le> length s"
  using length_join_fields_aux [of "[]" s] by (simp add: go_fields_def)

lemma hd_fields_aux: "w \<noteq> [] \<Longrightarrow> fields_aux w s \<noteq> [] \<and> hd (hd (fields_aux w s)) = last w"
  by (induction s arbitrary: w) (auto simp: hd_rev)

lemma hd_fields:
  "s \<noteq> [] \<Longrightarrow> \<not> is_space (hd s) \<Longrightarrow> go_fields s \<noteq> [] \<and> hd (hd (go_fields s)) = hd s"
  using hd_fields_aux [of "[hd s]" "tl s"] by (cases s) (auto simp: go_fields_def)

lemma hd_join: "ws \<noteq> [] \<Longrightarrow> hd ws \<noteq> [] \<Longrightarrow> hd (join d ws) = hd (hd ws) \<and> join d ws \<noteq> []"
  by (cases ws; cases "tl ws") auto

lemma last_join: "ws \<noteq> [] \<Longrightarrow> last ws \<noteq> [] \<Longrightarrow> last (join d ws) = last (last ws)"
proof (induction ws)
  case (Cons w ws)
  show ?case
  proof (cases "ws = []")
    case False
    with Cons have "last (join d ws) = last (last ws)" by simp
    moreover have "join d ws \<noteq> []"
      using False Cons.prems(2) by (induction d ws rule: join.induct) auto
    ultimately show ?thesis using False by (simp add: join_Cons)
  qed simp
qed simp

lemma trim_space_join_fields: "trim_space (join '' '' (go_fields s)) = join '' '' (go_fields s)"
proof (cases "go_fields s = []")
  case False
  note word = fields_word [of _ s]
  have "hd (go_fields s) \<in> set (go_fields s)" "last (go_fields s) \<in> set (go_fields s)"
    using False by simp_all
  from this [THEN word] False show ?thesis
    unfolding trim_space_def
    by (intro trim_both_ends) (auto simp: hd_join last_join hd_in_set last_in_set)
qed (simp add: trim_space_def trim_both_none)

subsection \<open>Cut, Index, Contains\<close>

text \<open>\<open>strings.Cut\<close>: the text before and after the first occurrence, and whether there was one.\<close>

fun cut :: "char \<Rightarrow> go_string \<Rightarrow> go_string \<times> go_string \<times> bool" where
  "cut d [] = ([], [], False)"
| "cut d (c # s) =
     (if c = d then ([], s, True)
      else (let (before, after, found) = cut d s in (c # before, after, found)))"

lemma cut_found: "cut d s = (b, a, True) \<Longrightarrow> s = b @ d # a \<and> d \<notin> set b"
  by (induction s arbitrary: b a) (auto split: if_splits prod.splits)

lemma cut_not_found: "cut d s = (b, a, False) \<Longrightarrow> b = s \<and> a = [] \<and> d \<notin> set s"
  by (induction s arbitrary: b a) (auto split: if_splits prod.splits)

lemma cut_append [simp]: "d \<notin> set b \<Longrightarrow> cut d (b @ d # a) = (b, a, True)"
  by (induction b) auto

lemma cut_none [simp]: "d \<notin> set s \<Longrightarrow> cut d s = (s, [], False)"
  by (induction s) auto

text \<open>\<open>strings.Index\<close> and \<open>strings.Cut\<close> with a longer separator.\<close>

fun index_of :: "go_string \<Rightarrow> go_string \<Rightarrow> nat option" where
  "index_of p [] = (if p = [] then Some 0 else None)"
| "index_of p (c # s) =
     (if has_prefix (c # s) p then Some 0 else map_option Suc (index_of p s))"

definition contains :: "go_string \<Rightarrow> go_string \<Rightarrow> bool" where
  "contains s p \<longleftrightarrow> index_of p s \<noteq> None"

definition cut_str :: "go_string \<Rightarrow> go_string \<Rightarrow> go_string \<times> go_string \<times> bool" where
  "cut_str p s =
     (case index_of p s of
        None \<Rightarrow> (s, [], False)
      | Some i \<Rightarrow> (take i s, drop (i + length p) s, True))"

lemma index_of_None: "index_of p s = None \<longleftrightarrow> (\<nexists>u v. s = u @ p @ v)"
proof (induction s)
  case (Cons c s)
  show ?case
  proof (cases "has_prefix (c # s) p")
    case True
    then have "\<exists>v. c # s = [] @ p @ v" by (auto simp: has_prefix_iff)
    then have "\<exists>u v. c # s = u @ p @ v" by blast
    with True show ?thesis by simp
  next
    case False
    have "(\<exists>u v. c # s = u @ p @ v) \<longleftrightarrow> (\<exists>u v. s = u @ p @ v)"
    proof
      assume "\<exists>u v. c # s = u @ p @ v"
      then obtain u v where uv: "c # s = u @ p @ v" by blast
      with False have "u \<noteq> []" by (auto simp: has_prefix_iff)
      with uv show "\<exists>u v. s = u @ p @ v" by (cases u) auto
    next
      assume "\<exists>u v. s = u @ p @ v"
      then show "\<exists>u v. c # s = u @ p @ v" by (metis append_Cons)
    qed
    with False Cons show ?thesis by simp
  qed
qed auto

lemma index_of_Some:
  "index_of p s = Some i \<Longrightarrow> i + length p \<le> length s \<and> s = take i s @ p @ drop (i + length p) s"
proof (induction s arbitrary: i)
  case (Cons c s)
  show ?case
  proof (cases "has_prefix (c # s) p")
    case True
    with Cons.prems obtain v where "c # s = p @ v" "i = 0" by (auto simp: has_prefix_iff)
    then show ?thesis
      by (metis add_0 append.left_neutral append_eq_conv_conj le_add1 length_append take_0)
  next
    case False
    with Cons.prems obtain j where "index_of p s = Some j" "i = Suc j" by auto
    with Cons.IH [of j] show ?thesis by simp
  qed
qed (auto split: if_splits)

text \<open>\<open>strings.ContainsAny\<close>.\<close>

lemma index_of_append:
  "(\<forall>i < length u. \<not> has_prefix (drop i (u @ p @ v)) p) \<Longrightarrow> index_of p (u @ p @ v) = Some (length u)"
proof (induction u)
  case Nil
  show ?case
  proof (cases "p @ v")
    case (Cons c s)
    then have "has_prefix (c # s) p" by (metis has_prefix_append)
    with Cons show ?thesis by simp
  qed simp
next
  case (Cons c u)
  have "\<not> has_prefix (c # u @ p @ v) p" using Cons.prems by force
  moreover have "\<forall>i < length u. \<not> has_prefix (drop i (u @ p @ v)) p"
    using Cons.prems by force
  ultimately show ?case using Cons.IH by simp
qed

lemma index_of_absent: "c \<in> set p \<Longrightarrow> c \<notin> set s \<Longrightarrow> index_of p s = None"
  by (auto simp: index_of_None)

definition contains_any :: "go_string \<Rightarrow> go_string \<Rightarrow> bool" where
  "contains_any s cs \<longleftrightarrow> list_ex (\<lambda>c. c \<in> set cs) s"

lemma contains_any_iff: "contains_any s cs \<longleftrightarrow> set s \<inter> set cs \<noteq> {}"
  by (auto simp: contains_any_def list_ex_iff)

subsection \<open>ToLower, EqualFold\<close>

definition lower_char :: "char \<Rightarrow> char" where
  "lower_char c = (if is_upper c then char_of (code_of c + 32) else c)"

definition to_lower :: "go_string \<Rightarrow> go_string" where
  "to_lower s = map lower_char s"

definition equal_fold :: "go_string \<Rightarrow> go_string \<Rightarrow> bool" where
  "equal_fold s t \<longleftrightarrow> to_lower s = to_lower t"

lemma lower_char_id: "\<not> is_upper c \<Longrightarrow> lower_char c = c"
  by (simp add: lower_char_def)

lemma code_of_lower_char:
  "code_of (lower_char c) = (if is_upper c then code_of c + 32 else code_of c)"
  by (auto simp: lower_char_def char_class_defs)

lemma lower_char_not_upper [simp]: "\<not> is_upper (lower_char c)"
  by (auto simp: char_class_defs code_of_lower_char)

lemma is_space_lower_char [simp]: "is_space (lower_char c) = is_space c"
  by (auto simp: char_class_defs code_of_lower_char)

lemma to_lower_id: "(\<forall>c \<in> set s. \<not> is_upper c) \<Longrightarrow> to_lower s = s"
  by (simp add: to_lower_def lower_char_id map_idI)

lemma to_lower_idem [simp]: "to_lower (to_lower s) = to_lower s"
  by (rule to_lower_id) (auto simp: to_lower_def)

section \<open>Package strconv\<close>

definition digit_val :: "char \<Rightarrow> int" where
  "digit_val c = int (code_of c) - 48"

definition digits_val :: "go_string \<Rightarrow> int" where
  "digits_val s = foldl (\<lambda>n c. 10 * n + digit_val c) 0 s"

definition max_int64 :: int where
  "max_int64 = 9223372036854775807"

text \<open>\<open>strconv.Atoi\<close>: an optional sign, then at least one decimal digit, within \<open>int64\<close>.\<close>

definition atoi_unsigned :: "go_string \<Rightarrow> int option" where
  "atoi_unsigned s = (if s \<noteq> [] \<and> list_all is_digit s then Some (digits_val s) else None)"

definition atoi :: "go_string \<Rightarrow> int option" where
  "atoi s =
     (case s of
        [] \<Rightarrow> None
      | c # t \<Rightarrow>
          (case (if c = CHR ''-'' then map_option uminus (atoi_unsigned t)
                 else if c = CHR ''+'' then atoi_unsigned t
                 else atoi_unsigned s) of
             None \<Rightarrow> None
           | Some n \<Rightarrow> if - max_int64 - 1 \<le> n \<and> n \<le> max_int64 then Some n else None))"

lemma digit_val_range: "is_digit c \<Longrightarrow> 0 \<le> digit_val c \<and> digit_val c \<le> 9"
  by (auto simp: digit_val_def char_class_defs)

lemma foldl_digits_nonneg:
  "list_all is_digit s \<Longrightarrow> 0 \<le> n \<Longrightarrow> 0 \<le> foldl (\<lambda>n c. 10 * n + digit_val c) n s"
proof (induction s arbitrary: n)
  case (Cons c s)
  from Cons.prems digit_val_range [of c] have "0 \<le> 10 * n + digit_val c" by simp
  with Cons show ?case by simp
qed simp

lemma digits_val_nonneg: "list_all is_digit s \<Longrightarrow> 0 \<le> digits_val s"
  by (simp add: digits_val_def foldl_digits_nonneg)

text \<open>\<open>strconv.Itoa\<close> on the natural numbers it is used with.\<close>

fun itoa_nat :: "nat \<Rightarrow> go_string" where
  "itoa_nat n =
     (if n < 10 then [char_of (48 + n)] else itoa_nat (n div 10) @ [char_of (48 + n mod 10)])"

declare itoa_nat.simps [simp del]

definition itoa :: "int \<Rightarrow> go_string" where
  "itoa i = (if i < 0 then CHR ''-'' # itoa_nat (nat (- i)) else itoa_nat (nat i))"

lemma digit_char [simp]: "(n::nat) < 10 \<Longrightarrow> is_digit (char_of (48 + n))"
  by (simp add: char_class_defs)

lemma digit_val_char [simp]: "(n::nat) < 10 \<Longrightarrow> digit_val (char_of (48 + n)) = int n"
  by (simp add: digit_val_def)

lemma itoa_nat_digits: "list_all is_digit (itoa_nat n) \<and> itoa_nat n \<noteq> []"
proof (induction n rule: itoa_nat.induct)
  case (1 n)
  then show ?case by (subst (1 2) itoa_nat.simps) auto
qed

lemma digits_val_itoa_nat: "digits_val (itoa_nat n) = int n"
proof (induction n rule: itoa_nat.induct)
  case (1 n)
  show ?case
  proof (cases "n < 10")
    case True
    then show ?thesis by (subst itoa_nat.simps) (simp add: digits_val_def)
  next
    case False
    then have "digits_val (itoa_nat n) = 10 * digits_val (itoa_nat (n div 10)) + int (n mod 10)"
      by (subst itoa_nat.simps) (simp add: digits_val_def)
    with 1 [OF False] show ?thesis by presburger
  qed
qed

lemma atoi_digits:
  "s \<noteq> [] \<Longrightarrow> list_all is_digit s \<Longrightarrow> digits_val s \<le> max_int64 \<Longrightarrow> atoi s = Some (digits_val s)"
  using digits_val_nonneg [of s]
  by (cases s) (auto simp: atoi_def atoi_unsigned_def char_class_defs max_int64_def)

lemma atoi_itoa: "0 \<le> i \<Longrightarrow> i \<le> max_int64 \<Longrightarrow> atoi (itoa i) = Some i"
  using itoa_nat_digits [of "nat i"]
  by (simp add: itoa_def atoi_digits digits_val_itoa_nat)

section \<open>Errors\<close>

text \<open>
  A function that returns only an \<open>error\<close> is modelled with result \<open>'e option\<close>, \<open>None\<close> being
  nil. \<open>first_error\<close> is a sequence of checks of which the first failure is returned, and
  \<open>check_each\<close> the loop that returns the first failing element's error.
\<close>

definition or_else :: "'e option \<Rightarrow> 'e option \<Rightarrow> 'e option" where
  "or_else a b = (case a of None \<Rightarrow> b | Some e \<Rightarrow> Some e)"

lemma or_else_None [simp]: "or_else a b = None \<longleftrightarrow> a = None \<and> b = None"
  by (simp add: or_else_def split: option.splits)

lemma or_else_simps [simp]: "or_else None b = b" "or_else (Some e) b = Some e"
  by (simp_all add: or_else_def)

definition first_error :: "'e option list \<Rightarrow> 'e option" where
  "first_error es = foldr or_else es None"

lemma first_error_None [simp]: "first_error es = None \<longleftrightarrow> (\<forall>e \<in> set es. e = None)"
  by (induction es) (auto simp: first_error_def)

definition check_each :: "('a \<Rightarrow> 'e option) \<Rightarrow> 'a list \<Rightarrow> 'e option" where
  "check_each f xs = first_error (map f xs)"

lemma check_each_None: "check_each f xs = None \<longleftrightarrow> (\<forall>x \<in> set xs. f x = None)"
  by (auto simp: check_each_def)

definition fail_if :: "bool \<Rightarrow> 'e \<Rightarrow> 'e option" where
  "fail_if b e = (if b then Some e else None)"

lemma fail_if_None [simp]: "fail_if b e = None \<longleftrightarrow> \<not> b"
  by (simp add: fail_if_def)

lemma fail_if_Some: "fail_if b e = Some x \<longleftrightarrow> b \<and> x = e"
  by (auto simp: fail_if_def)

end
