(* ===== verification/Go_Regexp.thy ===== *)
theory Go_Regexp
  imports Go_Prelude
begin

text \<open>
  The regular expressions the validators compile with \<open>regexp.MustCompile\<close>. Every pattern of
  the sources is anchored at both ends and built from ASCII character classes, so
  \<open>MatchString\<close> is membership of the whole string in the language of the expression. The
  matcher is executable, by derivatives; \<open>matches_iff\<close> ties it to the language, and
  \<open>matches_over\<close> is how a component concludes that an accepted string is made of harmless
  characters only.
\<close>

section \<open>Expressions and their language\<close>

datatype rx =
    Nothing
  | Eps
  | Cls "char \<Rightarrow> bool"
  | Cat rx rx
  | Or rx rx
  | Many rx

definition Lit :: "char \<Rightarrow> rx" where
  "Lit c = Cls (\<lambda>d. d = c)"

definition Opt :: "rx \<Rightarrow> rx" where
  "Opt r = Or Eps r"

definition Many1 :: "rx \<Rightarrow> rx" where
  "Many1 r = Cat r (Many r)"

text \<open>\<open>r{0,n}\<close> and \<open>r{1,n}\<close>.\<close>

fun UpTo :: "nat \<Rightarrow> rx \<Rightarrow> rx" where
  "UpTo 0 r = Eps"
| "UpTo (Suc n) r = Or Eps (Cat r (UpTo n r))"

inductive_set star :: "go_string set \<Rightarrow> go_string set" for A where
  star_nil: "[] \<in> star A"
| star_cons: "u \<in> A \<Longrightarrow> v \<in> star A \<Longrightarrow> u @ v \<in> star A"

primrec language :: "rx \<Rightarrow> go_string set" where
  "language Nothing = {}"
| "language Eps = {[]}"
| "language (Cls P) = {[c] | c. P c}"
| "language (Cat r q) = {u @ v | u v. u \<in> language r \<and> v \<in> language q}"
| "language (Or r q) = language r \<union> language q"
| "language (Many r) = star (language r)"

section \<open>The matcher\<close>

primrec accepts_empty :: "rx \<Rightarrow> bool" where
  "accepts_empty Nothing = False"
| "accepts_empty Eps = True"
| "accepts_empty (Cls P) = False"
| "accepts_empty (Cat r q) = (accepts_empty r \<and> accepts_empty q)"
| "accepts_empty (Or r q) = (accepts_empty r \<or> accepts_empty q)"
| "accepts_empty (Many r) = True"

primrec rx_after :: "char \<Rightarrow> rx \<Rightarrow> rx" where
  "rx_after c Nothing = Nothing"
| "rx_after c Eps = Nothing"
| "rx_after c (Cls P) = (if P c then Eps else Nothing)"
| "rx_after c (Cat r q) =
     (if accepts_empty r then Or (Cat (rx_after c r) q) (rx_after c q) else Cat (rx_after c r) q)"
| "rx_after c (Or r q) = Or (rx_after c r) (rx_after c q)"
| "rx_after c (Many r) = Cat (rx_after c r) (Many r)"

fun matches_rx :: "rx \<Rightarrow> go_string \<Rightarrow> bool" where
  "matches_rx r [] = accepts_empty r"
| "matches_rx r (c # s) = matches_rx (rx_after c r) s"

lemma accepts_empty_iff: "accepts_empty r \<longleftrightarrow> [] \<in> language r"
  by (induction r) (auto intro: star_nil)

lemma star_first_letter:
  "w \<in> star A \<Longrightarrow> w = c # s \<Longrightarrow> \<exists>u v. s = u @ v \<and> c # u \<in> A \<and> v \<in> star A"
proof (induction arbitrary: s rule: star.induct)
  case (star_cons u v)
  show ?case
  proof (cases u)
    case Nil
    with star_cons show ?thesis by simp
  next
    case (Cons d u')
    with star_cons show ?thesis by auto
  qed
qed simp

lemma after_iff: "s \<in> language (rx_after c r) \<longleftrightarrow> c # s \<in> language r"
proof (induction r arbitrary: s)
  case (Cat r q)
  have "c # s \<in> language (Cat r q) \<longleftrightarrow>
      ([] \<in> language r \<and> c # s \<in> language q) \<or>
      (\<exists>u v. s = u @ v \<and> c # u \<in> language r \<and> v \<in> language q)"
    by (auto simp: append_eq_Cons_conv Cons_eq_append_conv; metis append_Cons append_Nil)
  with Cat show ?case by (auto simp: accepts_empty_iff)
next
  case (Many r)
  have "c # s \<in> star (language r) \<longleftrightarrow>
      (\<exists>u v. s = u @ v \<and> c # u \<in> language r \<and> v \<in> star (language r))"
    using star_first_letter star_cons by (metis append_Cons)
  with Many show ?case by auto
qed auto

theorem matches_iff: "matches_rx r s \<longleftrightarrow> s \<in> language r"
  by (induction r s rule: matches_rx.induct) (simp_all add: accepts_empty_iff after_iff)

section \<open>Languages of the derived forms\<close>

lemma language_Lit [simp]: "language (Lit c) = {[c]}"
  by (simp add: Lit_def)

lemma language_Opt [simp]: "language (Opt r) = insert [] (language r)"
  by (simp add: Opt_def)

lemma in_language_Cat:
  "s \<in> language (Cat r q) \<longleftrightarrow> (\<exists>u v. s = u @ v \<and> u \<in> language r \<and> v \<in> language q)"
  by simp

lemma in_language_Many1:
  "s \<in> language (Many1 r) \<longleftrightarrow> (\<exists>u v. s = u @ v \<and> u \<in> language r \<and> v \<in> star (language r))"
  by (simp add: Many1_def)

lemma star_Cls_iff: "s \<in> star {[c] | c. P c} \<longleftrightarrow> list_all P s"
proof
  assume "s \<in> star {[c] | c. P c}"
  then show "list_all P s" by induction auto
next
  assume "list_all P s"
  then show "s \<in> star {[c] | c. P c}"
  proof (induction s)
    case Nil
    show ?case by (rule star_nil)
  next
    case (Cons c s)
    then have "[c] @ s \<in> star {[c] | c. P c}" by (intro star_cons) auto
    then show ?case by simp
  qed
qed

lemma language_Many_Cls: "s \<in> language (Many (Cls P)) \<longleftrightarrow> list_all P s"
  by (simp add: star_Cls_iff)

lemma language_Cat_Cls: "s \<in> language (Cat (Cls P) q) \<longleftrightarrow> (\<exists>c t. s = c # t \<and> P c \<and> t \<in> language q)"
  by (auto; metis append_Cons append_Nil)

lemma language_UpTo_Cls: "s \<in> language (UpTo n (Cls P)) \<longleftrightarrow> length s \<le> n \<and> list_all P s"
proof (induction n arbitrary: s)
  case 0
  then show ?case by auto
next
  case (Suc n)
  have "s \<in> language (UpTo (Suc n) (Cls P)) \<longleftrightarrow>
      s = [] \<or> (\<exists>c t. s = c # t \<and> P c \<and> t \<in> language (UpTo n (Cls P)))"
    using language_Cat_Cls [of s P "UpTo n (Cls P)"] by simp
  with Suc show ?case by (cases s) auto
qed

lemma star_words: "s \<in> star A \<longleftrightarrow> (\<exists>ws. s = concat ws \<and> (\<forall>w \<in> set ws. w \<in> A))"
proof
  assume "s \<in> star A"
  then show "\<exists>ws. s = concat ws \<and> (\<forall>w \<in> set ws. w \<in> A)"
  proof induction
    case star_nil
    show ?case by (rule exI [of _ "[]"]) simp
  next
    case (star_cons u v)
    then obtain ws where "v = concat ws" "\<forall>w \<in> set ws. w \<in> A" by blast
    with star_cons.hyps show ?case by (intro exI [of _ "u # ws"]) simp
  qed
next
  assume "\<exists>ws. s = concat ws \<and> (\<forall>w \<in> set ws. w \<in> A)"
  then obtain ws where "s = concat ws" "\<forall>w \<in> set ws. w \<in> A" by blast
  then show "s \<in> star A"
    by (induction ws arbitrary: s) (auto intro: star_nil star_cons)
qed

section \<open>What the characters of a match are\<close>

text \<open>\<open>over P r\<close>: every character class of the expression lies within \<open>P\<close>.\<close>

primrec over :: "(char \<Rightarrow> bool) \<Rightarrow> rx \<Rightarrow> bool" where
  "over P Nothing = True"
| "over P Eps = True"
| "over P (Cls Q) = (\<forall>c. Q c \<longrightarrow> P c)"
| "over P (Cat r q) = (over P r \<and> over P q)"
| "over P (Or r q) = (over P r \<and> over P q)"
| "over P (Many r) = over P r"

lemma over_Lit [simp]: "over P (Lit c) \<longleftrightarrow> P c"
  by (simp add: Lit_def)

lemma over_Opt [simp]: "over P (Opt r) \<longleftrightarrow> over P r"
  by (simp add: Opt_def)

lemma over_UpTo: "over P r \<Longrightarrow> over P (UpTo n r)"
  by (induction n) auto

lemma star_over: "s \<in> star A \<Longrightarrow> (\<forall>w \<in> A. list_all P w) \<Longrightarrow> list_all P s"
  by (induction rule: star.induct) auto

lemma language_over: "s \<in> language r \<Longrightarrow> over P r \<Longrightarrow> list_all P s"
proof (induction r arbitrary: s)
  case (Many r)
  then show ?case by (metis language.simps(6) over.simps(6) star_over)
qed fastforce+

lemma matches_over: "matches_rx r s \<Longrightarrow> over P r \<Longrightarrow> list_all P s"
  by (simp add: matches_iff language_over)

end
