(* ===== verification/Validate_Name.thy ===== *)
theory Validate_Name
  imports Go_Regexp
begin

text \<open>
  Package \<open>shared/validate\<close>: the names of hosts and accounts (\<open>validate.go\<close> and
  \<open>subdomain.go\<close>). Both the API and the Agent import this package, so a name accepted here is
  what reaches \<open>useradd\<close>, an nginx \<open>server_name\<close> and a zone file.

  Errors are the package's sentinel values, which is what callers test with \<open>errors.Is\<close>;
  the text a message adds to its sentinel is not modelled.
\<close>

section \<open>Sentinel errors of the package\<close>

datatype verr =
    ErrInvalidDomain | ErrInvalidSystemUser | ErrInvalidPath
  | ErrInvalidSubdomain
  | ErrInvalidSchedule | ErrInvalidCommand | ErrInvalidJobName | ErrInvalidJobType | ErrInvalidUUID
  | ErrInvalidFirewallRule | ErrInvalidPortSpec | ErrInvalidSource
  | ErrDirectivesTooLong | ErrDirectivesUnbalanced | ErrDirectiveForbidden
  | ErrDirectivesInvalidCharacter
  | ErrInvalidTier | ErrInvalidPlanName | ErrInvalidLimit | ErrInvalidEnforcement
  | ErrInvalidDimension | ErrInvalidSlice
  | ErrInvalidZone | ErrInvalidRecordType | ErrInvalidRecordName | ErrInvalidRecordValue
  | ErrInvalidTTL | ErrInvalidSOA | ErrInvalidNetwork

section \<open>The patterns\<close>

definition alnum :: "char \<Rightarrow> bool" where
  "alnum c \<longleftrightarrow> is_lower c \<or> is_digit c"

definition ldh :: "char \<Rightarrow> bool" where
  "ldh c \<longleftrightarrow> alnum c \<or> c = CHR ''-''"

definition labelPattern :: rx where
  "labelPattern = Cat (Cls alnum) (Opt (Cat (Many (Cls ldh)) (Cls alnum)))"

definition domainPattern :: rx where
  "domainPattern = Cat labelPattern (Many1 (Cat (Lit CHR ''.'') labelPattern))"

definition user_char :: "char \<Rightarrow> bool" where
  "user_char c \<longleftrightarrow> alnum c \<or> c = CHR ''_'' \<or> c = CHR ''-''"

definition systemUserPattern :: rx where
  "systemUserPattern =
     Cat (Cls (\<lambda>c. is_lower c \<or> c = CHR ''_'')) (UpTo 31 (Cls user_char))"

section \<open>Domain names\<close>

definition MaxDomainLength :: nat where "MaxDomainLength = 253"
definition MaxLabelLength :: nat where "MaxLabelLength = 63"

definition NormalizeDomain :: "go_string \<Rightarrow> go_string" where
  "NormalizeDomain domain = trim_suffix (to_lower (trim_space domain)) ''.''"

definition isNumeric :: "go_string \<Rightarrow> bool" where
  "isNumeric value \<longleftrightarrow> value \<noteq> [] \<and> list_all is_digit value"

definition Domain :: "go_string \<Rightarrow> verr option" where
  "Domain domain =
     (if domain = [] then Some ErrInvalidDomain
      else if length domain > MaxDomainLength then Some ErrInvalidDomain
      else or_else
        (check_each
          (\<lambda>label.
             if label = [] then Some ErrInvalidDomain
             else if length label > MaxLabelLength then Some ErrInvalidDomain
             else None)
          (split_on CHR ''.'' domain))
        (if \<not> matches_rx domainPattern domain then Some ErrInvalidDomain
         else if isNumeric (last (split_on CHR ''.'' domain)) then Some ErrInvalidDomain
         else None))"

section \<open>Account names\<close>

definition reservedUsers :: "go_string list" where
  "reservedUsers =
     [''root'', ''daemon'', ''bin'', ''sys'', ''sync'', ''games'',
      ''man'', ''lp'', ''mail'', ''news'', ''uucp'', ''proxy'',
      ''www-data'', ''backup'', ''list'', ''irc'', ''nobody'',
      ''systemd-network'', ''systemd-resolve'', ''messagebus'',
      ''sshd'', ''postgres'', ''redis'', ''nginx'', ''mysql'',
      ''jothost'', ''adm'', ''shutdown'', ''halt'', ''operator'']"

definition SystemUser :: "go_string \<Rightarrow> verr option" where
  "SystemUser name =
     (if name = [] then Some ErrInvalidSystemUser
      else if \<not> matches_rx systemUserPattern name then Some ErrInvalidSystemUser
      else if name \<in> set reservedUsers then Some ErrInvalidSystemUser
      else None)"

definition GroupName :: "go_string \<Rightarrow> verr option" where
  "GroupName name =
     (if name = [] then Some ErrInvalidSystemUser
      else if \<not> matches_rx systemUserPattern name then Some ErrInvalidSystemUser
      else None)"

text \<open>\<open>strings.NewReplacer(".", "_", "-", "_")\<close> works byte by byte. A negative slice bound
  panics: \<open>None\<close>.\<close>

definition underscore_of :: "char \<Rightarrow> char" where
  "underscore_of c = (if c = CHR ''.'' \<or> c = CHR ''-'' then CHR ''_'' else c)"

definition account_base :: "go_string \<Rightarrow> go_string" where
  "account_base domain =
     (let base = trim_left (\<lambda>c. c \<in> set ''0123456789_'') (map underscore_of (NormalizeDomain domain))
      in if base = [] then ''site'' else base)"

definition SystemUserFor :: "go_string \<Rightarrow> go_string \<Rightarrow> go_string option" where
  "SystemUserFor domain hash =
     (let name = ''web_'' @ account_base domain;
          suffix = ''_'' @ hash;
          limit = 32 - int (length suffix)
      in if int (length name) > limit
         then if limit < 0 then None else Some (take (nat limit) name @ suffix)
         else Some (name @ suffix))"

section \<open>Subdomains\<close>

definition WildcardPrefix :: go_string where "WildcardPrefix = ''*.''"

definition IsWildcard :: "go_string \<Rightarrow> bool" where
  "IsWildcard name = has_prefix name WildcardPrefix"

definition WildcardDomain :: "go_string \<Rightarrow> verr option" where
  "WildcardDomain name =
     (if \<not> IsWildcard name then Some ErrInvalidDomain
      else let base = trim_prefix name WildcardPrefix in
        if CHR ''*'' \<in> set base then Some ErrInvalidDomain
        else or_else (Domain base)
          (fail_if (length name > MaxDomainLength) ErrInvalidDomain))"

definition ServerName :: "go_string \<Rightarrow> verr option" where
  "ServerName name = (if IsWildcard name then WildcardDomain name else Domain name)"

definition Subdomain :: "go_string \<Rightarrow> go_string \<Rightarrow> verr option" where
  "Subdomain name0 parent0 =
     (let name = NormalizeDomain name0; parent = NormalizeDomain parent0 in
        or_else (Domain parent)
          (or_else (ServerName name)
            (if name = parent then Some ErrInvalidSubdomain
             else if \<not> has_suffix name (''.'' @ parent) then Some ErrInvalidSubdomain
             else if trim_suffix name (''.'' @ parent) = [] then Some ErrInvalidSubdomain
             else None)))"

definition SubdomainName :: "go_string \<Rightarrow> go_string \<Rightarrow> go_string" where
  "SubdomainName label parent =
     trim_both (\<lambda>c. c = CHR ''.'') (to_lower (trim_space label)) @ ''.'' @ NormalizeDomain parent"

section \<open>The language of the patterns\<close>

lemma alnum_ldh: "alnum c \<Longrightarrow> ldh c"
  by (simp add: ldh_def)

lemma alnum_not_literal [simp]: "\<not> alnum CHR ''.''" "\<not> alnum CHR ''-''" "\<not> ldh CHR ''.''"
  "\<not> alnum CHR ''_''" "\<not> ldh CHR ''*''"
  by (simp_all add: alnum_def ldh_def char_class_defs)

lemma ldh_harmless: "ldh c \<Longrightarrow> \<not> is_space c \<and> \<not> is_upper c \<and> \<not> is_control c \<and> c \<noteq> CHR ''.''"
  by (auto simp: alnum_def ldh_def char_class_defs)

text \<open>A label of a host name, after RFC 1035: letters, digits and dashes, no dash at either end.\<close>

definition host_label :: "go_string \<Rightarrow> bool" where
  "host_label w \<longleftrightarrow> w \<noteq> [] \<and> list_all ldh w \<and> hd w \<noteq> CHR ''-'' \<and> last w \<noteq> CHR ''-''"

lemma language_label: "w \<in> language labelPattern \<longleftrightarrow> host_label w"
proof -
  have "w \<in> language labelPattern \<longleftrightarrow>
      (\<exists>c t. w = c # t \<and> alnum c \<and> (t = [] \<or> (\<exists>u d. t = u @ [d] \<and> list_all ldh u \<and> alnum d)))"
    unfolding labelPattern_def language_Cat_Cls by (auto simp: star_Cls_iff) blast
  also have "\<dots> \<longleftrightarrow> host_label w"
  proof (cases w)
    case (Cons c t)
    then show ?thesis
      by (cases t rule: rev_cases) (auto simp: host_label_def ldh_def)
  qed (simp add: host_label_def)
  finally show ?thesis .
qed

lemma host_label_no_dot: "host_label w \<Longrightarrow> CHR ''.'' \<notin> set w"
  by (auto simp: host_label_def list_all_iff dest: ldh_harmless)

lemma concat_dot_labels:
  "ws \<noteq> [] \<Longrightarrow> concat (map ((#) CHR ''.'') ws) = ''.'' @ join ''.'' ws"
proof (induction ws)
  case (Cons w ws)
  then show ?case by (cases ws) auto
qed simp

lemma star_dot_labels:
  "s \<in> star {CHR ''.'' # w | w. host_label w} \<longleftrightarrow>
     (\<exists>ws. s = concat (map ((#) CHR ''.'') ws) \<and> (\<forall>w \<in> set ws. host_label w))"
proof
  assume "s \<in> star {CHR ''.'' # w | w. host_label w}"
  then obtain vs where vs: "s = concat vs" "\<forall>v \<in> set vs. \<exists>w. v = CHR ''.'' # w \<and> host_label w"
    by (auto simp: star_words)
  from vs(2) have "\<exists>ws. vs = map ((#) CHR ''.'') ws \<and> (\<forall>w \<in> set ws. host_label w)"
  proof (induction vs)
    case (Cons v vs)
    then obtain w ws where "v = CHR ''.'' # w" "host_label w"
      "vs = map ((#) CHR ''.'') ws" "\<forall>w \<in> set ws. host_label w"
      by auto
    then show ?case by (intro exI [of _ "w # ws"]) simp
  qed simp
  with vs show "\<exists>ws. s = concat (map ((#) CHR ''.'') ws) \<and> (\<forall>w \<in> set ws. host_label w)"
    by blast
next
  assume "\<exists>ws. s = concat (map ((#) CHR ''.'') ws) \<and> (\<forall>w \<in> set ws. host_label w)"
  then show "s \<in> star {CHR ''.'' # w | w. host_label w}"
    by (force simp: star_words)
qed

lemma language_domain:
  "s \<in> language domainPattern \<longleftrightarrow>
     (\<exists>ws. s = join ''.'' ws \<and> 2 \<le> length ws \<and> (\<forall>w \<in> set ws. host_label w))"
proof -
  have dot: "language (Cat (Lit CHR ''.'') labelPattern) = {CHR ''.'' # w | w. host_label w}"
    by (auto simp: language_label)
  have "s \<in> language domainPattern \<longleftrightarrow>
      (\<exists>w v t. s = w @ (CHR ''.'' # v) @ t \<and> host_label w \<and> host_label v \<and>
         t \<in> star {CHR ''.'' # w | w. host_label w})"
    unfolding domainPattern_def in_language_Cat [of s] in_language_Many1 dot language_label
    by blast
  also have "\<dots> \<longleftrightarrow>
      (\<exists>w v ws. s = w @ concat (map ((#) CHR ''.'') (v # ws)) \<and>
         (\<forall>x \<in> set (w # v # ws). host_label x))"
    unfolding star_dot_labels by auto
  also have "\<dots> \<longleftrightarrow>
      (\<exists>w v ws. s = join ''.'' (w # v # ws) \<and> (\<forall>x \<in> set (w # v # ws). host_label x))"
    by (simp only: concat_dot_labels join.simps list.distinct not_False_eq_True)
  also have "\<dots> \<longleftrightarrow>
      (\<exists>ws. s = join ''.'' ws \<and> 2 \<le> length ws \<and> (\<forall>w \<in> set ws. host_label w))"
    unfolding two_le_length by blast
  finally show ?thesis .
qed

lemma matches_domain:
  "matches_rx domainPattern s \<longleftrightarrow>
     2 \<le> length (split_on CHR ''.'' s) \<and> (\<forall>w \<in> set (split_on CHR ''.'' s). host_label w)"
proof -
  have "split_on CHR ''.'' (join ''.'' ws) = ws"
    if "2 \<le> length ws" "\<forall>w \<in> set ws. host_label w" for ws
    using that by (intro split_on_join) (auto dest: host_label_no_dot)
  then show ?thesis
    unfolding matches_iff language_domain by (metis join_split_on)
qed

lemma matches_user:
  "matches_rx systemUserPattern s \<longleftrightarrow>
     s \<noteq> [] \<and> length s \<le> 32 \<and> (is_lower (hd s) \<or> hd s = CHR ''_'') \<and> list_all user_char (tl s)"
  unfolding matches_iff systemUserPattern_def language_Cat_Cls language_UpTo_Cls
  by (cases s) auto

section \<open>What an accepted name looks like\<close>

lemma Domain_iff:
  "Domain d = None \<longleftrightarrow>
     length d \<le> 253 \<and> 2 \<le> length (split_on CHR ''.'' d) \<and>
     (\<forall>w \<in> set (split_on CHR ''.'' d). host_label w \<and> length w \<le> 63) \<and>
     \<not> isNumeric (last (split_on CHR ''.'' d))"
  by (auto simp: Domain_def check_each_None matches_domain MaxDomainLength_def MaxLabelLength_def
      host_label_def split: if_splits)

lemma Domain_chars:
  assumes "Domain d = None" and "c \<in> set d"
  shows "ldh c \<or> c = CHR ''.''"
proof -
  let ?ws = "split_on CHR ''.'' d"
  from assms(1) have "\<forall>w \<in> set ?ws. host_label w" by (simp add: Domain_iff)
  moreover have "set d \<subseteq> {CHR ''.''} \<union> (\<Union>w \<in> set ?ws. set w)"
    using set_join [of "''.''" ?ws] by simp
  ultimately show ?thesis using assms(2) by (fastforce simp: host_label_def list_all_iff)
qed

lemma Domain_not_Nil: "Domain d = None \<Longrightarrow> d \<noteq> []"
  by (auto simp: Domain_def)

lemma Domain_no_trailing_dot: "Domain d = None \<Longrightarrow> \<not> has_suffix d ''.''"
proof
  assume ok: "Domain d = None" and "has_suffix d ''.''"
  then obtain t where "d = t @ [CHR ''.'']" by (auto simp: has_suffix_iff)
  then have "split_on CHR ''.'' d = split_on CHR ''.'' t @ [[]]"
    by (simp add: split_on_append_sep)
  with ok show False by (simp add: Domain_iff host_label_def)
qed

lemma NormalizeDomain_fixed: "Domain d = None \<Longrightarrow> NormalizeDomain d = d"
proof -
  assume ok: "Domain d = None"
  then have "\<forall>c \<in> set d. \<not> is_space c \<and> \<not> is_upper c"
    by (auto dest!: Domain_chars ldh_harmless simp: char_class_defs)
  then have "to_lower (trim_space d) = d" by (simp add: trim_space_id to_lower_id)
  with ok show ?thesis
    by (simp add: NormalizeDomain_def trim_suffix_def Domain_no_trailing_dot)
qed

section \<open>Accounts\<close>

lemma user_char_underscore_of: "ldh c \<or> c = CHR ''.'' \<Longrightarrow> user_char (underscore_of c)"
  by (auto simp: user_char_def underscore_of_def ldh_def)

lemma reservedUsers_no_web: "name \<in> set reservedUsers \<Longrightarrow> take 4 name \<noteq> ''web_''"
  by (auto simp: reservedUsers_def)

lemma SystemUser_web:
  assumes "list_all user_char s" and "length s \<le> 28"
  shows "SystemUser (''web_'' @ s) = None"
proof -
  have "matches_rx systemUserPattern (''web_'' @ s)"
    unfolding matches_user using assms
    by (simp add: user_char_def alnum_def char_class_defs)
  moreover have "''web_'' @ s \<notin> set reservedUsers"
    using reservedUsers_no_web [of "''web_'' @ s"] by auto
  ultimately show ?thesis by (simp only: SystemUser_def) simp
qed

lemma account_base_chars:
  assumes "Domain d = None"
  shows "list_all user_char (account_base d)"
proof -
  have "\<forall>c \<in> set (map underscore_of d). user_char c"
    using assms Domain_chars user_char_underscore_of by auto
  then have "list_all user_char (trim_left P (map underscore_of (NormalizeDomain d)))" for P
    using set_trim_left [of P "map underscore_of d"] assms
    by (auto simp: list_all_iff NormalizeDomain_fixed)
  then show ?thesis
    by (simp add: account_base_def Let_def user_char_def alnum_def char_class_defs)
qed

lemma take_web: "take (k + 4) (''web_'' @ b) = ''web_'' @ take k b"
  by (simp add: numeral_eq_Suc)

lemma SystemUserFor_eq:
  assumes "length h \<le> 27"
  shows "SystemUserFor d h = Some (''web_'' @ take (27 - length h) (account_base d) @ ''_'' @ h)"
proof -
  have "nat (32 - int (length (''_'' @ h))) = (27 - length h) + 4" using assms by simp
  with assms show ?thesis
    unfolding SystemUserFor_def Let_def by (simp add: take_web del: append_Cons)
qed

section \<open>Subdomains\<close>

lemma IsWildcard_not_Domain: "Domain n = None \<Longrightarrow> \<not> IsWildcard n"
  using Domain_chars [of n "CHR ''*''"]
  by (auto simp: IsWildcard_def WildcardPrefix_def has_prefix_iff)

lemma WildcardDomain_labels:
  assumes "WildcardDomain n = None"
  obtains b where "n = ''*.'' @ b" and "Domain b = None"
proof -
  from assms obtain b where "n = ''*.'' @ b"
    by (auto simp: WildcardDomain_def IsWildcard_def WildcardPrefix_def has_prefix_iff
        split: if_splits)
  with assms show thesis
    by (intro that [of b])
       (simp_all add: WildcardDomain_def IsWildcard_def WildcardPrefix_def has_prefix_def
         trim_prefix_def Let_def split: if_splits)
qed

lemma ServerName_labels:
  assumes "ServerName n = None"
  shows "\<forall>w \<in> set (tl (split_on CHR ''.'' n)). host_label w"
    and "host_label (hd (split_on CHR ''.'' n)) \<or> hd (split_on CHR ''.'' n) = ''*''"
proof -
  have labels: "\<forall>w \<in> set (split_on CHR ''.'' d). host_label w" if "Domain d = None" for d
    using that by (simp add: Domain_iff)
  have "(\<forall>w \<in> set (tl (split_on CHR ''.'' n)). host_label w) \<and>
    (host_label (hd (split_on CHR ''.'' n)) \<or> hd (split_on CHR ''.'' n) = ''*'')"
  proof (cases "IsWildcard n")
    case True
    with assms obtain b where "n = ''*.'' @ b" "Domain b = None"
      by (auto simp: ServerName_def elim: WildcardDomain_labels)
    with labels [of b] show ?thesis by simp
  next
    case False
    with assms labels [of n] show ?thesis
      by (metis ServerName_def list.set_sel split_on_not_Nil)
  qed
  then show "\<forall>w \<in> set (tl (split_on CHR ''.'' n)). host_label w"
    and "host_label (hd (split_on CHR ''.'' n)) \<or> hd (split_on CHR ''.'' n) = ''*''" by auto
qed

lemma trim_dot_labels:
  assumes "\<forall>w \<in> set (split_on CHR ''.'' l). host_label w \<and> length w \<le> 63"
  shows "trim_both (\<lambda>c. c = CHR ''.'') l = l"
proof -
  have "l = [] \<or> hd l \<noteq> CHR ''.''"
    using assms by (cases l) (auto simp: host_label_def)
  moreover have "l = [] \<or> last l \<noteq> CHR ''.''"
    using assms by (cases l rule: rev_cases) (auto simp: host_label_def split_on_append_sep)
  ultimately show ?thesis by (rule trim_both_ends)
qed

lemma Suc_length_neq: "l @ CHR ''.'' # p \<noteq> p" "p \<noteq> l @ CHR ''.'' # p"
  by (auto dest: arg_cong [where f = length])

lemma NormalizeDomain_joined:
  assumes "\<forall>c \<in> set l. ldh c \<or> c = CHR ''.''" and "Domain p = None"
  shows "NormalizeDomain (l @ ''.'' @ p) = l @ ''.'' @ p"
proof -
  have "\<forall>c \<in> set (l @ ''.'' @ p). \<not> is_space c \<and> \<not> is_upper c"
    using assms Domain_chars [OF assms(2)] ldh_harmless by (fastforce simp: char_class_defs)
  then have "to_lower (trim_space (l @ ''.'' @ p)) = l @ ''.'' @ p"
    by (simp add: trim_space_id to_lower_id)
  moreover from assms(2) have "\<not> has_suffix (l @ ''.'' @ p) ''.''"
    using Domain_no_trailing_dot [OF assms(2)] Domain_not_Nil [OF assms(2)]
    by (cases p rule: rev_cases) (auto simp: has_suffix_iff)
  ultimately show ?thesis by (simp add: NormalizeDomain_def trim_suffix_def)
qed

section \<open>Properties\<close>

text \<open>
  C39: \<open>Domain\<close> accepts exactly the names of at most 253 bytes with at least two labels, each
  of 1 to 63 letters, digits and inner dashes, whose last label is not all digits: the loop over
  the labels, the regular expression and the final check together decide that specification,
  and an accepted name is its own normal form.
\<close>

theorem Domain_accepts_exactly:
  "Domain d = None \<longleftrightarrow>
     NormalizeDomain d = d \<and> length d \<le> 253 \<and> 2 \<le> length (split_on CHR ''.'' d) \<and>
     (\<forall>w \<in> set (split_on CHR ''.'' d). host_label w \<and> length w \<le> 63) \<and>
     \<not> isNumeric (last (split_on CHR ''.'' d))"
  using NormalizeDomain_fixed [of d] unfolding Domain_iff by blast

theorem Domain_accepts_exactly_witness:
  "Domain ''a-1.example.com'' = None \<and> Domain ''10.0.0.1'' \<noteq> None"
  using Domain_accepts_exactly [of "''a-1.example.com''"]
    Domain_accepts_exactly [of "''10.0.0.1''"]
  by (simp add: host_label_def ldh_def alnum_def char_class_defs isNumeric_def
      NormalizeDomain_fixed [unfolded Domain_iff])

text \<open>
  C36: The account name derived from an accepted domain and a suffix of at most 27 account
  characters (the caller's is six hexadecimal digits) never panics, is always an account the
  panel may create (within the 32 characters of \<open>useradd\<close>, never one of the reserved accounts),
  and keeps the whole suffix, which is what keeps two sites apart after truncation.
\<close>

theorem SystemUserFor_creates_valid_account:
  assumes "Domain d = None" and "list_all user_char h" and "length h \<le> 27"
  shows "\<exists>name. SystemUserFor d h = Some name \<and> SystemUser name = None \<and>
    length name \<le> 32 \<and> has_suffix name (''_'' @ h)"
proof (intro exI conjI)
  let ?b = "take (27 - length h) (account_base d)"
  show "SystemUserFor d h = Some (''web_'' @ ?b @ ''_'' @ h)" by (rule SystemUserFor_eq) fact
  have "list_all user_char (?b @ ''_'' @ h)"
    using account_base_chars [OF assms(1)] assms(2)
    by (auto simp: list_all_iff user_char_def dest: in_set_takeD)
  with assms(3) show "SystemUser (''web_'' @ ?b @ ''_'' @ h) = None"
    by (intro SystemUser_web) auto
  show "has_suffix (''web_'' @ ?b @ ''_'' @ h) (''_'' @ h)"
    by (metis append_assoc has_suffix_append)
qed (use assms(3) in auto)

theorem SystemUserFor_creates_valid_account_witness:
  "SystemUserFor ''9-averylongname.example.co.uk'' ''a1b2c3'' = Some ''web_averylongname_example_a1b2c3'' \<and>
   (\<exists>name. SystemUserFor ''9-averylongname.example.co.uk'' ''a1b2c3'' = Some name \<and>
      SystemUser name = None \<and> length name \<le> 32 \<and> has_suffix name (''_'' @ ''a1b2c3''))"
proof -
  have "Domain ''9-averylongname.example.co.uk'' = None" by code_simp
  moreover have "list_all user_char ''a1b2c3''" "length ''a1b2c3'' \<le> 27" by code_simp+
  moreover have "SystemUserFor ''9-averylongname.example.co.uk'' ''a1b2c3'' =
    Some ''web_averylongname_example_a1b2c3''" by code_simp
  ultimately show ?thesis using SystemUserFor_creates_valid_account by blast
qed

text \<open>
  C30: A name \<open>Subdomain\<close> accepts really lies under its parent: after normalisation its labels
  are the parent's labels preceded by at least one label of its own, each a host label except
  that the first may be the wildcard. No name outside the parent's domain is accepted.
\<close>

theorem Subdomain_lies_under_parent:
  assumes "Subdomain name parent = None"
  shows "\<exists>own. own \<noteq> [] \<and>
    split_on CHR ''.'' (NormalizeDomain name) = own @ split_on CHR ''.'' (NormalizeDomain parent) \<and>
    (\<forall>w \<in> set (tl own). host_label w) \<and> (host_label (hd own) \<or> hd own = ''*'')"
proof -
  let ?n = "NormalizeDomain name" and ?p = "NormalizeDomain parent"
  from assms have server: "ServerName ?n = None" and "has_suffix ?n (''.'' @ ?p)"
    by (auto simp: Subdomain_def Let_def split: if_splits)
  then obtain pre where pre: "?n = pre @ CHR ''.'' # ?p" by (auto simp: has_suffix_iff)
  then have "split_on CHR ''.'' ?n = split_on CHR ''.'' pre @ split_on CHR ''.'' ?p"
    by (simp add: split_on_append_sep)
  with ServerName_labels [OF server] show ?thesis
    by (intro exI [of _ "split_on CHR ''.'' pre"]) (auto simp: tl_append2 hd_append2)
qed

theorem Subdomain_lies_under_parent_witness:
  "Subdomain '' *.Dev.Example.com.'' ''example.com'' = None \<and>
   (\<exists>own. own \<noteq> [] \<and>
      split_on CHR ''.'' (NormalizeDomain '' *.Dev.Example.com.'') =
        own @ split_on CHR ''.'' (NormalizeDomain ''example.com'') \<and>
      (\<forall>w \<in> set (tl own). host_label w) \<and> (host_label (hd own) \<or> hd own = ''*''))"
proof -
  have "Subdomain '' *.Dev.Example.com.'' ''example.com'' = None" by code_simp
  then show ?thesis using Subdomain_lies_under_parent by blast
qed

text \<open>
  C31: The name \<open>SubdomainName\<close> builds from labels an operator typed is accepted by
  \<open>Subdomain\<close> under the same parent, as long as the whole still fits a domain name: the form
  and the check agree.
\<close>

theorem SubdomainName_accepted:
  assumes "Domain parent = None"
    and "\<forall>w \<in> set (split_on CHR ''.'' label). host_label w \<and> length w \<le> 63"
    and "length label + 1 + length parent \<le> 253"
  shows "Subdomain (SubdomainName label parent) parent = None"
proof -
  have chars: "\<forall>c \<in> set label. ldh c \<or> c = CHR ''.''"
    using set_join [of "''.''" "split_on CHR ''.'' label"] assms(2)
    by (fastforce simp: host_label_def list_all_iff)
  have ends: "trim_both (\<lambda>c. c = CHR ''.'') label = label"
    using assms(2) by (rule trim_dot_labels)
  from assms(2) have "label \<noteq> []" by (auto simp: host_label_def)
  have "to_lower (trim_space label) = label"
    using chars ldh_harmless by (intro trans [OF to_lower_id] trim_space_id)
      (fastforce simp: char_class_defs dest: subsetD [OF set_trim_space])+
  with ends assms(1) have name: "SubdomainName label parent = label @ ''.'' @ parent"
    by (simp add: SubdomainName_def NormalizeDomain_fixed)
  have "split_on CHR ''.'' (label @ ''.'' @ parent) =
      split_on CHR ''.'' label @ split_on CHR ''.'' parent"
    by (simp add: split_on_append_sep)
  then have "Domain (label @ ''.'' @ parent) = None"
    using assms by (auto simp: Domain_iff)
  then show ?thesis
    using assms(1) NormalizeDomain_joined [OF chars assms(1)] \<open>label \<noteq> []\<close>
    by (simp add: Subdomain_def Let_def name NormalizeDomain_fixed ServerName_def
        IsWildcard_not_Domain Suc_length_neq)
qed

theorem SubdomainName_accepted_witness:
  "Subdomain (SubdomainName ''dev.shop'' ''example.com'') ''example.com'' = None"
  by (rule SubdomainName_accepted) code_simp+

end
