(* ===== verification/Go_Time.thy ===== *)
theory Go_Time
  imports Go_Prelude
begin

text \<open>
  What the sources use of Go's package \<open>time\<close>, in UTC: an instant is the number of seconds
  since 1970-01-01 00:00:00 (fractions of a second play no part in what is modelled, since
  the code truncates to minutes), a civil date is computed from it in the proleptic Gregorian
  calendar, as \<open>time.Time\<close> does.
\<close>

type_synonym instant = int

record civil =
  cyear :: int
  cmonth :: int
  cday :: int

text \<open>Days since the epoch to a date, by cycles of 400, 100, 4 and 1 years that start on 1 March,
  and back.\<close>

definition march_year_day :: "int \<Rightarrow> int \<times> int" where
  "march_year_day z =
     (let r400 = z mod 146097;
          n100 = min 3 (r400 div 36524);
          r100 = r400 - 36524 * n100;
          r4 = r100 mod 1461;
          n1 = min 3 (r4 div 365)
      in (400 * (z div 146097) + 100 * n100 + 4 * (r100 div 1461) + n1, r4 - 365 * n1))"

definition civil_of_days :: "int \<Rightarrow> civil" where
  "civil_of_days days =
     (let (y, doy) = march_year_day (days + 719468);
          mp = (5 * doy + 2) div 153;
          d = doy - (153 * mp + 2) div 5 + 1;
          m = (if mp < 10 then mp + 3 else mp - 9)
      in \<lparr>cyear = (if m \<le> 2 then y + 1 else y), cmonth = m, cday = d\<rparr>)"

definition days_of_civil :: "int \<Rightarrow> int \<Rightarrow> int \<Rightarrow> int" where
  "days_of_civil y m d =
     (let y' = (if m \<le> 2 then y - 1 else y);
          era = y' div 400;
          yoe = y' mod 400;
          doy = (153 * (if m > 2 then m - 3 else m + 9) + 2) div 5 + d - 1;
          doe = yoe * 365 + yoe div 4 - yoe div 100 + doy
      in era * 146097 + doe - 719468)"

definition minute_of :: "instant \<Rightarrow> int" where
  "minute_of t = t div 60 mod 60"

definition hour_of :: "instant \<Rightarrow> int" where
  "hour_of t = t div 3600 mod 24"

definition date_of :: "instant \<Rightarrow> civil" where
  "date_of t = civil_of_days (t div 86400)"

text \<open>\<open>time.Weekday\<close>: Sunday is 0, and 1 January 1970 was a Thursday.\<close>

definition weekday_of :: "instant \<Rightarrow> int" where
  "weekday_of t = (t div 86400 + 4) mod 7"

text \<open>\<open>t.AddDate(n, 0, 0)\<close>: the same month, day and time of day in another year, a day the
  month does not have running over into the next month.\<close>

definition add_years :: "int \<Rightarrow> instant \<Rightarrow> instant" where
  "add_years n t =
     (let c = date_of t
      in 86400 * days_of_civil (cyear c + n) (cmonth c) (cday c) + t mod 86400)"

definition truncate_minute :: "instant \<Rightarrow> instant" where
  "truncate_minute t = 60 * (t div 60)"

lemma truncate_minute_bounds: "truncate_minute t \<le> t" "t < truncate_minute t + 60"
  by (simp_all add: truncate_minute_def)

lemma field_ranges:
  "0 \<le> minute_of t" "minute_of t < 60" "0 \<le> hour_of t" "hour_of t < 24"
  "0 \<le> weekday_of t" "weekday_of t < 7"
  by (simp_all add: minute_of_def hour_of_def weekday_of_def)

text \<open>The month and the day that a civil date can have.\<close>

lemma day_of_year_range:
  fixes r :: int
  assumes "0 \<le> r" "r < 1461"
  shows "0 \<le> r - 365 * min 3 (r div 365)" "r - 365 * min 3 (r div 365) < 366"
proof -
  have "365 * (r div 365) \<le> r" "r < 365 * (r div 365) + 365" by simp_all
  with assms show "0 \<le> r - 365 * min 3 (r div 365)" "r - 365 * min 3 (r div 365) < 366"
    by (auto simp: min_def)
qed

lemma month_of_day:
  fixes doy :: int
  assumes "0 \<le> doy" "doy < 366"
  defines "mp \<equiv> (5 * doy + 2) div 153"
  shows "0 \<le> mp" "mp \<le> 11" "1 \<le> doy - (153 * mp + 2) div 5 + 1"
    "doy - (153 * mp + 2) div 5 + 1 \<le> 31"
proof -
  have mp: "153 * mp \<le> 5 * doy + 2" "5 * doy + 2 < 153 * mp + 153" by (simp_all add: mp_def)
  then show "0 \<le> mp" "mp \<le> 11" using assms by linarith+
  have "5 * ((153 * mp + 2) div 5) \<le> 153 * mp + 2" "153 * mp + 2 < 5 * ((153 * mp + 2) div 5) + 5"
    by simp_all
  with mp show "1 \<le> doy - (153 * mp + 2) div 5 + 1" "doy - (153 * mp + 2) div 5 + 1 \<le> 31"
    by linarith+
qed

lemma march_year_day_range:
  assumes "march_year_day z = (y, doy)"
  shows "0 \<le> doy" "doy < 366"
proof -
  define r where "r = (z mod 146097 - 36524 * min 3 (z mod 146097 div 36524)) mod 1461"
  have "0 \<le> r" "r < 1461" unfolding r_def by (rule pos_mod_sign pos_mod_bound, simp)+
  moreover have "doy = r - 365 * min 3 (r div 365)"
    using assms unfolding march_year_day_def Let_def r_def prod.inject by (elim conjE) (rule sym)
  ultimately show "0 \<le> doy" "doy < 366" using day_of_year_range by simp_all
qed

lemma civil_range:
  "1 \<le> cmonth (civil_of_days d) \<and> cmonth (civil_of_days d) \<le> 12 \<and>
   1 \<le> cday (civil_of_days d) \<and> cday (civil_of_days d) \<le> 31"
proof -
  obtain y doy where yd: "march_year_day (d + 719468) = (y, doy)" by fastforce
  from month_of_day [OF march_year_day_range [OF yd]] show ?thesis by (simp add: civil_of_days_def yd Let_def)
qed

section \<open>RFC 3339\<close>

text \<open>\<open>t.UTC().Format(time.RFC3339)\<close>, and the fact its users need: it is made of digits and
  of the characters \<open>-\<close>, \<open>:\<close>, \<open>T\<close> and \<open>Z\<close>.\<close>

definition pad_left :: "nat \<Rightarrow> go_string \<Rightarrow> go_string" where
  "pad_left n s = replicate (n - length s) CHR ''0'' @ s"

definition second_of :: "instant \<Rightarrow> int" where
  "second_of t = t mod 60"

definition rfc3339 :: "instant \<Rightarrow> go_string" where
  "rfc3339 t =
     (let c = date_of t; two = (\<lambda>n. pad_left 2 (itoa n))
      in pad_left 4 (itoa (cyear c)) @ ''-'' @ two (cmonth c) @ ''-'' @ two (cday c) @ ''T'' @
         two (hour_of t) @ '':'' @ two (minute_of t) @ '':'' @ two (second_of t) @ ''Z'')"

lemma set_itoa: "c \<in> set (itoa n) \<Longrightarrow> is_digit c \<or> c = CHR ''-''"
  using itoa_nat_digits by (auto simp: itoa_def list_all_iff split: if_splits)

lemma set_pad_itoa: "c \<in> set (pad_left k (itoa n)) \<Longrightarrow> is_digit c \<or> c = CHR ''-''"
  by (auto simp: pad_left_def char_class_defs dest: set_itoa)

lemma rfc3339_chars: "c \<in> set (rfc3339 t) \<Longrightarrow> is_digit c \<or> c \<in> {CHR ''-'', CHR '':'', CHR ''T'', CHR ''Z''}"
  unfolding rfc3339_def Let_def set_append by (auto dest!: set_pad_itoa)

lemma rfc3339_no_newline: "newline \<notin> set (rfc3339 t)"
  using rfc3339_chars [of newline t] by (auto simp: char_class_defs)

end
