(* ===== verification/Validate_Cron.thy ===== *)
theory Validate_Cron
  imports Validate_Name Go_Time
begin

text \<open>
  Package \<open>shared/validate\<close>, \<open>cron.go\<close>: schedules, commands and names of scheduled jobs, and
  the search for a schedule's next run. A crontab is a line oriented format without quoting, so
  what matters of an accepted value is that it stays one line, and what matters of an accepted
  schedule is that it means something.
\<close>

section \<open>Identifiers, names, commands\<close>

definition is_hex :: "char \<Rightarrow> bool" where
  "is_hex c \<longleftrightarrow> is_digit c \<or> in_range CHR ''a'' CHR ''f'' c \<or> in_range CHR ''A'' CHR ''F'' c"

definition UUID :: "go_string \<Rightarrow> verr option" where
  "UUID value =
     (if length value \<noteq> 36 then Some ErrInvalidUUID
      else check_each
        (\<lambda>(i, r).
           if i \<in> {8, 13, 18, 23} then fail_if (r \<noteq> CHR ''-'') ErrInvalidUUID
           else fail_if (\<not> is_hex r) ErrInvalidUUID)
        (enumerate 0 value))"

definition JobType :: "go_string \<Rightarrow> verr option" where
  "JobType value =
     (if value \<in> {''php'', ''url'', ''command''} then None else Some ErrInvalidJobType)"

definition MaxCommandLength :: nat where "MaxCommandLength = 500"
definition MaxJobNameLength :: nat where "MaxJobNameLength = 60"
definition MaxScheduleLength :: nat where "MaxScheduleLength = 100"

definition JobName :: "go_string \<Rightarrow> verr option" where
  "JobName name =
     (let trimmed = trim_space name in
        if trimmed = [] then Some ErrInvalidJobName
        else if length trimmed > MaxJobNameLength then Some ErrInvalidJobName
        else if contains_any trimmed [newline, carriage_return, null_byte]
        then Some ErrInvalidJobName
        else None)"

definition Command :: "go_string \<Rightarrow> verr option" where
  "Command command =
     (let trimmed = trim_space command in
        if trimmed = [] then Some ErrInvalidCommand
        else if length trimmed > MaxCommandLength then Some ErrInvalidCommand
        else if contains_any trimmed [newline, carriage_return] then Some ErrInvalidCommand
        else if null_byte \<in> set trimmed then Some ErrInvalidCommand
        else if CHR ''%'' \<in> set trimmed then Some ErrInvalidCommand
        else None)"

section \<open>Fields of a cron expression\<close>

record cron_field =
  fmin :: int
  fmax :: int
  fnames :: "(go_string \<times> int) list"

definition cronFields :: "cron_field list" where
  "cronFields =
     [\<lparr>fmin = 0, fmax = 59, fnames = []\<rparr>,
      \<lparr>fmin = 0, fmax = 23, fnames = []\<rparr>,
      \<lparr>fmin = 1, fmax = 31, fnames = []\<rparr>,
      \<lparr>fmin = 1, fmax = 12, fnames =
         [(''jan'', 1), (''feb'', 2), (''mar'', 3), (''apr'', 4), (''may'', 5), (''jun'', 6),
          (''jul'', 7), (''aug'', 8), (''sep'', 9), (''oct'', 10), (''nov'', 11), (''dec'', 12)]\<rparr>,
      \<lparr>fmin = 0, fmax = 7, fnames =
         [(''sun'', 0), (''mon'', 1), (''tue'', 2), (''wed'', 3), (''thu'', 4), (''fri'', 5),
          (''sat'', 6)]\<rparr>]"

definition shorthands :: "(go_string \<times> go_string) list" where
  "shorthands =
     [(''@yearly'', ''0 0 1 1 *''), (''@annually'', ''0 0 1 1 *''), (''@monthly'', ''0 0 1 * *''),
      (''@weekly'', ''0 0 * * 0''), (''@daily'', ''0 0 * * *''), (''@midnight'', ''0 0 * * *''),
      (''@hourly'', ''0 * * * *'')]"

datatype field_error =
    FieldEmpty | NotAStep | StepTooLarge | NotANumber | OutsideField | EndsBeforeStart

definition resolve :: "go_string \<Rightarrow> cron_field \<Rightarrow> int option" where
  "resolve value f =
     (case map_of (fnames f) (to_lower value) of
        Some number \<Rightarrow> Some number
      | None \<Rightarrow>
          (case atoi value of
             None \<Rightarrow> None
           | Some number \<Rightarrow> if number < fmin f \<or> number > fmax f then None else Some number))"

definition fieldValue :: "go_string \<Rightarrow> cron_field \<Rightarrow> field_error option" where
  "fieldValue value f =
     (if value = [] then Some FieldEmpty
      else if map_of (fnames f) (to_lower value) \<noteq> None then None
      else (case atoi value of
              None \<Rightarrow> Some NotANumber
            | Some number \<Rightarrow> fail_if (number < fmin f \<or> number > fmax f) OutsideField))"

definition checkStep :: "go_string \<Rightarrow> cron_field \<Rightarrow> field_error option" where
  "checkStep step f =
     (case atoi step of
        None \<Rightarrow> Some NotAStep
      | Some value \<Rightarrow>
          if value < 1 then Some NotAStep
          else if value > fmax f then Some StepTooLarge else None)"

definition checkRange :: "go_string \<Rightarrow> cron_field \<Rightarrow> field_error option" where
  "checkRange part f =
     (let (body, step, hasStep) = cut CHR ''/'' part in
        or_else (if hasStep then checkStep step f else None)
          (if body = ''*'' then None
           else let (from, to, isRange) = cut CHR ''-'' body in
             or_else (fieldValue from f)
               (if \<not> isRange then None
                else or_else (fieldValue to f)
                  (let start = (case resolve from f of None \<Rightarrow> 0 | Some n \<Rightarrow> n);
                       end = (case resolve to f of None \<Rightarrow> 0 | Some n \<Rightarrow> n)
                   in fail_if (end < start) EndsBeforeStart))))"

definition checkField :: "go_string \<Rightarrow> cron_field \<Rightarrow> field_error option" where
  "checkField value f =
     (if value = [] then Some FieldEmpty
      else check_each (\<lambda>part. checkRange part f) (split_on CHR '','' value))"

section \<open>Schedules\<close>

definition Schedule :: "go_string \<Rightarrow> verr + go_string" where
  "Schedule expression =
     (let trimmed = trim_space expression in
        if trimmed = [] then Inl ErrInvalidSchedule
        else if length trimmed > MaxScheduleLength then Inl ErrInvalidSchedule
        else if contains_any trimmed [newline, carriage_return, null_byte, CHR ''%'']
        then Inl ErrInvalidSchedule
        else if has_prefix trimmed ''@'' then
          (case map_of shorthands (to_lower trimmed) of
             None \<Rightarrow> Inl ErrInvalidSchedule
           | Some expanded \<Rightarrow> Inr expanded)
        else let fs = go_fields trimmed in
          if length fs \<noteq> 5 then Inl ErrInvalidSchedule
          else (case check_each (\<lambda>(f, c). checkField f c) (zip fs cronFields) of
                  Some e \<Rightarrow> Inl ErrInvalidSchedule
                | None \<Rightarrow> Inr (join '' '' fs)))"

section \<open>Matching a time against a schedule\<close>

definition range_step :: "go_string \<Rightarrow> bool \<Rightarrow> int option" where
  "range_step stepText hasStep =
     (if hasStep
      then (case atoi stepText of
              None \<Rightarrow> None
            | Some parsed \<Rightarrow> if parsed < 1 then None else Some parsed)
      else Some 1)"

definition range_bounds :: "go_string \<Rightarrow> cron_field \<Rightarrow> (int \<times> int) option" where
  "range_bounds body f =
     (if body = ''*'' then Some (fmin f, fmax f)
      else let (from, to, isRange) = cut CHR ''-'' body in
        (case resolve from f of
           None \<Rightarrow> None
         | Some start \<Rightarrow>
             if isRange then map_option (Pair start) (resolve to f)
             else Some (start, start)))"

definition rangeMatches :: "go_string \<Rightarrow> int \<Rightarrow> cron_field \<Rightarrow> bool" where
  "rangeMatches part actual f =
     (let (body, stepText, hasStep) = cut CHR ''/'' part in
        (case (range_step stepText hasStep, range_bounds body f) of
           (Some step, Some (start, end)) \<Rightarrow>
             \<not> (actual < start \<or> actual > end) \<and> (actual - start) mod step = 0
         | _ \<Rightarrow> False))"

definition fieldMatches :: "go_string \<Rightarrow> int \<Rightarrow> cron_field \<Rightarrow> bool" where
  "fieldMatches value actual f \<longleftrightarrow>
     list_ex (\<lambda>part. rangeMatches part actual f) (split_on CHR '','' value)"

definition weekdayMatches :: "go_string \<Rightarrow> int \<Rightarrow> bool" where
  "weekdayMatches value day \<longleftrightarrow>
     fieldMatches value day (cronFields ! 4) \<or>
     (day = 0 \<and> fieldMatches value 7 (cronFields ! 4))"

definition isUnrestricted :: "go_string \<Rightarrow> bool" where
  "isUnrestricted value \<longleftrightarrow> value = ''*'' \<or> has_prefix value ''*/1''"

definition matches :: "instant \<Rightarrow> go_string list \<Rightarrow> bool" where
  "matches at fs =
     (if \<not> fieldMatches (fs ! 0) (minute_of at) (cronFields ! 0) \<or>
         \<not> fieldMatches (fs ! 1) (hour_of at) (cronFields ! 1) \<or>
         \<not> fieldMatches (fs ! 3) (cmonth (date_of at)) (cronFields ! 3)
      then False
      else
        let domRestricted = \<not> isUnrestricted (fs ! 2);
            dowRestricted = \<not> isUnrestricted (fs ! 4);
            dom = fieldMatches (fs ! 2) (cday (date_of at)) (cronFields ! 2);
            dow = weekdayMatches (fs ! 4) (weekday_of at)
        in if domRestricted \<and> dowRestricted then dom \<or> dow
           else if domRestricted then dom
           else if dowRestricted then dow
           else True)"

text \<open>The loop of \<open>NextRun\<close>, minute by minute up to a limit.\<close>

function search_from :: "(instant \<Rightarrow> bool) \<Rightarrow> instant \<Rightarrow> instant \<Rightarrow> instant option" where
  "search_from p candidate limit =
     (if candidate < limit
      then if p candidate then Some candidate else search_from p (candidate + 60) limit
      else None)"
  by pat_completeness auto
termination
  by (relation "measure (\<lambda>(p, candidate, limit). nat (limit - candidate))") auto

declare search_from.simps [simp del]

definition NextRun :: "go_string \<Rightarrow> instant \<Rightarrow> instant option" where
  "NextRun schedule from =
     (case Schedule schedule of
        Inl _ \<Rightarrow> None
      | Inr normalised \<Rightarrow>
          let fs = go_fields normalised;
              candidate = truncate_minute from + 60;
              limit = add_years 4 candidate
          in search_from (\<lambda>at. matches at fs) candidate limit)"

section \<open>Schedules are normal forms\<close>

lemma shorthand_normal:
  "map_of shorthands s = Some n \<Longrightarrow>
     Schedule n = Inr n \<and> length (go_fields n) = 5 \<and>
     \<not> contains_any n [newline, carriage_return, null_byte, CHR ''%'']"
proof -
  assume "map_of shorthands s = Some n"
  then have "n \<in> snd ` set shorthands" by (force dest: map_of_SomeD)
  moreover have "\<forall>n \<in> snd ` set shorthands. Schedule n = Inr n \<and> length (go_fields n) = 5 \<and>
     \<not> contains_any n [newline, carriage_return, null_byte, CHR ''%'']"
    by code_simp
  ultimately show ?thesis by blast
qed

text \<open>The five-field branch on its own.\<close>

lemma Schedule_fields:
  assumes "trim_space e \<noteq> []" and "length (trim_space e) \<le> MaxScheduleLength"
    and "\<not> contains_any (trim_space e) [newline, carriage_return, null_byte, CHR ''%'']"
    and "hd (trim_space e) \<noteq> CHR ''@''"
  shows "Schedule e =
    (let fs = go_fields (trim_space e) in
       if length fs \<noteq> 5 then Inl ErrInvalidSchedule
       else (case check_each (\<lambda>(f, c). checkField f c) (zip fs cronFields) of
               Some e \<Rightarrow> Inl ErrInvalidSchedule
             | None \<Rightarrow> Inr (join '' '' fs)))"
proof -
  have "\<not> has_prefix (trim_space e) ''@''"
    using assms(1,4) by (auto simp: has_prefix_iff)
  with assms(1-3) show ?thesis by (simp add: Schedule_def Let_def)
qed

lemma Schedule_cases:
  assumes "Schedule e = Inr n"
  obtains (shorthand) s where "map_of shorthands s = Some n"
  | (five) fs where "n = join '' '' fs" "fs = go_fields (trim_space e)" "length fs = 5"
      "check_each (\<lambda>(f, c). checkField f c) (zip fs cronFields) = None"
      "trim_space e \<noteq> []" "length (trim_space e) \<le> MaxScheduleLength"
      "\<not> contains_any (trim_space e) [newline, carriage_return, null_byte, CHR ''%'']"
      "\<not> has_prefix (trim_space e) ''@''"
  using assms
  by (auto simp: Schedule_def Let_def not_less split: if_splits option.splits)

lemma join_fields_clean:
  "\<not> contains_any s cs \<Longrightarrow> CHR '' '' \<notin> set cs \<Longrightarrow> \<not> contains_any (join '' '' (go_fields s)) cs"
  using set_join [of "'' ''" "go_fields s"] fields_word [of _ s]
  by (fastforce simp: contains_any_iff)

lemma Schedule_normal:
  assumes "Schedule e = Inr n"
  shows "Schedule n = Inr n \<and> length (go_fields n) = 5 \<and>
    \<not> contains_any n [newline, carriage_return, null_byte, CHR ''%'']"
  using assms
proof (cases rule: Schedule_cases)
  case (five fs)
  let ?t = "trim_space e"
  have clean: "\<not> contains_any n [newline, carriage_return, null_byte, CHR ''%'']"
    using five(1,2,7) join_fields_clean by simp
  have len: "length n \<le> MaxScheduleLength"
    using five(1,2,6) length_join_fields [of ?t] by simp
  have trim: "trim_space n = n" using five(1,2) trim_space_join_fields by simp
  have "\<not> is_space (hd ?t)" using five(5) by (rule trim_space_hd)
  with five(5) have hd: "fs \<noteq> []" "hd (hd fs) = hd ?t" using hd_fields five(2) by auto
  then have "hd fs \<noteq> []" using fields_word [of "hd fs" ?t] five(2) by auto
  with hd have n: "n \<noteq> []" "hd n = hd ?t" using hd_join [of fs "'' ''"] five(1) by auto
  have "hd n \<noteq> CHR ''@''" using n five(5,8) by (cases ?t) (auto simp: has_prefix_def)
  then have "Schedule n = Inr n"
    using Schedule_fields [of n] trim n(1) len clean five(1-4) by (simp add: Let_def)
  with clean show ?thesis using five(1-3) by simp
qed (rule shorthand_normal)

text \<open>What \<open>Schedule\<close> returns is a normal form: validating it again changes nothing, it has
  exactly five fields, and it is one crontab line, without the \<open>%\<close> that cron would read as the
  start of the command's input. The crontab writer and \<open>NextRun\<close> both rely on this.\<close>

theorem Schedule_is_normal_form:
  assumes "Schedule expression = Inr normalised"
  shows "Schedule normalised = Inr normalised \<and> length (go_fields normalised) = 5 \<and>
    (\<forall>c \<in> set normalised. c \<noteq> newline \<and> c \<noteq> carriage_return \<and> c \<noteq> null_byte \<and> c \<noteq> CHR ''%'')"
  using Schedule_normal [OF assms] by (auto simp: contains_any_iff)

theorem Schedule_is_normal_form_witness:
  "Schedule '' */15  9-17 * jan,Jun mon-fri '' = Inr ''*/15 9-17 * jan,Jun mon-fri'' \<and>
   Schedule ''*/15 9-17 * jan,Jun mon-fri'' = Inr ''*/15 9-17 * jan,Jun mon-fri''"
proof -
  have a: "Schedule '' */15  9-17 * jan,Jun mon-fri '' = Inr ''*/15 9-17 * jan,Jun mon-fri''"
    by code_simp
  from Schedule_is_normal_form [OF a] a show ?thesis by blast
qed

section \<open>Accepted fields match something\<close>

definition field_sane :: "cron_field \<Rightarrow> bool" where
  "field_sane f \<longleftrightarrow>
     fmin f \<le> fmax f \<and> list_all (\<lambda>(_, n). fmin f \<le> n \<and> n \<le> fmax f) (fnames f)"

lemma cronFields_sane: "list_all field_sane cronFields"
  by code_simp

lemma resolve_range: "field_sane f \<Longrightarrow> resolve v f = Some n \<Longrightarrow> fmin f \<le> n \<and> n \<le> fmax f"
  by (auto simp: field_sane_def resolve_def list_all_iff dest: map_of_SomeD
      split: option.splits if_splits)

lemma fieldValue_resolves: "fieldValue v f = None \<Longrightarrow> \<exists>n. resolve v f = Some n"
  by (auto simp: fieldValue_def resolve_def fail_if_def split: option.splits if_splits)

lemma range_bounds_range:
  "field_sane f \<Longrightarrow> range_bounds body f = Some (lo, hi) \<Longrightarrow> fmin f \<le> lo \<and> hi \<le> fmax f"
  using resolve_range [of f]
  by (fastforce simp: range_bounds_def split: if_splits prod.splits option.splits)

lemma checkRange_step:
  "checkRange part f = None \<Longrightarrow> cut CHR ''/'' part = (body, step, hasStep) \<Longrightarrow>
     \<exists>n. range_step step hasStep = Some n"
  by (auto simp: checkRange_def checkStep_def range_step_def split: option.splits if_splits)

lemma checkRange_bounds:
  assumes ok: "checkRange part f = None" and sane: "field_sane f"
    and c: "cut CHR ''/'' part = (body, step, hasStep)"
  shows "\<exists>lo hi. range_bounds body f = Some (lo, hi) \<and> lo \<le> hi"
proof (cases "body = ''*''")
  case True
  then show ?thesis using sane by (simp add: range_bounds_def field_sane_def)
next
  case False
  obtain fr to isRange where rng: "cut CHR ''-'' body = (fr, to, isRange)"
    by (cases "cut CHR ''-'' body") auto
  from ok False obtain n where n: "resolve fr f = Some n"
    using fieldValue_resolves [of fr f] by (auto simp: checkRange_def c rng)
  have "isRange \<Longrightarrow> \<exists>m. resolve to f = Some m \<and> n \<le> m"
    using ok False n fieldValue_resolves [of to f] by (auto simp: checkRange_def c rng Let_def)
  then show ?thesis using False n by (auto simp: range_bounds_def rng)
qed

lemma checkRange_matches:
  assumes ok: "checkRange part f = None" and sane: "field_sane f"
  shows "\<exists>a. fmin f \<le> a \<and> a \<le> fmax f \<and> rangeMatches part a f"
proof -
  obtain body step hasStep where c: "cut CHR ''/'' part = (body, step, hasStep)"
    by (cases "cut CHR ''/'' part") auto
  obtain lo hi where b: "range_bounds body f = Some (lo, hi)" "lo \<le> hi"
    using checkRange_bounds [OF ok sane c] by blast
  have "rangeMatches part lo f"
    using checkRange_step [OF ok c] b by (auto simp: rangeMatches_def c)
  with b range_bounds_range [OF sane b(1)] show ?thesis by fastforce
qed

lemma rangeMatches_range:
  "rangeMatches part a f \<Longrightarrow> field_sane f \<Longrightarrow> fmin f \<le> a \<and> a \<le> fmax f"
  by (fastforce simp: rangeMatches_def dest: range_bounds_range
      split: option.splits prod.splits)

text \<open>A field that \<open>Schedule\<close> accepts is never a silent no-op: each part of its comma
  separated list matches at least one value the field can take (a range that ends before it
  starts, or a step that is too large, is refused), and the field matches no value outside.\<close>

theorem accepted_field_matches:
  assumes "checkField value f = None" and "f \<in> set cronFields"
  shows "(\<forall>part \<in> set (split_on CHR '','' value).
            \<exists>a. fmin f \<le> a \<and> a \<le> fmax f \<and> rangeMatches part a f) \<and>
         (\<forall>a. fieldMatches value a f \<longrightarrow> fmin f \<le> a \<and> a \<le> fmax f)"
proof -
  have sane: "field_sane f" using assms(2) cronFields_sane by (simp add: list_all_iff)
  have "\<forall>part \<in> set (split_on CHR '','' value). checkRange part f = None"
    using assms(1) by (simp add: checkField_def check_each_None split: if_splits)
  then show ?thesis
    using checkRange_matches [OF _ sane] rangeMatches_range [OF _ sane]
    by (fastforce simp: fieldMatches_def list_ex_iff)
qed

theorem accepted_field_matches_witness:
  "rangeMatches ''mon-fri/2'' 3 (cronFields ! 4) \<and>
   (\<exists>a. fmin (cronFields ! 4) \<le> a \<and> a \<le> fmax (cronFields ! 4) \<and>
      rangeMatches ''sun'' a (cronFields ! 4))"
proof -
  have a: "checkField ''sun,mon-fri/2'' (cronFields ! 4) = None"
    and b: "rangeMatches ''mon-fri/2'' 3 (cronFields ! 4)"
    and p: "''sun'' \<in> set (split_on CHR '','' ''sun,mon-fri/2'')" by code_simp+
  have c: "cronFields ! 4 \<in> set cronFields" by (simp add: cronFields_def)
  from accepted_field_matches [OF a c] b p show ?thesis by blast
qed

section \<open>What a cron expression denotes\<close>

text \<open>The meaning of a schedule, by the grammar of crontab files and not by the matcher: a value is a
  name or a number, a range is a star, a value or two values, a part is a range with an optional
  step, and a field is a list of parts that denotes the union of their sets of numbers. A number is
  what \<open>strconv.Atoi\<close> reads, sign included; only the second value of a range may hold a minus.\<close>

inductive cron_value :: "cron_field \<Rightarrow> go_string \<Rightarrow> int \<Rightarrow> bool" for f where
  name: "(to_lower v, n) \<in> set (fnames f) \<Longrightarrow> cron_value f v n"
| number: "atoi v = Some n \<Longrightarrow> fmin f \<le> n \<Longrightarrow> n \<le> fmax f \<Longrightarrow> cron_value f v n"

inductive cron_range :: "cron_field \<Rightarrow> go_string \<Rightarrow> int \<Rightarrow> int \<Rightarrow> bool" for f where
  every: "cron_range f ''*'' (fmin f) (fmax f)"
| one: "cron_value f v n \<Longrightarrow> CHR ''-'' \<notin> set v \<Longrightarrow> cron_range f v n n"
| between: "cron_value f v n \<Longrightarrow> CHR ''-'' \<notin> set v \<Longrightarrow> cron_value f w m \<Longrightarrow> n \<le> m \<Longrightarrow>
    cron_range f (v @ CHR ''-'' # w) n m"

inductive cron_part :: "cron_field \<Rightarrow> go_string \<Rightarrow> int set \<Rightarrow> bool" for f where
  plain: "cron_range f b lo hi \<Longrightarrow> cron_part f b {lo..hi}"
| stepped: "cron_range f b lo hi \<Longrightarrow> atoi s = Some k \<Longrightarrow> 0 < k \<Longrightarrow>
    cron_part f (b @ CHR ''/'' # s) {lo + int i * k |i. lo + int i * k \<le> hi}"

inductive cron_list :: "cron_field \<Rightarrow> go_string \<Rightarrow> int set \<Rightarrow> bool" for f where
  last_part: "cron_part f p S \<Longrightarrow> cron_list f p S"
| more: "cron_part f p S \<Longrightarrow> cron_list f ps T \<Longrightarrow> cron_list f (p @ CHR '','' # ps) (S \<union> T)"

text \<open>Cron's rule for the day: a day field is unrestricted when it is a star, or a star in steps of
  one; when both are restricted either one is enough. Sunday is 0 and 7.\<close>

definition every_day :: "go_string \<Rightarrow> bool" where
  "every_day v \<longleftrightarrow> v = ''*'' \<or> v = ''*/1''"

definition on_day :: "go_string \<Rightarrow> int set \<Rightarrow> go_string \<Rightarrow> int set \<Rightarrow> instant \<Rightarrow> bool" where
  "on_day dm D dw W t \<longleftrightarrow>
     (let dom = cday (date_of t) \<in> D;
          dow = weekday_of t \<in> W \<or> weekday_of t = 0 \<and> 7 \<in> W
      in (every_day dm \<and> every_day dw) \<or> (\<not> every_day dm \<and> dom) \<or> (\<not> every_day dw \<and> dow))"

text \<open>A schedule fires at an instant: a whole minute whose minute, hour and month are in the sets
  that the fields denote, on a day by cron's rule.\<close>

definition whole_minute :: "instant \<Rightarrow> bool" where
  "whole_minute t \<longleftrightarrow> t mod 60 = 0"

definition fires :: "go_string \<Rightarrow> instant \<Rightarrow> bool" where
  "fires n t \<longleftrightarrow> whole_minute t \<and>
     (\<exists>mi ho dm mo dw M H D Mo W. n = join '' '' [mi, ho, dm, mo, dw] \<and>
        cron_list (cronFields ! 0) mi M \<and> cron_list (cronFields ! 1) ho H \<and>
        cron_list (cronFields ! 2) dm D \<and> cron_list (cronFields ! 3) mo Mo \<and>
        cron_list (cronFields ! 4) dw W \<and>
        minute_of t \<in> M \<and> hour_of t \<in> H \<and> cmonth (date_of t) \<in> Mo \<and> on_day dm D dw W t)"

subsection \<open>The matcher decides it\<close>

definition names_plain :: "cron_field \<Rightarrow> bool" where
  "names_plain f \<longleftrightarrow>
     list_all (\<lambda>(s, _). s \<noteq> [] \<and> list_all is_lower s) (fnames f) \<and> distinct (map fst (fnames f))"

lemma cronFields_names: "f \<in> set cronFields \<Longrightarrow> names_plain f"
proof -
  have "list_all names_plain cronFields" by code_simp
  then show "f \<in> set cronFields \<Longrightarrow> names_plain f" by (simp add: list_all_iff)
qed

definition value_char :: "char \<Rightarrow> bool" where
  "value_char c \<longleftrightarrow> is_digit c \<or> is_lower c \<or> is_upper c \<or> c = CHR ''+'' \<or> c = CHR ''-''"

lemma atoi_chars: "atoi v = Some n \<Longrightarrow> v \<noteq> [] \<and> (\<forall>c \<in> set v. is_digit c \<or> c = CHR ''+'' \<or> c = CHR ''-'')"
  by (cases v) (auto simp: atoi_def atoi_unsigned_def list_all_iff split: if_splits)

lemma lower_char_lower: "is_lower (lower_char c) \<Longrightarrow> is_lower c \<or> is_upper c"
  by (auto simp: lower_char_def split: if_splits)

lemma cron_value_chars:
  assumes "cron_value f v n" "names_plain f"
  shows "v \<noteq> [] \<and> (\<forall>c \<in> set v. value_char c)"
  using assms
proof (cases rule: cron_value.cases)
  case name
  then have "to_lower v \<noteq> [] \<and> list_all is_lower (to_lower v)"
    using assms(2) by (auto simp: names_plain_def list_all_iff)
  then show ?thesis using lower_char_lower by (auto simp: to_lower_def list_all_iff value_char_def)
next
  case number
  then show ?thesis using atoi_chars [of v n] by (auto simp: value_char_def)
qed

lemma value_char_special:
  "\<not> value_char CHR ''*''" "\<not> value_char CHR '',''" "\<not> value_char CHR ''/''"
  "value_char c \<Longrightarrow> \<not> is_space c"
  by (auto simp: value_char_def char_class_defs)

lemma atoi_not_name:
  assumes "atoi v = Some n" "names_plain f"
  shows "map_of (fnames f) (to_lower v) = None"
proof (rule ccontr)
  assume "map_of (fnames f) (to_lower v) \<noteq> None"
  then obtain m where "(to_lower v, m) \<in> set (fnames f)" by (auto dest: map_of_SomeD)
  then have "to_lower v \<noteq> [] \<and> list_all is_lower (to_lower v)"
    using assms(2) by (auto simp: names_plain_def list_all_iff)
  then have "v \<noteq> [] \<and> (is_lower (hd v) \<or> is_upper (hd v))"
    using lower_char_lower by (cases v) (auto simp: to_lower_def)
  then show False using atoi_chars [OF assms(1)] by (cases v) (auto simp: char_class_defs)
qed

lemma resolve_iff:
  assumes "names_plain f"
  shows "resolve v f = Some n \<longleftrightarrow> cron_value f v n"
proof (cases "map_of (fnames f) (to_lower v)")
  case None
  then have "(to_lower v, n) \<notin> set (fnames f)" by (metis map_of_eq_None_iff image_eqI fst_conv)
  with None show ?thesis
    by (auto simp: resolve_def cron_value.simps split: option.splits)
next
  case (Some m)
  then have "atoi v = None" using atoi_not_name [OF _ assms] by (cases "atoi v") auto
  moreover have "(to_lower v, n) \<in> set (fnames f) \<longleftrightarrow> n = m"
    using Some assms map_of_eq_Some_iff [of "fnames f" "to_lower v" n] by (auto simp: names_plain_def)
  ultimately show ?thesis using Some by (auto simp: resolve_def cron_value.simps)
qed

definition range_char :: "char \<Rightarrow> bool" where
  "range_char c \<longleftrightarrow> value_char c \<or> c = CHR ''*''"

lemma range_char_special:
  "\<not> range_char CHR '',''" "\<not> range_char CHR ''/''" "range_char c \<Longrightarrow> \<not> is_space c"
  using value_char_special by (auto simp: range_char_def is_space_def)

lemma cron_range_bounds:
  assumes "cron_range f b lo hi" "names_plain f"
  shows "range_bounds b f = Some (lo, hi) \<and> b \<noteq> [] \<and> (\<forall>c \<in> set b. range_char c)"
  using assms
proof (cases rule: cron_range.cases)
  case one
  then have "b \<noteq> ''*''" using cron_value_chars [OF one(2) assms(2)] value_char_special by auto
  moreover have "resolve b f = Some lo" using one assms(2) by (simp add: resolve_iff)
  ultimately show ?thesis
    using one cron_value_chars [OF one(2) assms(2)] by (auto simp: range_bounds_def range_char_def)
next
  case (between v w)
  have v: "resolve v f = Some lo" "resolve w f = Some hi"
    using between assms(2) by (simp_all add: resolve_iff)
  have c: "cut CHR ''-'' b = (v, w, True)" "b \<noteq> ''*''"
    using between(1,3) by (auto simp: append_eq_Cons_conv)
  have "value_char CHR ''-''" by (simp add: value_char_def)
  then show ?thesis
    using v c between cron_value_chars [OF _ assms(2)] by (auto simp: range_bounds_def range_char_def)
qed (auto simp: range_bounds_def range_char_def)

lemma step_set: "0 < (k :: int) \<Longrightarrow>
  a \<in> {lo + int i * k |i. lo + int i * k \<le> hi} \<longleftrightarrow> lo \<le> a \<and> a \<le> hi \<and> (a - lo) mod k = 0"
proof
  assume k: "0 < k" and "lo \<le> a \<and> a \<le> hi \<and> (a - lo) mod k = 0"
  then obtain q where q: "a - lo = k * q" and "0 \<le> a - lo" "a \<le> hi" by (auto elim: dvdE simp: mod_eq_0_iff_dvd)
  then have "0 \<le> q" using k by (simp add: zero_le_mult_iff)
  then have "a = lo + int (nat q) * k" using q by (simp add: algebra_simps)
  with \<open>a \<le> hi\<close> show "a \<in> {lo + int i * k |i. lo + int i * k \<le> hi}" by blast
qed auto

lemma cron_part_matches:
  assumes "cron_part f p S" "names_plain f"
  shows "(rangeMatches p a f \<longleftrightarrow> a \<in> S) \<and> p \<noteq> [] \<and> CHR '','' \<notin> set p \<and> (\<forall>c \<in> set p. \<not> is_space c)"
  using assms
proof (cases rule: cron_part.cases)
  case (plain lo hi)
  note b = cron_range_bounds [OF plain(2) assms(2)]
  then have "CHR ''/'' \<notin> set p" using range_char_special by blast
  with b plain range_char_special show ?thesis by (auto simp: rangeMatches_def range_step_def)
next
  case (stepped b lo hi s k)
  note b = cron_range_bounds [OF stepped(3) assms(2)]
  have n: "CHR ''/'' \<notin> set b" "CHR '','' \<notin> set b" "\<forall>c \<in> set b. \<not> is_space c"
    using b range_char_special by blast+
  have "CHR '','' \<notin> set s \<and> (\<forall>c \<in> set s. \<not> is_space c)"
    using atoi_chars [OF stepped(4)] by (auto simp: char_class_defs)
  with n b stepped step_set [OF stepped(5)] show ?thesis
    by (auto simp: rangeMatches_def range_step_def is_space_def)
qed

lemma cron_list_matches:
  assumes "cron_list f v S" "names_plain f"
  shows "(fieldMatches v a f \<longleftrightarrow> a \<in> S) \<and> v \<noteq> [] \<and> (\<forall>c \<in> set v. \<not> is_space c)"
  using assms
proof (induction rule: cron_list.induct)
  case (last_part p S)
  then show ?case
    using cron_part_matches [OF last_part(1,2)] by (simp add: fieldMatches_def split_on_id)
next
  case (more p S ps T)
  then show ?case
    using cron_part_matches [OF more(1,4)]
    by (auto simp: fieldMatches_def split_on_append is_space_def)
qed

text \<open>What the validator accepts has a meaning.\<close>

lemma fieldValue_value: "names_plain f \<Longrightarrow> fieldValue v f = None \<Longrightarrow> \<exists>n. cron_value f v n"
  using fieldValue_resolves [of v f] by (auto simp: resolve_iff)

lemma checkRange_denotes:
  assumes ok: "checkRange part f = None" and f: "names_plain f"
  shows "\<exists>S. cron_part f part S"
proof -
  obtain body step hasStep where c: "cut CHR ''/'' part = (body, step, hasStep)"
    by (cases "cut CHR ''/'' part") auto
  obtain v w isRange where rng: "cut CHR ''-'' body = (v, w, isRange)"
    by (cases "cut CHR ''-'' body") auto
  have "\<exists>lo hi. cron_range f body lo hi"
  proof (cases "body = ''*''")
    case False
    have v: "fieldValue v f = None" "isRange \<Longrightarrow> fieldValue w f = None"
      using ok False by (auto simp: checkRange_def c rng)
    obtain n where n: "cron_value f v n" using fieldValue_value [OF f v(1)] by blast
    show ?thesis
    proof (cases isRange)
      case True
      obtain m where m: "cron_value f w m" using fieldValue_value [OF f v(2) [OF True]] by blast
      have "n \<le> m"
        using ok False True n m by (auto simp: checkRange_def c rng Let_def resolve_iff [OF f, symmetric])
      moreover have "body = v @ CHR ''-'' # w" "CHR ''-'' \<notin> set v"
        using cut_found [of _ body v w] rng True by auto
      ultimately show ?thesis using n m cron_range.between by blast
    next
      case False
      then have "v = body" "CHR ''-'' \<notin> set body" using cut_not_found [of _ body v w] rng by auto
      then show ?thesis using n cron_range.one by blast
    qed
  qed (use cron_range.every in blast)
  then obtain lo hi where b: "cron_range f body lo hi" by blast
  show ?thesis
  proof (cases hasStep)
    case True
    obtain k where "range_step step True = Some k" using checkRange_step [OF ok c] True by auto
    then have "atoi step = Some k" "0 < k" by (auto simp: range_step_def split: option.splits if_splits)
    moreover have "part = body @ CHR ''/'' # step" using cut_found [of _ part body step] c True by auto
    ultimately show ?thesis using cron_part.stepped [OF b] by blast
  next
    case False
    then have "part = body" using cut_not_found [of _ part body step] c by auto
    then show ?thesis using cron_part.plain [OF b] by blast
  qed
qed

lemma parts_denote:
  "ps \<noteq> [] \<Longrightarrow> (\<forall>p \<in> set ps. \<exists>S. cron_part f p S) \<Longrightarrow> \<exists>S. cron_list f (join '','' ps) S"
proof (induction ps)
  case (Cons p ps)
  then obtain S where "cron_part f p S" by auto
  with Cons cron_list.last_part [of f p S] cron_list.more [of f p S "join '','' ps"] show ?case
    by (cases "ps = []") (auto simp: join_Cons)
qed simp

lemma checkField_denotes:
  assumes "checkField v f = None" "names_plain f"
  shows "\<exists>S. cron_list f v S"
proof -
  have "\<forall>p \<in> set (split_on CHR '','' v). checkRange p f = None"
    using assms(1) by (simp add: checkField_def check_each_None split: if_splits)
  then have "\<exists>S. cron_list f (join '','' (split_on CHR '','' v)) S"
    using checkRange_denotes [OF _ assms(2)] by (intro parts_denote) auto
  then show ?thesis by simp
qed

lemma length_5: "length xs = 5 \<longleftrightarrow> (\<exists>a b c d e. xs = [a, b, c, d, e])"
  by (auto simp: numeral_eq_Suc length_Suc_conv)

lemma Schedule_fields_checked:
  assumes "Schedule e = Inr n"
  shows "\<exists>mi ho dm mo dw. n = join '' '' [mi, ho, dm, mo, dw] \<and>
    check_each (\<lambda>(f, c). checkField f c) (zip [mi, ho, dm, mo, dw] cronFields) = None"
  using assms
proof (cases rule: Schedule_cases)
  case (shorthand s)
  have "\<forall>n \<in> snd ` set shorthands. length (go_fields n) = 5 \<and> n = join '' '' (go_fields n) \<and>
      check_each (\<lambda>(f, c). checkField f c) (zip (go_fields n) cronFields) = None"
    by code_simp
  moreover have "n \<in> snd ` set shorthands" using shorthand by (force dest: map_of_SomeD)
  ultimately show ?thesis by (smt (verit) length_5)
next
  case (five fs)
  then show ?thesis by (smt (verit) length_5)
qed

text \<open>\<open>isUnrestricted\<close> tests a day field for the prefix \<open>*/1\<close>, and so takes a step that only starts
  with the digit 1 for every day; for the other schedules it is cron's rule.\<close>

definition plain_days :: "go_string \<Rightarrow> bool" where
  "plain_days n \<longleftrightarrow>
     (\<forall>v \<in> {go_fields n ! 2, go_fields n ! 4}. has_prefix v ''*/1'' \<longrightarrow> v = ''*/1'')"

lemma go_fields_5:
  assumes "\<forall>v \<in> {a, b, c, d, e}. v \<noteq> [] \<and> (\<forall>x \<in> set v. \<not> is_space x)"
  shows "go_fields (join '' '' [a, b, c, d, e]) = [a, b, c, d, e]"
  using assms by (intro fields_join) auto

lemma every_day_iff:
  "has_prefix v ''*/1'' \<longrightarrow> v = ''*/1'' \<Longrightarrow> isUnrestricted v \<longleftrightarrow> every_day v"
  by (auto simp: isUnrestricted_def every_day_def has_prefix_def)

lemma matches_denotes:
  assumes l: "cron_list (cronFields ! 0) mi M" "cron_list (cronFields ! 1) ho H"
      "cron_list (cronFields ! 2) dm D" "cron_list (cronFields ! 3) mo Mo"
      "cron_list (cronFields ! 4) dw W"
    and n: "n = join '' '' [mi, ho, dm, mo, dw]" and d: "plain_days n"
  shows "matches t (go_fields n) \<longleftrightarrow>
    minute_of t \<in> M \<and> hour_of t \<in> H \<and> cmonth (date_of t) \<in> Mo \<and> on_day dm D dw W t"
proof -
  have p: "names_plain (cronFields ! i)" if "i < 5" for i
    using that by (intro cronFields_names nth_mem) (simp add: cronFields_def)
  note m = l(1) [THEN cron_list_matches, OF p] l(2) [THEN cron_list_matches, OF p]
    l(3) [THEN cron_list_matches, OF p] l(4) [THEN cron_list_matches, OF p]
    l(5) [THEN cron_list_matches, OF p]
  have f: "go_fields n = [mi, ho, dm, mo, dw]" unfolding n using m by (intro go_fields_5) simp
  then have "has_prefix dm ''*/1'' \<longrightarrow> dm = ''*/1''" "has_prefix dw ''*/1'' \<longrightarrow> dw = ''*/1''"
    using d by (simp_all add: plain_days_def)
  then have "isUnrestricted dm \<longleftrightarrow> every_day dm" "isUnrestricted dw \<longleftrightarrow> every_day dw"
    using every_day_iff by blast+
  with m f show ?thesis by (auto simp: matches_def weekdayMatches_def on_day_def Let_def)
qed

lemma fires_iff:
  assumes "Schedule e = Inr n" "plain_days n"
  shows "fires n t \<longleftrightarrow> whole_minute t \<and> matches t (go_fields n)"
proof
  assume "fires n t"
  then show "whole_minute t \<and> matches t (go_fields n)"
    unfolding fires_def using matches_denotes [OF _ _ _ _ _ _ assms(2)] by blast
next
  assume m: "whole_minute t \<and> matches t (go_fields n)"
  obtain mi ho dm mo dw where n: "n = join '' '' [mi, ho, dm, mo, dw]"
    and c: "check_each (\<lambda>(f, c). checkField f c) (zip [mi, ho, dm, mo, dw] cronFields) = None"
    using Schedule_fields_checked [OF assms(1)] by blast
  have z: "zip [mi, ho, dm, mo, dw] cronFields = [(mi, cronFields ! 0), (ho, cronFields ! 1),
      (dm, cronFields ! 2), (mo, cronFields ! 3), (dw, cronFields ! 4)]"
    by (simp add: cronFields_def)
  have p: "names_plain (cronFields ! i)" if "i < 5" for i
    using that by (intro cronFields_names nth_mem) (simp add: cronFields_def)
  have k: "checkField mi (cronFields ! 0) = None" "checkField ho (cronFields ! 1) = None"
    "checkField dm (cronFields ! 2) = None" "checkField mo (cronFields ! 3) = None"
    "checkField dw (cronFields ! 4) = None"
    using c unfolding z by (simp_all add: check_each_None)
  obtain M H D Mo W where l: "cron_list (cronFields ! 0) mi M" "cron_list (cronFields ! 1) ho H"
      "cron_list (cronFields ! 2) dm D" "cron_list (cronFields ! 3) mo Mo"
      "cron_list (cronFields ! 4) dw W"
    using k(1) [THEN checkField_denotes, OF p] k(2) [THEN checkField_denotes, OF p]
      k(3) [THEN checkField_denotes, OF p] k(4) [THEN checkField_denotes, OF p]
      k(5) [THEN checkField_denotes, OF p] by auto
  show "fires n t"
    unfolding fires_def using m matches_denotes [OF l n assms(2), of t] l n by blast
qed

section \<open>The next run\<close>








text \<open>A schedule that fires at \<open>from\<close> itself: the next run is an hour later, where the comment says
  at or after.\<close>

lemma NextRun_skips_from:
  "fires ''0 * * * *'' 1709125200 \<and> NextRun ''0 * * * *'' 1709125200 = Some 1709128800"
proof -
  have "whole_minute 1709125200 \<and> matches 1709125200 (go_fields ''0 * * * *'')"
    and a: "Schedule ''0 * * * *'' = Inr ''0 * * * *''" and p: "plain_days ''0 * * * *''"
    and n: "NextRun ''0 * * * *'' 1709125200 = Some 1709128800" by code_simp+
  then show ?thesis using fires_iff [OF a p] by blast
qed

text \<open>Values are read with \<open>strconv.Atoi\<close>, so a sign is accepted and written to the crontab.\<close>

lemma Schedule_accepts_signs: "Schedule ''+5 0--0 * * *'' = Inr ''+5 0--0 * * *''"
  by code_simp

text \<open>A step in the day-of-month field that starts with the digit 1 is ignored:
  \<open>0 0 */15 * *\<close>, every fifteenth day, fires at every midnight, since \<open>isUnrestricted\<close> tests
  for the prefix \<open>*/1\<close>; the second of a month is one of those midnights, and is not matched by
  the field itself.\<close>

theorem stepped_day_of_month_ignored:
  "matches t (go_fields ''0 0 */15 * *'') \<longleftrightarrow> minute_of t = 0 \<and> hour_of t = 0"
proof -
  have f: "go_fields ''0 0 */15 * *'' = [''0'', ''0'', ''*/15'', ''*'', ''*'']" by code_simp
  have u: "isUnrestricted ''*/15''" "isUnrestricted ''*''" by code_simp+
  have s: "split_on CHR '','' ''0'' = [''0'']" "split_on CHR '','' ''*'' = [''*'']"
    "cut CHR ''/'' ''0'' = (''0'', [], False)" "cut CHR ''/'' ''*'' = (''*'', [], False)"
    by code_simp+
  have r: "range_bounds ''0'' (cronFields ! 0) = Some (0, 0)"
    "range_bounds ''0'' (cronFields ! 1) = Some (0, 0)"
    "range_bounds ''*'' (cronFields ! 3) = Some (1, 12)"
    by code_simp+
  note defs = fieldMatches_def rangeMatches_def range_step_def
  have "fieldMatches ''0'' (minute_of t) (cronFields ! 0) \<longleftrightarrow> minute_of t = 0"
    "fieldMatches ''0'' (hour_of t) (cronFields ! 1) \<longleftrightarrow> hour_of t = 0"
    "fieldMatches ''*'' (cmonth (date_of t)) (cronFields ! 3)"
    using civil_range [of "t div 86400"]
    by (simp_all add: defs s r date_of_def del: One_nat_def) linarith+
  then show ?thesis by (simp add: matches_def f u)
qed

end
