(* ===== verification/Go_Path.thy ===== *)
theory Go_Path
  imports Go_Prelude
begin

text \<open>
  What the sources use of Go's package \<open>path/filepath\<close> on a Unix host: \<open>Clean\<close>, \<open>Join\<close>,
  \<open>Dir\<close>, \<open>Base\<close> and \<open>IsAbs\<close>. They are string functions; the lemmas relate an absolute
  path to the list of its components, on which they are stack operations.
\<close>

section \<open>The functions\<close>

abbreviation slash :: char where
  "slash \<equiv> CHR ''/''"

definition path_is_abs :: "go_string \<Rightarrow> bool" where
  "path_is_abs p \<longleftrightarrow> has_prefix p ''/''"

text \<open>One component of a path met by \<open>filepath.Clean\<close>, over the stack of those kept so far.\<close>

definition clean_step :: "bool \<Rightarrow> go_string list \<Rightarrow> go_string \<Rightarrow> go_string list" where
  "clean_step rooted stack c =
     (if c = '''' \<or> c = ''.'' then stack
      else if c = ''..'' then
        (case stack of
           [] \<Rightarrow> if rooted then [] else [''..'']
         | prev # rest \<Rightarrow> if prev = ''..'' then ''..'' # stack else rest)
      else c # stack)"

definition clean_comps :: "bool \<Rightarrow> go_string list \<Rightarrow> go_string list" where
  "clean_comps rooted cs = rev (foldl (clean_step rooted) [] cs)"

definition path_clean :: "go_string \<Rightarrow> go_string" where
  "path_clean p =
     (if p = [] then ''.''
      else if path_is_abs p then slash # join ''/'' (clean_comps True (split_on slash p))
      else let cs = clean_comps False (split_on slash p) in
        if cs = [] then ''.'' else join ''/'' cs)"

definition path_join :: "go_string list \<Rightarrow> go_string" where
  "path_join elems =
     (case dropWhile (\<lambda>e. e = []) elems of
        [] \<Rightarrow> []
      | es \<Rightarrow> path_clean (join ''/'' es))"

text \<open>\<open>filepath.Dir\<close>: everything up to and including the last slash, cleaned.\<close>

definition path_dir :: "go_string \<Rightarrow> go_string" where
  "path_dir p = path_clean (rev (dropWhile (\<lambda>c. c \<noteq> slash) (rev p)))"

definition path_base :: "go_string \<Rightarrow> go_string" where
  "path_base p =
     (if p = [] then ''.''
      else let q = trim_right (\<lambda>c. c = slash) p in
        if q = [] then ''/'' else rev (takeWhile (\<lambda>c. c \<noteq> slash) (rev q)))"

section \<open>Components\<close>

text \<open>A component that names a directory entry, and the absolute path over such components.\<close>

definition plain :: "go_string \<Rightarrow> bool" where
  "plain c \<longleftrightarrow> c \<noteq> '''' \<and> c \<noteq> ''.'' \<and> c \<noteq> ''..'' \<and> slash \<notin> set c"

definition abs_path :: "go_string list \<Rightarrow> go_string" where
  "abs_path cs = slash # join ''/'' cs"

abbreviation comps_of :: "go_string \<Rightarrow> go_string list" where
  "comps_of p \<equiv> clean_comps True (split_on slash p)"

lemma plain_no_slash: "plain c \<Longrightarrow> slash \<notin> set c"
  by (simp add: plain_def)

lemma clean_step_plain: "plain c \<Longrightarrow> clean_step r st c = c # st"
  by (simp add: clean_step_def plain_def)

lemma clean_step_keeps:
  "list_all plain st \<Longrightarrow> slash \<notin> set c \<Longrightarrow> list_all plain (clean_step True st c)"
  by (auto simp: clean_step_def plain_def split: list.splits)

lemma foldl_clean_keeps:
  "list_all plain st \<Longrightarrow> (\<forall>c \<in> set cs. slash \<notin> set c) \<Longrightarrow>
     list_all plain (foldl (clean_step True) st cs)"
  by (induction cs arbitrary: st) (simp_all add: clean_step_keeps)

lemma foldl_clean_plain: "list_all plain cs \<Longrightarrow> foldl (clean_step r) st cs = rev cs @ st"
  by (induction cs arbitrary: st) (simp_all add: clean_step_plain)

lemma clean_comps_plain: "(\<forall>c \<in> set cs. slash \<notin> set c) \<Longrightarrow> list_all plain (clean_comps True cs)"
  by (simp add: clean_comps_def foldl_clean_keeps list_all_rev)

lemma comps_of_plain: "list_all plain (comps_of p)"
  by (rule clean_comps_plain) (blast dest: split_on_no_sep)

lemma set_foldl_clean: "set (foldl (clean_step r) st cs) \<subseteq> set st \<union> set cs"
proof (induction cs arbitrary: st)
  case (Cons c cs)
  have "set (clean_step r st c) \<subseteq> set st \<union> {c}"
    by (auto simp: clean_step_def split: list.splits if_splits)
  with Cons [of "clean_step r st c"] show ?case by auto
qed simp

lemma set_comps_of: "c \<in> set (comps_of p) \<Longrightarrow> set c \<subseteq> set p"
  using set_foldl_clean [of True "[]" "split_on slash p"] set_split_on [of c slash p]
  by (auto simp: clean_comps_def)

lemma clean_comps_id: "list_all plain cs \<Longrightarrow> clean_comps r cs = cs"
  by (simp add: clean_comps_def foldl_clean_plain)

lemma clean_comps_empty_first: "clean_comps r ([] # cs) = clean_comps r cs"
  by (simp add: clean_comps_def clean_step_def)

lemma split_on_abs_path:
  "list_all plain cs \<Longrightarrow> split_on slash (abs_path cs) = [] # (if cs = [] then [[]] else cs)"
  by (auto simp: abs_path_def list_all_iff plain_no_slash intro: split_on_join)

lemma comps_of_abs_path: "list_all plain cs \<Longrightarrow> comps_of (abs_path cs) = cs"
  by (auto simp: split_on_abs_path clean_comps_empty_first clean_comps_id)

lemma path_is_abs_abs_path [simp]: "path_is_abs (abs_path cs)"
  by (simp add: path_is_abs_def abs_path_def has_prefix_def)

lemma path_clean_abs: "path_is_abs p \<Longrightarrow> path_clean p = abs_path (comps_of p)"
  by (auto simp: path_clean_def abs_path_def path_is_abs_def has_prefix_def)

lemma path_clean_abs_path: "list_all plain cs \<Longrightarrow> path_clean (abs_path cs) = abs_path cs"
  by (simp add: path_clean_abs comps_of_abs_path)

lemma path_clean_idem_abs: "path_is_abs p \<Longrightarrow> path_clean (path_clean p) = path_clean p"
  by (simp add: path_clean_abs comps_of_plain comps_of_abs_path)

lemma abs_path_inject:
  "list_all plain cs \<Longrightarrow> list_all plain ds \<Longrightarrow> abs_path cs = abs_path ds \<longleftrightarrow> cs = ds"
  by (metis comps_of_abs_path)

lemma abs_path_snoc: "cs \<noteq> [] \<Longrightarrow> abs_path (cs @ ds) = (if ds = [] then abs_path cs else abs_path cs @ slash # join ''/'' ds)"
  by (simp add: abs_path_def join_append)

lemma set_abs_path: "set (abs_path cs) \<subseteq> {slash} \<union> (\<Union>c \<in> set cs. set c)"
  using set_join [of "''/''" cs] by (auto simp: abs_path_def)

section \<open>Join, Dir and Base on absolute paths\<close>

lemma path_is_abs_append: "path_is_abs p \<Longrightarrow> path_is_abs (p @ q)"
  by (auto simp: path_is_abs_def has_prefix_iff)

lemma path_is_abs_not_Nil: "path_is_abs p \<Longrightarrow> p \<noteq> []"
  by (auto simp: path_is_abs_def has_prefix_def)

lemma path_join_abs:
  assumes "path_is_abs p"
  shows "path_join [p, q] = abs_path (clean_comps True (comps_of p @ split_on slash q))"
proof -
  have "foldl (clean_step True) [] (comps_of p) = foldl (clean_step True) [] (split_on slash p)"
    using foldl_clean_plain [OF comps_of_plain [of p]] by (simp add: clean_comps_def)
  moreover have "path_join [p, q] = path_clean (p @ slash # q)"
    using path_is_abs_not_Nil [OF assms] by (simp add: path_join_def)
  ultimately show ?thesis
    using path_is_abs_append [OF assms]
    by (simp add: path_clean_abs split_on_append_sep clean_comps_def)
qed

lemma path_join_plain:
  assumes "path_is_abs p" "plain c"
  shows "path_join [p, c] = abs_path (comps_of p @ [c])"
proof -
  have "split_on slash c = [c]" using assms(2) by (simp add: plain_no_slash split_on_id)
  moreover have "list_all plain (comps_of p @ [c])" using comps_of_plain assms(2) by simp
  ultimately show ?thesis using assms(1) by (simp add: path_join_abs clean_comps_id)
qed

lemma while_slash:
  "slash \<notin> set c \<Longrightarrow> dropWhile (\<lambda>x. x \<noteq> slash) (rev c @ slash # q) = slash # q"
  "slash \<notin> set c \<Longrightarrow> takeWhile (\<lambda>x. x \<noteq> slash) (rev c @ slash # q) = rev c"
  by (induction c rule: rev_induct) auto

lemma path_dir_append:
  assumes "slash \<notin> set c" "path_is_abs (p @ ''/'')"
  shows "path_dir (p @ slash # c) = abs_path (comps_of (p @ ''/''))"
  using assms by (simp add: path_dir_def while_slash path_clean_abs)

lemma comps_of_append_slash: "comps_of (p @ ''/'') = comps_of p"
  using split_on_append_sep [of slash p "[]"] by (simp add: clean_comps_def clean_step_def)

lemma abs_path_last:
  assumes "list_all plain cs"
  shows "\<exists>p. abs_path (cs @ [c]) = p @ slash # c \<and> comps_of (p @ ''/'') = cs \<and> path_is_abs (p @ ''/'')"
proof (cases "cs = []")
  case True
  then show ?thesis
    by (intro exI [of _ "[]"])
      (simp add: abs_path_def clean_comps_def clean_step_def path_is_abs_def has_prefix_def)
next
  case False
  then show ?thesis
    using assms comps_of_abs_path [of cs] path_is_abs_append [of "abs_path cs"]
    by (intro exI [of _ "abs_path cs"]) (simp add: abs_path_snoc comps_of_append_slash)
qed

lemma path_dir_abs_path:
  assumes "list_all plain (cs @ [c])"
  shows "path_dir (abs_path (cs @ [c])) = abs_path cs"
proof -
  obtain p where "abs_path (cs @ [c]) = p @ slash # c" "comps_of (p @ ''/'') = cs"
    "path_is_abs (p @ ''/'')"
    using abs_path_last [of cs c] assms by auto
  then show ?thesis using path_dir_append [of c p] assms by (simp add: plain_no_slash)
qed

lemma path_dir_root: "path_dir (abs_path []) = abs_path []"
  by (simp add: path_dir_def abs_path_def path_clean_def path_is_abs_def has_prefix_def
      clean_comps_def clean_step_def)

lemma path_base_abs_path:
  assumes "list_all plain (cs @ [c])"
  shows "path_base (abs_path (cs @ [c])) = c"
proof -
  obtain p where p: "abs_path (cs @ [c]) = p @ slash # c"
    using abs_path_last [of cs c] assms by auto
  have c: "c \<noteq> []" "slash \<notin> set c" using assms by (simp_all add: plain_def)
  then have "last c \<noteq> slash" by (metis last_in_set)
  with c have "dropWhile (\<lambda>x. x = slash) (rev (p @ slash # c)) = rev (p @ slash # c)"
    by (cases c rule: rev_cases) auto
  moreover have "takeWhile (\<lambda>x. x \<noteq> slash) (rev c @ slash # rev p) = rev c"
    using c(2) by (rule while_slash)
  ultimately show ?thesis by (simp add: path_base_def trim_right_def p)
qed

end
