(* ===== verification/Crontab.thy ===== *)
theory Crontab
  imports Validate_Cron Go_Path
begin

text \<open>
  Package \<open>agent/internal/cron\<close>, \<open>crontab.go\<close> and \<open>Job.Validate\<close>: the crontab files the panel
  shares with its customers. The panel owns a block of lines between two markers; \<open>render\<close>
  builds it from the jobs, \<open>merge\<close> puts it into an existing file, \<open>managedJobIDs\<close> reads it back.
\<close>

section \<open>Jobs\<close>

record job =
  job_ID :: go_string
  job_Name :: go_string
  job_Schedule :: go_string
  job_Command :: go_string
  job_Enabled :: bool

definition Job_Validate :: "job \<Rightarrow> verr option" where
  "Job_Validate j =
     or_else (UUID (job_ID j))
       (or_else (JobName (job_Name j))
         (or_else (case Schedule (job_Schedule j) of Inl err \<Rightarrow> Some err | Inr _ \<Rightarrow> None)
           (Command (job_Command j))))"

record cron_provider =
  spoolDir :: go_string
  logDir :: go_string

definition LogPath :: "cron_provider \<Rightarrow> go_string \<Rightarrow> go_string" where
  "LogPath p jid = path_join [logDir p, jid @ ''.log'']"

definition crontabPath :: "cron_provider \<Rightarrow> go_string \<Rightarrow> go_string" where
  "crontabPath p account = path_join [spoolDir p, account]"

section \<open>The managed block\<close>

definition beginMarker :: go_string where
  "beginMarker = ''# BEGIN JotHost scheduled jobs '' @ [CHR 0xE2, CHR 0x80, CHR 0x94] @
     '' managed by the panel, do not edit''"

definition endMarker :: go_string where
  "endMarker = ''# END JotHost scheduled jobs''"

definition comment_line :: "job \<Rightarrow> go_string" where
  "comment_line j = ''# '' @ job_Name j @ '' (job '' @ job_ID j @ '')''"

definition entry_line :: "cron_provider \<Rightarrow> job \<Rightarrow> go_string" where
  "entry_line p j =
     job_Schedule j @ '' ( '' @ job_Command j @ '' ) >> '' @ LogPath p (job_ID j) @ '' 2>&1''"

definition render :: "cron_provider \<Rightarrow> instant \<Rightarrow> job list \<Rightarrow> go_string" where
  "render p now jobs =
     beginMarker @ [newline] @
     ''# Written '' @ rfc3339 now @
     ''. Changes inside this block are overwritten by the panel;'' @ [newline] @
     ''# anything outside it is left alone.'' @ [newline] @
     concat (map (\<lambda>j. comment_line j @ [newline] @ entry_line p j @ [newline]) jobs) @
     endMarker @ [newline]"

definition trim_blanks :: "go_string \<Rightarrow> go_string" where
  "trim_blanks line = trim_right (\<lambda>c. c \<in> {CHR '' '', CHR 0x09}) line"

fun managed_ids :: "bool \<Rightarrow> go_string list \<Rightarrow> go_string list" where
  "managed_ids inside [] = []"
| "managed_ids inside (line # lines) =
     (let trimmed = trim_blanks line in
        if trimmed = beginMarker then managed_ids True lines
        else if trimmed = endMarker then managed_ids False lines
        else if \<not> inside then managed_ids inside lines
        else
          let (_, rest, found) = cut_str ''(job '' trimmed in
            if \<not> found then managed_ids inside lines
            else
              let (jid, _, found) = cut CHR '')'' rest in
                if \<not> found \<or> UUID jid \<noteq> None then managed_ids inside lines
                else jid # managed_ids inside lines)"

definition managedJobIDs :: "go_string \<Rightarrow> go_string list" where
  "managedJobIDs existing = managed_ids False (split_on newline existing)"

section \<open>Merging a block into a file\<close>

definition blank :: "go_string \<Rightarrow> bool" where
  "blank line \<longleftrightarrow> trim_space line = []"

definition strip_trailing :: "go_string list \<Rightarrow> go_string list" where
  "strip_trailing lines = rev (dropWhile blank (rev lines))"

definition strip_both :: "go_string list \<Rightarrow> go_string list" where
  "strip_both lines = strip_trailing (dropWhile blank lines)"

definition trimTrailingBlanks :: "go_string list \<Rightarrow> go_string" where
  "trimTrailingBlanks lines = join [newline] (strip_trailing lines)"

definition trimLeadingBlanks :: "go_string list \<Rightarrow> go_string" where
  "trimLeadingBlanks lines = join [newline] (strip_both lines)"

text \<open>The loop of \<open>merge\<close> that finds the first begin marker and the first end marker after it.\<close>

fun find_block ::
  "nat \<Rightarrow> nat option \<Rightarrow> nat option \<Rightarrow> go_string list \<Rightarrow> nat option \<times> nat option" where
  "find_block i start end [] = (start, end)"
| "find_block i start end (line # lines) =
     (let trimmed = trim_blanks line in
        if trimmed = beginMarker \<and> start = None then find_block (Suc i) (Some i) end lines
        else if trimmed = endMarker \<and> start \<noteq> None \<and> end = None
        then find_block (Suc i) start (Some i) lines
        else find_block (Suc i) start end lines)"

definition merge :: "go_string \<Rightarrow> go_string \<Rightarrow> go_string" where
  "merge existing block =
     (let lines = split_on newline existing;
          (before, after) =
            (case find_block 0 None None lines of
               (None, _) \<Rightarrow> (lines, [])
             | (Some start, None) \<Rightarrow> (take start lines, [])
             | (Some start, Some end) \<Rightarrow> (take start lines, drop (end + 1) lines));
          head = trimTrailingBlanks before;
          tail = trimLeadingBlanks after;
          rendered =
            (if head \<noteq> [] then head @ [newline] else []) @ block @
            (if tail \<noteq> [] then tail @ [newline] else [])
      in if rendered \<noteq> [] \<and> \<not> has_suffix rendered [newline] then rendered @ [newline]
         else rendered)"

section \<open>Stripping blank lines\<close>

lemma strip_trailing_append: "\<exists>bs. xs = strip_trailing xs @ bs"
proof -
  have "xs = rev (takeWhile blank (rev xs) @ dropWhile blank (rev xs))" by simp
  then show ?thesis by (metis rev_append strip_trailing_def)
qed

lemma last_strip_trailing: "strip_trailing xs \<noteq> [] \<Longrightarrow> \<not> blank (last (strip_trailing xs))"
  using hd_dropWhile [of blank "rev xs"] by (simp add: strip_trailing_def last_rev)

lemma strip_trailing_id: "xs = [] \<or> \<not> blank (last xs) \<Longrightarrow> strip_trailing xs = xs"
  by (cases xs rule: rev_cases) (auto simp: strip_trailing_def)

lemma strip_trailing_idem [simp]: "strip_trailing (strip_trailing xs) = strip_trailing xs"
  using last_strip_trailing by (intro strip_trailing_id) blast

lemma blank_Nil [simp]: "blank []"
  by (simp add: blank_def trim_space_def trim_both_none)

lemma strip_trailing_snoc [simp]: "strip_trailing (xs @ [[]]) = strip_trailing xs"
  by (simp add: strip_trailing_def)

lemma hd_strip_both: "strip_both xs \<noteq> [] \<Longrightarrow> \<not> blank (hd (strip_both xs))"
proof -
  assume ne: "strip_both xs \<noteq> []"
  obtain bs where bs: "dropWhile blank xs = strip_both xs @ bs"
    using strip_trailing_append [of "dropWhile blank xs"] by (auto simp: strip_both_def)
  with ne have "hd (strip_both xs) = hd (dropWhile blank xs)" "dropWhile blank xs \<noteq> []"
    by (simp_all add: hd_append)
  then show ?thesis using hd_dropWhile [of blank xs] by simp
qed

lemma strip_both_snoc: "strip_both (strip_both xs @ [[]]) = strip_both xs"
proof (cases "strip_both xs = []")
  case False
  then have "dropWhile blank (strip_both xs @ [[]]) = strip_both xs @ [[]]"
    using hd_strip_both [of xs] by (cases "strip_both xs") auto
  then show ?thesis by (simp add: strip_both_def)
next
  case True
  have "strip_both [[]] = []" by (simp add: strip_both_def strip_trailing_def)
  with True show ?thesis by simp
qed

lemma set_strip_trailing: "set (strip_trailing xs) \<subseteq> set xs"
  by (auto simp: strip_trailing_def dest: set_dropWhileD)

lemma set_strip_both: "set (strip_both xs) \<subseteq> set xs"
  using set_strip_trailing [of "dropWhile blank xs"] by (auto simp: strip_both_def dest: set_dropWhileD)

lemma stripped_lines:
  assumes "ls = [] \<or> \<not> blank (last ls)"
  shows "(if join [newline] ls \<noteq> [] then join [newline] ls @ [newline] else []) = unlines ls"
proof (cases "ls = []")
  case False
  then have "last ls \<noteq> []" using assms by auto
  with False have "join [newline] ls \<noteq> []"
    by (induction "[newline]" ls rule: join.induct) auto
  then show ?thesis using join_newline [OF False] by simp
qed simp

section \<open>The customer's part of a file\<close>

text \<open>What lies before the first begin marker, and after the end marker that follows it.\<close>

abbreviation is_begin :: "go_string \<Rightarrow> bool" where
  "is_begin l \<equiv> trim_blanks l = beginMarker"

abbreviation is_end :: "go_string \<Rightarrow> bool" where
  "is_end l \<equiv> trim_blanks l = endMarker"

definition customer_part :: "go_string list \<Rightarrow> go_string list \<times> go_string list" where
  "customer_part ls =
     (takeWhile (\<lambda>l. \<not> is_begin l) ls,
      drop 1 (dropWhile (\<lambda>l. \<not> is_end l) (drop 1 (dropWhile (\<lambda>l. \<not> is_begin l) ls))))"

lemma markers_differ [simp]: "beginMarker \<noteq> endMarker" "endMarker \<noteq> beginMarker"
  by (simp_all add: beginMarker_def endMarker_def)

lemma find_block_found: "find_block i (Some s) (Some e) ls = (Some s, Some e)"
  by (induction ls arbitrary: i) (simp_all add: Let_def)

lemma find_block_end:
  "find_block i (Some s) None ls =
     (Some s, if list_ex is_end ls then Some (i + length (takeWhile (\<lambda>l. \<not> is_end l) ls)) else None)"
  by (induction ls arbitrary: i) (simp_all add: Let_def find_block_found)

lemma find_block_begin:
  "find_block i None None ls =
     (if list_ex is_begin ls
      then find_block (i + length (takeWhile (\<lambda>l. \<not> is_begin l) ls) + 1)
             (Some (i + length (takeWhile (\<lambda>l. \<not> is_begin l) ls))) None
             (drop 1 (dropWhile (\<lambda>l. \<not> is_begin l) ls))
      else (None, None))"
  by (induction ls arbitrary: i) (simp_all add: Let_def)

lemma dropWhile_eq_drop': "dropWhile P xs = drop (length (takeWhile P xs)) xs"
  by (induction xs) auto

lemma no_such_line: "\<not> list_ex P ls \<Longrightarrow> takeWhile (\<lambda>l. \<not> P l) ls = ls \<and> dropWhile (\<lambda>l. \<not> P l) ls = []"
  by (auto simp: list_ex_iff)

lemma merge_parts:
  "(case find_block 0 None None ls of
      (None, _) \<Rightarrow> (ls, [])
    | (Some start, None) \<Rightarrow> (take start ls, [])
    | (Some start, Some end) \<Rightarrow> (take start ls, drop (end + 1) ls)) = customer_part ls"
proof -
  let ?n = "length (takeWhile (\<lambda>l. \<not> is_begin l) ls)"
  have "take ?n ls = takeWhile (\<lambda>l. \<not> is_begin l) ls" by (metis takeWhile_eq_take)
  then show ?thesis
    using no_such_line [of is_begin ls] no_such_line [of is_end "drop (Suc ?n) ls"]
    by (auto simp: find_block_begin [of 0] find_block_end customer_part_def dropWhile_eq_drop'
        add.commute)
qed

lemma merge_split:
  assumes "block = [] \<or> last block = newline"
  shows "merge existing block =
    (case customer_part (split_on newline existing) of
       (before, after) \<Rightarrow> unlines (strip_trailing before) @ block @ unlines (strip_both after))"
proof -
  obtain before after where parts: "customer_part (split_on newline existing) = (before, after)"
    by fastforce
  let ?r = "unlines (strip_trailing before) @ block @ unlines (strip_both after)"
  have "?r = [] \<or> last ?r = newline"
    using assms unlines_last [of "strip_both after"] unlines_last [of "strip_trailing before"]
    by (auto simp: last_append)
  then have "?r = [] \<or> has_suffix ?r [newline]"
    by (metis append_butlast_last_id has_suffix_iff)
  moreover have
    "(if trimTrailingBlanks before \<noteq> [] then trimTrailingBlanks before @ [newline] else []) =
       unlines (strip_trailing before)"
    "(if trimLeadingBlanks after \<noteq> [] then trimLeadingBlanks after @ [newline] else []) =
       unlines (strip_both after)"
    unfolding trimTrailingBlanks_def trimLeadingBlanks_def strip_both_def
    by (rule stripped_lines, use last_strip_trailing in blast)+
  ultimately show ?thesis
    unfolding merge_def Let_def merge_parts parts prod.case by auto
qed

section \<open>Rendered blocks\<close>

text \<open>A value the crontab can hold: what a validator accepts, once it is in the validator's own
  normal form, is one line.\<close>

locale line_value =
  fixes check :: "go_string \<Rightarrow> bool" and norm :: "go_string \<Rightarrow> go_string"
  assumes accepted_line: "check s \<Longrightarrow> newline \<notin> set (norm s) \<and> carriage_return \<notin> set (norm s)"
begin

lemma one_line: "check s \<Longrightarrow> norm s = s \<Longrightarrow> split_on newline s = [s]"
  using accepted_line [of s] by (simp add: split_on_id)

lemma no_newline: "check s \<Longrightarrow> norm s = s \<Longrightarrow> newline \<notin> set s"
  using accepted_line [of s] by simp

end

interpretation job_name: line_value "\<lambda>s. JobName s = None" trim_space
  by unfold_locales (auto simp: JobName_def Let_def contains_any_iff split: if_splits)

interpretation job_command: line_value "\<lambda>s. Command s = None" trim_space
  by unfold_locales (auto simp: Command_def Let_def contains_any_iff split: if_splits)

interpretation job_schedule: line_value "\<lambda>s. \<exists>n. Schedule s = Inr n" "\<lambda>s. projr (Schedule s)"
proof unfold_locales
  fix s assume "\<exists>n. Schedule s = Inr n"
  then obtain n where n: "Schedule s = Inr n" ..
  with Schedule_normal [OF n]
  show "newline \<notin> set (projr (Schedule s)) \<and> carriage_return \<notin> set (projr (Schedule s))"
    by (simp add: contains_any_iff)
qed

text \<open>An accepted job whose name, schedule and command are each on one line. \<open>Job.Validate\<close> alone does
  not ensure the second part: it checks the values with their surrounding white space removed.\<close>

definition one_line_job :: "job \<Rightarrow> bool" where
  "one_line_job j \<longleftrightarrow>
     Job_Validate j = None \<and> newline \<notin> set (job_Name j) \<and> newline \<notin> set (job_Schedule j) \<and>
     newline \<notin> set (job_Command j)"

text \<open>The panel removes the surrounding white space and normalises the schedule before it stores a
  job, so the jobs it sends are accepted and already in normal form, and hence on one line.\<close>

definition clean_job :: "job \<Rightarrow> bool" where
  "clean_job j \<longleftrightarrow>
     Job_Validate j = None \<and> trim_space (job_Name j) = job_Name j \<and>
     Schedule (job_Schedule j) = Inr (job_Schedule j) \<and> trim_space (job_Command j) = job_Command j"

lemma UUID_chars: "UUID v = None \<Longrightarrow> c \<in> set v \<Longrightarrow> is_hex c \<or> c = CHR ''-''"
proof -
  assume ok: "UUID v = None" and "c \<in> set v"
  then obtain i where "i < length v" "v ! i = c" by (auto simp: in_set_conv_nth)
  then have "(i, c) \<in> set (enumerate 0 v)" by (simp add: in_set_enumerate_eq)
  then show ?thesis
    using ok by (auto simp: UUID_def check_each_None split: if_splits dest!: bspec)
qed

lemma UUID_no_special:
  "UUID v = None \<Longrightarrow> newline \<notin> set v \<and> CHR '')'' \<notin> set v \<and> slash \<notin> set v \<and> CHR '' '' \<notin> set v"
  using UUID_chars [of v] by (fastforce simp: is_hex_def char_class_defs)

lemma one_line_job_lines:
  assumes "one_line_job j"
  shows "UUID (job_ID j) = None" "newline \<notin> set (job_Name j)" "newline \<notin> set (job_Schedule j)"
    "newline \<notin> set (job_Command j)" "newline \<notin> set (job_ID j)"
proof -
  show "UUID (job_ID j) = None" using assms by (simp add: one_line_job_def Job_Validate_def)
  then show "newline \<notin> set (job_ID j)" using UUID_no_special by blast
qed (use assms in \<open>simp_all add: one_line_job_def\<close>)

lemma clean_one_line: "clean_job j \<Longrightarrow> one_line_job j"
proof -
  assume j: "clean_job j"
  then have "JobName (job_Name j) = None" "Command (job_Command j) = None"
    by (simp_all add: clean_job_def Job_Validate_def)
  with j show ?thesis
    using job_name.no_newline job_command.no_newline job_schedule.no_newline [of "job_Schedule j"]
    by (auto simp: clean_job_def one_line_job_def)
qed

lemma UUID_log_plain: "UUID v = None \<Longrightarrow> plain (v @ ''.log'')"
  using UUID_no_special [of v] by (auto simp: plain_def UUID_def append_eq_Cons_conv split: if_splits)

lemma LogPath_line:
  assumes "path_is_abs (logDir p)" "newline \<notin> set (logDir p)" "UUID v = None"
  shows "newline \<notin> set (LogPath p v)"
proof -
  have "LogPath p v = abs_path (comps_of (logDir p) @ [v @ ''.log''])"
    using assms by (simp add: LogPath_def path_join_plain UUID_log_plain)
  then show ?thesis
    using assms set_abs_path [of "comps_of (logDir p) @ [v @ ''.log'']"] set_comps_of [of _ "logDir p"]
      UUID_no_special [OF assms(3)]
    by auto
qed

definition written_line :: "instant \<Rightarrow> go_string" where
  "written_line t = ''# Written '' @ rfc3339 t @
     ''. Changes inside this block are overwritten by the panel;''"

definition notice_line :: go_string where
  "notice_line = ''# anything outside it is left alone.''"

definition job_lines :: "cron_provider \<Rightarrow> job list \<Rightarrow> go_string list" where
  "job_lines p jobs = concat (map (\<lambda>j. [comment_line j, entry_line p j]) jobs)"

definition block_lines :: "cron_provider \<Rightarrow> instant \<Rightarrow> job list \<Rightarrow> go_string list" where
  "block_lines p t jobs = written_line t # notice_line # job_lines p jobs"

lemma unlines_job_lines:
  "concat (map (\<lambda>j. comment_line j @ [newline] @ entry_line p j @ [newline]) jobs) =
     unlines (job_lines p jobs)"
  by (induction jobs) (simp_all add: job_lines_def)

lemma render_unlines:
  "render p t jobs = unlines (beginMarker # block_lines p t jobs @ [endMarker])"
  unfolding render_def unlines_job_lines
  by (simp add: block_lines_def written_line_def notice_line_def)

lemma block_line_newline:
  assumes "list_all one_line_job jobs" "path_is_abs (logDir p)" "newline \<notin> set (logDir p)"
    and "l \<in> set (block_lines p t jobs)"
  shows "newline \<notin> set l"
proof -
  have "newline \<notin> set (comment_line j) \<and> newline \<notin> set (entry_line p j)" if "j \<in> set jobs" for j
  proof -
    have "one_line_job j" using assms(1) that by (simp add: list_all_iff)
    note c = one_line_job_lines [OF this]
    from c LogPath_line [OF assms(2,3) c(1)] show ?thesis
      by (simp add: comment_line_def entry_line_def)
  qed
  then show ?thesis
    using assms(4) rfc3339_no_newline [of t]
    by (auto simp: block_lines_def written_line_def notice_line_def job_lines_def)
qed

lemma trim_blanks_last: "l \<noteq> [] \<Longrightarrow> last l \<notin> {CHR '' '', CHR 0x09} \<Longrightarrow> trim_blanks l = l"
  by (simp add: trim_blanks_def trim_right_id)

lemma block_line_last: "l \<in> set (block_lines p t jobs) \<Longrightarrow>
    l \<noteq> [] \<and> last l \<in> {CHR '';'', CHR ''.'', CHR '')'', CHR ''1''}"
  by (auto simp: block_lines_def written_line_def notice_line_def job_lines_def comment_line_def
      entry_line_def)

lemma block_line_marker: "l \<in> set (block_lines p t jobs) \<Longrightarrow> \<not> is_begin l \<and> \<not> is_end l"
proof -
  assume "l \<in> set (block_lines p t jobs)"
  note l = block_line_last [OF this]
  then have "trim_blanks l = l" by (intro trim_blanks_last) auto
  then show ?thesis using l by (auto simp: beginMarker_def endMarker_def)
qed

lemma marker_self [simp]: "trim_blanks beginMarker = beginMarker" "trim_blanks endMarker = endMarker"
  "newline \<notin> set beginMarker" "newline \<notin> set endMarker"
  by (simp_all add: trim_blanks_last beginMarker_def endMarker_def)

text \<open>The managed block is made of the begin marker, two comment lines, exactly one comment
  and one entry per job in order, and the end marker: no value of an accepted job that is on one line can
  start a line of its own, which is the crontab injection the package defends against.\<close>

theorem render_one_entry_per_job:
  assumes "list_all one_line_job jobs" and "path_is_abs (logDir p)" and "newline \<notin> set (logDir p)"
  shows "split_on newline (render p t jobs) =
    beginMarker # written_line t # notice_line #
    concat (map (\<lambda>j. [comment_line j, entry_line p j]) jobs) @ [endMarker, []]"
  using split_unlines [of "beginMarker # block_lines p t jobs @ [endMarker]"]
    block_line_newline [OF assms]
  by (simp add: render_unlines) (auto simp: block_lines_def job_lines_def)

definition example_job :: job where
  "example_job = \<lparr>job_ID = ''01234567-89ab-cdef-0123-456789abcdef'', job_Name = ''nightly'',
     job_Schedule = ''0 3 * * *'', job_Command = ''/usr/bin/php artisan schedule:run'',
     job_Enabled = True\<rparr>"

definition example_provider :: cron_provider where
  "example_provider = \<lparr>spoolDir = ''/var/spool/cron/crontabs'', logDir = ''/var/log/jothost/cron''\<rparr>"

theorem render_one_entry_per_job_witness:
  "list_all one_line_job [example_job] \<and>
   split_on newline (render example_provider 0 [example_job]) =
     [beginMarker, written_line 0, notice_line, comment_line example_job,
      entry_line example_provider example_job, endMarker, []]"
proof -
  have a: "list_all one_line_job [example_job]" "path_is_abs (logDir example_provider)"
    "newline \<notin> set (logDir example_provider)"
    by code_simp+
  from render_one_entry_per_job [OF a, of 0] a(1) show ?thesis by simp
qed

section \<open>Merging twice\<close>

lemma takeWhile_tail: "(\<forall>x \<in> set xs. P x) \<Longrightarrow> \<not> P y \<Longrightarrow> takeWhile P (xs @ y # ys) = xs"
  by (induction xs) auto

lemma dropWhile_tail: "(\<forall>x \<in> set xs. P x) \<Longrightarrow> \<not> P y \<Longrightarrow> dropWhile P (xs @ y # ys) = y # ys"
  by (induction xs) auto

lemma customer_part_block:
  assumes "\<forall>l \<in> set s. \<not> is_begin l" "\<forall>l \<in> set m. \<not> is_end l"
  shows "customer_part (s @ beginMarker # m @ endMarker # a) = (s, a)"
  using assms by (simp add: customer_part_def takeWhile_tail dropWhile_tail)

lemma customer_part_set:
  assumes "customer_part ls = (before, after)"
  shows "\<forall>l \<in> set before. \<not> is_begin l" "set before \<subseteq> set ls" "set after \<subseteq> set ls"
  using assms
  by (auto simp: customer_part_def dest!: set_takeWhileD set_dropWhileD in_set_dropD)

lemma merged_lines:
  assumes "list_all one_line_job jobs" "path_is_abs (logDir p)" "newline \<notin> set (logDir p)"
    and parts: "customer_part (split_on newline existing) = (before, after)"
  shows "split_on newline (merge existing (render p t jobs)) =
    strip_trailing before @ beginMarker # block_lines p t jobs @ endMarker # strip_both after @ [[]]"
proof -
  let ?ls = "strip_trailing before @ (beginMarker # block_lines p t jobs @ [endMarker]) @ strip_both after"
  have "merge existing (render p t jobs) = unlines ?ls"
    using merge_split [of "render p t jobs" existing] parts
      unlines_last [of "beginMarker # block_lines p t jobs @ [endMarker]"]
    by (simp add: render_unlines)
  moreover have "\<forall>l \<in> set ?ls. newline \<notin> set l"
    using customer_part_set(2,3) [OF parts] block_line_newline [OF assms(1-3)]
      set_strip_trailing [of before] set_strip_both [of after] split_on_no_sep [of _ newline existing]
    by auto
  ultimately show ?thesis using split_unlines [of ?ls] by simp
qed

lemma customer_part_merged:
  assumes "list_all one_line_job jobs" "path_is_abs (logDir p)" "newline \<notin> set (logDir p)"
    and parts: "customer_part (split_on newline existing) = (before, after)"
  shows "customer_part (split_on newline (merge existing (render p t jobs))) =
    (strip_trailing before, strip_both after @ [[]])"
  unfolding merged_lines [OF assms]
  using customer_part_set(1) [OF parts] set_strip_trailing [of before] block_line_marker
  by (intro customer_part_block) blast+

text \<open>C32: a later write replaces the block of an earlier one completely and puts the new block
  where the old one was: whatever the file was, writing one set of jobs and then another block (any
  that ends its last line, and the empty one of \<open>Remove\<close>) gives the same file as writing only the
  second. It is claimed of accepted jobs whose name, schedule and command are each on one line,
  logging below an absolute directory whose path has no newline: the jobs the panel sends are such,
  but \<open>Job.Validate\<close> accepts others, and \<open>end_marker_job_breaks_block\<close> below shows that the
  restriction is needed.\<close>

theorem merge_replaces_block:
  assumes "list_all one_line_job jobs" and "path_is_abs (logDir p)" and "newline \<notin> set (logDir p)"
    and "block = [] \<or> last block = newline"
  shows "merge (merge existing (render p t jobs)) block = merge existing block"
proof -
  obtain before after where parts: "customer_part (split_on newline existing) = (before, after)"
    by fastforce
  show ?thesis
    unfolding merge_split [OF assms(4)] customer_part_merged [OF assms(1-3) parts]
    by (simp add: parts strip_both_snoc)
qed

definition example_crontab :: go_string where
  "example_crontab = unlines [''# mine'', ''5 4 * * 0 /home/me/backup'']"

theorem merge_replaces_block_witness:
  "merge (merge example_crontab (render example_provider 0 [example_job])) [] = example_crontab"
proof -
  have a: "list_all one_line_job [example_job]" "path_is_abs (logDir example_provider)"
    "newline \<notin> set (logDir example_provider)"
    and b: "merge example_crontab [] = example_crontab"
    by code_simp+
  from merge_replaces_block [OF a, of "[]" example_crontab 0] b show ?thesis by simp
qed

text \<open>A job the Agent accepts whose name is the end marker between two newlines: the block it is
  written in seems to end inside the job, and \<open>Remove\<close> leaves the rest of it in the file.\<close>

definition end_marker_job :: job where
  "end_marker_job = example_job\<lparr>job_Name := [newline] @ endMarker @ [newline]\<rparr>"

theorem end_marker_job_breaks_block:
  "Job_Validate end_marker_job = None \<and> \<not> one_line_job end_marker_job \<and>
   merge (merge example_crontab (render example_provider 0 [end_marker_job])) [] \<noteq>
     merge example_crontab []"
proof -
  have "Job_Validate end_marker_job = None" "\<not> one_line_job end_marker_job" by code_simp+
  moreover have "merge (merge example_crontab (render example_provider 0 [end_marker_job])) [] \<noteq>
     merge example_crontab []" by code_simp
  ultimately show ?thesis by blast
qed

lemma strip_trailing_parts: "\<exists>bs. ls = strip_trailing ls @ bs \<and> list_all blank bs"
proof -
  have "ls = strip_trailing ls @ rev (takeWhile blank (rev ls))"
    unfolding strip_trailing_def by (metis rev_append rev_rev_ident takeWhile_dropWhile_id)
  then show ?thesis by (metis list_all_iff set_rev set_takeWhileD)
qed

lemma strip_both_parts: "\<exists>cs ds. ls = cs @ strip_both ls @ ds \<and> list_all blank (cs @ ds)"
proof -
  obtain ds where "dropWhile blank ls = strip_both ls @ ds" "list_all blank ds"
    using strip_trailing_parts [of "dropWhile blank ls"] by (auto simp: strip_both_def)
  moreover have "ls = takeWhile blank ls @ dropWhile blank ls" "list_all blank (takeWhile blank ls)"
    by (simp_all add: list_all_iff) (blast dest: set_takeWhileD)
  ultimately show ?thesis by (metis append.assoc list_all_append)
qed

text \<open>C33: \<open>merge\<close> keeps what the customer wrote outside the block, in order and to the letter.
  The lines before the first begin marker come first, the lines after the end marker that follows
  it come last, and only blank lines next to the block or at the end of the file are dropped.\<close>

theorem merge_keeps_customer_lines:
  assumes "block = [] \<or> last block = newline"
  shows "\<exists>pre post bs cs ds.
    customer_part (split_on newline existing) = (pre @ bs, cs @ post @ ds) \<and>
    list_all blank (bs @ cs @ ds) \<and>
    merge existing block = unlines pre @ block @ unlines post"
proof -
  obtain before after where parts: "customer_part (split_on newline existing) = (before, after)"
    by fastforce
  obtain bs where "before = strip_trailing before @ bs" "list_all blank bs"
    using strip_trailing_parts by blast
  moreover obtain cs ds where "after = cs @ strip_both after @ ds" "list_all blank (cs @ ds)"
    using strip_both_parts by blast
  ultimately show ?thesis
    using merge_split [OF assms, of existing] parts
    by (intro exI [of _ "strip_trailing before"] exI [of _ "strip_both after"]
        exI [of _ bs] exI [of _ cs] exI [of _ ds]) auto
qed

theorem merge_keeps_customer_lines_witness:
  "\<exists>pre post bs cs ds.
    customer_part (split_on newline example_crontab) = (pre @ bs, cs @ post @ ds) \<and>
    list_all blank (bs @ cs @ ds) \<and>
    merge example_crontab (render example_provider 0 [example_job]) =
      unlines pre @ render example_provider 0 [example_job] @ unlines post"
proof -
  have "last (render example_provider 0 [example_job]) = newline" by code_simp
  then show ?thesis using merge_keeps_customer_lines by blast
qed

section \<open>Reading the identifiers back\<close>

lemma managed_ids_outside:
  "(\<forall>l \<in> set xs. \<not> is_begin l) \<Longrightarrow> managed_ids False (xs @ ys) = managed_ids False ys"
  by (induction xs) (simp_all add: Let_def)

lemma no_job_tag: "\<not> is_begin l \<Longrightarrow> \<not> is_end l \<Longrightarrow> index_of ''(job '' (trim_blanks l) = None \<Longrightarrow>
    managed_ids True (l # ls) = managed_ids True ls"
  by (simp add: cut_str_def)

lemma early_tag:
  assumes none: "index_of ''(job '' u = None" and sp: "u = w @ '' ''" and i: "i < length u"
  shows "\<not> has_prefix (drop i (u @ ''(job '' @ v)) ''(job ''"
proof
  assume pre: "has_prefix (drop i (u @ ''(job '' @ v)) ''(job ''"
  define x where "x = drop i u"
  have x: "x \<noteq> []" "last x = CHR '' ''" using i sp by (auto simp: x_def last_drop)
  have eq: "take 5 (x @ ''(job '' @ v) = ''(job ''"
    using pre i by (simp add: has_prefix_def x_def eval_nat_numeral)
  show False
  proof (cases "length x \<ge> 5")
    case True
    with eq have "take 5 x = ''(job ''" by simp
    then have "u = take i u @ ''(job '' @ drop 5 x"
      by (metis append_take_drop_id x_def)
    with none show False by (simp add: index_of_None)
  next
    case False
    then have k: "length x - 1 < 4" "length x \<le> 5" by simp_all
    have "last x = (x @ ''(job '' @ v) ! (length x - 1)"
      using x(1) by (simp add: last_conv_nth nth_append)
    also have "\<dots> = take 5 (x @ ''(job '' @ v) ! (length x - 1)"
      using k by (subst nth_take) simp_all
    finally have "''(job '' ! (length x - 1) = CHR '' ''" using x(2) by (simp only: eq)
    then show False
      using k(1) by (auto simp: less_Suc_eq numeral_eq_Suc nth_Cons split: nat.splits)
  qed
qed

lemma comment_line_id:
  assumes "index_of ''(job '' (''# '' @ job_Name j @ '' '') = None" "UUID (job_ID j) = None"
  shows "managed_ids True (comment_line j # ls) = job_ID j # managed_ids True ls"
proof -
  let ?u = "''# '' @ job_Name j @ '' ''"
  have line: "comment_line j = ?u @ ''(job '' @ job_ID j @ '')''" by (simp add: comment_line_def)
  have "index_of ''(job '' (comment_line j) = Some (length ?u)"
    unfolding line using early_tag [OF assms(1), of "''# '' @ job_Name j"] by (intro index_of_append) simp
  then have "cut_str ''(job '' (comment_line j) = (?u, job_ID j @ '')'', True)"
    by (simp add: cut_str_def line)
  moreover have "trim_blanks (comment_line j) = comment_line j"
    by (rule trim_blanks_last) (simp_all add: comment_line_def)
  moreover have "comment_line j \<noteq> beginMarker" "comment_line j \<noteq> endMarker"
    by (auto simp: comment_line_def beginMarker_def endMarker_def dest!: arg_cong [of _ _ last])
  moreover have "cut CHR '')'' (job_ID j @ '')'') = (job_ID j, [], True)"
    using UUID_no_special [OF assms(2)] by simp
  ultimately show ?thesis using assms(2) by simp
qed

definition untagged :: "cron_provider \<Rightarrow> job \<Rightarrow> bool" where
  "untagged p j \<longleftrightarrow>
     \<not> contains (''# '' @ job_Name j @ '' '') ''(job '' \<and> \<not> contains (entry_line p j) ''(job ''"

lemma managed_ids_jobs:
  "(\<forall>j \<in> set jobs. untagged p j \<and> UUID (job_ID j) = None) \<Longrightarrow>
     managed_ids True (job_lines p jobs @ endMarker # ls) = map job_ID jobs @ managed_ids False ls"
proof (induction jobs)
  case (Cons j jobs)
  have m: "\<not> is_begin (entry_line p j)" "\<not> is_end (entry_line p j)"
    using block_line_marker [of "entry_line p j" p 0 "[j]"]
    by (simp_all add: block_lines_def job_lines_def)
  have e: "trim_blanks (entry_line p j) = entry_line p j"
    by (rule trim_blanks_last) (simp_all add: entry_line_def)
  have "managed_ids True (job_lines p (j # jobs) @ endMarker # ls) =
      managed_ids True (comment_line j # entry_line p j # job_lines p jobs @ endMarker # ls)"
    by (simp add: job_lines_def)
  also have "\<dots> = job_ID j # managed_ids True (entry_line p j # job_lines p jobs @ endMarker # ls)"
    using Cons.prems by (intro comment_line_id) (simp_all add: untagged_def contains_def)
  also have "\<dots> = job_ID j # managed_ids True (job_lines p jobs @ endMarker # ls)"
    using Cons.prems m e no_job_tag [of "entry_line p j"] by (simp add: untagged_def contains_def)
  finally show ?case using Cons by simp
qed (simp add: job_lines_def)

lemma managed_ids_begin: "managed_ids b (beginMarker # ls) = managed_ids True ls"
  by simp

lemma header_untagged:
  "managed_ids True (written_line t # notice_line # ls) = managed_ids True ls"
proof -
  have "CHR ''('' \<notin> set (written_line t)" "CHR ''('' \<notin> set notice_line"
    using rfc3339_chars [of "CHR ''(''" t]
    by (auto simp: written_line_def notice_line_def char_class_defs)
  then have "index_of ''(job '' (trim_blanks l) = None" if "l \<in> {written_line t, notice_line}" for l
    using that set_trim_right [of _ l] by (intro index_of_absent [of "CHR ''(''"])
      (auto simp: trim_blanks_def)
  moreover have "\<not> is_begin l \<and> \<not> is_end l" if "l \<in> {written_line t, notice_line}" for l
    using that block_line_marker [of l undefined t "[]"] by (auto simp: block_lines_def)
  ultimately show ?thesis by (simp add: no_job_tag del: managed_ids.simps(2))
qed

text \<open>What \<open>render\<close> writes, \<open>managedJobIDs\<close> reads back: in a file that held no block before,
  the identifiers found are exactly those of the jobs written, in order, as long as no name or
  command contains the characters \<open>(job\<close> that introduces an identifier.\<close>

theorem managedJobIDs_reads_render:
  assumes "list_all one_line_job jobs" and "path_is_abs (logDir p)" and "newline \<notin> set (logDir p)"
    and "list_all (untagged p) jobs"
    and "\<not> list_ex is_begin (split_on newline existing)"
  shows "managedJobIDs (merge existing (render p t jobs)) = map job_ID jobs"
proof -
  have parts: "customer_part (split_on newline existing) = (split_on newline existing, [])"
    unfolding customer_part_def no_such_line [OF assms(5), THEN conjunct1]
      no_such_line [OF assms(5), THEN conjunct2] by simp
  have "\<forall>l \<in> set (strip_trailing (split_on newline existing)). \<not> is_begin l"
    using assms(5) set_strip_trailing by (fastforce simp: list_ex_iff)
  moreover have "\<forall>j \<in> set jobs. untagged p j \<and> UUID (job_ID j) = None"
    using assms(1,4) one_line_job_lines(1) by (auto simp: list_all_iff)
  moreover have "strip_both [] = []" by (simp add: strip_both_def strip_trailing_def)
  moreover have "managed_ids False [[]] = []" by code_simp
  ultimately show ?thesis
    by (simp only: managedJobIDs_def merged_lines [OF assms(1-3) parts] managed_ids_outside
        managed_ids_begin block_lines_def append_Cons append_Nil header_untagged managed_ids_jobs
        append_Nil2)
qed

theorem managedJobIDs_reads_render_witness:
  "managedJobIDs (merge example_crontab (render example_provider 0 [example_job])) =
     [''01234567-89ab-cdef-0123-456789abcdef'']"
proof -
  have a: "list_all one_line_job [example_job]" "path_is_abs (logDir example_provider)"
    "newline \<notin> set (logDir example_provider)" "list_all (untagged example_provider) [example_job]"
    "\<not> list_ex is_begin (split_on newline example_crontab)"
    by code_simp+
  from managedJobIDs_reads_render [OF a, of 0] show ?thesis by (simp add: example_job_def)
qed

end
