(* ===== verification/Cron_Host.thy ===== *)
theory Cron_Host
  imports Crontab "HOL-Library.AList" "HOL-Library.Multiset"
begin

text \<open>
  Package \<open>agent/internal/cron\<close>, \<open>cron.go\<close> and \<open>write\<close> of \<open>crontab.go\<close>: \<open>Apply\<close>, \<open>Remove\<close> and
  \<open>RemoveLog\<close> change the host, that is crontab files, job logs and the index of job names.

  The host is a record; a system call that can fail is named by \<open>cron_call\<close>, and which calls
  fail is an argument (\<open>fails\<close>), as are the clock, the random part of a temporary file's name
  and the order in which Go iterates over a map. File modes, and the content of a job's log, are
  not part of the state; a temporary file whose write failed is taken as empty.
\<close>

section \<open>The host\<close>

datatype cron_err = ErrUnavailable | ErrNoAccount | Invalid verr | IOError

type_synonym owner = "nat \<times> nat"

record cron_host =
  spool_present :: bool
  accounts :: "go_string \<rightharpoonup> owner"
  spool :: "go_string \<rightharpoonup> go_string"
  logs :: "go_string \<rightharpoonup> owner"
  index_file :: "go_string option"

datatype cron_call =
    LookupUser | ReadCrontab | RemoveCrontab | CreateTemp | WriteTemp | CloseTemp | ChmodTemp
  | ChownTemp | RenameTemp | RemoveTemp | MkdirLogs | ChmodLogDir | OpenLog | CloseLog
  | ChmodLog | ChownLog | RemoveLogFile | ReadIndex | MkdirIndex | WriteIndex

record cron_env =
  fails :: "cron_call \<Rightarrow> go_string \<Rightarrow> bool"
  now :: instant
  random :: go_string
  order :: "(go_string \<times> go_string) list \<Rightarrow> (go_string \<times> go_string) list"

definition temp_path :: "cron_env \<Rightarrow> go_string \<Rightarrow> go_string" where
  "temp_path env path = path_dir path @ ''/.jothost-crontab-'' @ random env"

text \<open>\<open>write\<close>: a temporary file beside the crontab, renamed over it at the end; the deferred
  removal of the temporary file runs on every path that created it.\<close>

definition drop_temp :: "cron_env \<Rightarrow> go_string \<Rightarrow> cron_host \<Rightarrow> cron_host" where
  "drop_temp env temp h =
     (if fails env RemoveTemp temp then h else h\<lparr>spool := (spool h)(temp := None)\<rparr>)"

definition write_crontab :: "cron_provider \<Rightarrow> cron_env \<Rightarrow> go_string \<Rightarrow> job list \<Rightarrow> cron_host \<Rightarrow>
    cron_err option \<times> cron_host" where
  "write_crontab p env path jobs h =
     (if fails env ReadCrontab path then (Some IOError, h)
      else
        let existing = (case spool h path of None \<Rightarrow> [] | Some content \<Rightarrow> content);
            block = (if jobs \<noteq> [] then render p (now env) jobs else []);
            merged = merge existing block
        in if trim_space merged = [] then
             (if fails env RemoveCrontab path then (Some IOError, h)
              else (None, h\<lparr>spool := (spool h)(path := None)\<rparr>))
           else
             let temp = temp_path env path in
               if fails env CreateTemp temp then (Some IOError, h)
               else
                 let empty = h\<lparr>spool := (spool h)(temp \<mapsto> [])\<rparr>;
                     full = h\<lparr>spool := (spool h)(temp \<mapsto> merged)\<rparr>
                 in if fails env WriteTemp temp then (Some IOError, drop_temp env temp empty)
                    else if fails env CloseTemp temp then (Some IOError, drop_temp env temp full)
                    else if fails env ChmodTemp temp then (Some IOError, drop_temp env temp full)
                    else if fails env ChownTemp temp then (Some IOError, drop_temp env temp full)
                    else if fails env RenameTemp temp then (Some IOError, drop_temp env temp full)
                    else (None, h\<lparr>spool := (spool h)(temp := None, path \<mapsto> merged)\<rparr>))"

subsection \<open>Job logs and the index of names\<close>

definition IndexPath :: "cron_provider \<Rightarrow> go_string" where
  "IndexPath p = path_join [logDir p, ''index'']"

definition ensureLog :: "cron_provider \<Rightarrow> cron_env \<Rightarrow> go_string \<Rightarrow> owner \<Rightarrow> cron_host \<Rightarrow>
    cron_err option \<times> cron_host" where
  "ensureLog p env jid owner h =
     (if fails env MkdirLogs (logDir p) then (Some IOError, h)
      else if fails env ChmodLogDir (logDir p) then (Some IOError, h)
      else
        let path = LogPath p jid in
          if fails env OpenLog path then (Some IOError, h)
          else
            let created = (case logs h path of
                             Some _ \<Rightarrow> h
                           | None \<Rightarrow> h\<lparr>logs := (logs h)(path \<mapsto> (0, 0))\<rparr>)
            in if fails env CloseLog path then (Some IOError, created)
               else if fails env ChmodLog path then (Some IOError, created)
               else if fails env ChownLog path then (Some IOError, created)
               else (None, h\<lparr>logs := (logs h)(path \<mapsto> owner)\<rparr>))"

definition name_of_line :: "go_string \<Rightarrow> (go_string \<times> go_string) option" where
  "name_of_line line =
     (let (jid, name, found) = cut CHR '' '' (trim_space line) in
        if \<not> found \<or> UUID jid \<noteq> None then None else Some (jid, name))"

definition parse_names :: "go_string \<Rightarrow> (go_string \<times> go_string) list" where
  "parse_names content =
     foldl (\<lambda>names line. case name_of_line line of
              None \<Rightarrow> names
            | Some (jid, name) \<Rightarrow> AList.update jid name names)
       [] (split_on newline content)"

definition Names :: "cron_provider \<Rightarrow> cron_env \<Rightarrow> cron_host \<Rightarrow>
    cron_err + (go_string \<times> go_string) list" where
  "Names p env h =
     (if fails env ReadIndex (IndexPath p) then Inl IOError
      else (case index_file h of None \<Rightarrow> Inr [] | Some content \<Rightarrow> Inr (parse_names content)))"

definition index_line :: "go_string \<times> go_string \<Rightarrow> go_string" where
  "index_line = (\<lambda>(jid, name). jid @ '' '' @ name @ [newline])"

definition writeIndex :: "cron_provider \<Rightarrow> cron_env \<Rightarrow> job list \<Rightarrow> cron_host \<Rightarrow>
    cron_err option \<times> cron_host" where
  "writeIndex p env jobs h =
     (case Names p env h of
        Inl err \<Rightarrow> (Some err, h)
      | Inr names \<Rightarrow>
          let existing = foldl (\<lambda>names j. AList.update (job_ID j) (job_Name j) names) names jobs;
              content = concat (map index_line
                (filter (\<lambda>(jid, name). UUID jid = None \<and>
                    \<not> contains_any name [newline, carriage_return])
                  (order env existing)))
          in if fails env MkdirIndex (logDir p) then (Some IOError, h)
             else if fails env WriteIndex (IndexPath p) then (Some IOError, h)
             else (None, h\<lparr>index_file := Some content\<rparr>))"

definition forgetName :: "cron_provider \<Rightarrow> cron_env \<Rightarrow> go_string \<Rightarrow> cron_host \<Rightarrow>
    cron_err option \<times> cron_host" where
  "forgetName p env jid h =
     (case Names p env h of
        Inl err \<Rightarrow> (Some err, h)
      | Inr names \<Rightarrow>
          if map_of names jid = None then (None, h)
          else if fails env WriteIndex (IndexPath p) then (Some IOError, h)
          else (None, h\<lparr>index_file :=
                  Some (concat (map index_line (order env (AList.delete jid names))))\<rparr>))"

definition RemoveLog :: "cron_provider \<Rightarrow> cron_env \<Rightarrow> go_string \<Rightarrow> cron_host \<Rightarrow>
    cron_err option \<times> cron_host" where
  "RemoveLog p env jid h =
     (case UUID jid of
        Some err \<Rightarrow> (Some (Invalid err), h)
      | None \<Rightarrow>
          if fails env RemoveLogFile (LogPath p jid) then (Some IOError, h)
          else forgetName p env jid (h\<lparr>logs := (logs h)(LogPath p jid := None)\<rparr>))"

subsection \<open>Apply and Remove\<close>

definition lookup :: "cron_env \<Rightarrow> go_string \<Rightarrow> cron_host \<Rightarrow> cron_err + owner option" where
  "lookup env account h =
     (if fails env LookupUser account then Inl IOError else Inr (accounts h account))"

text \<open>The loop of \<open>Apply\<close> over the jobs: validate, skip the disabled ones, create the log.\<close>

fun prepare :: "cron_provider \<Rightarrow> cron_env \<Rightarrow> owner \<Rightarrow> job list \<Rightarrow> cron_host \<Rightarrow>
    (cron_err + job list) \<times> cron_host" where
  "prepare p env owner [] h = (Inr [], h)"
| "prepare p env owner (j # js) h =
     (case Job_Validate j of
        Some err \<Rightarrow> (Inl (Invalid err), h)
      | None \<Rightarrow>
          if \<not> job_Enabled j then prepare p env owner js h
          else (case ensureLog p env (job_ID j) owner h of
                  (Some err, h') \<Rightarrow> (Inl err, h')
                | (None, h') \<Rightarrow>
                    (case prepare p env owner js h' of
                       (Inl err, h'') \<Rightarrow> (Inl err, h'')
                     | (Inr written, h'') \<Rightarrow> (Inr (j # written), h''))))"

definition Apply :: "cron_provider \<Rightarrow> cron_env \<Rightarrow> go_string \<Rightarrow> job list \<Rightarrow> cron_host \<Rightarrow>
    (cron_err + nat \<times> nat) \<times> cron_host" where
  "Apply p env account jobs h =
     (if \<not> spool_present h then (Inl ErrUnavailable, h)
      else (case SystemUser account of
        Some err \<Rightarrow> (Inl (Invalid err), h)
      | None \<Rightarrow>
         (case lookup env account h of
            Inl err \<Rightarrow> (Inl err, h)
          | Inr None \<Rightarrow> (Inl ErrNoAccount, h)
          | Inr (Some owner) \<Rightarrow>
             (case prepare p env owner jobs h of
                (Inl err, h1) \<Rightarrow> (Inl err, h1)
              | (Inr written, h1) \<Rightarrow>
                 (case write_crontab p env (crontabPath p account) written h1 of
                    (Some err, h2) \<Rightarrow> (Inl err, h2)
                  | (None, h2) \<Rightarrow>
                     (case writeIndex p env jobs h2 of
                        (Some err, h3) \<Rightarrow> (Inl err, h3)
                      | (None, h3) \<Rightarrow>
                          (Inr (length written, length jobs - length written), h3)))))))"

fun remove_logs :: "cron_provider \<Rightarrow> cron_env \<Rightarrow> go_string list \<Rightarrow> cron_host \<Rightarrow> nat \<times> cron_host" where
  "remove_logs p env [] h = (0, h)"
| "remove_logs p env (jid # ids) h =
     (case RemoveLog p env jid h of
        (Some _, h') \<Rightarrow> remove_logs p env ids h'
      | (None, h') \<Rightarrow> (case remove_logs p env ids h' of (n, h'') \<Rightarrow> (Suc n, h'')))"

definition Remove :: "cron_provider \<Rightarrow> cron_env \<Rightarrow> go_string \<Rightarrow> cron_host \<Rightarrow>
    (cron_err + nat) \<times> cron_host" where
  "Remove p env account h =
     (if \<not> spool_present h then (Inl ErrUnavailable, h)
      else (case SystemUser account of
        Some err \<Rightarrow> (Inl (Invalid err), h)
      | None \<Rightarrow>
          let path = crontabPath p account in
            if fails env ReadCrontab path then (Inl IOError, h)
            else
              let (removed, h1) =
                    (case spool h path of
                       None \<Rightarrow> (0, h)
                     | Some content \<Rightarrow> remove_logs p env (managedJobIDs content) h)
              in (case write_crontab p env path [] h1 of
                    (Some err, h2) \<Rightarrow> (Inl err, h2)
                  | (None, h2) \<Rightarrow> (Inr removed, h2))))"

section \<open>Crontab files are replaced atomically\<close>

lemma SystemUser_chars:
  assumes "SystemUser account = None"
  shows "plain account" "hd account \<noteq> CHR ''.''" "account \<noteq> []"
proof -
  have "matches_rx systemUserPattern account"
    using assms by (auto simp: SystemUser_def split: if_splits)
  note m = this [unfolded matches_user]
  have "user_char c" if "c \<in> set account" for c
    using that m by (cases account) (auto simp: user_char_def alnum_def list_all_iff)
  then have "CHR ''.'' \<notin> set account" "slash \<notin> set account"
    by (fastforce simp: user_char_def alnum_def char_class_defs)+
  moreover show "account \<noteq> []" using m by simp
  ultimately show "plain account" "hd account \<noteq> CHR ''.''"
    by (auto simp: plain_def) (metis hd_in_set)
qed

lemma last_split_on: "d \<notin> set b \<Longrightarrow> last (split_on d (a @ d # b)) = b"
  by (simp add: split_on_append_sep split_on_id)

lemma temp_path_differs:
  assumes "SystemUser account = None" "path_is_abs (spoolDir p)" "slash \<notin> set (random env)"
  shows "temp_path env (crontabPath p account) \<noteq> crontabPath p account"
proof
  note acc = SystemUser_chars [OF assms(1)]
  let ?t = "''.jothost-crontab-'' @ random env"
  assume "temp_path env (crontabPath p account) = crontabPath p account"
  moreover obtain q where "crontabPath p account = q @ slash # account"
    using abs_path_last [OF comps_of_plain] path_join_plain [OF assms(2) acc(1)]
    by (auto simp: crontabPath_def)
  ultimately have "last (split_on slash (path_dir (crontabPath p account) @ slash # ?t)) =
      last (split_on slash (q @ slash # account))"
    by (simp add: temp_path_def)
  then have "?t = account"
    using assms(3) acc(1) by (simp add: last_split_on plain_no_slash)
  with acc(2) show False by auto
qed

text \<open>What a successful write leaves in the spool.\<close>

definition new_crontab :: "cron_provider \<Rightarrow> instant \<Rightarrow> job list \<Rightarrow> go_string option \<Rightarrow> go_string option" where
  "new_crontab p t jobs old =
     (let merged = merge (case old of None \<Rightarrow> [] | Some content \<Rightarrow> content)
                     (if jobs \<noteq> [] then render p t jobs else [])
      in if trim_space merged = [] then None else Some merged)"

lemma drop_temp_spool: "q \<noteq> temp \<Longrightarrow> spool (drop_temp env temp h) q = spool h q"
  by (simp add: drop_temp_def)

lemma drop_temp_frame [simp]:
  "logs (drop_temp env temp h) = logs h" "index_file (drop_temp env temp h) = index_file h"
  by (simp_all add: drop_temp_def)

lemma write_outside:
  "write_crontab p env path jobs h = (r, h') \<Longrightarrow> q \<noteq> path \<Longrightarrow> q \<noteq> temp_path env path \<Longrightarrow>
     spool h' q = spool h q"
  by (auto simp: write_crontab_def Let_def drop_temp_spool split: if_splits)

lemma write_frame:
  "write_crontab p env path jobs h = (r, h') \<Longrightarrow> logs h' = logs h \<and> index_file h' = index_file h"
  by (auto simp: write_crontab_def Let_def split: if_splits)

lemma write_failed:
  "write_crontab p env path jobs h = (Some e, h') \<Longrightarrow> q \<noteq> temp_path env path \<Longrightarrow>
     spool h' q = spool h q"
  by (auto simp: write_crontab_def Let_def drop_temp_spool split: if_splits)

lemma write_done:
  "write_crontab p env path jobs h = (None, h') \<Longrightarrow> temp_path env path \<noteq> path \<Longrightarrow>
     spool h' path = new_crontab p (now env) jobs (spool h path)"
  by (auto simp: write_crontab_def new_crontab_def Let_def split: if_splits)

section \<open>Logs\<close>

lemma ensureLog_frame:
  "ensureLog p env i ow h = (r, h') \<Longrightarrow> spool h' = spool h \<and> index_file h' = index_file h"
  by (auto simp: ensureLog_def Let_def split: if_splits option.splits)

lemma ensureLog_done:
  "ensureLog p env i ow h = (None, h') \<Longrightarrow> logs h' = (logs h)(LogPath p i \<mapsto> ow)"
  by (auto simp: ensureLog_def Let_def split: if_splits)

lemma ensureLog_owned:
  "ensureLog p env i ow h = (r, h') \<Longrightarrow> logs h q = Some ow \<Longrightarrow> logs h' q = Some ow"
  by (auto simp: ensureLog_def Let_def split: if_splits option.splits)

lemma prepare_frame:
  "prepare p env ow jobs h = (r, h') \<Longrightarrow>
     spool h' = spool h \<and> index_file h' = index_file h \<and>
     (\<forall>q. logs h q = Some ow \<longrightarrow> logs h' q = Some ow)"
proof (induction jobs arbitrary: h r h')
  case (Cons j js)
  then show ?case
    by (auto split: option.splits if_splits prod.splits sum.splits dest: ensureLog_frame ensureLog_owned)
qed simp

lemma prepare_done:
  "prepare p env ow jobs h = (Inr written, h') \<Longrightarrow>
     written = filter job_Enabled jobs \<and> list_all (\<lambda>j. Job_Validate j = None) jobs \<and>
     (\<forall>j \<in> set written. logs h' (LogPath p (job_ID j)) = Some ow)"
proof (induction jobs arbitrary: h written)
  case (Cons j js)
  show ?case
  proof (cases "job_Enabled j")
    case True
    with Cons.prems obtain h1 rest where 1: "Job_Validate j = None"
      "ensureLog p env (job_ID j) ow h = (None, h1)" "prepare p env ow js h1 = (Inr rest, h')"
      "written = j # rest"
      by (auto split: option.splits prod.splits sum.splits)
    have "logs h1 (LogPath p (job_ID j)) = Some ow" using ensureLog_done [OF 1(2)] by simp
    with prepare_frame [OF 1(3)] have "logs h' (LogPath p (job_ID j)) = Some ow" by blast
    with Cons.IH [OF 1(3)] 1 True show ?thesis by simp
  qed (use Cons in \<open>auto split: option.splits\<close>)
qed simp

lemma writeIndex_frame:
  "writeIndex p env jobs h = (r, h') \<Longrightarrow> spool h' = spool h \<and> logs h' = logs h"
  by (auto simp: writeIndex_def Let_def split: if_splits sum.splits)

section \<open>Apply\<close>

text \<open>The ways \<open>Apply\<close> can go once its account is known.\<close>

lemma Apply_cases:
  assumes "Apply p env account jobs h = (r, h')"
  obtains (refused) e where "r = Inl e" "h' = h"
  | (unprepared) ow e where "r = Inl e" "prepare p env ow jobs h = (Inl e, h')"
  | (unwritten) ow w h1 e where "r = Inl e" "prepare p env ow jobs h = (Inr w, h1)"
      "write_crontab p env (crontabPath p account) w h1 = (Some e, h')"
  | (unindexed) ow w h1 h2 e where "r = Inl e" "prepare p env ow jobs h = (Inr w, h1)"
      "write_crontab p env (crontabPath p account) w h1 = (None, h2)"
      "writeIndex p env jobs h2 = (Some e, h')" "SystemUser account = None"
  | (finished) ow w h1 h2 where "r = Inr (length w, length jobs - length w)"
      "SystemUser account = None" "accounts h account = Some ow"
      "prepare p env ow jobs h = (Inr w, h1)"
      "write_crontab p env (crontabPath p account) w h1 = (None, h2)"
      "writeIndex p env jobs h2 = (None, h')"
  using assms unfolding Apply_def lookup_def
  by (auto split: if_splits option.splits sum.splits prod.splits)

lemma Apply_outside:
  assumes "Apply p env account jobs h = (r, h')" "q \<noteq> crontabPath p account"
    "q \<noteq> temp_path env (crontabPath p account)"
  shows "spool h' q = spool h q"
  using assms(1)
  by (cases rule: Apply_cases)
    (use assms(2,3) in \<open>auto dest!: prepare_frame writeIndex_frame write_outside [where q = q]\<close>)

text \<open>C31: a successful \<open>Apply\<close> has validated every job; the account's crontab is the old one with
  its block replaced by the enabled jobs (or is removed when nothing is left), each enabled job has
  a log owned by the account, and no other account's crontab changed.\<close>

theorem Apply_success:
  assumes "Apply p env account jobs h = (Inr (n, skipped), h')"
    and "path_is_abs (spoolDir p)" and "slash \<notin> set (random env)"
  shows "list_all (\<lambda>j. Job_Validate j = None) jobs \<and>
    n = length (filter job_Enabled jobs) \<and> skipped = length jobs - n \<and>
    spool h' (crontabPath p account) =
      new_crontab p (now env) (filter job_Enabled jobs) (spool h (crontabPath p account)) \<and>
    (\<forall>q. q \<noteq> crontabPath p account \<and> q \<noteq> temp_path env (crontabPath p account)
       \<longrightarrow> spool h' q = spool h q) \<and>
    (\<exists>ow. accounts h account = Some ow \<and>
       (\<forall>j \<in> set jobs. job_Enabled j \<longrightarrow> logs h' (LogPath p (job_ID j)) = Some ow))"
  using assms(1)
proof (cases rule: Apply_cases)
  case (finished ow w h1 h2)
  note prep = prepare_done [OF finished(4)] prepare_frame [OF finished(4)]
  note temp = temp_path_differs [OF finished(2) assms(2,3)]
  have "spool h' (crontabPath p account) = new_crontab p (now env) w (spool h (crontabPath p account))"
    using write_done [OF finished(5) temp] prep(2) writeIndex_frame [OF finished(6)] by simp
  moreover have "logs h' = logs h1" using write_frame [OF finished(5)] writeIndex_frame [OF finished(6)] by simp
  ultimately show ?thesis
    using prep Apply_outside [OF assms(1)] finished(1,3) by auto
qed auto

definition example_env :: cron_env where
  "example_env = \<lparr>fails = \<lambda>_ _. False, now = 0, random = ''1234'', order = id\<rparr>"

definition example_host :: cron_host where
  "example_host = \<lparr>spool_present = True, accounts = [''web_site'' \<mapsto> (1001, 1001)],
     spool = [''/var/spool/cron/crontabs/web_site'' \<mapsto> example_crontab], logs = Map.empty,
     index_file = None\<rparr>"

theorem Apply_success_witness:
  "fst (Apply example_provider example_env ''web_site'' [example_job] example_host) = Inr (1, 0) \<and>
   spool (snd (Apply example_provider example_env ''web_site'' [example_job] example_host))
     ''/var/spool/cron/crontabs/web_site'' =
   new_crontab example_provider 0 [example_job] (Some example_crontab)"
proof -
  let ?a = "Apply example_provider example_env ''web_site'' [example_job] example_host"
  have f: "fst ?a = Inr (1, 0)" by code_simp
  then have a: "?a = (Inr (1, 0), snd ?a)" by (metis prod.collapse)
  have b: "path_is_abs (spoolDir example_provider)" "slash \<notin> set (random example_env)"
    and c: "crontabPath example_provider ''web_site'' = ''/var/spool/cron/crontabs/web_site''"
    and d: "filter job_Enabled [example_job] = [example_job]" "now example_env = 0"
    and e: "spool example_host ''/var/spool/cron/crontabs/web_site'' = Some example_crontab"
    by code_simp+
  from Apply_success [OF a b] f show ?thesis unfolding c d e by blast
qed

text \<open>C34: when \<open>Apply\<close> reports an error before it comes to the index of names, whatever system
  call failed, every crontab is what it was: the file is replaced by a rename or not at all. Only
  the name of its own temporary file is excepted.\<close>

theorem Apply_failure_keeps_crontabs:
  assumes "Apply p env account jobs h = (Inl e, h')"
    and "\<not> fails env ReadIndex (IndexPath p)" and "\<not> fails env MkdirIndex (logDir p)"
    and "\<not> fails env WriteIndex (IndexPath p)"
    and "q \<noteq> temp_path env (crontabPath p account)"
  shows "spool h' q = spool h q"
  using assms(1)
proof (cases rule: Apply_cases)
  case (unindexed ow w h1 h2 e)
  then show ?thesis
    using assms(2-4) by (auto simp: writeIndex_def Names_def Let_def split: option.splits)
qed (use assms(5) in \<open>auto dest!: prepare_frame write_failed [where q = q]\<close>)

theorem Apply_failure_keeps_crontabs_witness:
  "fst (Apply example_provider (example_env\<lparr>fails := \<lambda>c _. c = RenameTemp\<rparr>) ''web_site''
      [example_job] example_host) = Inl IOError \<and>
   spool (snd (Apply example_provider (example_env\<lparr>fails := \<lambda>c _. c = RenameTemp\<rparr>) ''web_site''
      [example_job] example_host)) ''/var/spool/cron/crontabs/web_site'' = Some example_crontab"
proof -
  let ?env = "example_env\<lparr>fails := \<lambda>c _. c = RenameTemp\<rparr>"
  let ?a = "Apply example_provider ?env ''web_site'' [example_job] example_host"
  have f: "fst ?a = Inl IOError" by code_simp
  then have a: "?a = (Inl IOError, snd ?a)" by (metis prod.collapse)
  have b: "\<not> fails ?env ReadIndex (IndexPath example_provider)"
    "\<not> fails ?env MkdirIndex (logDir example_provider)"
    "\<not> fails ?env WriteIndex (IndexPath example_provider)"
    "''/var/spool/cron/crontabs/web_site'' \<noteq>
       temp_path ?env (crontabPath example_provider ''web_site'')"
    and e: "spool example_host ''/var/spool/cron/crontabs/web_site'' = Some example_crontab"
    by code_simp+
  from Apply_failure_keeps_crontabs [OF a b] f show ?thesis unfolding e by blast
qed

section \<open>The index of job names\<close>

lemma trim_right_keep:
  assumes "u \<noteq> []" "\<not> P (last u)"
  shows "trim_right P (u @ s) = u @ trim_right P s"
proof -
  have "dropWhile P (rev u) = rev u" using assms by (cases u rule: rev_cases) auto
  then show ?thesis by (simp add: trim_right_def dropWhile_append)
qed

lemma trim_right_Cons: "trim_right P (c # s) = (if trim_right P s = [] \<and> P c then [] else c # trim_right P s)"
  by (simp add: trim_right_def dropWhile_append)

lemma UUID_ends: "UUID i = None \<Longrightarrow> i \<noteq> [] \<and> (\<forall>c \<in> set i. \<not> is_space c)"
  using UUID_chars [of i] by (force simp: is_hex_def char_class_defs UUID_def split: if_splits)

lemma name_of_index_line:
  assumes "UUID i = None"
  shows "name_of_line (i @ CHR '' '' # name) =
    (if trim_right is_space name = [] then None else Some (i, trim_right is_space name))"
proof -
  note i = UUID_ends [OF assms]
  have "\<not> is_space (hd i)" "\<not> is_space (last i)" using i by simp_all
  then have "trim_space (i @ CHR '' '' # name) = i @ trim_right is_space (CHR '' '' # name)"
    using i trim_right_keep [of i is_space] by (cases i) (simp_all add: trim_space_def trim_both_def trim_left_def)
  moreover have "CHR '' '' \<notin> set i" using i by auto
  ultimately show ?thesis
    using assms by (simp add: name_of_line_def trim_right_Cons)
qed

abbreviation add_name :: "(go_string \<times> go_string) list \<Rightarrow> go_string \<Rightarrow> (go_string \<times> go_string) list" where
  "add_name \<equiv> (\<lambda>names line. case name_of_line line of
              None \<Rightarrow> names
            | Some (i, name) \<Rightarrow> AList.update i name names)"

lemma add_names_distinct: "distinct (map fst acc) \<Longrightarrow> distinct (map fst (foldl add_name acc ls))"
  by (induction ls arbitrary: acc) (simp_all add: distinct_update split: option.splits)

lemma add_names_other:
  "(\<forall>l \<in> set ls. \<forall>i n. name_of_line l = Some (i, n) \<longrightarrow> i \<noteq> k) \<Longrightarrow>
     map_of (foldl add_name acc ls) k = map_of acc k"
  by (induction ls arbitrary: acc) (auto simp: update_conv' split: option.splits)

lemma name_of_empty [simp]: "name_of_line [] = None"
  by (simp add: name_of_line_def trim_space_def trim_both_none)

lemma index_lines: "concat (map index_line xs) = unlines (map (\<lambda>(i, n). i @ CHR '' '' # n) xs)"
  by (induction xs) (auto simp: index_line_def)

lemma parse_index:
  assumes valid: "\<forall>(i, n) \<in> set xs. UUID i = None \<and> newline \<notin> set n"
    and "distinct (map fst xs)" "(k, v) \<in> set xs" "trim_right is_space v = v" "v \<noteq> []"
  shows "map_of (parse_names (concat (map index_line xs))) k = Some v"
proof -
  let ?line = "\<lambda>(i, n). i @ CHR '' '' # n"
  obtain as bs where xs: "xs = as @ (k, v) # bs" using assms(3) by (meson split_list)
  have other: "\<forall>l \<in> set (map ?line zs). \<forall>i n. name_of_line l = Some (i, n) \<longrightarrow> i \<noteq> k"
    if "set zs \<subseteq> set xs" "k \<notin> fst ` set zs" for zs
  proof (intro ballI allI impI)
    fix l i n assume l: "l \<in> set (map ?line zs)" "name_of_line l = Some (i, n)"
    then obtain i' n' where z: "(i', n') \<in> set zs" "l = i' @ CHR '' '' # n'" by auto
    with that(1) valid have "UUID i' = None" by auto
    with l z have "i = i'" by (auto simp: name_of_index_line split: if_splits)
    with z that(2) show "i \<noteq> k" by force
  qed
  have "\<forall>l \<in> set (map ?line xs). newline \<notin> set l"
    using valid UUID_no_special by fastforce
  then have "split_on newline (concat (map index_line xs)) = map ?line xs @ [[]]"
    unfolding index_lines by (rule split_unlines)
  then have p: "parse_names (concat (map index_line xs)) =
      foldl add_name (add_name (foldl add_name [] (map ?line as)) (?line (k, v))) (map ?line bs)"
    unfolding parse_names_def by (simp only: xs) simp
  have "set bs \<subseteq> set xs" "k \<notin> fst ` set bs" using assms(2) xs by auto
  note skip = add_names_other [OF other [OF this]]
  have "name_of_line (?line (k, v)) = Some (k, v)"
    using valid assms(4,5) xs by (simp add: name_of_index_line)
  then show ?thesis unfolding p skip by (simp add: update_conv')
qed

lemma update_jobs:
  "distinct (map job_ID jobs) \<Longrightarrow> j \<in> set jobs \<Longrightarrow>
     map_of (foldl (\<lambda>names j. AList.update (job_ID j) (job_Name j) names) acc jobs) (job_ID j) =
       Some (job_Name j)"
proof -
  have keep: "job_ID x \<notin> job_ID ` set js \<Longrightarrow>
     map_of (foldl (\<lambda>names j. AList.update (job_ID j) (job_Name j) names) acc js) (job_ID x) =
       map_of acc (job_ID x)" for x js acc
    by (induction js arbitrary: acc) (simp_all add: update_conv')
  show "distinct (map job_ID jobs) \<Longrightarrow> j \<in> set jobs \<Longrightarrow> ?thesis"
    by (induction jobs arbitrary: acc) (auto simp: keep update_conv')
qed

lemma update_jobs_distinct:
  "distinct (map fst acc) \<Longrightarrow>
     distinct (map fst (foldl (\<lambda>names j. AList.update (job_ID j) (job_Name j) names) acc jobs))"
  by (induction jobs arbitrary: acc) (simp_all add: distinct_update)

lemma clean_job_name:
  assumes "clean_job j"
  shows "trim_right is_space (job_Name j) = job_Name j" "job_Name j \<noteq> []"
    "\<not> contains_any (job_Name j) [newline, carriage_return]"
proof -
  have n: "JobName (job_Name j) = None" "trim_space (job_Name j) = job_Name j"
    using assms by (simp_all add: clean_job_def Job_Validate_def)
  then show ne: "job_Name j \<noteq> []" and "\<not> contains_any (job_Name j) [newline, carriage_return]"
    by (auto simp: JobName_def contains_any_iff Let_def split: if_splits)
  have "\<not> is_space (last (job_Name j))" using trim_space_last [of "job_Name j"] n(2) ne by simp
  then show "trim_right is_space (job_Name j) = job_Name j" by (simp add: trim_right_id)
qed

text \<open>The index of job names is read back as it was written, whatever order Go iterates the
  map in: after a successful \<open>writeIndex\<close>, \<open>Names\<close> gives each job just written its own name.\<close>

theorem writeIndex_then_Names:
  assumes "writeIndex p env jobs h = (None, h')"
    and "list_all clean_job jobs" and "distinct (map job_ID jobs)"
    and "\<And>xs. mset (order env xs) = mset xs"
  shows "\<exists>names. Names p env h' = Inr names \<and>
    (\<forall>j \<in> set jobs. map_of names (job_ID j) = Some (job_Name j))"
proof -
  let ?ok = "\<lambda>(i, name). UUID i = None \<and> \<not> contains_any name [newline, carriage_return]"
  from assms(1) obtain names where old: "Names p env h = Inr names"
    by (cases "Names p env h") (simp_all add: writeIndex_def)
  define ex where "ex = foldl (\<lambda>names j. AList.update (job_ID j) (job_Name j) names) names jobs"
  define xs where "xs = filter ?ok (order env ex)"
  have idx: "index_file h' = Some (concat (map index_line xs))" and rd: "\<not> fails env ReadIndex (IndexPath p)"
    using assms(1) old
    by (auto simp: writeIndex_def Let_def xs_def ex_def Names_def split: if_splits)
  have "distinct (map fst names)"
    using old add_names_distinct [of "[]"]
    by (auto simp: Names_def parse_names_def split: if_splits option.splits)
  then have "distinct (map fst ex)" by (simp add: ex_def update_jobs_distinct)
  moreover have "mset (map fst (order env ex)) = mset (map fst ex)" by (simp add: assms(4))
  ultimately have "distinct (map fst (order env ex))" using mset_eq_imp_distinct_iff by blast
  then have d: "distinct (map fst xs)" by (simp add: xs_def distinct_map_filter)
  have v: "\<forall>(i, n) \<in> set xs. UUID i = None \<and> newline \<notin> set n"
    by (auto simp: xs_def contains_any_iff)
  have "map_of (parse_names (concat (map index_line xs))) (job_ID j) = Some (job_Name j)"
    if j: "j \<in> set jobs" for j
  proof -
    have c: "clean_job j" using assms(2) j by (simp add: list_all_iff)
    have "(job_ID j, job_Name j) \<in> set ex"
      using update_jobs [OF assms(3) j] unfolding ex_def by (rule map_of_SomeD)
    then have "(job_ID j, job_Name j) \<in> set xs"
      using clean_job_name(3) [OF c] one_line_job_lines(1) [OF clean_one_line [OF c]] assms(4) [THEN mset_eq_setD]
      by (simp add: xs_def)
    then show ?thesis using parse_index [OF v d] clean_job_name [OF c] by blast
  qed
  then show ?thesis using idx rd by (simp add: Names_def)
qed

theorem writeIndex_then_Names_witness:
  "\<exists>names. Names example_provider example_env
      (snd (writeIndex example_provider example_env [example_job] example_host)) = Inr names \<and>
    map_of names (job_ID example_job) = Some ''nightly''"
proof -
  let ?w = "writeIndex example_provider example_env [example_job] example_host"
  have "fst ?w = None" by code_simp
  then have a: "?w = (None, snd ?w)" by (metis prod.collapse)
  have b: "list_all clean_job [example_job]" "distinct (map job_ID [example_job])"
    and c: "job_Name example_job = ''nightly''" by code_simp+
  have "mset (order example_env xs) = mset xs" for xs by (simp add: example_env_def)
  from writeIndex_then_Names [OF a b this] c show ?thesis by auto
qed

section \<open>Values that are checked in one form and written in another\<close>

text \<open>\<open>Job.Validate\<close> checks names and commands with their surrounding white space removed, but
  \<open>render\<close> writes them as they came: a job whose name starts with a newline is accepted, and what
  follows the newline is a crontab line of its own.\<close>

definition smuggling_job :: job where
  "smuggling_job = example_job\<lparr>job_Name := [newline] @ ''* * * * * /tmp/x #''\<rparr>"

theorem validated_job_adds_a_line:
  "Job_Validate smuggling_job = None \<and>
   ''* * * * * /tmp/x # (job 01234567-89ab-cdef-0123-456789abcdef)'' \<in>
     set (split_on newline (render example_provider 0 [smuggling_job]))"
  by code_simp

text \<open>A job's name can carry another job's identifier in the form \<open>managedJobIDs\<close> looks for;
  the name is accepted, and \<open>Remove\<close> then deletes the log of the other job, of whatever account,
  and leaves that of the job it removed.\<close>

definition naming_job :: job where
  "naming_job = example_job\<lparr>job_Name := ''a (job ffffffff-ffff-ffff-ffff-ffffffffffff)''\<rparr>"

definition example_logs :: "go_string \<rightharpoonup> owner" where
  "example_logs =
     [''/var/log/jothost/cron/01234567-89ab-cdef-0123-456789abcdef.log'' \<mapsto> (1001, 1001),
      ''/var/log/jothost/cron/ffffffff-ffff-ffff-ffff-ffffffffffff.log'' \<mapsto> (1002, 1002)]"

theorem Remove_deletes_named_log:
  "clean_job naming_job \<and>
   (let h = example_host\<lparr>logs := example_logs,
              spool := [''/var/spool/cron/crontabs/web_site'' \<mapsto>
                          render example_provider 0 [naming_job]]\<rparr>;
        h' = snd (Remove example_provider example_env ''web_site'' h)
    in logs h' ''/var/log/jothost/cron/ffffffff-ffff-ffff-ffff-ffffffffffff.log'' = None \<and>
       logs h' ''/var/log/jothost/cron/01234567-89ab-cdef-0123-456789abcdef.log'' = Some (1001, 1001))"
  by code_simp

end
