(* ===== verification/Validate_Nginx.thy ===== *)
theory Validate_Nginx
  imports Validate_Name
begin

text \<open>
  Package \<open>shared/validate\<close>, \<open>nginx.go\<close>: the block of extra nginx directives a site may carry. Two
  byte scanners, \<open>checkBalance\<close> and \<open>splitStatements\<close>, follow nginx's rules for quotes and
  comments; their loop variables are the states of two machines, each iteration one step.
\<close>

section \<open>The scanners\<close>

datatype scan_mode = Plain | InSingle | InDouble | InComment

abbreviation single_quote :: char where "single_quote \<equiv> CHR 0x27"
abbreviation double_quote :: char where "double_quote \<equiv> CHR 0x22"
abbreviation backslash :: char where "backslash \<equiv> CHR 0x5C"
abbreviation tab :: char where "tab \<equiv> CHR 0x09"

definition MaxDirectivesLength :: nat where
  "MaxDirectivesLength = 16 * 1024"

definition forbiddenDirectives :: "go_string list" where
  "forbiddenDirectives =
     [''include'', ''load_module'', ''http'', ''events'', ''stream'', ''mail'', ''user'', ''pid'',
      ''worker_processes'', ''worker_connections'', ''daemon'', ''master_process'',
      ''lua_package_path'', ''lua_shared_dict'']"

text \<open>\<open>checkBalance\<close>: the mode stands for the three flags of the source, at most one of which is
  set. The result is the mode and the depth at the end, or nothing when the depth went below
  zero. An escaped byte inside a string is skipped with its backslash.\<close>

fun balance :: "scan_mode \<Rightarrow> bool \<Rightarrow> int \<Rightarrow> go_string \<Rightarrow> (scan_mode \<times> int) option" where
  "balance mode boundary depth [] = Some (mode, depth)"
| "balance InComment boundary depth (c # s) =
     (if c = newline then balance Plain True depth s else balance InComment boundary depth s)"
| "balance InSingle boundary depth (c # s) =
     (if c = backslash then balance InSingle boundary depth (drop 1 s)
      else if c = single_quote then balance Plain False depth s
      else balance InSingle boundary depth s)"
| "balance InDouble boundary depth (c # s) =
     (if c = backslash then balance InDouble boundary depth (drop 1 s)
      else if c = double_quote then balance Plain False depth s
      else balance InDouble boundary depth s)"
| "balance Plain boundary depth (c # s) =
     (if c = CHR ''#'' then balance (if boundary then InComment else Plain) False depth s
      else if c = single_quote then balance (if boundary then InSingle else Plain) False depth s
      else if c = double_quote then balance (if boundary then InDouble else Plain) False depth s
      else if c = CHR ''{'' then balance Plain True (depth + 1) s
      else if c = CHR ''}'' then
        (if depth - 1 < 0 then None else balance Plain True (depth - 1) s)
      else if c \<in> {CHR '' '', tab, newline, carriage_return, CHR '';''} then balance Plain True depth s
      else balance Plain False depth s)"

definition checkBalance :: "go_string \<Rightarrow> verr option" where
  "checkBalance directives =
     (case balance Plain True 0 directives of
        None \<Rightarrow> Some ErrDirectivesUnbalanced
      | Some (mode, depth) \<Rightarrow>
          if mode = InSingle \<or> mode = InDouble then Some ErrDirectivesUnbalanced
          else if depth \<noteq> 0 then Some ErrDirectivesUnbalanced
          else None)"

text \<open>\<open>splitStatements\<close>: the text of the current statement is kept in the order of the source, the
  statements finished so far come first in the result.\<close>

definition flush :: "go_string \<Rightarrow> go_string list" where
  "flush current = (if trim_space current \<noteq> [] then [trim_space current] else [])"

fun statements :: "scan_mode \<Rightarrow> bool \<Rightarrow> go_string \<Rightarrow> go_string \<Rightarrow> go_string list" where
  "statements mode boundary current [] = flush current"
| "statements InComment boundary current (c # s) =
     (if c = newline then statements Plain True current s
      else statements InComment boundary current s)"
| "statements InSingle boundary current (c # s) =
     (if c = backslash \<and> s \<noteq> [] then statements InSingle boundary (current @ [c, hd s]) (tl s)
      else if c = single_quote then statements Plain False (current @ [c]) s
      else statements InSingle boundary (current @ [c]) s)"
| "statements InDouble boundary current (c # s) =
     (if c = backslash \<and> s \<noteq> [] then statements InDouble boundary (current @ [c, hd s]) (tl s)
      else if c = double_quote then statements Plain False (current @ [c]) s
      else statements InDouble boundary (current @ [c]) s)"
| "statements Plain boundary current (c # s) =
     (if c = CHR ''#'' then
        (if boundary then flush current @ statements InComment False [] s
         else statements Plain False (current @ [c]) s)
      else if c = single_quote then
        statements (if boundary then InSingle else Plain) False (current @ [c]) s
      else if c = double_quote then
        statements (if boundary then InDouble else Plain) False (current @ [c]) s
      else if c \<in> {CHR '';'', CHR ''{'', CHR ''}'', newline} then
        flush current @ statements Plain True [] s
      else if c \<in> {CHR '' '', tab, carriage_return} then
        statements Plain True (current @ [c]) s
      else statements Plain False (current @ [c]) s)"

definition splitStatements :: "go_string \<Rightarrow> go_string list" where
  "splitStatements directives = statements Plain True [] directives"

definition firstWord :: "go_string \<Rightarrow> go_string" where
  "firstWord statement = (case go_fields statement of [] \<Rightarrow> [] | w # _ \<Rightarrow> w)"

definition checkForbidden :: "go_string \<Rightarrow> verr option" where
  "checkForbidden directives =
     check_each
       (\<lambda>statement.
          let name = firstWord statement in
            if name = [] then None
            else check_each (\<lambda>forbidden. fail_if (equal_fold name forbidden) ErrDirectiveForbidden)
                   forbiddenDirectives)
       (splitStatements directives)"

text \<open>The character loop runs over runes; a rune beyond ASCII is accepted, and its bytes are above
  0x7f, so the loop over bytes refuses the same texts.\<close>

definition NginxDirectives :: "go_string \<Rightarrow> verr option" where
  "NginxDirectives directives =
     (if trim_space directives = [] then None
      else if length directives > MaxDirectivesLength then Some ErrDirectivesTooLong
      else or_else
        (check_each
           (\<lambda>r. if r = newline \<or> r = carriage_return \<or> r = tab then None
                 else fail_if (is_control r) ErrDirectivesInvalidCharacter)
           directives)
        (or_else (checkBalance directives) (checkForbidden directives)))"

section \<open>The block stays inside its server\<close>

text \<open>A reference for the depth of each position: what every byte of a text adds to it. Bytes in
  strings and comments, and escaped bytes, add nothing.\<close>

fun effects :: "scan_mode \<Rightarrow> bool \<Rightarrow> go_string \<Rightarrow> int list" where
  "effects mode boundary [] = []"
| "effects InComment boundary (c # s) =
     0 # (if c = newline then effects Plain True s else effects InComment boundary s)"
| "effects InSingle boundary (c # s) =
     0 # (if c = backslash then map (\<lambda>_. 0) (take 1 s) @ effects InSingle boundary (drop 1 s)
          else if c = single_quote then effects Plain False s
          else effects InSingle boundary s)"
| "effects InDouble boundary (c # s) =
     0 # (if c = backslash then map (\<lambda>_. 0) (take 1 s) @ effects InDouble boundary (drop 1 s)
          else if c = double_quote then effects Plain False s
          else effects InDouble boundary s)"
| "effects Plain boundary (c # s) =
     (if c = CHR ''{'' then 1 else if c = CHR ''}'' then - 1 else 0) #
     effects
       (if boundary \<and> c = CHR ''#'' then InComment
        else if boundary \<and> c = single_quote then InSingle
        else if boundary \<and> c = double_quote then InDouble
        else Plain)
       (c \<in> {CHR ''{'', CHR ''}'', CHR '' '', tab, newline, carriage_return, CHR '';''}) s"

definition depth_at :: "go_string \<Rightarrow> nat \<Rightarrow> int" where
  "depth_at s n = sum_list (take n (effects Plain True s))"

lemma length_effects [simp]: "length (effects m b s) = length s"
  by (induction m b s rule: effects.induct) auto

fun run :: "int \<Rightarrow> int list \<Rightarrow> int option" where
  "run d [] = Some d"
| "run d (e # es) = (if d + e < 0 then None else run (d + e) es)"

lemma run_zeros: "0 \<le> d \<Longrightarrow> run d (map (\<lambda>_. 0) xs @ es) = run d es"
  by (induction xs) auto

lemma run_Some:
  "0 \<le> d \<Longrightarrow> run d es = Some d' \<longleftrightarrow> d' = d + sum_list es \<and> (\<forall>n. 0 \<le> d + sum_list (take n es))"
proof (induction es arbitrary: d)
  case (Cons e es)
  have "(\<forall>n. 0 \<le> d + sum_list (take n (e # es))) \<longleftrightarrow> (\<forall>n. 0 \<le> d + e + sum_list (take n es))"
    using Cons.prems by (auto simp: take_Cons' add.assoc)
  then show ?case using Cons by (auto simp: add.assoc dest: spec [of _ 0])
qed auto

lemma balance_run: "0 \<le> d \<Longrightarrow> map_option snd (balance m b d s) = run d (effects m b s)"
  by (induction m b d s rule: balance.induct) (simp_all add: run_zeros, (intro impI conjI; simp))

lemma balance_depth:
  "balance Plain True 0 s = Some (m, d) \<Longrightarrow>
     d = depth_at s (length s) \<and> (\<forall>n. 0 \<le> depth_at s n)"
  using balance_run [of 0 Plain True s] run_Some [of 0 "effects Plain True s" d]
  by (simp add: depth_at_def)

lemma effects_no_braces:
  "CHR ''{'' \<notin> set s \<Longrightarrow> CHR ''}'' \<notin> set s \<Longrightarrow> e \<in> set (effects m b s) \<Longrightarrow> e = 0"
  by (induction m b s rule: effects.induct)
    (auto split: if_splits dest: in_set_dropD in_set_takeD)

lemma dropWhile_nil: "dropWhile P xs = [] \<Longrightarrow> x \<in> set xs \<Longrightarrow> P x"
  by (induction xs) (auto split: if_splits)

lemma trim_space_nil: "trim_space s = [] \<Longrightarrow> c \<in> set s \<Longrightarrow> is_space c"
proof -
  assume "trim_space s = []" and c: "c \<in> set s"
  then have "dropWhile is_space (rev (dropWhile is_space s)) = []"
    by (simp add: trim_space_def trim_both_def trim_right_def trim_left_def)
  moreover have "c \<in> set (takeWhile is_space s) \<or> c \<in> set (dropWhile is_space s)"
    using c by (metis Un_iff set_append takeWhile_dropWhile_id)
  ultimately show ?thesis by (auto dest: set_takeWhileD dropWhile_nil)
qed

text \<open>An accepted block of directives stays inside the server block it is written into: reading
  it from the left, the number of braces closed never exceeds the number opened, all are closed at
  the end, quotes included, and no control byte other than tab and line ends occurs in it.\<close>

theorem NginxDirectives_balanced:
  assumes "NginxDirectives directives = None"
  shows "(\<forall>n. 0 \<le> depth_at directives n) \<and> depth_at directives (length directives) = 0 \<and>
    (\<forall>c \<in> set directives. is_control c \<longrightarrow> is_space c)"
proof (cases "trim_space directives = []")
  case True
  note space = trim_space_nil [OF True]
  then have "CHR ''{'' \<notin> set directives" "CHR ''}'' \<notin> set directives"
    by (auto simp: is_space_def dest: space)
  note z = effects_no_braces [OF this]
  then have "depth_at directives n = 0" for n
    unfolding depth_at_def by (intro sum_list_nonneg_eq_0_iff [THEN iffD2])
      (auto dest!: in_set_takeD)
  then show ?thesis using space by simp
next
  case False
  with assms have ok: "checkBalance directives = None"
    and chars: "\<forall>r \<in> set directives. \<not> (r = newline \<or> r = carriage_return \<or> r = tab) \<longrightarrow> \<not> is_control r"
    by (auto simp: NginxDirectives_def check_each_None split: if_splits)
  from ok obtain m where "balance Plain True 0 directives = Some (m, 0)"
    by (auto simp: checkBalance_def split: option.splits if_splits)
  moreover have "is_control c \<longrightarrow> is_space c" if "c \<in> set directives" for c
    using chars that by (metis is_space_literals(1,2,4))
  ultimately show ?thesis using balance_depth by fastforce
qed

theorem NginxDirectives_balanced_witness:
  "NginxDirectives ''location / { add_header X ok; }'' = None \<and>
   (\<forall>n. 0 \<le> depth_at ''location / { add_header X ok; }'' n) \<and>
   depth_at ''location / { add_header X ok; }'' 20 = 1"
proof -
  have a: "NginxDirectives ''location / { add_header X ok; }'' = None"
    and b: "depth_at ''location / { add_header X ok; }'' 20 = 1" by code_simp+
  from NginxDirectives_balanced [OF a] a b show ?thesis by blast
qed

section \<open>Where the scanners and nginx disagree\<close>

text \<open>nginx reads a quoted word as the word it quotes, also at the start of a statement; the
  scanner compares the word with its quotes.\<close>

lemma quoted_include_accepted:
  "NginxDirectives ([double_quote] @ ''include'' @ [double_quote] @ '' /tmp/site.conf;'') = None \<and>
   NginxDirectives ''include /tmp/site.conf;'' = Some ErrDirectiveForbidden"
  by code_simp

text \<open>Inside a word nginx takes a brace after a backslash literally, and a closing brace too; the
  scanner counts both. So the closing brace after the first statement below ends the server block
  the text is written into, and the text is accepted as balanced.\<close>

lemma escaped_brace_accepted:
  "NginxDirectives (''add_header X a'' @ [backslash] @
     ''{; } server { server_name other.example; add_header Y b};'') = None"
  by code_simp

end
