(* ===== verification/Protocol.thy ===== *)
theory Protocol
  imports Go_Prelude "HOL-Library.Multiset"
begin

text \<open>
  Package \<open>shared/protocol\<close>: what the API and the Agent say to each other. The operations the Agent
  knows, the allowlist, requests and their validation, responses, job states.

  The payload of a request and the data of a response are maps of arbitrary JSON values that only
  the handlers look into; their types are parameters.
\<close>

section \<open>Operations\<close>

text \<open>The operation names, by the families of the source; every constant of the source is in the
  allowlist.\<close>

definition agentOperations :: "go_string list" where
  "agentOperations =
    [''agent.ping'', ''agent.info'']"

definition systemOperations :: "go_string list" where
  "systemOperations =
    [''system.info'']"

definition metricsOperations :: "go_string list" where
  "metricsOperations =
    [''metrics.cpu'', ''metrics.memory'', ''metrics.disk'', ''metrics.network'',
     ''metrics.load'']"

definition processOperations :: "go_string list" where
  "processOperations =
    [''process.list'']"

definition grafanaOperations :: "go_string list" where
  "grafanaOperations =
    [''grafana.status'', ''grafana.install'', ''grafana.provision'']"

definition serviceOperations :: "go_string list" where
  "serviceOperations =
    [''service.boot-audit'', ''service.boot-persist'', ''service.detect'', ''service.action'',
     ''service.list'', ''service.status'']"

definition websiteOperations :: "go_string list" where
  "websiteOperations =
    [''website.create'', ''website.delete'', ''website.update'', ''website.status'',
     ''website.logs'']"

definition nginxOperations :: "go_string list" where
  "nginxOperations =
    [''nginx.validate'', ''nginx.reload'']"

definition phpOperations :: "go_string list" where
  "phpOperations =
    [''php.versions'', ''php.install'', ''php.uninstall'', ''php.pool.create'',
     ''php.pool.delete'', ''php.pool.status'', ''php.extensions'']"

definition websiteOperations2 :: "go_string list" where
  "websiteOperations2 =
    [''website.php.set'', ''website.php.unset'']"

definition sslOperations :: "go_string list" where
  "sslOperations =
    [''ssl.issue'', ''ssl.renew'', ''ssl.revoke'', ''ssl.status'', ''ssl.capabilities'']"

definition databaseOperations :: "go_string list" where
  "databaseOperations =
    [''database.engines'', ''database.list'', ''database.create'', ''database.delete'',
     ''database.size'', ''database.user.list'', ''database.user.create'',
     ''database.user.delete'', ''database.user.password'', ''database.user.grant'',
     ''database.export'', ''database.import'', ''database.transfer.begin'',
     ''database.transfer.read'', ''database.transfer.write'', ''database.transfer.finish'']"

definition phpmyadminOperations :: "go_string list" where
  "phpmyadminOperations =
    [''phpmyadmin.status'', ''phpmyadmin.install'', ''phpmyadmin.uninstall'']"

definition firewallOperations :: "go_string list" where
  "firewallOperations =
    [''firewall.status'', ''firewall.change'', ''firewall.confirm'', ''firewall.rollback'']"

definition apacheOperations :: "go_string list" where
  "apacheOperations =
    [''apache.status'', ''apache.install'']"

definition nodeOperations :: "go_string list" where
  "nodeOperations =
    [''node.versions'', ''node.install'', ''node.uninstall'', ''node.app.deploy'',
     ''node.app.remove'', ''node.app.start'', ''node.app.stop'', ''node.app.restart'',
     ''node.app.status'', ''node.app.logs'', ''node.app.dependencies'']"

definition fileOperations :: "go_string list" where
  "fileOperations =
    [''file.list'', ''file.stat'', ''file.read'', ''file.write'', ''file.mkdir'',
     ''file.create'', ''file.delete'', ''file.copy'', ''file.move'', ''file.chmod'',
     ''file.archive'', ''file.extract'', ''file.search'']"

definition fail2banOperations :: "go_string list" where
  "fail2banOperations =
    [''fail2ban.status'', ''fail2ban.install'', ''fail2ban.configure'', ''fail2ban.ignore'',
     ''fail2ban.banned'', ''fail2ban.unban'', ''fail2ban.ban'']"

definition ftpOperations :: "go_string list" where
  "ftpOperations =
    [''ftp.status'', ''ftp.install'', ''ftp.reconcile'', ''ftp.sessions'', ''ftp.disconnect'']"

definition updatesOperations :: "go_string list" where
  "updatesOperations =
    [''updates.check'', ''updates.apply'', ''updates.revert'']"

definition securityOperations :: "go_string list" where
  "securityOperations =
    [''security.ports'', ''security.permissions'']"

definition backupOperations :: "go_string list" where
  "backupOperations =
    [''backup.capabilities'', ''backup.create'', ''backup.verify'', ''backup.restore'',
     ''backup.delete'', ''backup.destination.check'']"

definition dnsOperations :: "go_string list" where
  "dnsOperations =
    [''dns.status'', ''dns.install'', ''dns.reconcile'', ''dns.zone.status'', ''dns.signing'']"

definition deployOperations :: "go_string list" where
  "deployOperations =
    [''deploy.status'', ''deploy.key.generate'', ''deploy.key.remove'', ''deploy.run'',
     ''deploy.unlink'']"

definition tenantOperations :: "go_string list" where
  "tenantOperations =
    [''tenant.status'', ''tenant.usage'', ''tenant.isolation.apply'',
     ''tenant.isolation.remove'']"

definition mailOperations :: "go_string list" where
  "mailOperations =
    [''mail.status'', ''mail.install'', ''mail.reconcile'', ''mail.dkim.generate'',
     ''mail.dkim.remove'', ''mail.quota'']"

definition webmailOperations :: "go_string list" where
  "webmailOperations =
    [''webmail.install'', ''webmail.remove'']"

definition sshOperations :: "go_string list" where
  "sshOperations =
    [''ssh.status'', ''ssh.configure'', ''ssh.keys.list'', ''ssh.keys.add'',
     ''ssh.keys.remove'']"

definition cronOperations :: "go_string list" where
  "cronOperations =
    [''cron.status'', ''cron.apply'', ''cron.remove'', ''cron.run'', ''cron.log.remove'']"

definition logOperations :: "go_string list" where
  "logOperations =
    [''log.list'', ''log.tail'', ''log.read'']"

definition jobOperations :: "go_string list" where
  "jobOperations =
    [''job.status'', ''job.cancel'', ''job.list'']"

definition allowedOperations :: "go_string list" where
  "allowedOperations =
     concat [agentOperations, systemOperations, metricsOperations, processOperations,
       grafanaOperations, serviceOperations, websiteOperations, nginxOperations, phpOperations,
       websiteOperations2, sslOperations, databaseOperations, phpmyadminOperations,
       firewallOperations, apacheOperations, nodeOperations, fileOperations,
       fail2banOperations, ftpOperations, updatesOperations, securityOperations,
       backupOperations, dnsOperations, deployOperations, tenantOperations, mailOperations,
       webmailOperations, sshOperations, cronOperations, logOperations, jobOperations]"

definition IsAllowed :: "go_string \<Rightarrow> bool" where
  "IsAllowed op \<longleftrightarrow> op \<in> set allowedOperations"

definition AllowedOperations :: "go_string list" where
  "AllowedOperations = allowedOperations"

definition jobControlOperations :: "go_string list" where
  "jobControlOperations = [''job.status'', ''job.cancel'', ''job.list'']"

definition IsJobControl :: "go_string \<Rightarrow> bool" where
  "IsJobControl op \<longleftrightarrow> op \<in> set jobControlOperations"

text \<open>The operations are pairwise different: they differ in the part before the first dot, or in
  the rest.\<close>

definition operation_families :: "(go_string \<times> go_string list) list" where
  "operation_families =
     [(''agent'', agentOperations), (''system'', systemOperations),
      (''metrics'', metricsOperations), (''process'', processOperations),
      (''grafana'', grafanaOperations), (''service'', serviceOperations),
      (''website'', websiteOperations @ websiteOperations2), (''nginx'', nginxOperations),
      (''php'', phpOperations), (''ssl'', sslOperations), (''database'', databaseOperations),
      (''phpmyadmin'', phpmyadminOperations), (''firewall'', firewallOperations),
      (''apache'', apacheOperations), (''node'', nodeOperations), (''file'', fileOperations),
      (''fail2ban'', fail2banOperations), (''ftp'', ftpOperations),
      (''updates'', updatesOperations), (''security'', securityOperations),
      (''backup'', backupOperations), (''dns'', dnsOperations), (''deploy'', deployOperations),
      (''tenant'', tenantOperations), (''mail'', mailOperations),
      (''webmail'', webmailOperations), (''ssh'', sshOperations), (''cron'', cronOperations),
      (''log'', logOperations), (''job'', jobOperations)]"

lemmas family_defs =
  agentOperations_def systemOperations_def metricsOperations_def processOperations_def
  grafanaOperations_def serviceOperations_def websiteOperations_def nginxOperations_def
  phpOperations_def websiteOperations2_def sslOperations_def databaseOperations_def
  phpmyadminOperations_def firewallOperations_def apacheOperations_def nodeOperations_def
  fileOperations_def fail2banOperations_def ftpOperations_def updatesOperations_def
  securityOperations_def backupOperations_def dnsOperations_def deployOperations_def
  tenantOperations_def mailOperations_def webmailOperations_def sshOperations_def
  cronOperations_def logOperations_def jobOperations_def

lemma distinct_families:
  assumes "distinct (map fst fs)"
    and "\<forall>(k, xs) \<in> set fs. distinct xs \<and> (\<forall>x \<in> set xs. takeWhile (\<lambda>c. c \<noteq> CHR ''.'') x = k)"
  shows "distinct (concat (map snd fs))"
  using assms
proof (induction fs)
  case (Cons f fs)
  obtain k xs where f: "f = (k, xs)" by fastforce
  have "x \<notin> set (concat (map snd fs))" if x: "x \<in> set xs" for x
  proof
    assume "x \<in> set (concat (map snd fs))"
    then obtain k' ys where y: "(k', ys) \<in> set fs" "x \<in> set ys" by auto
    then have "k = takeWhile (\<lambda>c. c \<noteq> CHR ''.'') x" "k' = takeWhile (\<lambda>c. c \<noteq> CHR ''.'') x"
      using x Cons.prems(2) f by (force, force)
    then have "k = k'" by simp
    then show False using y(1) Cons.prems(1) f by force
  qed
  with Cons f show ?case by auto
qed simp

lemma operation_families_ok:
  "distinct (map fst operation_families)"
  "list_all (\<lambda>(k, xs). distinct xs \<and> list_all (\<lambda>x. takeWhile (\<lambda>c. c \<noteq> CHR ''.'') x = k) xs)
     operation_families"
  by code_simp+

lemma mset_allowedOperations:
  "mset allowedOperations = mset (concat (map snd operation_families))"
  by (simp add: allowedOperations_def operation_families_def)

lemma allowedOperations_distinct: "distinct allowedOperations"
proof -
  have "distinct (concat (map snd operation_families))"
    using distinct_families operation_families_ok by (fastforce simp: list_all_iff)
  then show ?thesis using mset_eq_imp_distinct_iff [OF mset_allowedOperations] by blast
qed

section \<open>Requests\<close>

definition ModeSync :: go_string where "ModeSync = ''sync''"
definition ModeAsync :: go_string where "ModeAsync = ''async''"

definition maxRequestIDLength :: nat where
  "maxRequestIDLength = 64"

record 'p request =
  Operation :: go_string
  RequestID :: go_string
  Token :: go_string
  Mode :: go_string
  Payload :: 'p

definition Async :: "'p request \<Rightarrow> bool" where
  "Async r \<longleftrightarrow> Mode r = ModeAsync"

datatype request_error =
    OperationRequired | ErrUnknownOperation | RequestIDRequired | RequestIDTooLong
  | ModeInvalid | NotAsynchronous

definition Request_Validate :: "'p request \<Rightarrow> request_error option" where
  "Request_Validate r =
     (if Operation r = [] then Some OperationRequired
      else if \<not> IsAllowed (Operation r) then Some ErrUnknownOperation
      else if RequestID r = [] then Some RequestIDRequired
      else if length (RequestID r) > maxRequestIDLength then Some RequestIDTooLong
      else if \<not> (Mode r = [] \<or> Mode r = ModeSync \<or> Mode r = ModeAsync) then Some ModeInvalid
      else if Async r \<and> IsJobControl (Operation r) then Some NotAsynchronous
      else None)"

lemma Request_Validate_None:
  "Request_Validate r = None \<longleftrightarrow>
     Operation r \<noteq> [] \<and> IsAllowed (Operation r) \<and> RequestID r \<noteq> [] \<and>
     length (RequestID r) \<le> 64 \<and> Mode r \<in> {[], ModeSync, ModeAsync} \<and>
     (Mode r = ModeAsync \<longrightarrow> \<not> IsJobControl (Operation r))"
  by (auto simp: Request_Validate_def maxRequestIDLength_def Async_def)

section \<open>Responses\<close>

datatype status = StatusSuccess | StatusFailed | StatusAccepted

definition CodeUnknownOperation :: go_string where "CodeUnknownOperation = ''UNKNOWN_OPERATION''"
definition CodeInvalidRequest :: go_string where "CodeInvalidRequest = ''INVALID_REQUEST''"
definition CodeUnauthorized :: go_string where "CodeUnauthorized = ''UNAUTHORIZED''"
definition CodeInternal :: go_string where "CodeInternal = ''INTERNAL_ERROR''"
definition CodeTimeout :: go_string where "CodeTimeout = ''OPERATION_TIMEOUT''"
definition CodeBusy :: go_string where "CodeBusy = ''AGENT_BUSY''"

record perror =
  Code :: go_string
  Message :: go_string

datatype 'd rdata = Data 'd | JobData go_string

record 'd response =
  rStatus :: status
  rRequestID :: go_string
  rData :: "'d rdata option"
  rError :: "perror option"

definition NewError :: "go_string \<Rightarrow> go_string \<Rightarrow> go_string \<Rightarrow> 'd response" where
  "NewError requestID code message =
     \<lparr>rStatus = StatusFailed, rRequestID = requestID, rData = None,
      rError = Some \<lparr>Code = code, Message = message\<rparr>\<rparr>"

definition NewSuccess :: "go_string \<Rightarrow> 'd \<Rightarrow> 'd response" where
  "NewSuccess requestID d =
     \<lparr>rStatus = StatusSuccess, rRequestID = requestID, rData = Some (Data d), rError = None\<rparr>"

definition NewAccepted :: "go_string \<Rightarrow> go_string \<Rightarrow> 'd response" where
  "NewAccepted requestID jobID =
     \<lparr>rStatus = StatusAccepted, rRequestID = requestID, rData = Some (JobData jobID),
      rError = None\<rparr>"

section \<open>Job states\<close>

datatype job_state = JobPending | JobRunning | JobSuccess | JobFailed | JobCancelled

fun Terminal :: "job_state \<Rightarrow> bool" where
  "Terminal JobSuccess = True"
| "Terminal JobFailed = True"
| "Terminal JobCancelled = True"
| "Terminal _ = False"

end
