(* ===== verification/Transition_Systems.thy ===== *)
theory Transition_Systems
  imports Main
begin

text \<open>
  State machines: the states a step relation reaches from its initial states, and the
  way the components argue about them, as a locale. A component states its steps as an inductive
  relation at the top level of its theory, proves the laws of the locale for it in one
  interpretation, and takes its properties from the locale.
\<close>

definition reach :: "('s \<Rightarrow> bool) \<Rightarrow> ('s \<Rightarrow> 's \<Rightarrow> bool) \<Rightarrow> 's \<Rightarrow> bool" where
  "reach init step s \<longleftrightarrow> (\<exists>s0. init s0 \<and> step\<^sup>*\<^sup>* s0 s)"

lemma reach_init: "init s \<Longrightarrow> reach init step s"
  by (auto simp: reach_def)

lemma reach_step: "reach init step s \<Longrightarrow> step s t \<Longrightarrow> reach init step t"
  unfolding reach_def by (meson rtranclp.rtrancl_into_rtrancl)

text \<open>An inductive invariant holds in every reachable state.\<close>

locale invariant_system =
  fixes init :: "'s \<Rightarrow> bool" and step :: "'s \<Rightarrow> 's \<Rightarrow> bool" and inv :: "'s \<Rightarrow> bool"
  assumes init_inv: "init s \<Longrightarrow> inv s"
    and step_inv: "inv s \<Longrightarrow> step s t \<Longrightarrow> inv t"
begin

lemma steps_inv: "step\<^sup>*\<^sup>* s t \<Longrightarrow> inv s \<Longrightarrow> inv t"
  by (induction rule: rtranclp_induct) (auto intro: step_inv)

lemma reach_inv: "reach init step s \<Longrightarrow> inv s"
  unfolding reach_def using steps_inv init_inv by blast

end

end
