(* ===== verification/Agent_Jobs.thy ===== *)
theory Agent_Jobs
  imports Protocol Transition_Systems
begin

text \<open>
  Package \<open>agent/internal/jobs\<close>: the Agent's job runner. The job table and the count of running jobs
  are behind a mutex, so each locked section is one atomic operation here; the goroutine of a job
  is a worker with a phase and a context, and \<open>jstep\<close> interleaves everything that can happen.

  Times are numbers of a clock unit; the executor of a job is seen through its outcome only, and a
  recovered panic is the outcome \<open>ExecPanic\<close>. Identifiers come from \<open>crypto/rand\<close>, twelve random
  bytes: a submission with an identifier already in the table is not a step.
\<close>

section \<open>Jobs and the runner\<close>

record 'd ajob =
  ID :: go_string
  jOperation :: go_string
  jRequestID :: go_string
  State :: job_state
  Progress :: int
  jMessage :: go_string
  CreatedAt :: int
  StartedAt :: "int option"
  CompletedAt :: "int option"
  Result :: "'d option"
  jError :: "perror option"
  cancel :: bool

text \<open>What \<open>ctx.Err()\<close> of a job's context says.\<close>

datatype ctx_err = Canceled | DeadlineExceeded

datatype phase = Spawned | Executing

record worker =
  wphase :: phase
  wctx :: "ctx_err option"

record 'd runner =
  jobs :: "go_string \<rightharpoonup> 'd ajob"
  running :: int
  workers :: "go_string \<rightharpoonup> worker"

record joptions =
  MaxConcurrent :: int
  Retention :: int
  MaxJobs :: int

datatype job_err = ErrNotFound | ErrQueueFull | ErrTerminal

definition clone :: "'d ajob \<Rightarrow> 'd ajob" where
  "clone j = j\<lparr>cancel := False\<rparr>"

text \<open>The options \<open>NewRunner\<close> keeps, with its defaults; a retention of 15 minutes in nanoseconds.\<close>

definition job_defaults :: "joptions \<Rightarrow> joptions" where
  "job_defaults opts =
     \<lparr>MaxConcurrent = (if MaxConcurrent opts \<le> 0 then 4 else MaxConcurrent opts),
      Retention = (if Retention opts \<le> 0 then 900000000000 else Retention opts),
      MaxJobs = (if MaxJobs opts \<le> 0 then 256 else MaxJobs opts)\<rparr>"

definition NewRunner :: "'d runner" where
  "NewRunner = \<lparr>jobs = Map.empty, running = 0, workers = Map.empty\<rparr>"

section \<open>Operations\<close>

definition expired :: "joptions \<Rightarrow> int \<Rightarrow> 'd ajob \<Rightarrow> bool" where
  "expired opts now j \<longleftrightarrow>
     Terminal (State j) \<and>
     (case CompletedAt j of None \<Rightarrow> False | Some t \<Rightarrow> t < now - Retention opts)"

definition evictLocked :: "joptions \<Rightarrow> int \<Rightarrow> 'd runner \<Rightarrow> 'd runner" where
  "evictLocked opts now r =
     r\<lparr>jobs := (\<lambda>i. case jobs r i of
                     None \<Rightarrow> None
                   | Some j \<Rightarrow> if expired opts now j then None else Some j)\<rparr>"

definition new_job :: "go_string \<Rightarrow> go_string \<Rightarrow> go_string \<Rightarrow> int \<Rightarrow> 'd ajob" where
  "new_job i op requestID now =
     \<lparr>ID = i, jOperation = op, jRequestID = requestID, State = JobPending, Progress = 0,
      jMessage = [], CreatedAt = now, StartedAt = None, CompletedAt = None, Result = None,
      jError = None, cancel = True\<rparr>"

definition Submit :: "joptions \<Rightarrow> int \<Rightarrow> go_string \<Rightarrow> go_string \<Rightarrow> go_string \<Rightarrow> 'd runner \<Rightarrow>
    (job_err + go_string) \<times> 'd runner" where
  "Submit opts now i op requestID r =
     (let r1 = evictLocked opts now r in
        if running r1 \<ge> MaxConcurrent opts then (Inl ErrQueueFull, r1)
        else if int (card (dom (jobs r1))) \<ge> MaxJobs opts then (Inl ErrQueueFull, r1)
        else (Inr i,
              r1\<lparr>jobs := (jobs r1)(i \<mapsto> new_job i op requestID now),
                 running := running r1 + 1,
                 workers := (workers r1)(i \<mapsto> \<lparr>wphase = Spawned, wctx = None\<rparr>)\<rparr>))"

text \<open>\<open>run\<close>: its first locked section, and its last.\<close>

definition run_start :: "int \<Rightarrow> go_string \<Rightarrow> 'd runner \<Rightarrow> 'd runner" where
  "run_start now i r =
     r\<lparr>jobs := (case jobs r i of
                  None \<Rightarrow> jobs r
                | Some j \<Rightarrow> (jobs r)(i \<mapsto> j\<lparr>State := JobRunning, StartedAt := Some now\<rparr>)),
       workers := (case workers r i of
                     None \<Rightarrow> workers r
                   | Some w \<Rightarrow> (workers r)(i \<mapsto> w\<lparr>wphase := Executing\<rparr>))\<rparr>"

datatype 'd outcome = ExecOk 'd | ExecStructured perror | ExecError | ExecPanic

definition describeError :: "'d outcome \<Rightarrow> perror" where
  "describeError out =
     (case out of
        ExecStructured e \<Rightarrow> e
      | _ \<Rightarrow> \<lparr>Code = CodeInternal, Message = ''Operation failed''\<rparr>)"

definition record_outcome :: "ctx_err option \<Rightarrow> 'd outcome \<Rightarrow> 'd ajob \<Rightarrow> 'd ajob" where
  "record_outcome ctx out j =
     (case ctx of
        Some Canceled \<Rightarrow>
          j\<lparr>State := JobCancelled,
            jError := Some \<lparr>Code = CodeInvalidRequest, Message = ''Operation cancelled''\<rparr>\<rparr>
      | Some DeadlineExceeded \<Rightarrow>
          j\<lparr>State := JobFailed,
            jError := Some \<lparr>Code = CodeTimeout, Message = ''Operation timed out''\<rparr>\<rparr>
      | None \<Rightarrow>
          (case out of
             ExecOk d \<Rightarrow> j\<lparr>State := JobSuccess, Progress := 100, Result := Some d\<rparr>
           | _ \<Rightarrow> j\<lparr>State := JobFailed, jError := Some (describeError out)\<rparr>))"

definition run_finish :: "int \<Rightarrow> go_string \<Rightarrow> 'd outcome \<Rightarrow> 'd runner \<Rightarrow> 'd runner" where
  "run_finish now i out r =
     (let ctx = (case workers r i of None \<Rightarrow> None | Some w \<Rightarrow> wctx w) in
        r\<lparr>running := running r - 1,
          jobs := (case jobs r i of
                     None \<Rightarrow> jobs r
                   | Some j \<Rightarrow>
                       (jobs r)(i \<mapsto> record_outcome ctx out
                                       (j\<lparr>CompletedAt := Some now, cancel := False\<rparr>))),
          workers := (workers r)(i := None)\<rparr>)"

definition Get :: "go_string \<Rightarrow> 'd runner \<Rightarrow> job_err + 'd ajob" where
  "Get i r = (case jobs r i of None \<Rightarrow> Inl ErrNotFound | Some j \<Rightarrow> Inr (clone j))"

text \<open>Cancelling a context: the first reason stays.\<close>

definition ctx_end :: "ctx_err \<Rightarrow> go_string \<Rightarrow> 'd runner \<Rightarrow> 'd runner" where
  "ctx_end e i r =
     (case workers r i of
        None \<Rightarrow> r
      | Some w \<Rightarrow>
          r\<lparr>workers := (workers r)(i \<mapsto> w\<lparr>wctx := (case wctx w of None \<Rightarrow> Some e | c \<Rightarrow> c)\<rparr>)\<rparr>)"

definition Cancel :: "go_string \<Rightarrow> 'd runner \<Rightarrow> job_err option \<times> 'd runner" where
  "Cancel i r =
     (case jobs r i of
        None \<Rightarrow> (Some ErrNotFound, r)
      | Some j \<Rightarrow>
          if Terminal (State j) then (Some ErrTerminal, r)
          else (None, if cancel j then ctx_end Canceled i r else r))"

definition setProgress :: "go_string \<Rightarrow> int \<Rightarrow> go_string \<Rightarrow> 'd runner \<Rightarrow> 'd runner" where
  "setProgress i percent message r =
     (let p = (if percent < 0 then 0 else percent); p = (if p > 100 then 100 else p) in
        case jobs r i of
          None \<Rightarrow> r
        | Some j \<Rightarrow>
            if Terminal (State j) then r
            else r\<lparr>jobs := (jobs r)(i \<mapsto> j\<lparr>Progress := p, jMessage := message\<rparr>)\<rparr>)"

text \<open>\<open>Shutdown\<close> cancels the context of every job that has one and then waits; the wait is over when
  no worker is left.\<close>

definition shutdown_cancel :: "'d runner \<Rightarrow> 'd runner" where
  "shutdown_cancel r =
     r\<lparr>workers := (\<lambda>i. case workers r i of
                        None \<Rightarrow> None
                      | Some w \<Rightarrow>
                          (case jobs r i of
                             Some j \<Rightarrow>
                               if cancel j
                               then Some (w\<lparr>wctx := (case wctx w of None \<Rightarrow> Some Canceled | c \<Rightarrow> c)\<rparr>)
                               else Some w
                           | None \<Rightarrow> Some w))\<rparr>"

definition drained :: "'d runner \<Rightarrow> bool" where
  "drained r \<longleftrightarrow> dom (workers r) = {}"

text \<open>\<open>List\<close>: the retained jobs, newest first, from the order in which the map is iterated.\<close>

definition List_jobs :: "joptions \<Rightarrow> int \<Rightarrow> (('d runner) \<Rightarrow> go_string list) \<Rightarrow> 'd runner \<Rightarrow>
    'd ajob list \<times> 'd runner" where
  "List_jobs opts now order r =
     (let r1 = evictLocked opts now r in
        (sort_key (\<lambda>j. - CreatedAt j) (map clone (List.map_filter (jobs r1) (order r1))), r1))"

section \<open>Everything that can happen\<close>

text \<open>\<open>jstep_at opts now\<close> is one step while the clock shows \<open>now\<close>; every read of \<open>r.now()\<close> in the step
  gives that time.\<close>

inductive jstep_at :: "joptions \<Rightarrow> int \<Rightarrow> 'd runner \<Rightarrow> 'd runner \<Rightarrow> bool" for opts now where
  submit: "i \<notin> dom (jobs r) \<Longrightarrow> Submit opts now i op requestID r = (res, r') \<Longrightarrow>
    jstep_at opts now r r'"
| start: "workers r i = Some w \<Longrightarrow> wphase w = Spawned \<Longrightarrow> jstep_at opts now r (run_start now i r)"
| progress: "jstep_at opts now r (setProgress i percent message r)"
| finish: "workers r i = Some w \<Longrightarrow> wphase w = Executing \<Longrightarrow>
    jstep_at opts now r (run_finish now i out r)"
| cancelled: "Cancel i r = (res, r') \<Longrightarrow> jstep_at opts now r r'"
| timed_out: "jstep_at opts now r (ctx_end DeadlineExceeded i r)"
| listed: "List_jobs opts now order r = (res, r') \<Longrightarrow> jstep_at opts now r r'"
| shutdown: "jstep_at opts now r (shutdown_cancel r)"

inductive_cases jstep_atE: "jstep_at opts now r r'"

definition jstep :: "joptions \<Rightarrow> 'd runner \<Rightarrow> 'd runner \<Rightarrow> bool" where
  "jstep opts r r' \<longleftrightarrow> (\<exists>now. jstep_at opts now r r')"

lemma jstepI: "jstep_at opts now r r' \<Longrightarrow> jstep opts r r'"
  by (auto simp: jstep_def)

section \<open>The invariant\<close>

definition job_ok :: "go_string \<Rightarrow> worker option \<Rightarrow> 'd ajob \<Rightarrow> bool" where
  "job_ok i w j \<longleftrightarrow>
     ID j = i \<and> 0 \<le> Progress j \<and> Progress j \<le> 100 \<and>
     (Terminal (State j) \<longleftrightarrow> w = None) \<and>
     (Terminal (State j) \<longleftrightarrow> CompletedAt j \<noteq> None) \<and>
     (cancel j \<longleftrightarrow> \<not> Terminal (State j)) \<and>
     (State j = JobSuccess \<longleftrightarrow> Result j \<noteq> None) \<and>
     (State j = JobSuccess \<longrightarrow> Progress j = 100) \<and>
     (State j = JobFailed \<or> State j = JobCancelled \<longleftrightarrow> jError j \<noteq> None) \<and>
     (\<forall>x. w = Some x \<longrightarrow> (State j = JobPending \<longleftrightarrow> wphase x = Spawned))"

definition jobs_inv :: "joptions \<Rightarrow> 'd runner \<Rightarrow> bool" where
  "jobs_inv opts r \<longleftrightarrow>
     finite (dom (jobs r)) \<and> dom (workers r) \<subseteq> dom (jobs r) \<and>
     running r = int (card (dom (workers r))) \<and> running r \<le> MaxConcurrent opts \<and>
     int (card (dom (jobs r))) \<le> MaxJobs opts \<and>
     (\<forall>i j. jobs r i = Some j \<longrightarrow> job_ok i (workers r i) j)"

lemma jobs_inv_jobD: "jobs_inv opts r \<Longrightarrow> jobs r i = Some j \<Longrightarrow> job_ok i (workers r i) j"
  by (simp add: jobs_inv_def)

lemma jobs_inv_worker:
  assumes "jobs_inv opts r" "workers r i = Some w"
  obtains j where "jobs r i = Some j" "job_ok i (Some w) j"
  using assms unfolding jobs_inv_def by (metis domD domI subsetD)

text \<open>Changing one job and its worker, both present before and after.\<close>

lemma jobs_inv_update:
  assumes "jobs_inv opts r" "jobs r i = Some j" "workers r i = Some w" "job_ok i (Some w') j'"
  shows "jobs_inv opts (r\<lparr>jobs := (jobs r)(i \<mapsto> j'), workers := (workers r)(i \<mapsto> w')\<rparr>)"
  using assms unfolding jobs_inv_def by (auto simp: insert_absorb domI)

lemma dom_evict: "dom (jobs (evictLocked opts now r)) \<subseteq> dom (jobs r)"
  by (auto simp: evictLocked_def split: option.splits if_splits)

lemma evict_frame [simp]:
  "workers (evictLocked opts now r) = workers r" "running (evictLocked opts now r) = running r"
  by (simp_all add: evictLocked_def)

lemma evict_Some:
  "jobs (evictLocked opts now r) i = Some j \<longleftrightarrow> jobs r i = Some j \<and> \<not> expired opts now j"
  by (auto simp: evictLocked_def split: option.splits)

lemma jobs_inv_evict:
  assumes "jobs_inv opts r"
  shows "jobs_inv opts (evictLocked opts now r)"
proof -
  have fin: "finite (dom (jobs r))" using assms by (simp add: jobs_inv_def)
  have "int (card (dom (jobs (evictLocked opts now r)))) \<le> MaxJobs opts"
    using card_mono [OF fin dom_evict, of opts now] assms by (simp add: jobs_inv_def)
  moreover have "i \<in> dom (jobs (evictLocked opts now r))" if wi: "i \<in> dom (workers r)" for i
  proof -
    obtain w where w: "workers r i = Some w" using wi by blast
    obtain j where j: "jobs r i = Some j" "job_ok i (Some w) j"
      using jobs_inv_worker [OF assms w] .
    then show ?thesis using evict_Some [of opts now r i j] by (auto simp: expired_def job_ok_def)
  qed
  ultimately show ?thesis
    using assms finite_subset [OF dom_evict fin] evict_Some
    unfolding jobs_inv_def evict_frame by blast
qed

lemma Submit_jobs_inv:
  assumes "jobs_inv opts r" "i \<notin> dom (jobs r)" "Submit opts now i op requestID r = (res, r')"
  shows "jobs_inv opts r'"
proof -
  define r1 where "r1 = evictLocked opts now r"
  have inv: "jobs_inv opts r1" unfolding r1_def using assms(1) by (rule jobs_inv_evict)
  have new: "i \<notin> dom (jobs r1)" "i \<notin> dom (workers r1)"
    using assms(1,2) dom_evict [of opts now r] by (auto simp: r1_def jobs_inv_def)
  have fin: "finite (dom (jobs r1))" "finite (dom (workers r1))"
    using inv finite_subset by (auto simp: jobs_inv_def)
  have ok: "job_ok i (Some \<lparr>wphase = Spawned, wctx = None\<rparr>) (new_job i op requestID now)"
    by (simp add: job_ok_def new_job_def)
  show ?thesis
  proof (cases "running r1 \<ge> MaxConcurrent opts \<or> int (card (dom (jobs r1))) \<ge> MaxJobs opts")
    case True
    then show ?thesis
      using assms(3) inv by (auto simp: Submit_def r1_def [symmetric] Let_def split: if_splits)
  next
    case False
    then have r': "r' = r1\<lparr>jobs := (jobs r1)(i \<mapsto> new_job i op requestID now),
        running := running r1 + 1,
        workers := (workers r1)(i \<mapsto> \<lparr>wphase = Spawned, wctx = None\<rparr>)\<rparr>"
      using assms(3) by (auto simp: Submit_def r1_def [symmetric] Let_def)
    from inv new fin False ok show ?thesis unfolding r' jobs_inv_def by auto
  qed
qed

lemma run_start_jobs_inv:
  assumes "jobs_inv opts r" "workers r i = Some w" "wphase w = Spawned"
  shows "jobs_inv opts (run_start now i r)"
proof -
  obtain j where j: "jobs r i = Some j" "job_ok i (Some w) j"
    using jobs_inv_worker [OF assms(1,2)] .
  then have "job_ok i (Some (w\<lparr>wphase := Executing\<rparr>)) (j\<lparr>State := JobRunning, StartedAt := Some now\<rparr>)"
    using assms(3) by (auto simp: job_ok_def)
  from jobs_inv_update [OF assms(1) j(1) assms(2) this] show ?thesis
    by (simp add: run_start_def j(1) assms(2))
qed

lemma setProgress_jobs_inv: "jobs_inv opts r \<Longrightarrow> jobs_inv opts (setProgress i percent message r)"
proof (cases "\<exists>j. jobs r i = Some j \<and> \<not> Terminal (State j)")
  case True
  assume inv: "jobs_inv opts r"
  from True obtain j where j: "jobs r i = Some j" "\<not> Terminal (State j)" by blast
  with jobs_inv_jobD [OF inv j(1)] obtain w where w: "workers r i = Some w" "job_ok i (Some w) j"
    by (cases "workers r i") (auto simp: job_ok_def)
  define p :: int where "p = (let p = (if percent < 0 then 0 else percent) in if p > 100 then 100 else p)"
  have "0 \<le> p" "p \<le> 100" by (simp_all add: p_def Let_def)
  then have "job_ok i (Some w) (j\<lparr>Progress := p, jMessage := message\<rparr>)"
    using w(2) j(2) by (auto simp: job_ok_def)
  from jobs_inv_update [OF inv j(1) w(1) this]
  show ?thesis using j w(1) by (simp add: setProgress_def p_def Let_def fun_upd_idem)
qed (auto simp: setProgress_def Let_def split: option.splits)

lemma record_outcome_ok:
  assumes "job_ok i (Some w) j"
  shows "job_ok i None (record_outcome ctx out (j\<lparr>CompletedAt := Some now, cancel := False\<rparr>))"
  using assms
  by (auto simp: job_ok_def record_outcome_def split: option.splits ctx_err.splits outcome.splits)

lemma run_finish_jobs_inv:
  assumes "jobs_inv opts r" "workers r i = Some w"
  shows "jobs_inv opts (run_finish now i out r)"
proof -
  obtain j where j: "jobs r i = Some j" "job_ok i (Some w) j"
    using jobs_inv_worker [OF assms] .
  have fin: "finite (dom (workers r))" using assms(1) finite_subset by (auto simp: jobs_inv_def)
  have "i \<in> dom (workers r)" using assms(2) by blast
  then have card: "int (card (dom (workers r) - {i})) = int (card (dom (workers r))) - 1"
    using card.remove [OF fin] by fastforce
  define j' where
    "j' = record_outcome (wctx w) out (j\<lparr>CompletedAt := Some now, cancel := False\<rparr>)"
  have ok: "job_ok i None j'" using record_outcome_ok [OF j(2)] by (simp add: j'_def)
  have r': "run_finish now i out r =
      r\<lparr>running := running r - 1, jobs := (jobs r)(i \<mapsto> j'), workers := (workers r)(i := None)\<rparr>"
    by (simp add: run_finish_def j(1) assms(2) j'_def)
  have d: "insert i (dom (jobs r)) = dom (jobs r)" using j(1) by auto
  show ?thesis
    using assms(1) ok card unfolding r' jobs_inv_def by (simp add: d) auto
qed

lemma ctx_end_jobs_inv:
  assumes "jobs_inv opts r"
  shows "jobs_inv opts (ctx_end e i r)"
proof (cases "workers r i")
  case (Some w)
  obtain j where j: "jobs r i = Some j" "job_ok i (Some w) j"
    using jobs_inv_worker [OF assms Some] .
  then have "job_ok i (Some (w\<lparr>wctx := c\<rparr>)) j" for c by (auto simp: job_ok_def)
  from jobs_inv_update [OF assms j(1) Some this] show ?thesis
    by (simp add: ctx_end_def Some j(1) fun_upd_idem)
qed (simp add: ctx_end_def assms)

lemma Cancel_jobs_inv: "jobs_inv opts r \<Longrightarrow> Cancel i r = (res, r') \<Longrightarrow> jobs_inv opts r'"
  using ctx_end_jobs_inv [of opts r] by (auto simp: Cancel_def split: option.splits if_splits)

lemma shutdown_jobs_inv: "jobs_inv opts r \<Longrightarrow> jobs_inv opts (shutdown_cancel r)"
proof -
  assume inv: "jobs_inv opts r"
  have "dom (workers (shutdown_cancel r)) = dom (workers r)"
    by (auto simp: shutdown_cancel_def dom_def split: option.splits)
  moreover have "job_ok i (workers (shutdown_cancel r) i) j" if "jobs r i = Some j" for i j
    using jobs_inv_jobD [OF inv that] that
    by (auto simp: shutdown_cancel_def job_ok_def split: option.splits)
  ultimately show ?thesis using inv by (simp add: jobs_inv_def) (simp add: shutdown_cancel_def)
qed

interpretation agent_jobs: invariant_system
  "\<lambda>r. r = NewRunner" "jstep (job_defaults opts)" "jobs_inv (job_defaults opts)" for opts
proof unfold_locales
  fix r :: "'d runner" assume "r = NewRunner"
  then show "jobs_inv (job_defaults opts) r"
    by (simp add: NewRunner_def jobs_inv_def job_defaults_def)
next
  fix r r' :: "'d runner" assume "jobs_inv (job_defaults opts) r" "jstep (job_defaults opts) r r'"
  moreover from this(2) obtain now where "jstep_at (job_defaults opts) now r r'"
    by (auto simp: jstep_def)
  ultimately show "jobs_inv (job_defaults opts) r'"
    by (elim jstep_atE)
      (auto intro: Submit_jobs_inv run_start_jobs_inv setProgress_jobs_inv run_finish_jobs_inv
        Cancel_jobs_inv ctx_end_jobs_inv shutdown_jobs_inv jobs_inv_evict
        simp: List_jobs_def Let_def)
qed

section \<open>What holds of the runner\<close>

lemma unfinished_workers:
  "jobs_inv opts r \<Longrightarrow> {i. \<exists>j. jobs r i = Some j \<and> \<not> Terminal (State j)} = dom (workers r)"
proof -
  assume inv: "jobs_inv opts r"
  show ?thesis
  proof (intro set_eqI iffI)
    fix i assume "i \<in> {i. \<exists>j. jobs r i = Some j \<and> \<not> Terminal (State j)}"
    then show "i \<in> dom (workers r)" using jobs_inv_jobD [OF inv] by (force simp: job_ok_def)
  next
    fix i assume "i \<in> dom (workers r)"
    then obtain w where w: "workers r i = Some w" by blast
    obtain j where "jobs r i = Some j" "job_ok i (Some w) j"
      using jobs_inv_worker [OF inv w] .
    then show "i \<in> {i. \<exists>j. jobs r i = Some j \<and> \<not> Terminal (State j)}"
      by (auto simp: job_ok_def)
  qed
qed

text \<open>C23: in every state the runner can reach, whatever callers, workers and timeouts do and in
  whatever order, the running count is exactly the number of unfinished jobs, it never exceeds the
  configured limit, and the table of retained jobs never grows past its own limit.\<close>

theorem runner_within_limits:
  assumes "reach (\<lambda>r. r = NewRunner) (jstep (job_defaults opts)) r"
  shows "running r = int (card {i. \<exists>j. jobs r i = Some j \<and> \<not> Terminal (State j)}) \<and>
    running r \<le> MaxConcurrent (job_defaults opts) \<and>
    int (card (dom (jobs r))) \<le> MaxJobs (job_defaults opts)"
proof -
  have inv: "jobs_inv (job_defaults opts) r" using assms by (rule agent_jobs.reach_inv)
  then show ?thesis unfolding unfinished_workers [OF inv] by (simp add: jobs_inv_def)
qed

definition example_options :: joptions where
  "example_options = \<lparr>MaxConcurrent = 2, Retention = 0, MaxJobs = 3\<rparr>"

definition one_job :: "nat runner" where
  "one_job = snd (Submit (job_defaults example_options) 5 ''job_00'' ''agent.ping'' ''r'' NewRunner)"

lemma one_job_reachable:
  "reach (\<lambda>r. r = NewRunner) (jstep (job_defaults example_options)) one_job"
proof (rule reach_step [OF reach_init])
  show "jstep (job_defaults example_options) NewRunner one_job"
    unfolding one_job_def
    by (rule jstepI, rule jstep_at.submit [OF _ prod.collapse [symmetric]]) (simp add: NewRunner_def)
qed simp

lemma one_job_job: "jobs one_job ''job_00'' = Some (new_job ''job_00'' ''agent.ping'' ''r'' 5)"
  by (simp add: one_job_def Submit_def evictLocked_def NewRunner_def job_defaults_def
      example_options_def)

theorem runner_within_limits_witness:
  "running one_job = int (card {i. \<exists>j. jobs one_job i = Some j \<and> \<not> Terminal (State j)}) \<and>
   jobs one_job ''job_00'' \<noteq> None \<and> int (card (dom (jobs one_job))) \<le> 3"
  using runner_within_limits [OF one_job_reachable] one_job_job
  by (simp add: job_defaults_def example_options_def)

text \<open>A finished job is consistent: it is finished exactly when it has a completion time and can
  no longer be cancelled; it has a result exactly when it succeeded, then with progress 100, and an
  error exactly when it failed or was cancelled; progress is always between 0 and 100.\<close>

theorem job_records_consistent:
  assumes "reach (\<lambda>r. r = NewRunner) (jstep (job_defaults opts)) r" and "jobs r i = Some j"
  shows "ID j = i \<and> 0 \<le> Progress j \<and> Progress j \<le> 100 \<and>
    (Terminal (State j) \<longleftrightarrow> CompletedAt j \<noteq> None) \<and> (cancel j \<longleftrightarrow> \<not> Terminal (State j)) \<and>
    (Result j \<noteq> None \<longleftrightarrow> State j = JobSuccess) \<and> (State j = JobSuccess \<longrightarrow> Progress j = 100) \<and>
    (jError j \<noteq> None \<longleftrightarrow> State j = JobFailed \<or> State j = JobCancelled)"
  using jobs_inv_jobD [OF agent_jobs.reach_inv [OF assms(1)] assms(2)] by (auto simp: job_ok_def)

theorem job_records_consistent_witness:
  "\<exists>j. jobs one_job ''job_00'' = Some j \<and> ID j = ''job_00'' \<and> 0 \<le> Progress j \<and>
     (jError j \<noteq> None \<longleftrightarrow> State j = JobFailed \<or> State j = JobCancelled)"
  using job_records_consistent [OF one_job_reachable one_job_job] one_job_job by blast

section \<open>The life of a job\<close>

fun stage :: "job_state \<Rightarrow> nat" where
  "stage JobPending = 0"
| "stage JobRunning = 1"
| "stage _ = 2"

lemma stage_Terminal: "stage s = 2 \<longleftrightarrow> Terminal s"
  by (cases s) simp_all

lemma stage_le: "stage s \<le> 2"
  by (cases s) simp_all

definition follows :: "'d ajob \<Rightarrow> 'd ajob \<Rightarrow> bool" where
  "follows j j' \<longleftrightarrow>
     (Terminal (State j) \<longrightarrow> j' = j) \<and> stage (State j) \<le> stage (State j') \<and>
     ID j' = ID j \<and> jOperation j' = jOperation j \<and> jRequestID j' = jRequestID j \<and>
     CreatedAt j' = CreatedAt j"

lemma follows_refl: "follows j j"
  by (simp add: follows_def)

lemma step_follows:
  assumes "jobs_inv opts r" "jstep_at opts now r r'" "jobs r i = Some j"
  shows "(\<exists>j'. jobs r' i = Some j' \<and> follows j j') \<or> (jobs r' i = None \<and> expired opts now j)"
  using assms(2)
proof (cases rule: jstep_at.cases)
  case (submit k op req res)
  then have "jobs r' i = jobs (evictLocked opts now r) i"
    using assms(3) by (auto simp: Submit_def Let_def split: if_splits)
  then show ?thesis using assms(3) follows_refl by (auto simp: evictLocked_def)
next
  case (start k w)
  obtain jk where "jobs r k = Some jk" "job_ok k (Some w) jk"
    using jobs_inv_worker [OF assms(1) start(2)] .
  then show ?thesis
    using start assms(3)
    by (cases "k = i") (auto simp: run_start_def follows_def job_ok_def)
next
  case (progress k percent message)
  then show ?thesis
    using assms(3) by (auto simp: setProgress_def Let_def follows_def split: option.splits)
next
  case (finish k w out)
  obtain jk where jk: "jobs r k = Some jk" "job_ok k (Some w) jk"
    using jobs_inv_worker [OF assms(1) finish(2)] .
  show ?thesis
  proof (cases "k = i")
    case True
    have "stage (State j) \<le> 2" by (rule stage_le)
    then have "follows j (record_outcome (wctx w) out (j\<lparr>CompletedAt := Some now, cancel := False\<rparr>))"
      using jk True assms(3)
      by (auto simp: follows_def job_ok_def record_outcome_def
          split: option.splits ctx_err.splits outcome.splits)
    then show ?thesis using finish True assms(3) by (simp add: run_finish_def)
  qed (use finish assms(3) follows_refl in \<open>auto simp: run_finish_def Let_def split: option.splits\<close>)
next
  case (cancelled k res)
  then have "jobs r' = jobs r"
    by (auto simp: Cancel_def ctx_end_def split: option.splits if_splits)
  then show ?thesis using assms(3) follows_refl by auto
next
  case (timed_out k)
  then have "jobs r' = jobs r" by (auto simp: ctx_end_def split: option.splits)
  then show ?thesis using assms(3) follows_refl by auto
next
  case (listed order res)
  then have "jobs r' i = jobs (evictLocked opts now r) i" by (auto simp: List_jobs_def Let_def)
  then show ?thesis using assms(3) follows_refl by (auto simp: evictLocked_def)
next
  case shutdown
  then show ?thesis using assms(3) follows_refl by (auto simp: shutdown_cancel_def)
qed

text \<open>C24: a job's record changes only forward, from pending to running to a final state, and a final
  record never changes again; and a record leaves the table only by eviction: in a step that leaves it
  out while the clock shows \<open>now\<close>, the job had finished and its completion was more than the retention
  period before that same \<open>now\<close>. A job that is still to run, running or finished recently is never
  removed.\<close>

theorem job_lifecycle:
  assumes "reach (\<lambda>r. r = NewRunner) (jstep (job_defaults opts)) r"
    and "jstep_at (job_defaults opts) now r r'" and "jobs r i = Some j"
  shows "(\<exists>j'. jobs r' i = Some j' \<and> stage (State j) \<le> stage (State j') \<and>
            (Terminal (State j) \<longrightarrow> j' = j) \<and> CreatedAt j' = CreatedAt j) \<or>
         (jobs r' i = None \<and> Terminal (State j) \<and>
            (\<exists>t. CompletedAt j = Some t \<and> t < now - Retention (job_defaults opts)))"
  using step_follows [OF agent_jobs.reach_inv [OF assms(1)] assms(2,3)]
  by (auto simp: follows_def expired_def split: option.splits)

theorem job_lifecycle_witness:
  "\<exists>j'. jobs (run_start 6 ''job_00'' one_job) ''job_00'' = Some j' \<and>
     stage JobPending \<le> stage (State j') \<and> CreatedAt j' = 5"
proof -
  have w: "workers one_job ''job_00'' = Some \<lparr>wphase = Spawned, wctx = None\<rparr>"
    by (simp add: one_job_def Submit_def evictLocked_def NewRunner_def job_defaults_def
        example_options_def)
  have s: "jstep_at (job_defaults example_options) 6 one_job (run_start 6 ''job_00'' one_job)"
    by (rule jstep_at.start [OF w]) simp
  from job_lifecycle [OF one_job_reachable s one_job_job] show ?thesis
    by (auto simp: new_job_def)
qed

section \<open>Shutdown\<close>

definition all_cancelled :: "'d runner \<Rightarrow> bool" where
  "all_cancelled r \<longleftrightarrow> (\<forall>i w. workers r i = Some w \<longrightarrow> wctx w \<noteq> None)"

text \<open>A worker whose context is done ends in at most two steps of its own, whatever its executor
  returns, and leaves its job cancelled or failed.\<close>

lemma finish_one:
  assumes inv: "jobs_inv opts r" and w: "workers r i = Some w" "wphase w = Executing"
    and c: "wctx w \<noteq> None"
  shows "\<exists>j'. run_finish now i out r =
      r\<lparr>running := running r - 1, jobs := (jobs r)(i \<mapsto> j'), workers := (workers r)(i := None)\<rparr> \<and>
    (State j' = JobCancelled \<or> State j' = JobFailed)"
proof -
  obtain j where "jobs r i = Some j" using jobs_inv_worker [OF inv w(1)] .
  with w c show ?thesis
    by (auto simp: run_finish_def record_outcome_def split: ctx_err.splits)
qed

text \<open>After \<open>Shutdown\<close> the Agent takes no more requests: the steps that can still happen are those
  that add no job.\<close>

definition winds_down :: "joptions \<Rightarrow> 'd runner \<Rightarrow> 'd runner \<Rightarrow> bool" where
  "winds_down opts r r' \<longleftrightarrow> jstep opts r r' \<and> dom (jobs r') \<subseteq> dom (jobs r)"

lemma winds_steps: "(winds_down opts)\<^sup>*\<^sup>* r r' \<Longrightarrow> (jstep opts)\<^sup>*\<^sup>* r r'"
  by (rule rtranclp_mono [THEN predicate2D]) (auto simp: winds_down_def)

lemma start_winds:
  assumes "workers r i = Some w" "wphase w = Spawned"
  shows "winds_down opts r (run_start now i r)"
  using jstepI [OF jstep_at.start [OF assms]]
  by (auto simp: winds_down_def run_start_def split: option.splits if_splits)

lemma finish_winds:
  assumes "workers r i = Some w" "wphase w = Executing"
  shows "winds_down opts r (run_finish now i out r)"
  using jstepI [OF jstep_at.finish [OF assms]]
  by (auto simp: winds_down_def run_finish_def Let_def split: option.splits if_splits)

lemma worker_ends:
  assumes inv: "jobs_inv opts r" and w: "workers r i = Some w" and c: "wctx w \<noteq> None"
  shows "\<exists>r' j'. (winds_down opts)\<^sup>*\<^sup>* r r' \<and> workers r' = (workers r)(i := None) \<and>
    jobs r' = (jobs r)(i \<mapsto> j') \<and> (State j' = JobCancelled \<or> State j' = JobFailed)"
proof (cases "wphase w")
  case Executing
  obtain j' where "run_finish 0 i ExecError r =
      r\<lparr>running := running r - 1, jobs := (jobs r)(i \<mapsto> j'), workers := (workers r)(i := None)\<rparr>"
    "State j' = JobCancelled \<or> State j' = JobFailed"
    using finish_one [OF inv w Executing c] by blast
  moreover have "winds_down opts r (run_finish 0 i ExecError r)" using finish_winds [OF w Executing] .
  ultimately show ?thesis by (metis r_into_rtranclp runner.select_convs(1,3) runner.surjective
        runner.update_convs)
next
  case Spawned
  let ?r = "run_start 0 i r" and ?w = "w\<lparr>wphase := Executing\<rparr>"
  obtain j where j: "jobs r i = Some j" using jobs_inv_worker [OF inv w] .
  have s: "winds_down opts r ?r" using start_winds [OF w Spawned] .
  have i: "jobs_inv opts ?r" using run_start_jobs_inv [OF inv w Spawned] .
  have w': "workers ?r i = Some ?w" using w j by (simp add: run_start_def)
  obtain j' where f: "run_finish 0 i ExecError ?r =
      ?r\<lparr>running := running ?r - 1, jobs := (jobs ?r)(i \<mapsto> j'), workers := (workers ?r)(i := None)\<rparr>"
    "State j' = JobCancelled \<or> State j' = JobFailed"
    using finish_one [OF i w'] c by fastforce
  have "winds_down opts ?r (run_finish 0 i ExecError ?r)" using finish_winds [OF w'] by simp
  with s have "(winds_down opts)\<^sup>*\<^sup>* r (run_finish 0 i ExecError ?r)" by simp
  then show ?thesis
    using f j w by (intro exI [of _ "run_finish 0 i ExecError ?r"] exI [of _ j'])
      (simp add: run_start_def)
qed

lemma steps_jobs_inv:
  assumes "(winds_down opts)\<^sup>*\<^sup>* r r'" "jobs_inv opts r" "opts = job_defaults o'"
  shows "jobs_inv opts r'"
  using agent_jobs.steps_inv [OF winds_steps [OF assms(1), unfolded assms(3)]] assms(2,3) by blast

lemma all_end:
  assumes "opts = job_defaults o'"
  shows "jobs_inv opts r \<Longrightarrow> all_cancelled r \<Longrightarrow>
    \<exists>r'. (winds_down opts)\<^sup>*\<^sup>* r r' \<and> drained r' \<and>
      (\<forall>i. workers r i = None \<longrightarrow> jobs r' i = jobs r i) \<and>
      (\<forall>i. workers r i \<noteq> None \<longrightarrow>
         (\<exists>j. jobs r' i = Some j \<and> (State j = JobCancelled \<or> State j = JobFailed)))"
proof (induction "card (dom (workers r))" arbitrary: r)
  case 0
  have "finite (dom (workers r))" using 0(2) finite_subset by (auto simp: jobs_inv_def)
  with 0(1) have "drained r" by (simp add: drained_def)
  then show ?case by (intro exI [of _ r]) (auto simp: drained_def)
next
  case (Suc n)
  from Suc(2) obtain i w where w: "workers r i = Some w" by (metis card.empty dom_eq_empty_conv
        nat.distinct(1) not_Some_eq)
  obtain r1 j1 where 1: "(winds_down opts)\<^sup>*\<^sup>* r r1" "workers r1 = (workers r)(i := None)"
    "jobs r1 = (jobs r)(i \<mapsto> j1)" "State j1 = JobCancelled \<or> State j1 = JobFailed"
    using worker_ends [OF Suc(3) w] Suc(4) w unfolding all_cancelled_def by blast
  have inv1: "jobs_inv opts r1" using steps_jobs_inv [OF 1(1) Suc(3) assms] .
  have "finite (dom (workers r))" using Suc(3) finite_subset by (auto simp: jobs_inv_def)
  then have "card (dom (workers r1)) = n" using Suc(2) w 1(2) by (simp add: card_Diff_singleton domI)
  moreover have "all_cancelled r1" using Suc(4) 1(2) by (auto simp: all_cancelled_def)
  ultimately obtain r' where 2: "(winds_down opts)\<^sup>*\<^sup>* r1 r'" "drained r'"
    "\<forall>k. workers r1 k = None \<longrightarrow> jobs r' k = jobs r1 k"
    "\<forall>k. workers r1 k \<noteq> None \<longrightarrow>
       (\<exists>j. jobs r' k = Some j \<and> (State j = JobCancelled \<or> State j = JobFailed))"
    using Suc(1) [of r1] inv1 by blast
  have "(winds_down opts)\<^sup>*\<^sup>* r r'" using 1(1) 2(1) by (rule rtranclp_trans)
  moreover have "jobs r' k = jobs r k" if "workers r k = None" for k
    using that 2(3) 1(2,3) w by (metis fun_upd_apply option.distinct(1))
  moreover have "\<exists>j. jobs r' k = Some j \<and> (State j = JobCancelled \<or> State j = JobFailed)"
    if "workers r k \<noteq> None" for k
    using that 2(3,4) 1(2-4) by (cases "k = i") auto
  ultimately show ?case using 2(2) by blast
qed

text \<open>A job that a shutdown stops: gone from the table, cancelled or failed, or unfinished with a worker
  whose context is done. No step but a submission undoes that.\<close>

definition stopped :: "go_string \<Rightarrow> 'd runner \<Rightarrow> bool" where
  "stopped i r \<longleftrightarrow>
     (case jobs r i of
        None \<Rightarrow> True
      | Some j \<Rightarrow>
          State j = JobCancelled \<or> State j = JobFailed \<or>
          (\<not> Terminal (State j) \<and> (\<exists>w. workers r i = Some w \<and> wctx w \<noteq> None)))"

lemma stopped_evict: "stopped i r \<Longrightarrow> stopped i (evictLocked opts now r)"
  by (auto simp: stopped_def evictLocked_def split: option.splits)

lemma stopped_ctx_end: "stopped i r \<Longrightarrow> stopped i (ctx_end e k r)"
  by (auto simp: stopped_def ctx_end_def split: option.splits)

lemma stopped_step:
  assumes inv: "jobs_inv opts r" and step: "winds_down opts r r'" and s: "stopped i r"
  shows "stopped i r'"
proof -
  obtain now where st: "jstep_at opts now r r'" and d: "dom (jobs r') \<subseteq> dom (jobs r)"
    using step by (auto simp: winds_down_def jstep_def)
  from st show ?thesis
  proof (cases rule: jstep_at.cases)
    case (submit k op req res)
    then have "k \<notin> dom (jobs r')" using d by blast
    then have "r' = evictLocked opts now r"
      using submit by (auto simp: Submit_def Let_def split: if_splits)
    then show ?thesis using stopped_evict [OF s] by simp
  next
    case (start k w)
    obtain jk where "jobs r k = Some jk" "job_ok k (Some w) jk"
      using jobs_inv_worker [OF inv start(2)] .
    then show ?thesis
      using s start
      by (cases "k = i") (auto simp: stopped_def run_start_def job_ok_def split: option.splits)
  next
    case (finish k w out)
    obtain jk where "jobs r k = Some jk" "job_ok k (Some w) jk"
      using jobs_inv_worker [OF inv finish(2)] .
    then show ?thesis
      using s finish
      by (cases "k = i")
        (auto simp: stopped_def run_finish_def record_outcome_def job_ok_def
          split: option.splits ctx_err.splits outcome.splits)
  next
    case (progress k percent message)
    then show ?thesis using s
      by (auto simp: stopped_def setProgress_def Let_def split: option.splits)
  next
    case (cancelled k res)
    then show ?thesis using s stopped_ctx_end [OF s]
      by (auto simp: Cancel_def split: option.splits if_splits)
  next
    case (timed_out k)
    then show ?thesis using stopped_ctx_end [OF s] by simp
  next
    case (listed order res)
    then show ?thesis using stopped_evict [OF s] by (auto simp: List_jobs_def Let_def)
  next
    case shutdown
    then show ?thesis using s by (auto simp: stopped_def shutdown_cancel_def split: option.splits)
  qed
qed

lemma stopped_steps:
  assumes "(winds_down (job_defaults opts))\<^sup>*\<^sup>* r r'" "jobs_inv (job_defaults opts) r" "stopped i r"
  shows "stopped i r'"
  using assms
proof (induction rule: rtranclp_induct)
  case (step y z)
  then show ?case using stopped_step steps_jobs_inv [OF step(1) step(4) refl] by blast
qed

lemma shutdown_stops:
  assumes inv: "jobs_inv opts r" and j: "jobs r i = Some j" "\<not> Terminal (State j)"
  shows "stopped i (shutdown_cancel r)"
  using jobs_inv_jobD [OF inv j(1)] j
  by (auto simp: stopped_def shutdown_cancel_def job_ok_def split: option.splits)

lemma shutdown_all_cancelled:
  assumes inv: "jobs_inv opts r"
  shows "all_cancelled (shutdown_cancel r)"
proof -
  have "wctx w \<noteq> None" if ws: "workers (shutdown_cancel r) i = Some w" for i w
  proof -
    obtain w0 where w0: "workers r i = Some w0"
      using ws by (auto simp: shutdown_cancel_def split: option.splits)
    obtain j where "jobs r i = Some j" "job_ok i (Some w0) j" using jobs_inv_worker [OF inv w0] .
    then show ?thesis
      using ws w0 by (auto simp: shutdown_cancel_def job_ok_def split: option.splits)
  qed
  then show ?thesis by (simp add: all_cancelled_def)
qed

text \<open>C38: shutting down stops every job and can always complete. From any state the runner reaches,
  once \<open>Shutdown\<close> has cancelled the contexts: whatever the executors return, and in whatever order
  workers, callers, timeouts and evictions go on, as long as no further job is submitted, a job that
  was unfinished never succeeds, so when its record is final it is cancelled or failed; and the
  workers alone can always bring the runner to a drained state, in which every job that was
  unfinished is cancelled or failed and every finished job is as it was.\<close>

theorem shutdown_can_drain:
  assumes "reach (\<lambda>r. r = NewRunner) (jstep (job_defaults opts)) r"
  shows "(\<forall>r' i j j'. (winds_down (job_defaults opts))\<^sup>*\<^sup>* (shutdown_cancel r) r' \<longrightarrow>
            jobs r i = Some j \<longrightarrow> \<not> Terminal (State j) \<longrightarrow> jobs r' i = Some j' \<longrightarrow>
            Terminal (State j') \<longrightarrow> State j' = JobCancelled \<or> State j' = JobFailed) \<and>
    (\<exists>r'. (winds_down (job_defaults opts))\<^sup>*\<^sup>* (shutdown_cancel r) r' \<and> drained r' \<and>
      (\<forall>i j. jobs r i = Some j \<longrightarrow>
         (if Terminal (State j) then jobs r' i = Some j
          else \<exists>j'. jobs r' i = Some j' \<and> (State j' = JobCancelled \<or> State j' = JobFailed))))"
proof -
  let ?s = "shutdown_cancel r" and ?w = "(winds_down (job_defaults opts))\<^sup>*\<^sup>*"
  have inv: "jobs_inv (job_defaults opts) r" using assms by (rule agent_jobs.reach_inv)
  have inv': "jobs_inv (job_defaults opts) ?s" using inv by (rule shutdown_jobs_inv)
  have none: "workers ?s i = None \<longleftrightarrow> workers r i = None" and jobs: "jobs ?s i = jobs r i" for i
    by (auto simp: shutdown_cancel_def split: option.splits)
  have never: "State j' = JobCancelled \<or> State j' = JobFailed"
    if "?w ?s r'" "jobs r i = Some j" "\<not> Terminal (State j)" "jobs r' i = Some j'"
      "Terminal (State j')" for r' i j j'
    using stopped_steps [OF that(1) inv' shutdown_stops [OF inv that(2,3)]] that(4,5)
    by (auto simp: stopped_def)
  from all_end [OF refl inv' shutdown_all_cancelled [OF inv]] obtain r' where
    r': "?w ?s r'" "drained r'" "\<forall>i. workers ?s i = None \<longrightarrow> jobs r' i = jobs ?s i"
    "\<forall>i. workers ?s i \<noteq> None \<longrightarrow>
       (\<exists>j. jobs r' i = Some j \<and> (State j = JobCancelled \<or> State j = JobFailed))"
    by blast
  have "workers r i = None \<longleftrightarrow> Terminal (State j)" if "jobs r i = Some j" for i j
    using jobs_inv_jobD [OF inv that] by (auto simp: job_ok_def)
  with r'(3,4) jobs none have
    "if Terminal (State j) then jobs r' i = Some j
     else \<exists>j'. jobs r' i = Some j' \<and> (State j' = JobCancelled \<or> State j' = JobFailed)"
    if "jobs r i = Some j" for i j
    using that by metis
  with r'(1,2) never show ?thesis by blast
qed

text \<open>The executor of the job still returns a result after the shutdown.\<close>

definition late_result :: "nat runner" where
  "late_result = run_finish 7 ''job_00'' (ExecOk 0) (run_start 6 ''job_00'' (shutdown_cancel one_job))"

theorem shutdown_can_drain_witness:
  "jobs one_job ''job_00'' \<noteq> None \<and>
   (winds_down (job_defaults example_options))\<^sup>*\<^sup>* (shutdown_cancel one_job) late_result \<and>
   (\<exists>j'. jobs late_result ''job_00'' = Some j' \<and> (State j' = JobCancelled \<or> State j' = JobFailed)) \<and>
   (\<exists>r'. (winds_down (job_defaults example_options))\<^sup>*\<^sup>* (shutdown_cancel one_job) r' \<and> drained r')"
proof -
  let ?o = "job_defaults example_options" and ?s = "shutdown_cancel one_job"
  note defs = one_job_def Submit_def evictLocked_def NewRunner_def job_defaults_def example_options_def
    shutdown_cancel_def new_job_def
  have n: "\<not> Terminal (State (new_job ''job_00'' ''agent.ping'' ''r'' 5 :: nat ajob))"
    by (simp add: new_job_def)
  note all = shutdown_can_drain [OF one_job_reachable]
  have w: "workers ?s ''job_00'' = Some \<lparr>wphase = Spawned, wctx = Some Canceled\<rparr>" by (simp add: defs)
  have w': "workers (run_start 6 ''job_00'' ?s) ''job_00'' = Some \<lparr>wphase = Executing, wctx = Some Canceled\<rparr>"
    by (simp add: run_start_def w)
  have "winds_down ?o ?s (run_start 6 ''job_00'' ?s)" by (rule start_winds [OF w]) simp
  moreover have "winds_down ?o (run_start 6 ''job_00'' ?s) late_result"
    unfolding late_result_def by (rule finish_winds [OF w']) simp
  ultimately have steps: "(winds_down ?o)\<^sup>*\<^sup>* ?s late_result" by simp
  obtain j' where j': "jobs late_result ''job_00'' = Some j'" "Terminal (State j')"
    by (auto simp: late_result_def run_finish_def run_start_def record_outcome_def defs split: ctx_err.splits)
  have "State j' = JobCancelled \<or> State j' = JobFailed"
    using all [THEN conjunct1, rule_format, OF steps one_job_job n j'] .
  with all steps j'(1) one_job_job show ?thesis by blast
qed

end
