(* ===== verification/Agent_Registry.thy ===== *)
theory Agent_Registry
  imports Agent_Jobs
begin

text \<open>
  Package \<open>agent/internal/operations\<close>, \<open>registry.go\<close>: the table from operations to handlers, and
  \<open>Dispatch\<close>, which validates a request, refuses what is not allowed, and runs the handler in place
  or as a job.

  The handlers are the argument \<open>handle\<close>: what the handler registered under a name makes of a
  request, with a panic as one of its outcomes. Which handler was called, if any, is part of the
  result, so that a refusal can be told from a call whose answer is an error.
\<close>

section \<open>The table\<close>

definition registrations_hosting :: "(go_string \<times> go_string) list" where
  "registrations_hosting =
     [(''agent.ping'', ''handlePing''),
      (''agent.info'', ''handleAgentInfo''),
      (''system.info'', ''handleSystemInfo''),
      (''metrics.cpu'', ''handleMetricsCPU''),
      (''metrics.memory'', ''handleMetricsMemory''),
      (''metrics.disk'', ''handleMetricsDisk''),
      (''metrics.network'', ''handleMetricsNetwork''),
      (''metrics.load'', ''handleMetricsLoad''),
      (''process.list'', ''handleProcessList''),
      (''grafana.status'', ''handleGrafanaStatus''),
      (''grafana.install'', ''handleGrafanaInstall''),
      (''grafana.provision'', ''handleGrafanaProvision''),
      (''service.boot-audit'', ''handleServiceBootAudit''),
      (''service.boot-persist'', ''handleServiceBootPersist''),
      (''service.detect'', ''handleServiceDetect''),
      (''service.action'', ''handleServiceAction''),
      (''service.list'', ''handleServiceList''),
      (''service.status'', ''handleServiceStatus''),
      (''website.create'', ''handleWebsiteCreate''),
      (''website.delete'', ''handleWebsiteDelete''),
      (''website.update'', ''handleWebsiteUpdate''),
      (''website.status'', ''handleWebsiteStatus''),
      (''website.logs'', ''handleWebsiteLogs''),
      (''nginx.validate'', ''handleNginxValidate''),
      (''nginx.reload'', ''handleNginxReload''),
      (''php.versions'', ''handlePHPVersions''),
      (''php.install'', ''handlePHPInstall''),
      (''php.uninstall'', ''handlePHPUninstall''),
      (''php.pool.create'', ''handlePHPPoolCreate''),
      (''php.pool.delete'', ''handlePHPPoolDelete''),
      (''php.pool.status'', ''handlePHPPoolStatus''),
      (''php.extensions'', ''handlePHPExtensions''),
      (''firewall.status'', ''handleFirewallStatus''),
      (''firewall.change'', ''handleFirewallChange''),
      (''firewall.confirm'', ''handleFirewallConfirm''),
      (''firewall.rollback'', ''handleFirewallRollback''),
      (''apache.status'', ''handleApacheStatus''),
      (''apache.install'', ''handleApacheInstall''),
      (''website.php.set'', ''handleWebsitePHPSet''),
      (''website.php.unset'', ''handleWebsitePHPUnset''),
      (''ssl.issue'', ''handleSSLIssue''),
      (''ssl.renew'', ''handleSSLRenew''),
      (''ssl.revoke'', ''handleSSLRevoke''),
      (''ssl.status'', ''handleSSLStatus''),
      (''ssl.capabilities'', ''handleSSLCapabilities''),
      (''database.engines'', ''handleDatabaseEngines''),
      (''database.list'', ''handleDatabaseList''),
      (''database.create'', ''handleDatabaseCreate''),
      (''database.delete'', ''handleDatabaseDelete''),
      (''database.size'', ''handleDatabaseSize''),
      (''database.user.list'', ''handleDatabaseUserList''),
      (''database.user.create'', ''handleDatabaseUserCreate''),
      (''database.user.delete'', ''handleDatabaseUserDelete''),
      (''database.user.password'', ''handleDatabaseUserPassword''),
      (''database.user.grant'', ''handleDatabaseUserGrant''),
      (''database.export'', ''handleDatabaseExport''),
      (''database.import'', ''handleDatabaseImport''),
      (''database.transfer.begin'', ''handleDatabaseTransferBegin''),
      (''database.transfer.read'', ''handleDatabaseTransferRead''),
      (''database.transfer.write'', ''handleDatabaseTransferWrite''),
      (''database.transfer.finish'', ''handleDatabaseTransferFinish''),
      (''phpmyadmin.status'', ''handlePHPMyAdminStatus''),
      (''phpmyadmin.install'', ''handlePHPMyAdminInstall''),
      (''phpmyadmin.uninstall'', ''handlePHPMyAdminUninstall''),
      (''node.versions'', ''handleNodeVersions''),
      (''node.install'', ''handleNodeInstall''),
      (''node.uninstall'', ''handleNodeUninstall''),
      (''node.app.deploy'', ''handleNodeAppDeploy''),
      (''node.app.remove'', ''handleNodeAppRemove''),
      (''node.app.start'', ''handleNodeAppStart''),
      (''node.app.stop'', ''handleNodeAppStop''),
      (''node.app.restart'', ''handleNodeAppRestart''),
      (''node.app.status'', ''handleNodeAppStatus''),
      (''node.app.logs'', ''handleNodeAppLogs'')]"

definition registrations_services :: "(go_string \<times> go_string) list" where
  "registrations_services =
     [(''node.app.dependencies'', ''handleNodeAppInstall''),
      (''file.list'', ''handleFileList''),
      (''file.stat'', ''handleFileStat''),
      (''file.read'', ''handleFileRead''),
      (''file.write'', ''handleFileWrite''),
      (''file.mkdir'', ''handleFileMkdir''),
      (''file.create'', ''handleFileCreate''),
      (''file.delete'', ''handleFileDelete''),
      (''file.copy'', ''handleFileCopy''),
      (''file.move'', ''handleFileMove''),
      (''file.chmod'', ''handleFileChmod''),
      (''file.archive'', ''handleFileArchive''),
      (''file.extract'', ''handleFileExtract''),
      (''file.search'', ''handleFileSearch''),
      (''fail2ban.status'', ''handleFail2banStatus''),
      (''fail2ban.install'', ''handleFail2banInstall''),
      (''fail2ban.configure'', ''handleFail2banConfigure''),
      (''fail2ban.ignore'', ''handleFail2banIgnore''),
      (''fail2ban.banned'', ''handleFail2banBanned''),
      (''fail2ban.unban'', ''handleFail2banUnban''),
      (''fail2ban.ban'', ''handleFail2banBan''),
      (''ftp.status'', ''handleFTPStatus''),
      (''ftp.install'', ''handleFTPInstall''),
      (''ftp.reconcile'', ''handleFTPReconcile''),
      (''ftp.sessions'', ''handleFTPSessions''),
      (''ftp.disconnect'', ''handleFTPDisconnect''),
      (''updates.check'', ''handleUpdatesCheck''),
      (''updates.apply'', ''handleUpdatesApply''),
      (''updates.revert'', ''handleUpdatesRevert''),
      (''security.ports'', ''handleSecurityPorts''),
      (''security.permissions'', ''handleSecurityPermissions''),
      (''backup.capabilities'', ''handleBackupCapabilities''),
      (''backup.create'', ''handleBackupCreate''),
      (''backup.verify'', ''handleBackupVerify''),
      (''backup.restore'', ''handleBackupRestore''),
      (''backup.delete'', ''handleBackupDelete''),
      (''backup.destination.check'', ''handleBackupCheckTarget''),
      (''dns.status'', ''handleDNSStatus''),
      (''dns.install'', ''handleDNSInstall''),
      (''dns.reconcile'', ''handleDNSReconcile''),
      (''dns.zone.status'', ''handleDNSZoneStatus''),
      (''dns.signing'', ''handleDNSSigning''),
      (''deploy.status'', ''handleDeployStatus''),
      (''deploy.key.generate'', ''handleDeployKeyGenerate''),
      (''deploy.key.remove'', ''handleDeployKeyRemove''),
      (''deploy.run'', ''handleDeployRun''),
      (''deploy.unlink'', ''handleDeployUnlink''),
      (''tenant.status'', ''handleTenantStatus''),
      (''tenant.usage'', ''handleTenantUsage''),
      (''tenant.isolation.apply'', ''handleTenantIsolationApply''),
      (''tenant.isolation.remove'', ''handleTenantIsolationRemove''),
      (''mail.status'', ''handleMailStatus''),
      (''mail.install'', ''handleMailInstall''),
      (''mail.reconcile'', ''handleMailReconcile''),
      (''mail.dkim.generate'', ''handleMailDKIMGenerate''),
      (''mail.dkim.remove'', ''handleMailDKIMRemove''),
      (''mail.quota'', ''handleMailQuota''),
      (''webmail.install'', ''handleWebmailInstall''),
      (''webmail.remove'', ''handleWebmailRemove''),
      (''ssh.status'', ''handleSSHStatus''),
      (''ssh.configure'', ''handleSSHConfigure''),
      (''ssh.keys.list'', ''handleSSHKeyList''),
      (''ssh.keys.add'', ''handleSSHKeyAdd''),
      (''ssh.keys.remove'', ''handleSSHKeyRemove''),
      (''cron.status'', ''handleCronStatus''),
      (''cron.apply'', ''handleCronApply''),
      (''cron.remove'', ''handleCronRemove''),
      (''cron.run'', ''handleCronRun''),
      (''cron.log.remove'', ''handleCronLogRemove''),
      (''log.list'', ''handleLogList''),
      (''log.tail'', ''handleLogTail''),
      (''log.read'', ''handleLogRead''),
      (''job.status'', ''handleJobStatus''),
      (''job.cancel'', ''handleJobCancel''),
      (''job.list'', ''handleJobList'')]"

type_synonym registry = "go_string \<rightharpoonup> go_string"

text \<open>\<open>mustRegister\<close> panics, which is \<open>None\<close>, on an operation that is not in the allowlist or is
  registered twice.\<close>

definition mustRegister :: "go_string \<times> go_string \<Rightarrow> registry \<Rightarrow> registry option" where
  "mustRegister = (\<lambda>(op, h) handlers.
     if \<not> IsAllowed op then None
     else if handlers op \<noteq> None then None
     else Some (handlers(op \<mapsto> h)))"

fun register_all :: "(go_string \<times> go_string) list \<Rightarrow> registry \<Rightarrow> registry option" where
  "register_all [] handlers = Some handlers"
| "register_all (x # xs) handlers =
     (case mustRegister x handlers of None \<Rightarrow> None | Some handlers' \<Rightarrow> register_all xs handlers')"

definition NewRegistry :: "registry option" where
  "NewRegistry = register_all (registrations_hosting @ registrations_services) Map.empty"

section \<open>Dispatch\<close>

text \<open>What a handler returns: data, an error of its own type, another error, or a panic; \<open>call\<close>
  is what was done about a request.\<close>

datatype 'd handler_result = Returned 'd | HandlerError perror | OtherError go_string | Panicked

datatype 'p call = NoCall | Invoked go_string "'p request" | Queued go_string "'p request" go_string

definition panic_error :: perror where
  "panic_error = \<lparr>Code = CodeInternal, Message = ''The operation failed unexpectedly''\<rparr>"

definition invoke :: "'d handler_result \<Rightarrow> 'd handler_result" where
  "invoke res = (case res of Panicked \<Rightarrow> HandlerError panic_error | _ \<Rightarrow> res)"

definition errorResponse :: "'p request \<Rightarrow> perror option \<Rightarrow> 'd response" where
  "errorResponse req handlerErr =
     (case handlerErr of
        Some e \<Rightarrow> NewError (RequestID req) (Code e) (Message e)
      | None \<Rightarrow> NewError (RequestID req) CodeInternal ''Operation failed'')"

text \<open>The outcome a job records for a handler's result; \<open>invoke\<close> has turned a panic into an error of
  the registry's own type before the job runner sees it.\<close>

definition job_outcome :: "'d handler_result \<Rightarrow> 'd outcome" where
  "job_outcome res =
     (case invoke res of
        Returned d \<Rightarrow> ExecOk d
      | HandlerError e \<Rightarrow> ExecStructured e
      | OtherError _ \<Rightarrow> ExecError
      | Panicked \<Rightarrow> ExecPanic)"

definition dispatchAsync :: "joptions \<Rightarrow> int \<Rightarrow> go_string \<Rightarrow> 'p request \<Rightarrow> go_string \<Rightarrow> 'd runner \<Rightarrow>
    'd response \<times> 'p call \<times> 'd runner" where
  "dispatchAsync opts now jobID req h r =
     (case Submit opts now jobID (Operation req) (RequestID req) r of
        (Inl ErrQueueFull, r') \<Rightarrow>
          (NewError (RequestID req) CodeBusy ''The agent is at its job limit. Try again shortly.'',
           NoCall, r')
      | (Inl _, r') \<Rightarrow> (NewError (RequestID req) CodeInternal ''Operation failed'', NoCall, r')
      | (Inr i, r') \<Rightarrow> (NewAccepted (RequestID req) i, Queued h req i, r'))"

definition Dispatch :: "(go_string \<Rightarrow> 'p request \<Rightarrow> 'd handler_result) \<Rightarrow> registry \<Rightarrow> joptions \<Rightarrow> int \<Rightarrow>
    go_string \<Rightarrow> 'p request \<Rightarrow> 'd runner \<Rightarrow> 'd response \<times> 'p call \<times> 'd runner" where
  "Dispatch handle handlers opts now jobID req r =
     (case Request_Validate req of
        Some err \<Rightarrow>
          (if err = ErrUnknownOperation
           then NewError (RequestID req) CodeUnknownOperation ''Operation is not permitted''
           else NewError (RequestID req) CodeInvalidRequest ''Request is not valid'',
           NoCall, r)
      | None \<Rightarrow>
          (case handlers (Operation req) of
             None \<Rightarrow>
               (NewError (RequestID req) CodeUnknownOperation ''Operation is not permitted'', NoCall, r)
           | Some h \<Rightarrow>
               if Async req then dispatchAsync opts now jobID req h r
               else
                 (case invoke (handle h req) of
                    Returned d \<Rightarrow> NewSuccess (RequestID req) d
                  | HandlerError e \<Rightarrow> errorResponse req (Some e)
                  | _ \<Rightarrow> errorResponse req None,
                  Invoked h req, r)))"

section \<open>The table is complete\<close>

lemma registered_operations:
  "map fst (registrations_hosting @ registrations_services) =
     concat [agentOperations, systemOperations, metricsOperations, processOperations,
       grafanaOperations, serviceOperations, websiteOperations, nginxOperations, phpOperations,
       firewallOperations, apacheOperations, websiteOperations2, sslOperations,
       databaseOperations, phpmyadminOperations, nodeOperations, fileOperations,
       fail2banOperations, ftpOperations, updatesOperations, securityOperations,
       backupOperations, dnsOperations, deployOperations, tenantOperations, mailOperations,
       webmailOperations, sshOperations, cronOperations, logOperations, jobOperations]"
  by (simp add: registrations_hosting_def registrations_services_def family_defs)

lemma mset_registered:
  "mset (map fst (registrations_hosting @ registrations_services)) = mset allowedOperations"
  unfolding registered_operations by (simp add: allowedOperations_def)

lemma register_all_succeeds:
  "distinct (map fst xs) \<Longrightarrow> (\<forall>x \<in> set xs. IsAllowed (fst x)) \<Longrightarrow> dom m \<inter> fst ` set xs = {} \<Longrightarrow>
     \<exists>m'. register_all xs m = Some m' \<and> dom m' = dom m \<union> fst ` set xs"
proof (induction xs arbitrary: m)
  case (Cons x xs)
  obtain op h where x: "x = (op, h)" by fastforce
  have "op \<notin> dom m" using Cons.prems(3) x by auto
  then have "mustRegister x m = Some (m(op \<mapsto> h))"
    using Cons.prems(2) x by (auto simp: mustRegister_def)
  moreover have "dom (m(op \<mapsto> h)) \<inter> fst ` set xs = {}" using Cons.prems x by auto
  moreover have "\<exists>m'. register_all xs (m(op \<mapsto> h)) = Some m' \<and>
      dom m' = dom (m(op \<mapsto> h)) \<union> fst ` set xs"
    using Cons.prems by (intro Cons.IH calculation) simp_all
  ultimately show ?case using x by auto
qed simp

text \<open>C36: building the registry does not panic, and the handlers registered are those of the
  allowlist, no more and no fewer: every operation a valid request can name has a handler.\<close>

theorem NewRegistry_covers_allowlist:
  "\<exists>handlers. NewRegistry = Some handlers \<and> dom handlers = set allowedOperations \<and>
     (\<forall>req. Request_Validate req = None \<longrightarrow> handlers (Operation req) \<noteq> None)"
proof -
  let ?xs = "registrations_hosting @ registrations_services"
  have "distinct (map fst ?xs)"
    using mset_eq_imp_distinct_iff [OF mset_registered] allowedOperations_distinct by blast
  moreover have s: "fst ` set ?xs = set allowedOperations"
    using mset_registered [THEN mset_eq_setD] by (simp only: set_map)
  moreover have "\<forall>x \<in> set ?xs. IsAllowed (fst x)" using s by (auto simp: IsAllowed_def)
  ultimately obtain m where m: "NewRegistry = Some m" "dom m = set allowedOperations"
    using register_all_succeeds [of ?xs Map.empty] by (auto simp: NewRegistry_def)
  moreover have "m (Operation req) \<noteq> None" if "Request_Validate req = None" for req :: "'p request"
    using that m(2) by (auto simp: Request_Validate_None IsAllowed_def)
  ultimately show ?thesis by blast
qed

theorem NewRegistry_covers_allowlist_witness:
  "\<exists>handlers. NewRegistry = Some handlers \<and> handlers ''agent.ping'' \<noteq> None"
proof -
  define req :: "unit request" where
    "req = \<lparr>Operation = ''agent.ping'', RequestID = ''r1'', Token = [], Mode = [], Payload = ()\<rparr>"
  obtain m where m: "NewRegistry = Some m"
    "\<forall>req :: unit request. Request_Validate req = None \<longrightarrow> m (Operation req) \<noteq> None"
    using NewRegistry_covers_allowlist [where 'a = unit] by blast
  have "Request_Validate req = None" unfolding req_def by code_simp
  with m(2) have "m (Operation req) \<noteq> None" by blast
  then have "m ''agent.ping'' \<noteq> None" by (simp add: req_def)
  with m(1) show ?thesis by blast
qed

section \<open>What Dispatch lets through\<close>

text \<open>C37: a handler is called, or queued as a job, only for a request that passed validation: its
  operation is in the allowlist, its identifier has 1 to 64 bytes, its mode is one of the two, and
  job control is never queued; and at most one handler is called, the one registered. The answer
  carries the request's identifier in every case.\<close>

theorem Dispatch_calls_validated:
  assumes "Dispatch handle handlers opts now jobID req r = (resp, c, r')"
  shows "rRequestID resp = RequestID req \<and>
    (c \<noteq> NoCall \<longrightarrow>
       Request_Validate req = None \<and> IsAllowed (Operation req) \<and>
       (\<exists>h. handlers (Operation req) = Some h \<and>
          (c = Invoked h req \<and> \<not> Async req \<and> r' = r \<or>
           c = Queued h req jobID \<and> Async req \<and> \<not> IsJobControl (Operation req) \<and>
             resp = NewAccepted (RequestID req) jobID)))"
proof (cases "Request_Validate req")
  case (Some e)
  then show ?thesis using assms by (auto simp: Dispatch_def NewError_def)
next
  case None
  note v = None [unfolded Request_Validate_None]
  have sub: "i = jobID" if "Submit opts now jobID op rid r = (Inr i, r'')" for i op rid r''
    using that by (auto simp: Submit_def Let_def split: if_splits)
  show ?thesis
  proof (cases "handlers (Operation req)")
    case h: None
    then show ?thesis using assms None by (auto simp: Dispatch_def NewError_def)
  next
    case (Some h)
    show ?thesis
    proof (cases "Async req")
      case True
      then have "dispatchAsync opts now jobID req h r = (resp, c, r')"
        using assms None Some by (simp add: Dispatch_def)
      then show ?thesis
        using None Some True v sub
        by (auto simp: dispatchAsync_def NewError_def NewAccepted_def Async_def
            split: prod.splits sum.splits job_err.splits)
    next
      case False
      then show ?thesis
        using assms None Some v
        by (auto simp: Dispatch_def errorResponse_def NewError_def NewSuccess_def
            split: handler_result.splits option.splits)
    qed
  qed
qed

theorem Dispatch_calls_validated_witness:
  "\<exists>h. [''agent.ping'' \<mapsto> ''handlePing''] ''agent.ping'' = Some h \<and>
     fst (snd (Dispatch (\<lambda>_ _. Returned (7 :: nat)) [''agent.ping'' \<mapsto> ''handlePing''] example_options 0
       ''job_1'' \<lparr>Operation = ''agent.ping'', RequestID = ''r1'', Token = [], Mode = [], Payload = ()\<rparr>
       NewRunner)) = Invoked h
         \<lparr>Operation = ''agent.ping'', RequestID = ''r1'', Token = [], Mode = [], Payload = ()\<rparr>"
proof -
  define req :: "unit request" where
    "req = \<lparr>Operation = ''agent.ping'', RequestID = ''r1'', Token = [], Mode = [], Payload = ()\<rparr>"
  let ?m = "[''agent.ping'' \<mapsto> ''handlePing'']"
  let ?d = "Dispatch (\<lambda>_ _. Returned (7 :: nat)) ?m example_options 0 ''job_1'' req NewRunner"
  have "Request_Validate req = None" unfolding req_def by code_simp
  then have c: "fst (snd ?d) = Invoked ''handlePing'' req"
    by (simp add: Dispatch_def req_def Async_def ModeAsync_def)
  have d: "?d = (fst ?d, fst (snd ?d), snd (snd ?d))" by simp
  have "\<exists>h. ?m (Operation req) = Some h \<and> fst (snd ?d) = Invoked h req"
    using Dispatch_calls_validated [OF d] c by auto
  then show ?thesis unfolding req_def by simp
qed

text \<open>Nothing of an unexpected failure reaches the caller: two handlers that differ only in the
  text of an error that is not a structured one, or in whether they panic with it, are answered
  alike up to the fixed messages, with the code \<open>INTERNAL_ERROR\<close>.\<close>

theorem Dispatch_hides_causes:
  assumes "handlers (Operation req) = Some h" and "Request_Validate req = None"
    and "\<not> Async req" and "handle h req = OtherError cause \<or> handle h req = Panicked"
  shows "\<exists>msg. fst (Dispatch handle handlers opts now jobID req r) =
      NewError (RequestID req) CodeInternal msg \<and>
    msg \<in> {''Operation failed'', ''The operation failed unexpectedly''}"
  using assms by (auto simp: Dispatch_def invoke_def errorResponse_def panic_error_def)

theorem Dispatch_hides_causes_witness:
  "\<exists>msg. fst (Dispatch (\<lambda>_ _. OtherError ''/etc/shadow: permission denied'')
        [''agent.ping'' \<mapsto> ''handlePing''] example_options 0 ''job_1''
        \<lparr>Operation = ''agent.ping'', RequestID = ''r1'', Token = [], Mode = [], Payload = ()\<rparr>
        (NewRunner :: nat runner)) = NewError ''r1'' CodeInternal msg \<and>
     msg \<in> {''Operation failed'', ''The operation failed unexpectedly''}"
proof -
  define req :: "unit request" where
    "req = \<lparr>Operation = ''agent.ping'', RequestID = ''r1'', Token = [], Mode = [], Payload = ()\<rparr>"
  have a: "[''agent.ping'' \<mapsto> ''handlePing''] (Operation req) = Some ''handlePing''"
    and b: "Request_Validate req = None" and c: "\<not> Async req"
    unfolding req_def by code_simp+
  have d: "RequestID req = ''r1''" by (simp add: req_def)
  note res = Dispatch_hides_causes [where
        handlers = "[''agent.ping'' \<mapsto> ''handlePing'']" and h = "''handlePing''" and req = req
        and handle = "\<lambda>_ _. OtherError ''/etc/shadow: permission denied''"
        and cause = "''/etc/shadow: permission denied''" and opts = example_options and now = 0
        and jobID = "''job_1''" and r = "NewRunner :: nat runner",
      OF a b c, unfolded d]
  from res show ?thesis unfolding req_def by simp
qed

end
