(* ===== verification/Agent_Socket.thy ===== *)
theory Agent_Socket
  imports Agent_Registry
begin

text \<open>
  Package \<open>agent/internal/socket\<close>: who may call the Agent (\<open>auth.go\<close>) and the one request a
  connection carries (\<open>handleConn\<close> of \<open>server.go\<close>). A connection is what the kernel and the client
  present: the peer's credentials, the bytes sent, whether a slot was free before shutdown, whether
  the deadline could be set, whether the operation's context expired. Decoding JSON is the argument
  \<open>decode\<close>. The result is the response written, if any, the audit records, and the call made.
\<close>

section \<open>Authentication\<close>

record authenticator =
  allowedUIDs :: "int list"
  token :: go_string

record peer_credentials =
  UID :: int
  GID :: int
  PID :: int

datatype auth_err = ErrPeerDenied | ErrTokenMissing | ErrTokenMismatch

definition RequiresToken :: "authenticator \<Rightarrow> bool" where
  "RequiresToken a \<longleftrightarrow> token a \<noteq> []"

definition RestrictsPeers :: "authenticator \<Rightarrow> bool" where
  "RestrictsPeers a \<longleftrightarrow> length (remdups (allowedUIDs a)) > 0"

definition AuthorizePeer :: "authenticator \<Rightarrow> peer_credentials \<Rightarrow> auth_err option" where
  "AuthorizePeer a p =
     (if \<not> RestrictsPeers a then None
      else if UID p = 0 then None
      else if UID p \<notin> set (allowedUIDs a) then Some ErrPeerDenied
      else None)"

text \<open>\<open>subtle.ConstantTimeCompare\<close> is 1 exactly on equal contents; how long it takes is not
  modelled.\<close>

definition AuthorizeToken :: "authenticator \<Rightarrow> go_string \<Rightarrow> auth_err option" where
  "AuthorizeToken a t =
     (if \<not> RequiresToken a then None
      else if t = [] then Some ErrTokenMissing
      else if t \<noteq> token a then Some ErrTokenMismatch
      else None)"

section \<open>One connection\<close>

definition maxRequestBytes :: nat where
  "maxRequestBytes = 1048576"

text \<open>\<open>ReadBytes\<close> on the limited reader: up to and with the first newline, or what there is.\<close>

fun read_line :: "go_string \<Rightarrow> go_string" where
  "read_line [] = []"
| "read_line (c # s) = (if c = newline then [c] else c # read_line s)"

datatype audit_status = AuditSuccess | AuditFailure | AuditDenied

record audit_record =
  aOperation :: go_string
  aRequestID :: go_string
  aStatus :: audit_status
  aPeer :: "peer_credentials option"
  aErrorCode :: go_string
  aDetail :: "(go_string \<times> go_string) list"

record conn =
  peer :: "peer_credentials option"
  slot :: bool
  deadline_set :: bool
  sent :: go_string
  expired_ctx :: bool

definition auditStatus :: "status \<Rightarrow> audit_status" where
  "auditStatus s =
     (case s of StatusSuccess \<Rightarrow> AuditSuccess | StatusAccepted \<Rightarrow> AuditSuccess | _ \<Rightarrow> AuditFailure)"

definition effectiveMode :: "'p request \<Rightarrow> go_string" where
  "effectiveMode req = (if Mode req = [] then ModeSync else Mode req)"

type_synonym ('p, 'd) conn_result =
  "'d response option \<times> audit_record list \<times> 'p call \<times> 'd runner"

definition denyConnection :: "peer_credentials \<Rightarrow> go_string \<Rightarrow> go_string \<Rightarrow> go_string \<Rightarrow>
    'd response \<times> audit_record" where
  "denyConnection p operation requestID reason =
     (NewError requestID CodeUnauthorized ''Not authorised'',
      \<lparr>aOperation = operation, aRequestID = requestID, aStatus = AuditDenied, aPeer = Some p,
       aErrorCode = CodeUnauthorized, aDetail = [(''reason'', reason)]\<rparr>)"

definition handleConn :: "authenticator \<Rightarrow> (go_string \<Rightarrow> 'p request option) \<Rightarrow>
    ('p request \<Rightarrow> 'd runner \<Rightarrow> 'd response \<times> 'p call \<times> 'd runner) \<Rightarrow> conn \<Rightarrow> 'd runner \<Rightarrow>
    ('p, 'd) conn_result" where
  "handleConn auth decode dispatch c r =
     (case peer c of
        None \<Rightarrow>
          (Some (NewError [] CodeUnauthorized ''Not authorised''),
           [\<lparr>aOperation = [], aRequestID = [], aStatus = AuditDenied, aPeer = None,
             aErrorCode = CodeUnauthorized, aDetail = [(''reason'', ''peer_unavailable'')]\<rparr>],
           NoCall, r)
      | Some p \<Rightarrow>
          if AuthorizePeer auth p \<noteq> None then
            (let (resp, rec) = denyConnection p [] [] ''peer_denied'' in (Some resp, [rec], NoCall, r))
          else if \<not> slot c then (None, [], NoCall, r)
          else if \<not> deadline_set c then (None, [], NoCall, r)
          else
            let line = read_line (take maxRequestBytes (sent c)) in
              if line = [] then
                (Some (NewError [] CodeInvalidRequest ''Malformed request''), [], NoCall, r)
              else
                (case decode line of
                   None \<Rightarrow>
                     (Some (NewError [] CodeInvalidRequest ''Malformed request''), [], NoCall, r)
                 | Some req \<Rightarrow>
                     if AuthorizeToken auth (Token req) \<noteq> None then
                       (let (resp, rec) =
                              denyConnection p (Operation req) (RequestID req) ''token_rejected''
                        in (Some resp, [rec], NoCall, r))
                     else
                       let req = req\<lparr>Token := []\<rparr>;
                           (answer, done, r') = dispatch req r;
                           resp = (if expired_ctx c
                                   then NewError (RequestID req) CodeTimeout ''Operation timed out''
                                   else answer);
                           rec = \<lparr>aOperation = Operation req, aRequestID = RequestID req,
                                  aStatus = auditStatus (rStatus resp), aPeer = Some p,
                                  aErrorCode = (case rError resp of None \<Rightarrow> [] | Some e \<Rightarrow> Code e),
                                  aDetail = (''mode'', effectiveMode req) #
                                    (case rData resp of Some (JobData j) \<Rightarrow> [(''job_id'', j)] | _ \<Rightarrow> [])\<rparr>
                       in (Some resp, [rec], done, r')))"

section \<open>Only authenticated callers reach a handler\<close>

lemma AuthorizePeer_None:
  "AuthorizePeer a p = None \<longleftrightarrow> allowedUIDs a = [] \<or> UID p = 0 \<or> UID p \<in> set (allowedUIDs a)"
  by (auto simp: AuthorizePeer_def RestrictsPeers_def)

lemma AuthorizeToken_None: "AuthorizeToken a t = None \<longleftrightarrow> token a = [] \<or> t = token a"
  by (auto simp: AuthorizeToken_def RequiresToken_def)

lemma handleConn_cases:
  assumes "handleConn auth decode dispatch c r = (resp, recs, done, r')"
  obtains (refused) "done = NoCall" "r' = r"
  | (served) p req answer rec where
      "peer c = Some p" "AuthorizePeer auth p = None"
      "decode (read_line (take maxRequestBytes (sent c))) = Some req"
      "AuthorizeToken auth (Token req) = None"
      "dispatch (req\<lparr>Token := []\<rparr>) r = (answer, done, r')" "recs = [rec]"
      "aOperation rec = Operation req" "aRequestID rec = RequestID req" "aPeer rec = Some p"
  using assms unfolding handleConn_def
  by (auto simp: Let_def denyConnection_def split: option.splits if_splits prod.splits)

text \<open>C1: the Agent never acts for a caller it has not authenticated. If a connection leads to a
  handler being called or a job being queued, the kernel named a peer that is root or in the list
  of allowed users (when there is one), the request came with the configured token (when there is
  one), it was valid, and the handler received it without the token; and exactly one audit record
  was written, which names the operation, the request and the peer.\<close>

theorem only_authenticated_calls:
  assumes "handleConn auth decode (Dispatch handle handlers opts now jobID) c r =
      (resp, recs, done, r')"
    and "done \<noteq> NoCall"
  shows "\<exists>p req h. peer c = Some p \<and>
    (allowedUIDs auth = [] \<or> UID p = 0 \<or> UID p \<in> set (allowedUIDs auth)) \<and>
    decode (read_line (take maxRequestBytes (sent c))) = Some req \<and>
    (token auth = [] \<or> Token req = token auth) \<and>
    Request_Validate req = None \<and> handlers (Operation req) = Some h \<and>
    (done = Invoked h (req\<lparr>Token := []\<rparr>) \<or> done = Queued h (req\<lparr>Token := []\<rparr>) jobID) \<and>
    (\<exists>rec. recs = [rec] \<and> aOperation rec = Operation req \<and> aRequestID rec = RequestID req \<and>
       aPeer rec = Some p)"
  using assms(1)
proof (cases rule: handleConn_cases)
  case refused
  then show ?thesis using assms(2) by simp
next
  case (served p req answer rec)
  have val: "Request_Validate (req\<lparr>Token := []\<rparr>) = Request_Validate req"
    by (simp add: Request_Validate_def Async_def)
  show ?thesis
  proof (cases "Request_Validate req")
    case (Some e)
    then have "done = NoCall" using served(5) val by (auto simp: Dispatch_def)
    then show ?thesis using assms(2) by simp
  next
    case None
    have "Operation (req\<lparr>Token := []\<rparr>) = Operation req" by simp
    then obtain h where "handlers (Operation req) = Some h"
      "done = Invoked h (req\<lparr>Token := []\<rparr>) \<or> done = Queued h (req\<lparr>Token := []\<rparr>) jobID"
      using served(5) None val assms(2)
      by (auto simp: Dispatch_def dispatchAsync_def Submit_def Let_def
          split: option.splits if_splits prod.splits sum.splits job_err.splits)
    with served None show ?thesis by (auto simp: AuthorizePeer_None AuthorizeToken_None)
  qed
qed

definition example_request :: "unit request" where
  "example_request =
     \<lparr>Operation = ''agent.ping'', RequestID = ''r1'', Token = ''s3cret'', Mode = [], Payload = ()\<rparr>"

definition example_conn :: conn where
  "example_conn = \<lparr>peer = Some \<lparr>UID = 33, GID = 33, PID = 900\<rparr>, slot = True, deadline_set = True,
     sent = ''x'' @ [newline], expired_ctx = False\<rparr>"

definition example_served :: "(unit, nat) conn_result" where
  "example_served =
     handleConn \<lparr>allowedUIDs = [33], token = ''s3cret''\<rparr> (\<lambda>_. Some example_request)
       (Dispatch (\<lambda>_ _. Returned 7) [''agent.ping'' \<mapsto> ''handlePing''] example_options 0 ''job_1'')
       example_conn NewRunner"

theorem only_authenticated_calls_witness:
  "\<exists>rec. fst (snd example_served) = [rec] \<and> aOperation rec = ''agent.ping'' \<and>
     fst (snd (snd example_served)) = Invoked ''handlePing'' (example_request\<lparr>Token := []\<rparr>)"
proof -
  have "Request_Validate (example_request\<lparr>Token := []\<rparr>) = None" by code_simp
  then have c: "fst (snd (snd example_served)) = Invoked ''handlePing'' (example_request\<lparr>Token := []\<rparr>)"
    by (simp add: example_served_def handleConn_def example_conn_def example_request_def
        AuthorizePeer_None AuthorizeToken_None maxRequestBytes_def Dispatch_def Async_def
        ModeAsync_def Let_def)
  have "handleConn \<lparr>allowedUIDs = [33], token = ''s3cret''\<rparr> (\<lambda>_. Some example_request)
       (Dispatch (\<lambda>_ _. Returned 7) [''agent.ping'' \<mapsto> ''handlePing''] example_options 0 ''job_1'')
       example_conn NewRunner =
     (fst example_served, fst (snd example_served), fst (snd (snd example_served)),
      snd (snd (snd example_served)))"
    by (simp add: example_served_def)
  from only_authenticated_calls [OF this] c show ?thesis by (auto simp: example_request_def)
qed

end
