(* ===== verification/Pathsec.thy ===== *)
theory Pathsec
  imports Go_Path "HOL-Library.Sublist"
begin

text \<open>
  Package \<open>agent/internal/pathsec\<close>: paths a caller supplies are cleaned, resolved through symbolic
  links and compared with a list of allowed roots before the Agent, which runs as root, uses them.

  The file system is a function from the components of an absolute path to the node there; a node
  may be one that \<open>lstat\<close> fails on with an error other than \<open>not exist\<close>. \<open>filepath.EvalSymlinks\<close> of
  the standard library is modelled after its source, over components: what it has resolved so far
  never contains a link, so a \<open>..\<close> takes one component off it. The file system does not change
  while a path is resolved.
\<close>

section \<open>File systems\<close>

datatype node = Directory | Regular | Special | Symlink go_string | Unstattable

type_synonym filesystem = "go_string list \<Rightarrow> node option"

datatype path_err =
    ErrEmptyPath | ErrPathTooLong | ErrNullByte | ErrNotAbsolute | ErrTraversal | ErrOutsideRoot
  | ErrNotFound | ErrNotDirectory | ErrNotRegular | ErrNoRoots | ErrResolve

datatype walk_err = NotExist | NotDir | TooManyLinks | LstatFailed

section \<open>filepath.EvalSymlinks\<close>

text \<open>\<open>walk\<close> has resolved the components \<open>dest\<close>, has \<open>links\<close> links left to follow, and has the
  raw components \<open>rest\<close> before it.\<close>

definition link_base :: "go_string \<Rightarrow> go_string list \<Rightarrow> go_string list" where
  "link_base target dest = (if path_is_abs target then [] else dest)"

function walk :: "filesystem \<Rightarrow> nat \<Rightarrow> go_string list \<Rightarrow> go_string list \<Rightarrow> walk_err + go_string list" where
  "walk fs links dest [] = Inr dest"
| "walk fs links dest (c # rest) =
     (if c = '''' \<or> c = ''.'' then walk fs links dest rest
      else if c = ''..'' then walk fs links (butlast dest) rest
      else
        (case fs (dest @ [c]) of
           None \<Rightarrow> Inl NotExist
         | Some Unstattable \<Rightarrow> Inl LstatFailed
         | Some (Symlink target) \<Rightarrow>
             (case links of
                0 \<Rightarrow> Inl TooManyLinks
              | Suc n \<Rightarrow>
                  walk fs n (link_base target dest) (split_on slash target @ rest))
         | Some Directory \<Rightarrow> walk fs links (dest @ [c]) rest
         | Some _ \<Rightarrow> if rest \<noteq> [] then Inl NotDir else Inr (dest @ [c])))"
  by pat_completeness auto
termination
  by (relation "inv_image (less_than <*lex*> less_than) (\<lambda>(fs, links, dest, rest). (links, length rest))")
    auto

definition EvalSymlinks :: "filesystem \<Rightarrow> go_string \<Rightarrow> walk_err + go_string" where
  "EvalSymlinks fs path = map_sum id abs_path (walk fs 255 [] (split_on slash path))"

section \<open>The package\<close>

definition maxPathLength :: nat where
  "maxPathLength = 4096"

type_synonym validator = "go_string list"

definition NewValidator :: "filesystem \<Rightarrow> go_string list \<Rightarrow> path_err + validator" where
  "NewValidator fs roots =
     (if roots = [] then Inl ErrNoRoots
      else if list_ex (\<lambda>root. \<not> path_is_abs root) roots then Inl ErrNotAbsolute
      else Inr (map (\<lambda>root. case EvalSymlinks fs (path_clean root) of
                              Inr real \<Rightarrow> real
                            | Inl _ \<Rightarrow> path_clean root) roots))"

definition Clean :: "go_string \<Rightarrow> path_err + go_string" where
  "Clean path =
     (if path = [] then Inl ErrEmptyPath
      else if length path > maxPathLength then Inl ErrPathTooLong
      else if null_byte \<in> set path then Inl ErrNullByte
      else if \<not> path_is_abs path then Inl ErrNotAbsolute
      else if ''..'' \<in> set (split_on slash path) then Inl ErrTraversal
      else Inr (path_clean path))"

definition root_contains :: "go_string \<Rightarrow> go_string \<Rightarrow> bool" where
  "root_contains root path \<longleftrightarrow> path = root \<or> has_prefix path (root @ ''/'')"

definition path_contained :: "validator \<Rightarrow> go_string \<Rightarrow> bool" where
  "path_contained v path \<longleftrightarrow> list_ex (\<lambda>root. root_contains root path) v"

text \<open>The loop of \<open>resolveThroughSymlinks\<close>, with fuel; \<open>None\<close> is fuel run out.\<close>

fun resolve_loop :: "filesystem \<Rightarrow> nat \<Rightarrow> go_string \<Rightarrow> go_string \<Rightarrow> go_string \<Rightarrow>
    (path_err + go_string) option" where
  "resolve_loop fs 0 path current remainder = None"
| "resolve_loop fs (Suc n) path current remainder =
     (case EvalSymlinks fs current of
        Inr resolved \<Rightarrow>
          Some (Inr (if remainder = [] then resolved else path_join [resolved, remainder]))
      | Inl err \<Rightarrow>
          if err \<noteq> NotExist then Some (Inl ErrResolve)
          else
            let parent = path_dir current in
              if parent = current then Some (Inr path)
              else resolve_loop fs n path parent (path_join [path_base current, remainder]))"

definition resolveThroughSymlinks :: "filesystem \<Rightarrow> go_string \<Rightarrow> (path_err + go_string) option" where
  "resolveThroughSymlinks fs path = resolve_loop fs (Suc (length path)) path path []"

definition Resolve :: "filesystem \<Rightarrow> validator \<Rightarrow> go_string \<Rightarrow> (path_err + go_string) option" where
  "Resolve fs v path =
     (case Clean path of
        Inl err \<Rightarrow> Some (Inl err)
      | Inr clean \<Rightarrow>
          (case resolveThroughSymlinks fs clean of
             None \<Rightarrow> None
           | Some (Inl err) \<Rightarrow> Some (Inl err)
           | Some (Inr resolved) \<Rightarrow>
               Some (if \<not> path_contained v resolved then Inl ErrOutsideRoot else Inr resolved)))"

text \<open>\<open>os.Lstat\<close> and \<open>os.Stat\<close>: the kernel follows at most forty links on the way to the node.\<close>

definition lstat :: "filesystem \<Rightarrow> go_string list \<Rightarrow> walk_err + node" where
  "lstat fs cs =
     (if cs = [] then Inr Directory
      else case walk fs 40 [] (butlast cs) of
        Inl err \<Rightarrow> Inl err
      | Inr d \<Rightarrow>
          if d \<noteq> [] \<and> fs d \<noteq> Some Directory then Inl NotDir
          else (case fs (d @ [last cs]) of
                  None \<Rightarrow> Inl NotExist
                | Some nd \<Rightarrow> if nd = Unstattable then Inl LstatFailed else Inr nd))"

definition stat :: "filesystem \<Rightarrow> go_string list \<Rightarrow> walk_err + node" where
  "stat fs cs =
     (case walk fs 40 [] cs of
        Inl err \<Rightarrow> Inl err
      | Inr d \<Rightarrow>
          if d = [] then Inr Directory
          else (case fs d of None \<Rightarrow> Inl NotExist | Some nd \<Rightarrow> Inr nd))"

definition ResolveExisting :: "filesystem \<Rightarrow> validator \<Rightarrow> go_string \<Rightarrow> (path_err + go_string) option" where
  "ResolveExisting fs v path =
     (case Resolve fs v path of
        Some (Inr resolved) \<Rightarrow>
          Some (case lstat fs (comps_of resolved) of
                  Inl err \<Rightarrow> Inl (if err = NotExist then ErrNotFound else ErrResolve)
                | Inr _ \<Rightarrow> Inr resolved)
      | other \<Rightarrow> other)"

definition ResolveDir :: "filesystem \<Rightarrow> validator \<Rightarrow> go_string \<Rightarrow> (path_err + go_string) option" where
  "ResolveDir fs v path =
     (case ResolveExisting fs v path of
        Some (Inr resolved) \<Rightarrow>
          Some (case stat fs (comps_of resolved) of
                  Inl _ \<Rightarrow> Inl ErrResolve
                | Inr info \<Rightarrow> if info = Directory then Inr resolved else Inl ErrNotDirectory)
      | other \<Rightarrow> other)"

definition ResolveFile :: "filesystem \<Rightarrow> validator \<Rightarrow> go_string \<Rightarrow> (path_err + go_string) option" where
  "ResolveFile fs v path =
     (case ResolveExisting fs v path of
        Some (Inr resolved) \<Rightarrow>
          Some (case stat fs (comps_of resolved) of
                  Inl _ \<Rightarrow> Inl ErrResolve
                | Inr info \<Rightarrow> if info = Regular then Inr resolved else Inl ErrNotRegular)
      | other \<Rightarrow> other)"

section \<open>What EvalSymlinks returns is free of links\<close>

definition real_path :: "filesystem \<Rightarrow> go_string list \<Rightarrow> bool" where
  "real_path fs cs \<longleftrightarrow>
     list_all plain cs \<and>
     (\<forall>n < length cs. \<exists>nd. fs (take (Suc n) cs) = Some nd \<and> \<not> (\<exists>t. nd = Symlink t) \<and> nd \<noteq> Unstattable)"

lemma real_path_Nil [simp]: "real_path fs []"
  by (simp add: real_path_def)

lemma real_path_snoc:
  "real_path fs (cs @ [c]) \<longleftrightarrow>
     real_path fs cs \<and> plain c \<and>
     (\<exists>nd. fs (cs @ [c]) = Some nd \<and> \<not> (\<exists>t. nd = Symlink t) \<and> nd \<noteq> Unstattable)"
  by (auto simp: real_path_def less_Suc_eq)

lemma real_path_butlast: "real_path fs cs \<Longrightarrow> real_path fs (butlast cs)"
  by (cases cs rule: rev_cases) (simp_all add: real_path_snoc)

text \<open>\<open>walk\<close> by cases of the next component, and the induction over them.\<close>

definition ordinary :: "go_string \<Rightarrow> bool" where
  "ordinary c \<longleftrightarrow> c \<noteq> '''' \<and> c \<noteq> ''.'' \<and> c \<noteq> ''..''"

lemma walk_rules:
  "c = '''' \<or> c = ''.'' \<Longrightarrow> walk fs l dest (c # r) = walk fs l dest r"
  "walk fs l dest (''..'' # r) = walk fs l (butlast dest) r"
  "ordinary c \<Longrightarrow> fs (dest @ [c]) = None \<Longrightarrow> walk fs l dest (c # r) = Inl NotExist"
  "ordinary c \<Longrightarrow> fs (dest @ [c]) = Some Unstattable \<Longrightarrow> walk fs l dest (c # r) = Inl LstatFailed"
  "ordinary c \<Longrightarrow> fs (dest @ [c]) = Some Directory \<Longrightarrow>
     walk fs l dest (c # r) = walk fs l (dest @ [c]) r"
  "ordinary c \<Longrightarrow> fs (dest @ [c]) = Some nd \<Longrightarrow> nd = Regular \<or> nd = Special \<Longrightarrow>
     walk fs l dest (c # r) = (if r \<noteq> [] then Inl NotDir else Inr (dest @ [c]))"
  "ordinary c \<Longrightarrow> fs (dest @ [c]) = Some (Symlink t) \<Longrightarrow> walk fs 0 dest (c # r) = Inl TooManyLinks"
  "ordinary c \<Longrightarrow> fs (dest @ [c]) = Some (Symlink t) \<Longrightarrow>
     walk fs (Suc n) dest (c # r) = walk fs n (link_base t dest) (split_on slash t @ r)"
  by (auto simp: ordinary_def)

lemma walk_induct [case_names stop skip up missing broken dir leaf far link]:
  assumes "\<And>l dest. P l dest []"
    and "\<And>l dest c r. c = '''' \<or> c = ''.'' \<Longrightarrow> P l dest r \<Longrightarrow> P l dest (c # r)"
    and "\<And>l dest r. P l (butlast dest) r \<Longrightarrow> P l dest (''..'' # r)"
    and "\<And>l dest c r. ordinary c \<Longrightarrow> fs (dest @ [c]) = None \<Longrightarrow> P l dest (c # r)"
    and "\<And>l dest c r. ordinary c \<Longrightarrow> fs (dest @ [c]) = Some Unstattable \<Longrightarrow> P l dest (c # r)"
    and "\<And>l dest c r. ordinary c \<Longrightarrow> fs (dest @ [c]) = Some Directory \<Longrightarrow> P l (dest @ [c]) r \<Longrightarrow>
      P l dest (c # r)"
    and "\<And>l dest c r nd. ordinary c \<Longrightarrow> fs (dest @ [c]) = Some nd \<Longrightarrow> nd = Regular \<or> nd = Special \<Longrightarrow>
      P l dest (c # r)"
    and "\<And>dest c r t. ordinary c \<Longrightarrow> fs (dest @ [c]) = Some (Symlink t) \<Longrightarrow> P 0 dest (c # r)"
    and "\<And>n dest c r t. ordinary c \<Longrightarrow> fs (dest @ [c]) = Some (Symlink t) \<Longrightarrow>
      P n (link_base t dest) (split_on slash t @ r) \<Longrightarrow> P (Suc n) dest (c # r)"
  shows "P l dest rest"
proof -
  have "fs' = fs \<longrightarrow> P l dest rest" for fs'
  proof (induction fs' l dest rest rule: walk.induct)
    case (2 fs' l dest c r)
    show ?case
    proof (cases "ordinary c")
      case True
      show ?thesis
      proof (cases "fs (dest @ [c])")
        case (Some nd)
        then show ?thesis
          using True 2(3,4) assms(5-9)
          by (cases nd; cases l) (auto simp: ordinary_def)
      qed (use True assms(4) in auto)
    qed (use 2(1,2) assms(2,3) in \<open>auto simp: ordinary_def\<close>)
  qed (simp add: assms(1))
  then show ?thesis by blast
qed

declare walk.simps(2) [simp del]

lemma ordinary_plain: "ordinary c \<Longrightarrow> slash \<notin> set c \<Longrightarrow> plain c"
  by (simp add: ordinary_def plain_def)

lemma plain_ordinary: "plain c \<Longrightarrow> ordinary c"
  by (simp add: ordinary_def plain_def)

lemma walk_real:
  "walk fs l dest rest = Inr d \<Longrightarrow> real_path fs dest \<Longrightarrow> (\<forall>c \<in> set rest. slash \<notin> set c) \<Longrightarrow>
     real_path fs d"
proof (induction l dest rest rule: walk_induct [where fs = fs])
  case (link n dest c r t)
  have "\<forall>x \<in> set (split_on slash t @ r). slash \<notin> set x"
    using link(6) split_on_no_sep by auto
  with link show ?case by (auto simp: walk_rules link_base_def)
qed (auto simp: walk_rules real_path_butlast real_path_snoc ordinary_plain split: if_splits)

lemma walk_Inl_append: "walk fs l dest a = Inl e \<Longrightarrow> \<exists>e'. walk fs l dest (a @ b) = Inl e'"
  by (induction l dest a rule: walk_induct [where fs = fs]) (auto simp: walk_rules split: if_splits)

lemma walk_Inr_append:
  "walk fs l dest a = Inr d \<Longrightarrow>
     walk fs l dest (a @ b) = Inl NotDir \<or> (\<exists>l' \<le> l. walk fs l dest (a @ b) = walk fs l' d b)"
proof (induction l dest a rule: walk_induct [where fs = fs])
  case (link n dest c r t)
  then show ?case by (auto simp: walk_rules intro: le_SucI)
qed (auto simp: walk_rules split: if_splits)

lemma walk_more:
  "walk fs l dest a \<noteq> Inl TooManyLinks \<Longrightarrow> walk fs (l + k) dest a = walk fs l dest a"
  by (induction l dest a rule: walk_induct [where fs = fs]) (auto simp: walk_rules)

section \<open>The loop that climbs to what exists\<close>

lemma EvalSymlinks_abs_path:
  "list_all plain cs \<Longrightarrow> EvalSymlinks fs (abs_path cs) = map_sum id abs_path (walk fs 255 [] cs)"
  by (cases "cs = []") (simp_all add: EvalSymlinks_def split_on_abs_path walk_rules)

definition rel_path :: "go_string list \<Rightarrow> go_string" where
  "rel_path rs = join ''/'' rs"

lemma rel_path_eq_Nil: "list_all plain rs \<Longrightarrow> rel_path rs = [] \<longleftrightarrow> rs = []"
  by (cases rs; cases "tl rs") (auto simp: rel_path_def plain_def)

lemma split_rel_path: "list_all plain rs \<Longrightarrow> rs \<noteq> [] \<Longrightarrow> split_on slash (rel_path rs) = rs"
  unfolding rel_path_def by (rule split_on_join) (auto simp: list_all_iff plain_no_slash)

lemma rel_path_not_abs: "list_all plain rs \<Longrightarrow> \<not> path_is_abs (rel_path rs)"
proof (cases rs)
  case (Cons r rs')
  assume "list_all plain rs"
  then have "r \<noteq> []" "hd r \<noteq> slash" using Cons by (cases r; auto simp: plain_def)+
  then show ?thesis using Cons by (cases r; cases rs') (auto simp: rel_path_def path_is_abs_def has_prefix_def)
qed (simp add: rel_path_def path_is_abs_def has_prefix_def)

lemma path_join_rel:
  assumes "plain c" "list_all plain rs"
  shows "path_join [c, rel_path rs] = rel_path (c # rs)"
proof -
  have c: "c \<noteq> []" using assms(1) by (simp add: plain_def)
  have na: "\<not> path_is_abs (c @ slash # rel_path rs)"
    using rel_path_not_abs [of "[c]"] assms(1) c
    by (cases c) (auto simp: rel_path_def path_is_abs_def has_prefix_def)
  have "split_on slash (c @ slash # rel_path rs) = c # split_on slash (rel_path rs)"
    using assms(1) by (simp add: split_on_append plain_no_slash)
  moreover have "clean_comps False (c # split_on slash (rel_path rs)) = c # rs"
  proof (cases "rs = []")
    case True
    then show ?thesis
      using assms(1) by (simp add: rel_path_def clean_comps_def clean_step_plain) (simp add: clean_step_def)
  next
    case False
    then show ?thesis using assms clean_comps_id [of "c # rs"] by (simp add: split_rel_path)
  qed
  ultimately show ?thesis
    using c na by (simp add: path_join_def path_clean_def rel_path_def)
qed

lemma path_join_real:
  assumes "list_all plain d" "list_all plain rs" "rs \<noteq> []"
  shows "path_join [abs_path d, rel_path rs] = abs_path (d @ rs)"
  using assms clean_comps_id [of "d @ rs"]
  by (simp add: path_join_abs comps_of_abs_path split_rel_path)

text \<open>What the loop finds: the longest prefix of the path that does not fail with \<open>not exist\<close>.\<close>

definition climbs :: "filesystem \<Rightarrow> go_string list \<Rightarrow> path_err + go_string \<Rightarrow> bool" where
  "climbs fs cs res \<longleftrightarrow>
     (\<exists>pre post. cs = pre @ post \<and>
        (post \<noteq> [] \<longrightarrow> walk fs 255 [] (pre @ [hd post]) = Inl NotExist) \<and>
        ((\<exists>d. walk fs 255 [] pre = Inr d \<and> res = Inr (abs_path (d @ post))) \<or>
         (\<exists>e. walk fs 255 [] pre = Inl e \<and> e \<noteq> NotExist \<and> res = Inl ErrResolve)))"

lemma resolve_loop_climbs:
  "list_all plain (cs @ rs) \<Longrightarrow> length cs < n \<Longrightarrow>
     (rs \<noteq> [] \<Longrightarrow> walk fs 255 [] (cs @ [hd rs]) = Inl NotExist) \<Longrightarrow>
     \<exists>res. resolve_loop fs n path (abs_path cs) (rel_path rs) = Some res \<and> climbs fs (cs @ rs) res"
proof (induction n arbitrary: cs rs)
  case (Suc n)
  have pl: "list_all plain cs" "list_all plain rs" using Suc.prems(1) by auto
  note eval = EvalSymlinks_abs_path [OF pl(1), of fs]
  have no_slash: "\<forall>c \<in> set cs. slash \<notin> set c" using pl(1) by (auto simp: list_all_iff plain_no_slash)
  show ?case
  proof (cases "walk fs 255 [] cs")
    case (Inr d)
    have "real_path fs d" using walk_real [OF Inr _ no_slash] by simp
    then have "list_all plain d" by (simp add: real_path_def)
    then have "resolve_loop fs (Suc n) path (abs_path cs) (rel_path rs) = Some (Inr (abs_path (d @ rs)))"
      using Inr eval pl(2) path_join_real by (auto simp: rel_path_eq_Nil)
    moreover have "climbs fs (cs @ rs) (Inr (abs_path (d @ rs)))"
      unfolding climbs_def using Inr Suc.prems(3) by blast
    ultimately show ?thesis by blast
  next
    case (Inl e)
    show ?thesis
    proof (cases "e = NotExist")
      case False
      then have "climbs fs (cs @ rs) (Inl ErrResolve)"
        unfolding climbs_def using Inl Suc.prems(3) by blast
      then show ?thesis using Inl eval False by simp
    next
      case True
      then have "cs \<noteq> []" using Inl by auto
      then obtain ds c where cs: "cs = ds @ [c]" by (cases cs rule: rev_cases) auto
      have plc: "plain c" "list_all plain ds" using pl(1) cs by auto
      have "path_dir (abs_path cs) = abs_path ds" "path_base (abs_path cs) = c"
        using path_dir_abs_path [of ds c] path_base_abs_path [of ds c] pl(1) cs by simp_all
      moreover have "abs_path ds \<noteq> abs_path cs"
        using abs_path_inject [OF plc(2) pl(1)] cs by simp
      ultimately have "resolve_loop fs (Suc n) path (abs_path cs) (rel_path rs) =
          resolve_loop fs n path (abs_path ds) (rel_path (c # rs))"
        using Inl True eval path_join_rel [OF plc(1) pl(2)] by simp
      moreover have "\<exists>res. resolve_loop fs n path (abs_path ds) (rel_path (c # rs)) = Some res \<and>
          climbs fs (ds @ c # rs) res"
        using Suc.IH [of ds "c # rs"] Suc.prems(1,2) cs Inl True by simp
      ultimately show ?thesis using cs by simp
    qed
  qed
qed simp

lemma Clean_Inr:
  "Clean path = Inr p \<Longrightarrow> path_is_abs path \<and> p = abs_path (comps_of path) \<and> list_all plain (comps_of path)"
  using comps_of_plain by (auto simp: Clean_def path_clean_abs split: if_splits)

lemma length_join: "list_all plain rs \<Longrightarrow> length rs \<le> length (join ''/'' rs)"
proof (induction rs)
  case (Cons r rs)
  then show ?case by (cases rs; cases r) (auto simp: plain_def)
qed simp

lemma resolveThroughSymlinks_climbs:
  "list_all plain cs \<Longrightarrow>
     \<exists>res. resolveThroughSymlinks fs (abs_path cs) = Some res \<and> climbs fs cs res"
  using resolve_loop_climbs [of cs "[]" "Suc (length (abs_path cs))" fs "abs_path cs"] length_join [of cs]
  by (simp add: resolveThroughSymlinks_def rel_path_def abs_path_def)

text \<open>A path that did not exist, after a part that did: its first component is missing from the
  resolved part, or is a link whose target is missing.\<close>

lemma missing_component:
  assumes "walk fs 255 [] pre = Inr d" "walk fs 255 [] (pre @ [c]) = Inl NotExist" "plain c"
  shows "fs (d @ [c]) = None \<or> (\<exists>t. fs (d @ [c]) = Some (Symlink t))" "\<exists>e. walk fs 255 d [c] = Inl e"
proof -
  obtain l where l: "l \<le> 255" "walk fs l d [c] = Inl NotExist"
    using walk_Inr_append [OF assms(1), of "[c]"] assms(2) by auto
  then show "\<exists>e. walk fs 255 d [c] = Inl e" using walk_more [of fs l d "[c]" "255 - l"] by auto
  show "fs (d @ [c]) = None \<or> (\<exists>t. fs (d @ [c]) = Some (Symlink t))"
  proof (cases "fs (d @ [c])")
    case (Some nd)
    then show ?thesis using l(2) plain_ordinary [OF assms(3)] by (cases nd) (auto simp: walk_rules)
  qed simp
qed

section \<open>Containment is by component\<close>

lemma root_contains_prefix:
  assumes "list_all plain rs" "list_all plain ps" "rs \<noteq> []"
  shows "root_contains (abs_path rs) (abs_path ps) \<longleftrightarrow> prefix rs ps"
proof
  assume "root_contains (abs_path rs) (abs_path ps)"
  then consider "ps = rs" | u where "abs_path ps = abs_path rs @ slash # u"
    using assms by (auto simp: root_contains_def has_prefix_iff abs_path_inject)
  then show "prefix rs ps"
  proof cases
    case 2
    then have "split_on slash (abs_path ps) = split_on slash (abs_path rs) @ split_on slash u"
      by (simp add: split_on_append_sep)
    then show ?thesis
      using assms by (cases rs) (auto simp: split_on_abs_path prefix_def plain_def split: if_splits)
  qed simp
next
  assume "prefix rs ps"
  then obtain zs where "ps = rs @ zs" by (auto simp: prefix_def)
  then show "root_contains (abs_path rs) (abs_path ps)"
    using assms(3) by (cases "zs = []") (auto simp: root_contains_def has_prefix_iff abs_path_snoc)
qed

definition root_comps :: "validator \<Rightarrow> go_string list \<Rightarrow> bool" where
  "root_comps v rs \<longleftrightarrow> list_all plain rs \<and> abs_path rs \<in> set v"

lemma EvalSymlinks_real:
  assumes "EvalSymlinks fs p = Inr q"
  shows "\<exists>d. q = abs_path d \<and> real_path fs d"
proof -
  obtain d where "walk fs 255 [] (split_on slash p) = Inr d" "q = abs_path d"
    using assms by (cases "walk fs 255 [] (split_on slash p)") (auto simp: EvalSymlinks_def)
  then show ?thesis using walk_real [of fs 255 "[]"] split_on_no_sep by auto
qed

lemma NewValidator_roots:
  assumes "NewValidator fs roots = Inr v" "r \<in> set v"
  shows "\<exists>rs. r = abs_path rs \<and> root_comps v rs"
proof -
  have "list_all path_is_abs roots" "r \<in> (\<lambda>root. case EvalSymlinks fs (path_clean root) of
      Inr real \<Rightarrow> real | Inl _ \<Rightarrow> path_clean root) ` set roots"
    using assms by (auto simp: NewValidator_def list_ex_iff list_all_iff split: if_splits)
  then obtain root where root: "path_is_abs root"
    "r = (case EvalSymlinks fs (path_clean root) of Inr real \<Rightarrow> real | Inl _ \<Rightarrow> path_clean root)"
    by (auto simp: list_all_iff)
  then have "\<exists>rs. r = abs_path rs \<and> list_all plain rs"
    using EvalSymlinks_real [of fs "path_clean root"] comps_of_plain
    by (auto simp: path_clean_abs real_path_def split: sum.splits)
  then show ?thesis using assms(2) by (auto simp: root_comps_def)
qed

lemma path_contained_prefix:
  assumes "NewValidator fs roots = Inr v" "path_contained v (abs_path ps)" "list_all plain ps"
  shows "\<exists>rs. root_comps v rs \<and> prefix rs ps"
proof -
  obtain r where r: "r \<in> set v" "root_contains r (abs_path ps)"
    using assms(2) by (auto simp: path_contained_def list_ex_iff)
  then obtain rs where "r = abs_path rs" "root_comps v rs" using NewValidator_roots [OF assms(1)] by blast
  moreover have "prefix rs ps"
    using calculation root_contains_prefix [of rs ps] assms(3) r(2)
    by (cases "rs = []") (auto simp: root_comps_def)
  ultimately show ?thesis by blast
qed

section \<open>Resolve\<close>

text \<open>Where a resolved path can point: \<open>d\<close> exists and has no link in it, and if there is more
  then its first component is not there, or is a link to nothing.\<close>

definition resolves_to :: "filesystem \<Rightarrow> go_string \<Rightarrow> go_string list \<Rightarrow> go_string list \<Rightarrow> bool" where
  "resolves_to fs p d rest \<longleftrightarrow>
     p = abs_path (d @ rest) \<and> list_all plain (d @ rest) \<and> real_path fs d \<and>
     (rest \<noteq> [] \<longrightarrow>
        (fs (d @ [hd rest]) = None \<or> (\<exists>t. fs (d @ [hd rest]) = Some (Symlink t))) \<and>
        (\<exists>e. walk fs 255 d [hd rest] = Inl e))"

lemma climbs_resolves_to:
  assumes "climbs fs cs (Inr p)" "list_all plain cs"
  shows "\<exists>d rest. resolves_to fs p d rest"
proof -
  obtain pre post d where c: "cs = pre @ post" "walk fs 255 [] pre = Inr d" "p = abs_path (d @ post)"
    "post \<noteq> [] \<longrightarrow> walk fs 255 [] (pre @ [hd post]) = Inl NotExist"
    using assms(1) by (auto simp: climbs_def)
  have "real_path fs d"
    using walk_real [OF c(2)] c(1) assms(2) by (auto simp: list_all_iff plain_no_slash)
  moreover have "post \<noteq> [] \<Longrightarrow> plain (hd post)" using assms(2) c(1) by (cases post) auto
  ultimately show ?thesis
    using c assms(2) missing_component [OF c(2)] unfolding resolves_to_def
    by (intro exI [of _ d] exI [of _ post]) (auto simp: real_path_def)
qed

lemma Resolve_cases:
  "\<exists>res. Resolve fs v path = Some res \<and>
     (\<forall>p. res = Inr p \<longrightarrow> path_contained v p \<and> (\<exists>d rest. resolves_to fs p d rest))"
proof (cases "Clean path")
  case (Inr p)
  then obtain res where "resolveThroughSymlinks fs p = Some res" "climbs fs (comps_of path) res"
    using resolveThroughSymlinks_climbs [of "comps_of path" fs] Clean_Inr [OF Inr] by auto
  then show ?thesis
    using Inr Clean_Inr [OF Inr] climbs_resolves_to by (cases res) (auto simp: Resolve_def)
qed (simp add: Resolve_def)

lemma Resolve_resolves_to:
  "Resolve fs v path = Some (Inr p) \<Longrightarrow> path_contained v p \<and> (\<exists>d rest. resolves_to fs p d rest)"
  using Resolve_cases [of fs v path] by auto

text \<open>For every path and every file system, resolving a path comes to an end: the loop that climbs
  to the deepest existing ancestor needs at most as many turns as the path has characters.\<close>

theorem Resolve_total: "\<exists>res. Resolve fs v path = Some res"
  using Resolve_cases by blast

text \<open>C25: a path that resolves with success lies, component by component, inside one of the roots. It is
  made of a part that exists and has no symbolic link in it, and of the components still to be
  created; the first of these is not in the file system, or is a link whose target cannot be reached.\<close>

theorem Resolve_stays_inside:
  assumes "NewValidator fs0 roots = Inr v" "Resolve fs v path = Some (Inr p)"
  shows "\<exists>root d rest. root_comps v root \<and> prefix root (d @ rest) \<and>
    p = abs_path (d @ rest) \<and> real_path fs d \<and>
    (rest \<noteq> [] \<longrightarrow>
       (fs (d @ [hd rest]) = None \<or> (\<exists>t. fs (d @ [hd rest]) = Some (Symlink t))) \<and>
       (\<exists>e. walk fs 255 d [hd rest] = Inl e))"
proof -
  obtain d rest where "resolves_to fs p d rest" "path_contained v p"
    using Resolve_resolves_to [OF assms(2)] by blast
  then show ?thesis
    using path_contained_prefix [OF assms(1), of "d @ rest"] unfolding resolves_to_def by blast
qed

definition example_fs :: filesystem where
  "example_fs = map_of
     [([''srv''], Directory), ([''srv'', ''www''], Directory), ([''etc''], Directory),
      ([''srv'', ''www'', ''index.html''], Regular),
      ([''srv'', ''www'', ''up''], Symlink ''..''),
      ([''srv'', ''www'', ''here''], Symlink ''up/www''),
      ([''srv'', ''www'', ''evil''], Symlink ''/etc/cron.d/job'')]"

theorem Resolve_stays_inside_witness:
  "NewValidator example_fs [''/srv/www/''] = Inr [''/srv/www''] \<and>
   Resolve example_fs [''/srv/www''] ''/srv/www/here//a/b'' = Some (Inr ''/srv/www/a/b'') \<and>
   (\<exists>root d rest. root_comps [''/srv/www''] root \<and> prefix root (d @ rest) \<and>
      ''/srv/www/a/b'' = abs_path (d @ rest) \<and> real_path example_fs d)"
proof -
  have a: "NewValidator example_fs [''/srv/www/''] = Inr [''/srv/www'']" by code_simp
  have b: "Resolve example_fs [''/srv/www''] ''/srv/www/here//a/b'' = Some (Inr ''/srv/www/a/b'')"
    by code_simp
  show ?thesis using a b Resolve_stays_inside [OF a b] by blast
qed

text \<open>A link whose target is missing is taken for a path that is about to be created: the
  link inside the root is returned as resolved although it points outside every root, and
  creating a file through it would create the target.\<close>

theorem Resolve_accepts_dangling_link:
  "Resolve example_fs [''/srv/www''] ''/srv/www/evil'' = Some (Inr ''/srv/www/evil'') \<and>
   example_fs [''srv'', ''www'', ''evil''] = Some (Symlink ''/etc/cron.d/job'') \<and>
   Resolve example_fs [''/srv/www''] ''/etc/cron.d/job'' = Some (Inl ErrOutsideRoot)"
  by (intro conjI) code_simp+

section \<open>Existing files and directories\<close>

lemma walk_of_real:
  "real_path fs (dest @ rest) \<Longrightarrow> walk fs l dest rest = Inr (dest @ rest) \<or> walk fs l dest rest = Inl NotDir"
proof (induction rest arbitrary: dest)
  case (Cons c rest)
  then have re: "real_path fs ((dest @ [c]) @ rest)" by simp
  then have "\<exists>nd. fs (dest @ [c]) = Some nd \<and> \<not> (\<exists>t. nd = Symlink t) \<and> nd \<noteq> Unstattable" "plain c"
    by (auto simp: real_path_def dest!: spec [of _ "length dest"])
  then obtain nd where nd: "fs (dest @ [c]) = Some nd" "nd = Directory \<or> nd = Regular \<or> nd = Special" "ordinary c"
    by (metis node.exhaust plain_ordinary)
  then show ?case using Cons.IH [OF re] by (cases "rest = []") (auto simp: walk_rules)
qed simp

lemma stat_resolved:
  assumes "resolves_to fs p d rest" "stat fs (comps_of p) = Inr nd"
  shows "rest = [] \<and> comps_of p = d \<and> (d = [] \<and> nd = Directory \<or> fs d = Some nd)"
proof -
  have c: "comps_of p = d @ rest" using assms(1) by (simp add: resolves_to_def comps_of_abs_path)
  obtain e where e: "walk fs 40 [] (d @ rest) = Inr e" "e = [] \<and> nd = Directory \<or> fs e = Some nd"
    using assms(2) c by (auto simp: stat_def split: sum.splits if_splits option.splits)
  have "real_path fs d" using assms(1) by (simp add: resolves_to_def)
  then have w: "walk fs 40 [] d = Inr d"
    using walk_of_real [of fs "[]" d 40] walk_Inl_append [of fs 40 "[]" d NotDir rest] e(1) by auto
  have "rest = []"
  proof (rule ccontr)
    assume ne: "rest \<noteq> []"
    obtain err where err: "walk fs 255 d [hd rest] = Inl err" using assms(1) ne by (auto simp: resolves_to_def)
    obtain l where l: "l \<le> 40" "walk fs l d rest = Inr e"
      using walk_Inr_append [OF w, of rest] e(1) by auto
    have "walk fs l d [hd rest] = Inl x \<Longrightarrow> False" for x
      using walk_Inl_append [of fs l d "[hd rest]" x "tl rest"] l(2) ne by auto
    then show False using walk_more [of fs l d "[hd rest]" "255 - l"] err l(1) by (cases "walk fs l d [hd rest]") auto
  qed
  then show ?thesis using c w e by simp
qed

lemma ResolveExisting_Resolve:
  "ResolveExisting fs v path = Some (Inr p) \<Longrightarrow> Resolve fs v path = Some (Inr p)"
  by (auto simp: ResolveExisting_def split: option.splits sum.splits)

lemma resolved_inside:
  assumes "NewValidator fs0 roots = Inr v" "ResolveExisting fs v path = Some (Inr p)"
    "stat fs (comps_of p) = Inr nd"
  shows "\<exists>root. root_comps v root \<and> prefix root (comps_of p)" "real_path fs (comps_of p)"
    "p = abs_path (comps_of p)" "comps_of p = [] \<and> nd = Directory \<or> fs (comps_of p) = Some nd"
proof -
  obtain d rest where d: "resolves_to fs p d rest" "path_contained v p"
    using Resolve_resolves_to ResolveExisting_Resolve [OF assms(2)] by blast
  note s = stat_resolved [OF d(1) assms(3)]
  show p: "p = abs_path (comps_of p)" "real_path fs (comps_of p)"
    using d(1) s by (auto simp: resolves_to_def)
  show "\<exists>root. root_comps v root \<and> prefix root (comps_of p)"
    using path_contained_prefix [OF assms(1), of "comps_of p"] d(2) p by (auto simp: real_path_def)
  show "comps_of p = [] \<and> nd = Directory \<or> fs (comps_of p) = Some nd" using s by auto
qed

lemma ResolveDir_sound:
  assumes "NewValidator fs0 roots = Inr v" "ResolveDir fs v path = Some (Inr p)"
  shows "real_path fs (comps_of p)" "p = abs_path (comps_of p)"
    "\<exists>root. root_comps v root \<and> prefix root (comps_of p)"
    "comps_of p = [] \<or> fs (comps_of p) = Some Directory"
proof -
  have "ResolveExisting fs v path = Some (Inr p)" "stat fs (comps_of p) = Inr Directory"
    using assms(2) by (auto simp: ResolveDir_def split: option.splits sum.splits if_splits)
  note r = resolved_inside [OF assms(1) this]
  show "real_path fs (comps_of p)" "p = abs_path (comps_of p)"
    "\<exists>root. root_comps v root \<and> prefix root (comps_of p)"
    "comps_of p = [] \<or> fs (comps_of p) = Some Directory"
    using r by blast+
qed

text \<open>A path accepted as a file is the path of a regular file, with no link on the way to it,
  inside one of the roots.\<close>

theorem ResolveFile_sound:
  assumes "NewValidator fs0 roots = Inr v" "ResolveFile fs v path = Some (Inr p)"
  shows "p = abs_path (comps_of p) \<and> real_path fs (comps_of p) \<and> fs (comps_of p) = Some Regular \<and>
    (\<exists>root. root_comps v root \<and> prefix root (comps_of p))"
proof -
  have "ResolveExisting fs v path = Some (Inr p)" "stat fs (comps_of p) = Inr Regular"
    using assms(2) by (auto simp: ResolveFile_def split: option.splits sum.splits if_splits)
  then show ?thesis using resolved_inside [OF assms(1)] by blast
qed

theorem ResolveFile_sound_witness:
  "NewValidator example_fs [''/srv/www/''] = Inr [''/srv/www''] \<and>
   ResolveFile example_fs [''/srv/www''] ''/srv/www/here/index.html'' = Some (Inr ''/srv/www/index.html'') \<and>
   real_path example_fs (comps_of ''/srv/www/index.html'')"
proof -
  have v: "NewValidator example_fs [''/srv/www/''] = Inr [''/srv/www'']" by code_simp
  have a: "ResolveFile example_fs [''/srv/www''] ''/srv/www/here/index.html'' = Some (Inr ''/srv/www/index.html'')"
    by code_simp
  show ?thesis using v a ResolveFile_sound [OF v a] by blast
qed

end
