(* ===== verification/Agent_Command.thy ===== *)
theory Agent_Command
  imports Go_Path "HOL-Library.Char_ord" "HOL-Library.List_Lexorder"
begin

text \<open>
  Package \<open>agent/internal/command\<close>, \<open>command.go\<close>: external programs run from an allowlist, by absolute
  path, with an argument vector, a sanitised environment, a deadline and capped output.

  Running a process is the operating system's: \<open>exec\<close>, an argument of \<open>RunWith\<close>, takes the process
  description the package hands to \<open>os/exec\<close> and the state of the host, and gives what the process
  wrote, how it ended, and the host afterwards. Which files are executable (\<open>modes\<close>) and
  which can be opened as input (\<open>opens\<close>) are arguments too. Durations of runs are not recorded.
\<close>

section \<open>The allowlist\<close>

datatype cmd_err =
    ErrNotAllowed | ErrNotAbsolute | ErrInvalidArg | ErrTimeout | ErrOutputTooLarge | ErrCmdUnavailable
  | ErrNoSpecs | ErrNoName | ErrDuplicate | ErrOpenInput | ErrRun

definition DefaultTimeout :: int where
  "DefaultTimeout = 30 * 1000000000"

definition DefaultMaxOutput :: int where
  "DefaultMaxOutput = 2 ^ 20"

definition maxArgs :: nat where
  "maxArgs = 64"

definition maxArgLength :: nat where
  "maxArgLength = 4096"

record spec =
  spec_Name :: go_string
  spec_Path :: go_string
  spec_Timeout :: int
  spec_MaxOutput :: int
  AllowedEnv :: "go_string list"
  AllowAnyEnv :: bool

record cmd_runner =
  specs :: "go_string \<rightharpoonup> spec"
  base_env :: "go_string list"

definition spec_defaults :: "spec \<Rightarrow> spec" where
  "spec_defaults s =
     s\<lparr>spec_Timeout := (if spec_Timeout s \<le> 0 then DefaultTimeout else spec_Timeout s),
       spec_MaxOutput := (if spec_MaxOutput s \<le> 0 then DefaultMaxOutput else spec_MaxOutput s)\<rparr>"

fun add_specs :: "spec list \<Rightarrow> (go_string \<rightharpoonup> spec) \<Rightarrow> cmd_err + (go_string \<rightharpoonup> spec)" where
  "add_specs [] byName = Inr byName"
| "add_specs (s # ss) byName =
     (if spec_Name s = [] then Inl ErrNoName
      else if \<not> path_is_abs (spec_Path s) then Inl ErrNotAbsolute
      else if byName (spec_Name s) \<noteq> None then Inl ErrDuplicate
      else add_specs ss (byName(spec_Name s \<mapsto> spec_defaults s)))"

definition NewCommandRunner :: "spec list \<Rightarrow> cmd_err + cmd_runner" where
  "NewCommandRunner ss =
     (if ss = [] then Inl ErrNoSpecs
      else (case add_specs ss Map.empty of
              Inl e \<Rightarrow> Inl e
            | Inr byName \<Rightarrow>
                Inr \<lparr>specs = byName,
                  base_env = [''PATH=/usr/local/sbin:/usr/local/bin:/usr/sbin:/usr/bin:/sbin:/bin'',
                    ''LC_ALL=C'', ''LANG=C'']\<rparr>))"

text \<open>\<open>isExecutable\<close>: a regular file with an execute bit; \<open>modes\<close> is \<open>os.Stat\<close>.\<close>

definition isExecutable :: "(go_string \<rightharpoonup> bool \<times> bool) \<Rightarrow> go_string \<Rightarrow> bool" where
  "isExecutable modes path = (case modes path of None \<Rightarrow> False | Some (regular, exec_bit) \<Rightarrow> regular \<and> exec_bit)"

definition cmd_Available :: "cmd_runner \<Rightarrow> (go_string \<rightharpoonup> bool \<times> bool) \<Rightarrow> go_string \<Rightarrow> bool" where
  "cmd_Available r modes name =
     (case specs r name of None \<Rightarrow> False | Some s \<Rightarrow> isExecutable modes (spec_Path s))"

section \<open>Arguments and environment\<close>

definition checkArg :: "go_string \<Rightarrow> cmd_err option" where
  "checkArg arg =
     (if length arg > maxArgLength then Some ErrInvalidArg
      else if null_byte \<in> set arg then Some ErrInvalidArg
      else if contains_any arg [newline, carriage_return] then Some ErrInvalidArg
      else None)"

definition validateArgs :: "go_string list \<Rightarrow> cmd_err option" where
  "validateArgs args = (if length args > maxArgs then Some ErrInvalidArg else check_each checkArg args)"

text \<open>A Go map of variables is an association list with distinct names; which refused name an error
  is about depends on the order of iteration, the error itself does not.\<close>

fun env_entries :: "(go_string \<times> go_string) list \<Rightarrow> go_string list \<Rightarrow> cmd_err + go_string list" where
  "env_entries extra [] = Inr []"
| "env_entries extra (name # names) =
     (let v = (case map_of extra name of None \<Rightarrow> [] | Some v \<Rightarrow> v) in
        if contains_any v [null_byte, newline, carriage_return] then Inl ErrInvalidArg
        else (case env_entries extra names of
                Inl e \<Rightarrow> Inl e
              | Inr env \<Rightarrow> Inr ((name @ ''='' @ v) # env)))"

definition environment :: "cmd_runner \<Rightarrow> spec \<Rightarrow> (go_string \<times> go_string) list \<Rightarrow> cmd_err + go_string list" where
  "environment r s extra =
     (if extra = [] then Inr (base_env r)
      else if \<not> AllowAnyEnv s \<and> list_ex (\<lambda>name. name \<notin> set (AllowedEnv s)) (map fst extra) then Inl ErrNotAllowed
      else (case env_entries extra (sort (map fst extra)) of
              Inl e \<Rightarrow> Inl e
            | Inr env \<Rightarrow> Inr (base_env r @ env)))"

section \<open>Capped output\<close>

record cappedBuffer =
  buf :: go_string
  limit :: int
  truncated :: bool

definition capped_Write :: "cappedBuffer \<Rightarrow> go_string \<Rightarrow> int \<times> cappedBuffer" where
  "capped_Write c p =
     (let remaining = limit c - int (length (buf c)) in
        if remaining \<le> 0 then (int (length p), c\<lparr>truncated := True\<rparr>)
        else if int (length p) > remaining then
          (int (length p), c\<lparr>buf := buf c @ take (nat remaining) p, truncated := True\<rparr>)
        else (int (length p), c\<lparr>buf := buf c @ p\<rparr>))"

definition collect :: "int \<Rightarrow> go_string list \<Rightarrow> cappedBuffer" where
  "collect lim chunks = foldl (\<lambda>c p. snd (capped_Write c p)) \<lparr>buf = [], limit = lim, truncated = False\<rparr> chunks"

section \<open>Running a command\<close>

record cmd_options =
  opt_Stdin :: go_string
  opt_StdinFile :: go_string
  opt_Env :: "(go_string \<times> go_string) list"
  opt_Dir :: go_string
  opt_Credential :: "(int \<times> int) option"

definition no_options :: cmd_options where
  "no_options = \<lparr>opt_Stdin = [], opt_StdinFile = [], opt_Env = [], opt_Dir = [], opt_Credential = None\<rparr>"

datatype input = NoInput | Text go_string | InputFile go_string

record proc =
  p_path :: go_string
  p_args :: "go_string list"
  p_env :: "go_string list"
  p_dir :: go_string
  p_stdin :: input
  p_credential :: "(int \<times> int) option"
  p_timeout :: int

datatype proc_end = Exited int | DeadlineExceeded | ExitedPipesOpen int | RunFailed

record proc_out =
  o_stdout :: "go_string list"
  o_stderr :: "go_string list"
  o_end :: proc_end

type_synonym 'h exec = "proc \<Rightarrow> 'h \<Rightarrow> proc_out \<times> 'h"

record run_result =
  ExitCode :: int
  Stdout :: go_string
  Stderr :: go_string
  TimedOut :: bool

definition Succeeded :: "run_result \<Rightarrow> bool" where
  "Succeeded r \<longleftrightarrow> ExitCode r = 0 \<and> \<not> TimedOut r"

definition no_result :: run_result where
  "no_result = \<lparr>ExitCode = 0, Stdout = [], Stderr = [], TimedOut = False\<rparr>"

definition stdin_of :: "(go_string \<Rightarrow> bool) \<Rightarrow> cmd_options \<Rightarrow> cmd_err + input" where
  "stdin_of opens opts =
     (if opt_Stdin opts \<noteq> [] \<and> opt_StdinFile opts \<noteq> [] then Inl ErrInvalidArg
      else if opt_StdinFile opts \<noteq> [] then
        (if \<not> has_prefix (opt_StdinFile opts) ''/'' then Inl ErrInvalidArg
         else if \<not> opens (opt_StdinFile opts) then Inl ErrOpenInput
         else Inr (InputFile (opt_StdinFile opts)))
      else if opt_Stdin opts \<noteq> [] then Inr (Text (opt_Stdin opts))
      else Inr NoInput)"

text \<open>What \<open>RunWith\<close> hands to \<open>os/exec\<close>, or why it refuses.\<close>

definition build_proc :: "cmd_runner \<Rightarrow> (go_string \<rightharpoonup> bool \<times> bool) \<Rightarrow> (go_string \<Rightarrow> bool) \<Rightarrow> go_string \<Rightarrow>
    cmd_options \<Rightarrow> go_string list \<Rightarrow> cmd_err + spec \<times> proc" where
  "build_proc r modes opens name opts args =
     (case specs r name of
        None \<Rightarrow> Inl ErrNotAllowed
      | Some s \<Rightarrow>
          (case validateArgs args of
             Some e \<Rightarrow> Inl e
           | None \<Rightarrow>
               (case environment r s (opt_Env opts) of
                  Inl e \<Rightarrow> Inl e
                | Inr env \<Rightarrow>
                    if \<not> isExecutable modes (spec_Path s) then Inl ErrCmdUnavailable
                    else if opt_Dir opts \<noteq> [] \<and> \<not> has_prefix (opt_Dir opts) ''/'' then Inl ErrInvalidArg
                    else (case stdin_of opens opts of
                            Inl e \<Rightarrow> Inl e
                          | Inr source \<Rightarrow>
                              Inr (s, \<lparr>p_path = spec_Path s, p_args = args, p_env = env,
                                p_dir = (if opt_Dir opts \<noteq> [] then opt_Dir opts else ''/''),
                                p_stdin = source, p_credential = opt_Credential opts,
                                p_timeout = spec_Timeout s\<rparr>)))))"

definition finish_run :: "spec \<Rightarrow> proc_out \<Rightarrow> run_result \<times> cmd_err option" where
  "finish_run s out =
     (let stdout = collect (spec_MaxOutput s) (o_stdout out);
          stderr = collect (spec_MaxOutput s) (o_stderr out);
          result = \<lparr>ExitCode = 0, Stdout = buf stdout, Stderr = buf stderr, TimedOut = False\<rparr>
      in (case o_end out of
            DeadlineExceeded \<Rightarrow> (result\<lparr>TimedOut := True, ExitCode := - 1\<rparr>, Some ErrTimeout)
          | RunFailed \<Rightarrow> (result, Some ErrRun)
          | ExitedPipesOpen code \<Rightarrow> (result\<lparr>ExitCode := code\<rparr>, None)
          | Exited code \<Rightarrow>
              if code \<noteq> 0 then (result\<lparr>ExitCode := code\<rparr>, None)
              else if truncated stdout \<or> truncated stderr then (result, Some ErrOutputTooLarge)
              else (result, None)))"

definition RunWith :: "cmd_runner \<Rightarrow> (go_string \<rightharpoonup> bool \<times> bool) \<Rightarrow> (go_string \<Rightarrow> bool) \<Rightarrow> 'h exec \<Rightarrow>
    go_string \<Rightarrow> cmd_options \<Rightarrow> go_string list \<Rightarrow> 'h \<Rightarrow> (run_result \<times> cmd_err option) \<times> 'h" where
  "RunWith r modes opens exec name opts args h =
     (case build_proc r modes opens name opts args of
        Inl e \<Rightarrow> ((no_result, Some e), h)
      | Inr (s, p) \<Rightarrow> (let (out, h') = exec p h in (finish_run s out, h')))"

definition Run :: "cmd_runner \<Rightarrow> (go_string \<rightharpoonup> bool \<times> bool) \<Rightarrow> (go_string \<Rightarrow> bool) \<Rightarrow> 'h exec \<Rightarrow>
    go_string \<Rightarrow> go_string list \<Rightarrow> 'h \<Rightarrow> (run_result \<times> cmd_err option) \<times> 'h" where
  "Run r modes opens exec name args h = RunWith r modes opens exec name no_options args h"

section \<open>What reaches a process\<close>

lemma add_specs_keys:
  "add_specs ss m = Inr m' \<Longrightarrow> m' n = Some s \<Longrightarrow>
     m n = Some s \<or> (\<exists>t \<in> set ss. n = spec_Name t \<and> s = spec_defaults t \<and> path_is_abs (spec_Path t))"
  by (induction ss m rule: add_specs.induct) (auto split: if_splits)

lemma spec_defaults_ok: "0 < spec_Timeout (spec_defaults t)" "0 < spec_MaxOutput (spec_defaults t)"
  "spec_Path (spec_defaults t) = spec_Path t"
  by (auto simp: spec_defaults_def DefaultTimeout_def DefaultMaxOutput_def)

lemma validateArgs_ok:
  "validateArgs args = None \<longleftrightarrow>
     length args \<le> 64 \<and>
     (\<forall>a \<in> set args. length a \<le> 4096 \<and> null_byte \<notin> set a \<and> newline \<notin> set a \<and> carriage_return \<notin> set a)"
  by (auto simp: validateArgs_def check_each_None checkArg_def maxArgs_def maxArgLength_def contains_any_iff)

lemma env_entries_ok:
  "env_entries extra names = Inr env \<Longrightarrow>
     env = map (\<lambda>n. n @ ''='' @ (case map_of extra n of None \<Rightarrow> [] | Some v \<Rightarrow> v)) names \<and>
     (\<forall>n \<in> set names. \<forall>v. map_of extra n = Some v \<longrightarrow> set v \<inter> {null_byte, newline, carriage_return} = {})"
  by (induction names arbitrary: env) (auto simp: Let_def contains_any_iff split: if_splits sum.splits option.splits)

text \<open>C26: a command that does reach the operating system is one of the allowlist, at its absolute
  path, with arguments free of null bytes and line breaks and within the limits, in an absolute
  working directory and with a deadline. Its environment is the fixed one, followed only by
  variables the specification of the program allows. When the command is refused, nothing runs.\<close>

theorem RunWith_runs_allowlisted:
  assumes "NewCommandRunner ss = Inr r" "RunWith r modes opens exec name opts args h = ((res, err), h')"
  shows "h' = h \<and> err \<noteq> None \<or>
    (\<exists>t \<in> set ss. \<exists>p out. exec p h = (out, h') \<and> spec_Name t = name \<and> p_path p = spec_Path t \<and>
       path_is_abs (p_path p) \<and> p_args p = args \<and> validateArgs args = None \<and>
       has_prefix (p_dir p) ''/'' \<and> 0 < p_timeout p \<and>
       (\<exists>extra. p_env p = base_env r @ extra \<and>
          (\<forall>e \<in> set extra. \<exists>n v. e = n @ ''='' @ v \<and> (AllowAnyEnv t \<or> n \<in> set (AllowedEnv t)))))"
proof (cases "build_proc r modes opens name opts args")
  case (Inl e)
  then have "h' = h" "err \<noteq> None" using assms(2) by (auto simp: RunWith_def)
  then show ?thesis by blast
next
  case (Inr sp)
  obtain s p where sp: "sp = (s, p)" by (cases sp)
  obtain out where out: "exec p h = (out, h')"
    using assms(2) Inr sp by (auto simp: RunWith_def split: prod.splits)
  obtain env where b: "specs r name = Some s" "validateArgs args = None" "environment r s (opt_Env opts) = Inr env"
    "p_path p = spec_Path s" "p_args p = args" "p_env p = env" "has_prefix (p_dir p) ''/''" "p_timeout p = spec_Timeout s"
    using Inr sp by (auto simp: build_proc_def has_prefix_def split: option.splits sum.splits if_splits)
  obtain byName where bn: "add_specs ss Map.empty = Inr byName" "specs r = byName"
    using assms(1) by (auto simp: NewCommandRunner_def split: if_splits sum.splits)
  then obtain t where t: "t \<in> set ss" "name = spec_Name t" "s = spec_defaults t" "path_is_abs (spec_Path t)"
    using add_specs_keys [OF bn(1), of name s] b(1) by auto
  have "\<exists>extra. env = base_env r @ extra \<and>
      (\<forall>e \<in> set extra. \<exists>n v. e = n @ ''='' @ v \<and> (AllowAnyEnv s \<or> n \<in> set (AllowedEnv s)))"
  proof (cases "opt_Env opts = []")
    case False
    then obtain extra where e: "env_entries (opt_Env opts) (sort (map fst (opt_Env opts))) = Inr extra" "env = base_env r @ extra"
      "AllowAnyEnv s \<or> (\<forall>x \<in> set (opt_Env opts). fst x \<in> set (AllowedEnv s))"
      using b(3) by (auto simp: environment_def list_ex_iff case_prod_beta split: if_splits sum.splits)
    then show ?thesis using env_entries_ok [OF e(1)] by auto
  qed (use b(3) in \<open>auto simp: environment_def\<close>)
  moreover have "AllowAnyEnv s = AllowAnyEnv t" "AllowedEnv s = AllowedEnv t" using t(3) by (auto simp: spec_defaults_def)
  moreover have "path_is_abs (p_path p)" "p_path p = spec_Path t" "0 < p_timeout p"
    using t(3,4) b(4,8) spec_defaults_ok [of t] by auto
  ultimately show ?thesis
    using t(1,2) b(2,5-7) out by (intro disjI2 bexI [of _ t] exI [of _ p] exI [of _ out]) auto
qed

definition example_spec :: spec where
  "example_spec = \<lparr>spec_Name = ''psql'', spec_Path = ''/usr/bin/psql'', spec_Timeout = 0, spec_MaxOutput = 8,
     AllowedEnv = [''PGPASSWORD''], AllowAnyEnv = False\<rparr>"

definition example_runner :: cmd_runner where
  "example_runner = (case NewCommandRunner [example_spec] of Inr r \<Rightarrow> r | Inl _ \<Rightarrow> \<lparr>specs = Map.empty, base_env = []\<rparr>)"

text \<open>A host that records what was run.\<close>

definition log_exec :: "proc list exec" where
  "log_exec p h = (\<lparr>o_stdout = [''ok''], o_stderr = [], o_end = Exited 0\<rparr>, p # h)"

theorem RunWith_runs_allowlisted_witness:
  "\<exists>h'. snd (RunWith example_runner (\<lambda>_. Some (True, True)) (\<lambda>_. True) log_exec ''psql''
      (no_options\<lparr>opt_Env := [(''PGPASSWORD'', ''x'')]\<rparr>) [''-l''] []) = h' \<and> length h' = 1 \<and>
    (\<exists>t \<in> set [example_spec]. \<exists>p out. log_exec p [] = (out, h') \<and> p_path p = spec_Path t)"
proof -
  let ?run = "RunWith example_runner (\<lambda>_. Some (True, True)) (\<lambda>_. True) log_exec ''psql''
      (no_options\<lparr>opt_Env := [(''PGPASSWORD'', ''x'')]\<rparr>) [''-l''] []"
  have r: "NewCommandRunner [example_spec] = Inr example_runner"
    by (simp add: example_runner_def NewCommandRunner_def example_spec_def path_is_abs_def has_prefix_def)
  have "validateArgs [''-l''] = None" by (simp add: validateArgs_ok)
  then have e: "snd (fst ?run) = None" "length (snd ?run) = 1"
    by (simp_all add: RunWith_def build_proc_def example_runner_def NewCommandRunner_def example_spec_def
        path_is_abs_def has_prefix_def spec_defaults_def environment_def contains_any_def
        isExecutable_def stdin_of_def log_exec_def finish_run_def no_options_def collect_def capped_Write_def
        list_ex_iff)
  obtain res err h' where run: "?run = ((res, err), h')" by (metis prod.collapse)
  have e': "err = None" "length h' = 1" using e unfolding run by simp_all
  have "\<exists>t \<in> set [example_spec]. \<exists>p out. log_exec p [] = (out, h') \<and> p_path p = spec_Path t"
    using RunWith_runs_allowlisted [OF r run] e' by fast
  then show ?thesis unfolding run using e' by simp
qed

section \<open>Output is capped\<close>

lemma collect_snoc: "collect lim (ps @ [p]) = snd (capped_Write (collect lim ps) p)"
  by (simp add: collect_def)

lemma collect_limit [simp]: "limit (collect lim ps) = lim"
  by (induction ps rule: rev_induct) (simp_all add: collect_snoc, simp_all add: collect_def capped_Write_def Let_def)

text \<open>Whatever a program writes, and in whatever pieces, what is kept is the first \<open>limit\<close> bytes of
  it, and the buffer reports truncation exactly when bytes were dropped.\<close>

theorem collect_keeps_prefix:
  assumes "0 < lim" "[] \<notin> set chunks"
  shows "buf (collect lim chunks) = take (nat lim) (concat chunks) \<and>
    (truncated (collect lim chunks) \<longleftrightarrow> lim < int (length (concat chunks)))"
  using assms(2)
proof (induction chunks rule: rev_induct)
  case Nil
  then show ?case using assms(1) by (simp add: collect_def)
next
  case (snoc p ps)
  let ?c = "collect lim ps" and ?s = "concat ps"
  have ih: "buf ?c = take (nat lim) ?s" "truncated ?c \<longleftrightarrow> lim < int (length ?s)" "p \<noteq> []" using snoc by auto
  show ?case
  proof (cases "lim \<le> int (length ?s)")
    case True
    then have "int (length (buf ?c)) = lim" using ih(1) assms(1) by simp
    moreover have "lim < int (length (?s @ p))" using True ih(3) by (cases p) auto
    ultimately show ?thesis using ih(1) True by (simp add: collect_snoc capped_Write_def)
  next
    case False
    then have b: "buf ?c = ?s" "\<not> truncated ?c" "nat lim - length ?s = nat (lim - int (length ?s))" using ih by auto
    then show ?thesis using False by (auto simp: collect_snoc capped_Write_def Let_def)
  qed
qed

theorem collect_keeps_prefix_witness:
  "buf (collect 4 [''abc'', ''def'']) = ''abcd'' \<and> truncated (collect 4 [''abc'', ''def''])"
  using collect_keeps_prefix [of 4 "[''abc'', ''def'']"] by (simp add: numeral_eq_Suc)

end
