(* ===== verification/Go_Netip.thy ===== *)
theory Go_Netip
  imports Go_Prelude
begin

text \<open>
  The part of package \<open>net/netip\<close> of the standard library that the sources use: \<open>ParseAddr\<close>,
  \<open>ParsePrefix\<close> and \<open>Addr.Zone\<close>. An address is its octets, or its eight groups of sixteen bits
  with a zone. The facts shared by the clients say which bytes an accepted text is made of.
\<close>

datatype ip_addr = IPv4 "nat list" | IPv6 "nat list" go_string

definition Zone :: "ip_addr \<Rightarrow> go_string" where
  "Zone a = (case a of IPv4 _ \<Rightarrow> [] | IPv6 _ zone \<Rightarrow> zone)"

section \<open>Dotted quads\<close>

definition octet :: "go_string \<Rightarrow> nat option" where
  "octet s =
     (if s \<noteq> [] \<and> list_all is_digit s \<and> (length s > 1 \<longrightarrow> hd s \<noteq> CHR ''0'') \<and> digits_val s \<le> 255
      then Some (nat (digits_val s)) else None)"

definition parseIPv4Fields :: "go_string \<Rightarrow> nat list option" where
  "parseIPv4Fields s =
     (let octets = map octet (split_on CHR ''.'' s) in
        if length octets = 4 \<and> list_all (\<lambda>x. x \<noteq> None) octets then Some (map the octets) else None)"

section \<open>IPv6\<close>

definition is_hex_digit :: "char \<Rightarrow> bool" where
  "is_hex_digit c \<longleftrightarrow> is_digit c \<or> in_range CHR ''a'' CHR ''f'' c \<or> in_range CHR ''A'' CHR ''F'' c"

definition hex_val :: "char \<Rightarrow> nat" where
  "hex_val c =
     (if is_digit c then code_of c - 48
      else if in_range CHR ''a'' CHR ''f'' c then code_of c - 87 else code_of c - 55)"

definition group_val :: "go_string \<Rightarrow> nat" where
  "group_val s = foldl (\<lambda>n c. 16 * n + hex_val c) 0 s"

text \<open>The loop of \<open>parseIPv6\<close>: \<open>room\<close> groups may still follow the groups read so far, and the
  ellipsis, once seen, stands before the group of its number.\<close>

fun v6_groups :: "nat \<Rightarrow> go_string \<Rightarrow> nat list \<Rightarrow> nat option \<Rightarrow>
    (nat list \<times> nat option \<times> go_string) option" where
  "v6_groups 0 s groups ellipsis = Some (groups, ellipsis, s)"
| "v6_groups (Suc room) s groups ellipsis =
     (let digits = takeWhile is_hex_digit s; rest = dropWhile is_hex_digit s;
          groups' = groups @ [group_val digits]
      in if length digits > 4 then None
         else if digits = [] then None
         else if rest \<noteq> [] \<and> hd rest = CHR ''.'' then
           (if ellipsis = None \<and> length groups \<noteq> 6 then None
            else if length groups + 2 > 8 then None
            else (case parseIPv4Fields s of
                    Some [a, b, c, d] \<Rightarrow> Some (groups @ [256 * a + b, 256 * c + d], ellipsis, [])
                  | _ \<Rightarrow> None))
         else if rest = [] then Some (groups', ellipsis, [])
         else if hd rest \<noteq> CHR '':'' then None
         else if tl rest = [] then None
         else if hd (tl rest) = CHR '':'' then
           (if ellipsis \<noteq> None then None
            else if tl (tl rest) = [] then Some (groups', Some (length groups'), [])
            else v6_groups room (tl (tl rest)) groups' (Some (length groups')))
         else v6_groups room (tl rest) groups' ellipsis)"

definition v6_finish :: "go_string \<Rightarrow> nat list \<times> nat option \<times> go_string \<Rightarrow> ip_addr option" where
  "v6_finish zone =
     (\<lambda>(groups, ellipsis, s).
        if s \<noteq> [] then None
        else (case ellipsis of
                None \<Rightarrow> if length groups < 8 then None else Some (IPv6 groups zone)
              | Some e \<Rightarrow>
                  if length groups < 8
                  then Some (IPv6 (take e groups @ replicate (8 - length groups) 0 @ drop e groups) zone)
                  else None))"

definition parseIPv6 :: "go_string \<Rightarrow> ip_addr option" where
  "parseIPv6 text =
     (let (s, zone, has_zone) = cut CHR ''%'' text in
        if has_zone \<and> zone = [] then None
        else if has_prefix s ''::'' then
          (if drop 2 s = [] then Some (IPv6 (replicate 8 0) zone)
           else Option.bind (v6_groups 8 (drop 2 s) [] (Some 0)) (v6_finish zone))
        else Option.bind (v6_groups 8 s [] None) (v6_finish zone))"

section \<open>Addresses and prefixes\<close>

definition addr_mark :: "char \<Rightarrow> bool" where
  "addr_mark c \<longleftrightarrow> c = CHR ''.'' \<or> c = CHR '':'' \<or> c = CHR ''%''"

definition ParseAddr :: "go_string \<Rightarrow> ip_addr option" where
  "ParseAddr s =
     (case dropWhile (\<lambda>c. \<not> addr_mark c) s of
        [] \<Rightarrow> None
      | c # _ \<Rightarrow>
          if c = CHR ''.'' then map_option IPv4 (parseIPv4Fields s)
          else if c = CHR '':'' then parseIPv6 s
          else None)"

definition ParsePrefix :: "go_string \<Rightarrow> (ip_addr \<times> int) option" where
  "ParsePrefix s =
     (let (rbits, raddr, found) = cut CHR ''/'' (rev s); bits = rev rbits in
        if \<not> found then None
        else (case ParseAddr (rev raddr) of
                None \<Rightarrow> None
              | Some a \<Rightarrow>
                  if Zone a \<noteq> [] then None
                  else if length bits > 1 \<and> \<not> in_range CHR ''1'' CHR ''9'' (hd bits) then None
                  else (case atoi bits of
                          None \<Rightarrow> None
                        | Some n \<Rightarrow>
                            if n < 0 \<or> n > (case a of IPv4 _ \<Rightarrow> 32 | IPv6 _ _ \<Rightarrow> 128) then None
                            else Some (a, n))))"

section \<open>The bytes of an accepted address\<close>

definition addr_char :: "char \<Rightarrow> bool" where
  "addr_char c \<longleftrightarrow> is_hex_digit c \<or> c = CHR ''.'' \<or> c = CHR '':''"

lemma hex_addr_char: "is_hex_digit c \<Longrightarrow> addr_char c"
  by (simp add: addr_char_def)

lemma digit_addr_char: "is_digit c \<Longrightarrow> addr_char c"
  by (simp add: addr_char_def is_hex_digit_def)

lemma list_all_join: "list_all P d \<Longrightarrow> list_all (list_all P) ws \<Longrightarrow> list_all P (join d ws)"
  by (induction d ws rule: join.induct) auto

lemma octet_digits: "octet s \<noteq> None \<Longrightarrow> list_all is_digit s"
  by (auto simp: octet_def split: if_splits)

lemma parseIPv4Fields_chars: "parseIPv4Fields s = Some fs \<Longrightarrow> list_all addr_char s \<and> length fs = 4"
proof -
  assume a: "parseIPv4Fields s = Some fs"
  then have "\<forall>w \<in> set (split_on CHR ''.'' s). octet w \<noteq> None"
    by (auto simp: parseIPv4Fields_def Let_def list_all_iff split: if_splits)
  then have "list_all (list_all addr_char) (split_on CHR ''.'' s)"
    using octet_digits digit_addr_char by (force simp: list_all_iff)
  then have "list_all addr_char (join ''.'' (split_on CHR ''.'' s))"
    by (intro list_all_join) (auto simp: addr_char_def)
  then show ?thesis using a by (auto simp: parseIPv4Fields_def Let_def split: if_splits)
qed

lemma v6_groups_chars:
  "v6_groups room s groups ellipsis = Some (gs, e, s') \<Longrightarrow> list_all addr_char s' \<Longrightarrow> list_all addr_char s"
proof (induction room s groups ellipsis rule: v6_groups.induct)
  case (2 room s groups ellipsis)
  let ?d = "takeWhile is_hex_digit s" and ?r = "dropWhile is_hex_digit s"
  have d: "list_all addr_char ?d" using hex_addr_char by (auto simp: list_all_iff dest: set_takeWhileD)
  have split: "s = ?d @ ?r" by simp
  have "list_all addr_char ?r"
  proof (cases "?r \<noteq> [] \<and> hd ?r = CHR ''.''")
    case True
    then obtain fs where "parseIPv4Fields s = Some fs"
      using 2(3) by (auto simp: Let_def split: if_splits option.splits)
    then have "list_all addr_char s" using parseIPv4Fields_chars by blast
    then show ?thesis by (auto simp: list_all_iff dest: set_dropWhileD)
  next
    case False
    have colon: "addr_char CHR '':''" by (simp add: addr_char_def)
    show ?thesis
    proof (cases ?r)
      case (Cons c r)
      then show ?thesis
        using False 2 colon by (cases r) (auto simp: Let_def split: if_splits)
    next
      case Nil
      show ?thesis by (simp only: Nil list.pred_inject)
    qed
  qed
  with d show ?case by (subst split) (simp only: list_all_append)
qed simp

lemma v6_bind_chars:
  assumes "Option.bind (v6_groups n t g e) (v6_finish z) = Some a"
  shows "Zone a = z \<and> list_all addr_char t"
proof -
  obtain gs e' s' where g: "v6_groups n t g e = Some (gs, e', s')" "v6_finish z (gs, e', s') = Some a"
    using assms by (auto simp: bind_eq_Some_conv)
  then have "s' = []" "Zone a = z"
    by (auto simp: v6_finish_def Zone_def split: if_splits option.splits)
  then show ?thesis using v6_groups_chars [OF g(1)] by simp
qed

lemma parseIPv6_chars:
  assumes "parseIPv6 s = Some a" "Zone a = []"
  shows "list_all addr_char s"
proof -
  obtain b z f where c: "cut CHR ''%'' s = (b, z, f)" by (cases "cut CHR ''%'' s") auto
  have colon: "addr_char CHR '':''" by (simp add: addr_char_def)
  have b: "list_all addr_char b \<and> z = [] \<and> (f \<longrightarrow> z \<noteq> [])"
  proof (cases "has_prefix b ''::''")
    case True
    then obtain t where t: "b = ''::'' @ t" by (auto simp: has_prefix_iff)
    have "\<not> (f \<and> z = [])" "t = [] \<and> a = IPv6 (replicate 8 0) z \<or> Option.bind (v6_groups 8 t [] (Some 0)) (v6_finish z) = Some a"
      using assms(1) c t True by (auto simp: parseIPv6_def split: if_splits)
    then show ?thesis
      using v6_bind_chars [of 8 t "[]" "Some 0" z a] t colon assms(2) by (auto simp: Zone_def)
  next
    case False
    then have "\<not> (f \<and> z = [])" "Option.bind (v6_groups 8 b [] None) (v6_finish z) = Some a"
      using assms(1) c by (auto simp: parseIPv6_def split: if_splits)
    then show ?thesis using v6_bind_chars [of 8 b "[]" None z a] assms(2) by auto
  qed
  then have "s = b" using c cut_not_found [of "CHR ''%''" s b z] by auto
  then show ?thesis using b by simp
qed

lemma ParseAddr_chars:
  assumes "ParseAddr s = Some a" "Zone a = []"
  shows "list_all addr_char s \<and> s \<noteq> []"
proof
  show "list_all addr_char s"
    using assms parseIPv4Fields_chars parseIPv6_chars
    by (auto simp: ParseAddr_def split: list.splits if_splits)
  show "s \<noteq> []" using assms(1) by (auto simp: ParseAddr_def)
qed

lemma atoi_nonneg_chars: "atoi s = Some n \<Longrightarrow> hd s \<noteq> CHR ''+'' \<Longrightarrow> hd s \<noteq> CHR ''-'' \<Longrightarrow> list_all is_digit s"
  by (cases s) (auto simp: atoi_def atoi_unsigned_def split: if_splits)

lemma ParsePrefix_chars:
  assumes "ParsePrefix s = Some p"
  shows "list_all (\<lambda>c. addr_char c \<or> c = CHR ''/'') s \<and> CHR ''/'' \<in> set s"
proof -
  obtain rb ra f where c: "cut CHR ''/'' (rev s) = (rb, ra, f)" by (cases "cut CHR ''/'' (rev s)") auto
  obtain a n where a: "f" "ParseAddr (rev ra) = Some a" "Zone a = []" "atoi (rev rb) = Some n"
    "\<not> (length rb > 1 \<and> \<not> in_range CHR ''1'' CHR ''9'' (hd (rev rb)))"
    using assms c by (auto simp: ParsePrefix_def Let_def split: if_splits option.splits)
  have "list_all is_digit (rev rb)"
  proof (cases "length rb > 1")
    case True
    then have "in_range CHR ''1'' CHR ''9'' (hd (rev rb))" using a(5) by simp
    then show ?thesis using a(4) by (intro atoi_nonneg_chars) (auto simp: in_range_def)
  next
    case False
    then show ?thesis
      using a(4) by (cases rb) (auto simp: atoi_def atoi_unsigned_def split: if_splits)
  qed
  then have "list_all addr_char (rev rb)" using digit_addr_char by (auto simp: list_all_iff)
  moreover have "rev s = rb @ CHR ''/'' # ra" using cut_found [of "CHR ''/''" "rev s" rb ra] c a(1) by simp
  then have "s = rev ra @ CHR ''/'' # rev rb" by (metis rev_rev_ident rev_append rev.simps(2) append_assoc append_Cons append_Nil)
  ultimately show ?thesis using ParseAddr_chars [OF a(2,3)] by (auto simp: list_all_iff)
qed

end
