(* ===== verification/Validate_Firewall.thy ===== *)
theory Validate_Firewall
  imports Validate_Name Go_Netip
begin

text \<open>
  Package \<open>shared/validate\<close>, \<open>firewall.go\<close>: what a firewall rule may say. The values reach \<open>ufw\<close>
  as arguments and its rules file, and \<open>PortsOverlap\<close> is what the lockout guard of the Agent is
  built on.
\<close>

section \<open>The checks\<close>

definition FirewallAction :: "go_string \<Rightarrow> verr option" where
  "FirewallAction action =
     fail_if (action \<notin> {''allow'', ''deny'', ''reject'', ''limit''}) ErrInvalidFirewallRule"

definition FirewallDirection :: "go_string \<Rightarrow> verr option" where
  "FirewallDirection direction = fail_if (direction \<notin> {''in'', ''out''}) ErrInvalidFirewallRule"

definition FirewallProtocol :: "go_string \<Rightarrow> verr option" where
  "FirewallProtocol protocol = fail_if (protocol \<notin> {''tcp'', ''udp'', ''any''}) ErrInvalidFirewallRule"

definition portDigits :: rx where
  "portDigits = Cat (Cls is_digit) (UpTo 4 (Cls is_digit))"

definition portPattern :: rx where
  "portPattern = Cat portDigits (Opt (Cat (Lit CHR '':'') portDigits))"

text \<open>\<open>FindStringSubmatch\<close> with \<open>portPattern\<close>: groups 1 and 3, the second empty when absent.\<close>

definition port_groups :: "go_string \<Rightarrow> (go_string \<times> go_string) option" where
  "port_groups s =
     (if matches_rx portPattern s
      then Some (takeWhile is_digit s, drop 1 (dropWhile is_digit s)) else None)"

definition bad_port :: "go_string \<Rightarrow> bool" where
  "bad_port s = (case atoi s of None \<Rightarrow> True | Some n \<Rightarrow> n < 1 \<or> n > 65535)"

definition FirewallPort :: "go_string \<Rightarrow> verr option" where
  "FirewallPort port =
     (if port = [] then None
      else (case port_groups port of
              None \<Rightarrow> Some ErrInvalidPortSpec
            | Some (low, high) \<Rightarrow>
                if bad_port low then Some ErrInvalidPortSpec
                else if high = [] then None
                else if bad_port high then Some ErrInvalidPortSpec
                else if the (atoi high) \<le> the (atoi low) then Some ErrInvalidPortSpec
                else None))"

definition FirewallSource :: "go_string \<Rightarrow> verr option" where
  "FirewallSource source =
     (if source = [] \<or> source = ''any'' then None
      else if contains source ''/'' then
        (case ParsePrefix source of
           None \<Rightarrow> Some ErrInvalidSource
         | Some (addr, _) \<Rightarrow> if Zone addr \<noteq> [] then Some ErrInvalidSource else None)
      else
        (case ParseAddr source of
           None \<Rightarrow> Some ErrInvalidSource
         | Some addr \<Rightarrow> if Zone addr \<noteq> [] then Some ErrInvalidSource else None))"

definition MaxFirewallComment :: nat where
  "MaxFirewallComment = 120"

definition comment_char :: "char \<Rightarrow> bool" where
  "comment_char c \<longleftrightarrow> is_lower c \<or> is_upper c \<or> is_digit c \<or> c \<in> set '' ._:/@()+-''"

definition commentPattern :: rx where
  "commentPattern = Many (Cls comment_char)"

definition FirewallComment :: "go_string \<Rightarrow> verr option" where
  "FirewallComment comment =
     (if length comment > MaxFirewallComment then Some ErrInvalidFirewallRule
      else if \<not> matches_rx commentPattern comment then Some ErrInvalidFirewallRule
      else None)"

definition PortsOverlap :: "go_string \<Rightarrow> int \<Rightarrow> bool" where
  "PortsOverlap spec port =
     (if spec = [] then True
      else (case port_groups spec of
              None \<Rightarrow> False
            | Some (low_text, high_text) \<Rightarrow>
                (case atoi low_text of
                   None \<Rightarrow> False
                 | Some low \<Rightarrow>
                     let high = (if high_text \<noteq> [] then
                                   (case atoi high_text of Some parsed \<Rightarrow> parsed | None \<Rightarrow> low)
                                 else low)
                     in low \<le> port \<and> port \<le> high)))"

section \<open>Ports\<close>

definition port_text :: "go_string \<Rightarrow> bool" where
  "port_text s \<longleftrightarrow> s \<noteq> [] \<and> length s \<le> 5 \<and> list_all is_digit s"

lemma language_portDigits: "s \<in> language portDigits \<longleftrightarrow> port_text s"
  unfolding portDigits_def language_Cat_Cls language_UpTo_Cls port_text_def by (cases s) auto

lemma colon_not_digit [simp]: "\<not> is_digit CHR '':''"
  by (simp add: char_class_defs)

lemma takeWhile_digits: "list_all P a \<Longrightarrow> \<not> P c \<Longrightarrow> takeWhile P (a @ c # b) = a \<and> dropWhile P (a @ c # b) = c # b"
  by (induction a) auto

lemma portPattern_cases:
  "matches_rx portPattern s \<longleftrightarrow>
     (\<exists>low. port_text low \<and> (s = low \<or> (\<exists>high. port_text high \<and> s = low @ CHR '':'' # high)))"
proof -
  have "s \<in> language portPattern \<longleftrightarrow> (\<exists>u v. s = u @ v \<and> port_text u \<and> (v = [] \<or> (\<exists>h. port_text h \<and> v = CHR '':'' # h)))"
    unfolding portPattern_def in_language_Cat language_Opt insert_iff language_Lit language_portDigits by auto
  then show ?thesis unfolding matches_iff by (metis append_Nil2)
qed

lemma port_text_split:
  assumes "port_text l"
  shows "takeWhile is_digit l = l" "dropWhile is_digit l = []"
    "takeWhile is_digit (l @ CHR '':'' # h) = l" "dropWhile is_digit (l @ CHR '':'' # h) = CHR '':'' # h"
proof -
  have d: "list_all is_digit l" using assms by (simp add: port_text_def)
  then show "takeWhile is_digit l = l" "dropWhile is_digit l = []" by (auto simp: list_all_iff)
  show "takeWhile is_digit (l @ CHR '':'' # h) = l" "dropWhile is_digit (l @ CHR '':'' # h) = CHR '':'' # h"
    using takeWhile_digits [OF d colon_not_digit] by simp_all
qed

lemma port_groups_iff:
  "port_groups s = Some (low, high) \<longleftrightarrow>
     port_text low \<and> (high = [] \<and> s = low \<or> port_text high \<and> s = low @ CHR '':'' # high)"
proof
  assume a: "port_groups s = Some (low, high)"
  then have "matches_rx portPattern s" by (simp add: port_groups_def split: if_splits)
  then consider l where "port_text l" "s = l" | l h where "port_text l" "port_text h" "s = l @ CHR '':'' # h"
    unfolding portPattern_cases by blast
  then show "port_text low \<and> (high = [] \<and> s = low \<or> port_text high \<and> s = low @ CHR '':'' # high)"
    using a by cases (auto simp: port_groups_def port_text_split split: if_splits)
next
  assume a: "port_text low \<and> (high = [] \<and> s = low \<or> port_text high \<and> s = low @ CHR '':'' # high)"
  then have "matches_rx portPattern s" unfolding portPattern_cases by blast
  then show "port_groups s = Some (low, high)"
    using a by (auto simp: port_groups_def port_text_split)
qed

lemma digits_val_snoc: "digits_val (s @ [c]) = 10 * digits_val s + digit_val c"
  by (simp add: digits_val_def)

lemma digits_val_less: "list_all is_digit s \<Longrightarrow> digits_val s < 10 ^ length s"
proof (induction s rule: rev_induct)
  case (snoc c s)
  then show ?case using digit_val_range [of c] by (simp add: digits_val_snoc)
qed (simp add: digits_val_def)

lemma atoi_port_text: "port_text s \<Longrightarrow> atoi s = Some (digits_val s)"
proof -
  assume s: "port_text s"
  then have "digits_val s < 10 ^ length s" "(10::int) ^ length s \<le> 10 ^ 5"
    using digits_val_less power_increasing [of "length s" 5 "10::int"] by (auto simp: port_text_def)
  then show ?thesis using s by (intro atoi_digits) (auto simp: port_text_def max_int64_def)
qed

lemma bad_port_text: "port_text s \<Longrightarrow> bad_port s \<longleftrightarrow> digits_val s < 1 \<or> digits_val s > 65535"
  by (simp add: bad_port_def atoi_port_text)

definition port_bounds :: "go_string \<Rightarrow> int \<times> int" where
  "port_bounds spec =
     (case port_groups spec of
        None \<Rightarrow> (1, 65535)
      | Some (low, high) \<Rightarrow> (digits_val low, digits_val (if high = [] then low else high)))"

lemma FirewallPort_cases:
  "FirewallPort spec = None \<longleftrightarrow>
     spec = [] \<or>
     (\<exists>low high. port_groups spec = Some (low, high) \<and> 1 \<le> digits_val low \<and> digits_val low \<le> 65535 \<and>
        (high = [] \<or> digits_val low < digits_val high \<and> digits_val high \<le> 65535))"
proof (cases "port_groups spec")
  case (Some g)
  obtain low high where g: "g = (low, high)" by (cases g)
  then have "port_text low" "high = [] \<or> port_text high"
    using Some port_groups_iff by auto
  then show ?thesis
    using Some g by (auto simp: FirewallPort_def bad_port_text atoi_port_text)
qed (auto simp: FirewallPort_def)

lemma PortsOverlap_bounds:
  assumes "FirewallPort spec = None" "1 \<le> p" "p \<le> 65535"
  shows "PortsOverlap spec p \<longleftrightarrow> fst (port_bounds spec) \<le> p \<and> p \<le> snd (port_bounds spec)"
proof (cases "spec = []")
  case True
  then have "port_groups spec = None" using port_groups_iff [of "[]"] by (cases "port_groups spec") (auto simp: port_text_def)
  then show ?thesis using True assms by (simp add: PortsOverlap_def port_bounds_def)
next
  case False
  then obtain low high where g: "port_groups spec = Some (low, high)" using assms(1) by (auto simp: FirewallPort_cases)
  then have "port_text low" "high = [] \<or> port_text high" using port_groups_iff by auto
  then show ?thesis
    using False g by (auto simp: PortsOverlap_def port_bounds_def atoi_port_text)
qed

text \<open>A port specification that is accepted stands for an interval of ports within 1 to 65535, not
  empty, and \<open>PortsOverlap\<close> holds of a port exactly when the port lies in it; the empty
  specification stands for all of them.\<close>

theorem FirewallPort_is_interval:
  assumes "FirewallPort spec = None"
  shows "\<exists>low high. 1 \<le> low \<and> low \<le> high \<and> high \<le> 65535 \<and>
    (spec = [] \<longrightarrow> low = 1 \<and> high = 65535) \<and>
    (\<forall>p. 1 \<le> p \<and> p \<le> 65535 \<longrightarrow> (PortsOverlap spec p \<longleftrightarrow> low \<le> p \<and> p \<le> high))"
proof -
  have nil: "port_groups [] = None"
    using port_groups_iff [of "[]"] by (cases "port_groups []") (auto simp: port_text_def)
  have "1 \<le> fst (port_bounds spec) \<and> fst (port_bounds spec) \<le> snd (port_bounds spec) \<and>
      snd (port_bounds spec) \<le> 65535 \<and> (spec = [] \<longrightarrow> port_bounds spec = (1, 65535))"
    using assms unfolding FirewallPort_cases by (auto simp: port_bounds_def nil)
  then show ?thesis using PortsOverlap_bounds [OF assms] by (metis fst_conv snd_conv)
qed

theorem FirewallPort_is_interval_witness:
  "FirewallPort ''7080:7090'' = None \<and> PortsOverlap ''7080:7090'' 7085 \<and>
   (\<exists>low high. 1 \<le> low \<and> low \<le> high \<and>
      (\<forall>p. 1 \<le> p \<and> p \<le> 65535 \<longrightarrow> (PortsOverlap ''7080:7090'' p \<longleftrightarrow> low \<le> p \<and> p \<le> high)))"
proof -
  have a: "FirewallPort ''7080:7090'' = None" by code_simp
  have b: "PortsOverlap ''7080:7090'' 7085" by code_simp
  show ?thesis using a b FirewallPort_is_interval [OF a] by blast
qed

section \<open>The bytes of accepted values\<close>

definition rule_char :: "char \<Rightarrow> bool" where
  "rule_char c \<longleftrightarrow> is_lower c \<or> is_upper c \<or> is_digit c \<or> c \<in> set ''.:/''"

lemma rule_char_class: "rule_char c \<Longrightarrow> \<not> is_space c \<and> \<not> is_control c \<and> c \<noteq> CHR ''|''"
  by (auto simp: rule_char_def char_class_defs)

lemma addr_rule_char: "addr_char c \<Longrightarrow> rule_char c"
  by (auto simp: addr_char_def rule_char_def is_hex_digit_def char_class_defs)

lemma FirewallPort_chars: "FirewallPort s = None \<Longrightarrow> list_all rule_char s"
  unfolding FirewallPort_cases port_groups_iff
  by (auto simp: port_text_def list_all_iff rule_char_def)

lemma FirewallSource_chars:
  assumes "FirewallSource s = None"
  shows "list_all rule_char s"
proof -
  consider "s = []" | "s = ''any''"
    | a n where "ParsePrefix s = Some (a, n)" | a where "ParseAddr s = Some a" "Zone a = []"
    using assms by (auto simp: FirewallSource_def split: if_splits option.splits)
  then show ?thesis
  proof cases
    case 2
    then show ?thesis by (simp add: rule_char_def char_class_defs)
  next
    case 3
    then show ?thesis
      using ParsePrefix_chars [OF 3] addr_rule_char by (auto simp: list_all_iff rule_char_def)
  next
    case 4
    then show ?thesis using ParseAddr_chars addr_rule_char by (auto simp: list_all_iff)
  qed simp
qed

lemma FirewallComment_chars: "FirewallComment s = None \<Longrightarrow> list_all comment_char s \<and> length s \<le> 120"
  using language_Many_Cls [of s comment_char]
  by (auto simp: FirewallComment_def MaxFirewallComment_def commentPattern_def matches_iff split: if_splits)

end
