(* ===== verification/Firewall_Rule.thy ===== *)
theory Firewall_Rule
  imports Validate_Firewall
begin

text \<open>
  Package \<open>agent/internal/firewall\<close>, \<open>rule.go\<close>: a rule in the panel's own shape, its identifier, the
  \<open>ufw\<close> command line built from it, and the parsers of the two listings \<open>ufw\<close> prints.
\<close>

section \<open>Rules\<close>

record fw_rule =
  r_Action :: go_string
  r_Direction :: go_string
  r_Protocol :: go_string
  r_Port :: go_string
  r_Source :: go_string
  r_Comment :: go_string
  r_V6 :: bool

definition Rule_Validate :: "fw_rule \<Rightarrow> verr option" where
  "Rule_Validate r = first_error
     [FirewallAction (r_Action r), FirewallDirection (r_Direction r), FirewallProtocol (r_Protocol r),
      FirewallPort (r_Port r), FirewallSource (r_Source r), FirewallComment (r_Comment r),
      fail_if (r_Port r = [] \<and> r_Protocol r \<noteq> ''any'') ErrInvalidFirewallRule]"

definition Rule_ID :: "fw_rule \<Rightarrow> go_string" where
  "Rule_ID r =
     (let source = (if r_Source r = [] then ''any'' else r_Source r);
          port = (if r_Port r = [] then ''any'' else r_Port r)
      in join ''|'' [r_Direction r, r_Action r, r_Protocol r, port, source])"

definition Rule_Args :: "fw_rule \<Rightarrow> go_string \<Rightarrow> go_string list" where
  "Rule_Args r verb =
     (if verb \<noteq> [] then [verb] else []) @ [r_Action r] @
     (if r_Direction r = ''out'' then [''out''] else []) @
     (if (r_Source r = [] \<or> r_Source r = ''any'') \<and> r_Port r \<noteq> [] then
        [r_Port r @ (if r_Protocol r \<noteq> ''any'' then ''/'' @ r_Protocol r else [])]
      else
        [''from'', if r_Source r = [] then ''any'' else r_Source r] @
        (if r_Port r \<noteq> [] then
           [''to'', ''any'', ''port'', r_Port r] @
           (if r_Protocol r \<noteq> ''any'' then [''proto'', r_Protocol r] else [])
         else [])) @
     (if r_Comment r \<noteq> [] then [''comment'', r_Comment r] else [])"

section \<open>Reading listings\<close>

text \<open>\<open>strings.ReplaceAll\<close>: the first argument counts the bytes still to skip.\<close>

fun replace_from :: "nat \<Rightarrow> go_string \<Rightarrow> go_string \<Rightarrow> go_string \<Rightarrow> go_string" where
  "replace_from k old new [] = []"
| "replace_from (Suc k) old new (c # s) = replace_from k old new s"
| "replace_from 0 old new (c # s) =
     (if has_prefix (c # s) old then new @ replace_from (length old - 1) old new s
      else c # replace_from 0 old new s)"

definition blank_rule :: fw_rule where
  "blank_rule = \<lparr>r_Action = [], r_Direction = [], r_Protocol = ''any'', r_Port = [], r_Source = ''any'',
     r_Comment = [], r_V6 = False\<rparr>"

definition accept_rule :: "fw_rule \<Rightarrow> fw_rule option" where
  "accept_rule r = (if Rule_Validate r \<noteq> None then None else Some r)"

definition status_fields :: "fw_rule \<Rightarrow> go_string list \<Rightarrow> fw_rule option" where
  "status_fields rule flds =
     (if length flds < 3 then None
      else
        let target = flds ! 0;
            (port, protocol, found) = cut CHR ''/'' target;
            rule1 = (if found then rule\<lparr>r_Port := port, r_Protocol := protocol\<rparr>
                     else if \<not> equal_fold target ''Anywhere'' then rule\<lparr>r_Port := target\<rparr>
                     else rule);
            rule2 = rule1\<lparr>r_Action := to_lower (flds ! 1), r_Direction := to_lower (flds ! 2)\<rparr>
        in if r_Direction rule2 \<noteq> ''in'' \<and> r_Direction rule2 \<noteq> ''out'' then None
           else
             let source = trim_space (join '' '' (drop 3 flds));
                 rule3 = (if length flds > 3 \<and> \<not> equal_fold source ''Anywhere'' \<and> source \<noteq> []
                          then rule2\<lparr>r_Source := source\<rparr> else rule2)
             in accept_rule rule3)"

definition parseStatusLine :: "go_string \<Rightarrow> fw_rule option" where
  "parseStatusLine text =
     (let line0 = trim_space text in
        if \<not> has_prefix line0 ''['' then None
        else (case index_of '']'' line0 of
                None \<Rightarrow> None
              | Some closing \<Rightarrow>
                  let line1 = trim_space (drop (closing + 1) line0);
                      (comment, line2) =
                        (case index_of '' # '' line1 of
                           Some hash \<Rightarrow> (trim_space (drop (hash + 3) line1), trim_space (take hash line1))
                         | None \<Rightarrow> ([], line1));
                      v6 = contains line2 ''(v6)'';
                      line3 = (if v6 then replace_from 0 ''(v6)'' '' '' line2 else line2)
                  in status_fields (blank_rule\<lparr>r_Comment := comment, r_V6 := v6\<rparr>) (go_fields line3)))"

fun indexOfField :: "go_string list \<Rightarrow> go_string \<Rightarrow> nat option" where
  "indexOfField [] want = None"
| "indexOfField (field # flds) want =
     (if field = want then Some 0 else map_option Suc (indexOfField flds want))"

text \<open>The terms of a rule after its action, direction and comment have been taken off.\<close>

definition added_terms :: "fw_rule \<Rightarrow> go_string list \<Rightarrow> fw_rule option" where
  "added_terms rule flds =
     (if flds = [] then None
      else if flds ! 0 = ''from'' then
        (if length flds < 2 then None
         else
           let rule1 = rule\<lparr>r_Source := flds ! 1\<rparr>; rest = drop 2 flds in
             if length rest \<ge> 3 \<and> rest ! 0 = ''to'' \<and> rest ! 2 = ''port'' then
               (if length rest < 4 then None
                else
                  let rule2 = rule1\<lparr>r_Port := rest ! 3\<rparr> in
                    accept_rule (if length rest \<ge> 6 \<and> rest ! 4 = ''proto''
                                 then rule2\<lparr>r_Protocol := rest ! 5\<rparr> else rule2))
             else accept_rule rule1)
      else
        let (port, protocol, found) = cut CHR ''/'' (flds ! 0) in
          accept_rule (if found then rule\<lparr>r_Port := port, r_Protocol := protocol\<rparr>
                       else rule\<lparr>r_Port := port\<rparr>))"

definition quote_char :: "char \<Rightarrow> bool" where
  "quote_char c \<longleftrightarrow> c = CHR 0x27 \<or> c = CHR 0x22"

definition parseAddedLine :: "go_string \<Rightarrow> fw_rule option" where
  "parseAddedLine text =
     (let flds = go_fields (trim_space text) in
        if length flds < 3 \<or> flds ! 0 \<noteq> ''ufw'' then None
        else
          let after_action = drop 2 flds;
              outgoing = (after_action \<noteq> [] \<and> after_action ! 0 = ''out'');
              after_direction = (if outgoing then drop 1 after_action else after_action);
              rule = blank_rule\<lparr>r_Action := flds ! 1, r_Direction := (if outgoing then ''out'' else ''in'')\<rparr>
          in (case indexOfField after_direction ''comment'' of
                Some index \<Rightarrow>
                  added_terms (rule\<lparr>r_Comment := trim_both quote_char (join '' '' (drop (index + 1) after_direction))\<rparr>)
                    (take index after_direction)
              | None \<Rightarrow> added_terms rule after_direction))"

section \<open>What the parsers return is a rule the panel can write\<close>

lemma accept_rule_Some: "accept_rule r = Some q \<longleftrightarrow> Rule_Validate r = None \<and> q = r"
  by (auto simp: accept_rule_def)

lemma status_fields_valid: "status_fields rule fs = Some r \<Longrightarrow> Rule_Validate r = None"
  by (auto simp: status_fields_def Let_def accept_rule_Some split: if_splits prod.splits)

lemma parseStatusLine_valid: "parseStatusLine text = Some r \<Longrightarrow> Rule_Validate r = None"
  using status_fields_valid
  by (auto simp: parseStatusLine_def Let_def split: if_splits prod.splits option.splits)

lemma added_terms_valid: "added_terms rule fs = Some r \<Longrightarrow> Rule_Validate r = None"
  by (auto simp: added_terms_def Let_def accept_rule_Some split: if_splits prod.splits)

lemma parseAddedLine_valid: "parseAddedLine text = Some r \<Longrightarrow> Rule_Validate r = None"
  using added_terms_valid
  by (auto simp: parseAddedLine_def Let_def split: if_splits option.splits)

lemmas Rule_Validate_defs = Rule_Validate_def FirewallAction_def FirewallDirection_def FirewallProtocol_def

lemma Rule_ValidateD:
  assumes "Rule_Validate r = None"
  shows "r_Action r \<in> {''allow'', ''deny'', ''reject'', ''limit''}" "r_Direction r \<in> {''in'', ''out''}"
    "r_Protocol r \<in> {''tcp'', ''udp'', ''any''}" "FirewallPort (r_Port r) = None"
    "FirewallSource (r_Source r) = None" "FirewallComment (r_Comment r) = None"
    "r_Port r = [] \<Longrightarrow> r_Protocol r = ''any''"
  using assms unfolding Rule_Validate_defs by auto

section \<open>Identifiers\<close>

lemma keyword_chars:
  "w \<in> {''allow'', ''deny'', ''reject'', ''limit'', ''in'', ''out'', ''tcp'', ''udp'', ''any''} \<Longrightarrow>
     list_all rule_char w \<and> w \<noteq> []"
  by (auto simp: rule_char_def char_class_defs)

definition source_of :: "fw_rule \<Rightarrow> go_string" where
  "source_of r = (if r_Source r = [] then ''any'' else r_Source r)"

lemma source_chars: "Rule_Validate r = None \<Longrightarrow> list_all rule_char (source_of r) \<and> source_of r \<noteq> []"
  using Rule_ValidateD(5) [of r] FirewallSource_chars keyword_chars [of "''any''"] by (auto simp: source_of_def)

lemma port_not_any: "Rule_Validate r = None \<Longrightarrow> r_Port r \<noteq> ''any''"
proof
  assume "Rule_Validate r = None" "r_Port r = ''any''"
  then have "FirewallPort ''any'' = None" using Rule_ValidateD(4) by metis
  moreover have "FirewallPort ''any'' \<noteq> None" by code_simp
  ultimately show False by simp
qed

text \<open>Two valid rules have the same identifier exactly when they say the same: direction, action,
  protocol, port and source. The identifier addresses a rule without its position.\<close>

theorem Rule_ID_injective:
  assumes "Rule_Validate r = None" "Rule_Validate q = None"
  shows "Rule_ID r = Rule_ID q \<longleftrightarrow>
    r_Direction r = r_Direction q \<and> r_Action r = r_Action q \<and> r_Protocol r = r_Protocol q \<and>
    r_Port r = r_Port q \<and> source_of r = source_of q"
proof -
  define ws where "ws r = [r_Direction r, r_Action r, r_Protocol r, if r_Port r = [] then ''any'' else r_Port r, source_of r]"
    for r
  have sep: "Rule_Validate r = None \<Longrightarrow> split_on CHR ''|'' (Rule_ID r) = ws r" for r
  proof -
    assume v: "Rule_Validate r = None"
    have "list_all rule_char (r_Direction r)" "list_all rule_char (r_Action r)" "list_all rule_char (r_Protocol r)"
      using Rule_ValidateD(1-3) [OF v] keyword_chars by blast+
    then have "list_all (list_all rule_char) (ws r)"
      using FirewallPort_chars [OF Rule_ValidateD(4) [OF v]] source_chars [OF v] keyword_chars [of "''any''"]
      by (simp add: ws_def)
    then have "\<forall>w \<in> set (ws r). CHR ''|'' \<notin> set w"
      using rule_char_class by (fastforce simp: list_all_iff)
    moreover have "Rule_ID r = join ''|'' (ws r)" by (simp add: Rule_ID_def ws_def source_of_def)
    ultimately show ?thesis using split_on_join [of "ws r" "CHR ''|''"] by (simp add: ws_def)
  qed
  show ?thesis
  proof
    assume "Rule_ID r = Rule_ID q"
    then have "ws r = ws q" using sep assms by metis
    then show "r_Direction r = r_Direction q \<and> r_Action r = r_Action q \<and> r_Protocol r = r_Protocol q \<and>
        r_Port r = r_Port q \<and> source_of r = source_of q"
      using port_not_any [OF assms(1)] port_not_any [OF assms(2)]
      by (cases "r_Port r = []"; cases "r_Port q = []") (simp_all add: ws_def)
  qed (simp add: Rule_ID_def source_of_def)
qed

definition ssh_rule :: fw_rule where
  "ssh_rule = blank_rule\<lparr>r_Action := ''allow'', r_Direction := ''in'', r_Protocol := ''tcp'', r_Port := ''22'',
     r_Comment := ''the office''\<rparr>"

theorem Rule_ID_injective_witness:
  "Rule_Validate ssh_rule = None \<and> Rule_Validate (ssh_rule\<lparr>r_Source := ''10.0.0.0/8''\<rparr>) = None \<and>
   Rule_ID ssh_rule \<noteq> Rule_ID (ssh_rule\<lparr>r_Source := ''10.0.0.0/8''\<rparr>)"
proof -
  have a: "Rule_Validate ssh_rule = None" by code_simp
  have b: "Rule_Validate (ssh_rule\<lparr>r_Source := ''10.0.0.0/8''\<rparr>) = None" by code_simp
  have c: "source_of ssh_rule \<noteq> source_of (ssh_rule\<lparr>r_Source := ''10.0.0.0/8''\<rparr>)" by code_simp
  show ?thesis using a b c Rule_ID_injective [OF a b] by blast
qed

section \<open>The listing of added rules is read back\<close>

text \<open>The line \<open>ufw show added\<close> prints for a rule: the command line, with the comment in quotes.\<close>

definition added_line :: "fw_rule \<Rightarrow> go_string" where
  "added_line r =
     join '' '' (''ufw'' # Rule_Args (r\<lparr>r_Comment := []\<rparr>) [] @
       (if r_Comment r \<noteq> [] then [''comment'', CHR 0x27 # r_Comment r @ [CHR 0x27]] else []))"

definition words :: "go_string list \<Rightarrow> bool" where
  "words ws \<longleftrightarrow> (\<forall>w \<in> set ws. w \<noteq> [] \<and> (\<forall>c \<in> set w. \<not> is_space c))"

lemma words_simps [simp]:
  "words []" "words (w # ws) \<longleftrightarrow> w \<noteq> [] \<and> (\<forall>c \<in> set w. \<not> is_space c) \<and> words ws"
  "words (ws @ vs) \<longleftrightarrow> words ws \<and> words vs"
  by (auto simp: words_def)


text \<open>Each run of spaces becomes one space.\<close>

fun squeeze :: "go_string \<Rightarrow> go_string" where
  "squeeze [] = []"
| "squeeze [c] = [c]"
| "squeeze (c # d # s) =
     (if c = CHR '' '' \<and> d = CHR '' '' then squeeze (d # s) else c # squeeze (d # s))"





lemma squeeze_eq_Nil [simp]: "squeeze s = [] \<longleftrightarrow> s = []"
  by (induction s rule: squeeze.induct) auto



















text \<open>Two notes that differ only in spacing read the same.\<close>

definition spaced_rule :: fw_rule where
  "spaced_rule = ssh_rule\<lparr>r_Source := ''any'', r_Comment := ''the  office''\<rparr>"

lemma added_comment_loses_spaces:
  "Rule_Validate spaced_rule = None \<and>
   parseAddedLine (added_line spaced_rule) = Some (spaced_rule\<lparr>r_Comment := ''the office''\<rparr>) \<and>
   r_Comment spaced_rule \<noteq> ''the office''"
proof -
  have "Rule_Validate spaced_rule = None" by code_simp
  moreover have "parseAddedLine (added_line spaced_rule) =
      Some (spaced_rule\<lparr>r_Comment := ''the office''\<rparr>)" by code_simp
  ultimately show ?thesis by (simp add: spaced_rule_def)
qed


end
