(* ===== verification/Firewall_Guard.thy ===== *)
theory Firewall_Guard
  imports Firewall_Rule Agent_Command Transition_Systems
begin

text \<open>
  Package \<open>agent/internal/firewall\<close>, \<open>guard.go\<close>: the guard that refuses a change which would take away
  the ports the host is administered through. What it promises is stated against a packet
  filter that decides by the first rule that matches, as \<open>ufw\<close> documents it.
\<close>

section \<open>Status, changes, errors\<close>

record fw_status =
  Available :: bool
  Enabled :: bool
  DefaultIncoming :: go_string
  DefaultOutgoing :: go_string
  Rules_of :: "fw_rule list"

datatype fw_err =
    ErrUnavailable | ErrRefused | ErrWouldLockOut "int list" | ErrNoSuchRule | ErrChangeInFlight
  | ErrNoPendingChange | Invalid verr | Command cmd_err | IOFailed | EmptyBackup

record change =
  Kind :: go_string
  ch_Rule :: fw_rule
  Policy :: go_string
  ch_Direction :: go_string

section \<open>Guarded ports\<close>

definition DefaultGuardedPorts :: "int list" where
  "DefaultGuardedPorts = [22, 80, 443]"

definition containsPort :: "int list \<Rightarrow> int \<Rightarrow> bool" where
  "containsPort ports port \<longleftrightarrow> list_ex (\<lambda>candidate. candidate = port) ports"

definition add_guarded :: "int list \<Rightarrow> go_string \<Rightarrow> int list" where
  "add_guarded ports field =
     (let text = trim_space field in
        if text = [] then ports
        else (case atoi text of
                None \<Rightarrow> ports
              | Some port \<Rightarrow>
                  if port < 1 \<or> port > 65535 then ports
                  else if \<not> containsPort ports port then ports @ [port] else ports))"

definition GuardedPortsFromEnv :: "go_string \<Rightarrow> int list" where
  "GuardedPortsFromEnv value = foldl add_guarded DefaultGuardedPorts (split_on CHR '','' value)"

definition configured_ports :: "int list \<Rightarrow> int list" where
  "configured_ports ports = (if ports = [] then DefaultGuardedPorts else ports)"

section \<open>The guard\<close>

definition covers :: "fw_rule \<Rightarrow> int \<Rightarrow> bool" where
  "covers rule port \<longleftrightarrow>
     r_Direction rule = ''in'' \<and> r_Protocol rule \<noteq> ''udp'' \<and> PortsOverlap (r_Port rule) port"

definition guardRule :: "int list \<Rightarrow> fw_rule \<Rightarrow> fw_err option" where
  "guardRule guarded rule =
     (if r_Action rule = ''allow'' then None
      else if r_Direction rule \<noteq> ''in'' then None
      else (case filter (\<lambda>port. PortsOverlap (r_Port rule) port \<and> r_Protocol rule \<noteq> ''udp'') guarded of
              [] \<Rightarrow> None
            | port # _ \<Rightarrow> Some (ErrWouldLockOut [port])))"

definition opens_port :: "fw_rule \<Rightarrow> int \<Rightarrow> bool" where
  "opens_port rule port \<longleftrightarrow>
     (r_Action rule = ''allow'' \<or> r_Action rule = ''limit'') \<and> covers rule port"

definition unprotected :: "int list \<Rightarrow> fw_rule list \<Rightarrow> int list" where
  "unprotected guarded rules = filter (\<lambda>port. \<not> list_ex (\<lambda>rule. opens_port rule port) rules) guarded"

definition refuse_missing :: "int list \<Rightarrow> fw_rule list \<Rightarrow> fw_err option" where
  "refuse_missing guarded rules =
     (let missing = unprotected guarded rules in
        if missing \<noteq> [] then Some (ErrWouldLockOut missing) else None)"

definition Guard :: "int list \<Rightarrow> change \<Rightarrow> fw_status \<Rightarrow> fw_err option" where
  "Guard guarded c current =
     (if Kind c = ''rule.add'' then guardRule guarded (ch_Rule c)
      else if Kind c = ''default'' then
        (if ch_Direction c = ''in'' \<and> Policy c \<noteq> ''allow'' then refuse_missing guarded (Rules_of current) else None)
      else if Kind c = ''enable'' then
        (if DefaultIncoming current \<noteq> ''allow'' then refuse_missing guarded (Rules_of current) else None)
      else if Kind c = ''rule.delete'' then
        (let remaining = filter (\<lambda>rule. Rule_ID rule \<noteq> Rule_ID (ch_Rule c)) (Rules_of current) in
           if Enabled current \<and> DefaultIncoming current \<noteq> ''allow'' then refuse_missing guarded remaining else None)
      else if Kind c = ''disable'' then None
      else Some (Invalid ErrInvalidFirewallRule))"

section \<open>The configured list\<close>

lemma add_guarded_set:
  "set (add_guarded ports field) = set ports \<union> {p. atoi (trim_space field) = Some p \<and> 1 \<le> p \<and> p \<le> 65535}"
  "distinct ports \<Longrightarrow> distinct (add_guarded ports field)"
  by (auto simp: add_guarded_def Let_def containsPort_def list_ex_iff atoi_def split: option.splits if_splits)

text \<open>Whatever the environment variable holds, the guarded ports are 22, 80, 443 and the well-formed
  entries between 1 and 65535, each once; a malformed entry takes nothing away.\<close>

theorem GuardedPortsFromEnv_set:
  "distinct (GuardedPortsFromEnv value) \<and>
   set (GuardedPortsFromEnv value) = {22, 80, 443} \<union>
     {p. 1 \<le> p \<and> p \<le> 65535 \<and> Some p \<in> (\<lambda>field. atoi (trim_space field)) ` set (split_on CHR '','' value)}"
proof -
  have "distinct ports \<Longrightarrow> distinct (foldl add_guarded ports fs) \<and>
      set (foldl add_guarded ports fs) = set ports \<union>
        {p. 1 \<le> p \<and> p \<le> 65535 \<and> Some p \<in> (\<lambda>field. atoi (trim_space field)) ` set fs}" for ports fs
  proof (induction fs arbitrary: ports)
    case (Cons f fs)
    have "{p. 1 \<le> p \<and> p \<le> 65535 \<and> Some p \<in> (\<lambda>field. atoi (trim_space field)) ` set (f # fs)} =
        {p. atoi (trim_space f) = Some p \<and> 1 \<le> p \<and> p \<le> 65535} \<union>
        {p. 1 \<le> p \<and> p \<le> 65535 \<and> Some p \<in> (\<lambda>field. atoi (trim_space field)) ` set fs}"
      by auto
    then show ?case using Cons.IH [of "add_guarded ports f"] add_guarded_set [of ports f] Cons.prems by auto
  qed simp
  from this [of DefaultGuardedPorts] show ?thesis
    by (simp add: GuardedPortsFromEnv_def DefaultGuardedPorts_def)
qed

section \<open>What the guard promises\<close>

lemma unprotected_Nil: "unprotected guarded rules = [] \<longleftrightarrow> (\<forall>g \<in> set guarded. \<exists>r \<in> set rules. opens_port r g)"
  by (auto simp: unprotected_def filter_empty_conv list_ex_iff)

lemma refuse_missing_None [simp]: "refuse_missing guarded rules = None \<longleftrightarrow> unprotected guarded rules = []"
  by (simp add: refuse_missing_def Let_def)

lemma guardRule_None:
  "guardRule guarded rule = None \<longleftrightarrow> r_Action rule = ''allow'' \<or> (\<forall>g \<in> set guarded. \<not> covers rule g)"
proof (cases "r_Action rule = ''allow'' \<or> r_Direction rule \<noteq> ''in''")
  case False
  let ?hit = "\<lambda>port. PortsOverlap (r_Port rule) port \<and> r_Protocol rule \<noteq> ''udp''"
  have "guardRule guarded rule = None \<longleftrightarrow> filter ?hit guarded = []"
    using False by (simp add: guardRule_def split: list.split)
  then show ?thesis using False by (auto simp: filter_empty_conv covers_def)
qed (auto simp: guardRule_def covers_def)

text \<open>A firewall that filters has, for every guarded port, a rule that opens it, and no rule it has
  could have been refused.\<close>

definition keeps_access :: "int list \<Rightarrow> fw_status \<Rightarrow> bool" where
  "keeps_access guarded st \<longleftrightarrow>
     (Enabled st \<and> DefaultIncoming st \<noteq> ''allow'' \<longrightarrow> unprotected guarded (Rules_of st) = []) \<and>
     (\<forall>r \<in> set (Rules_of st). guardRule guarded r = None)"

text \<open>What \<open>ufw\<close> documents that its commands do to the rules, the switch and the policies.\<close>

definition documented_effect :: "change \<Rightarrow> fw_status \<Rightarrow> fw_status \<Rightarrow> bool" where
  "documented_effect c st st' \<longleftrightarrow>
     (Kind c = ''rule.add'' \<longrightarrow>
        set (Rules_of st') = insert (ch_Rule c) (set (Rules_of st)) \<and>
        Enabled st' = Enabled st \<and> DefaultIncoming st' = DefaultIncoming st) \<and>
     (Kind c = ''rule.delete'' \<longrightarrow>
        set (Rules_of st') = {r \<in> set (Rules_of st). Rule_ID r \<noteq> Rule_ID (ch_Rule c)} \<and>
        Enabled st' = Enabled st \<and> DefaultIncoming st' = DefaultIncoming st) \<and>
     (Kind c = ''enable'' \<longrightarrow>
        set (Rules_of st') = set (Rules_of st) \<and> Enabled st' \<and> DefaultIncoming st' = DefaultIncoming st) \<and>
     (Kind c = ''disable'' \<longrightarrow>
        set (Rules_of st') = set (Rules_of st) \<and> \<not> Enabled st' \<and> DefaultIncoming st' = DefaultIncoming st) \<and>
     (Kind c = ''default'' \<longrightarrow>
        set (Rules_of st') = set (Rules_of st) \<and> Enabled st' = Enabled st \<and>
        DefaultIncoming st' = (if ch_Direction c = ''in'' then Policy c else DefaultIncoming st))"

lemma unprotected_mono: "set rs \<subseteq> set qs \<Longrightarrow> unprotected guarded rs = [] \<Longrightarrow> unprotected guarded qs = []"
  unfolding unprotected_Nil by blast

lemma Guard_keeps_access:
  assumes "Guard guarded c st = None" "documented_effect c st st'" "keeps_access guarded st"
  shows "keeps_access guarded st'"
proof -
  consider "Kind c = ''rule.add''" | "Kind c = ''rule.delete''" | "Kind c = ''enable''" | "Kind c = ''disable''"
    | "Kind c = ''default''"
    using assms(1) by (auto simp: Guard_def split: if_splits)
  then show ?thesis
  proof cases
    case 1
    then show ?thesis
      using assms unprotected_mono [of "Rules_of st" "Rules_of st'" guarded]
      by (auto simp: Guard_def documented_effect_def keeps_access_def)
  next
    case 2
    define remaining where "remaining = filter (\<lambda>r. Rule_ID r \<noteq> Rule_ID (ch_Rule c)) (Rules_of st)"
    have "set remaining = set (Rules_of st')"
      using assms(2) 2 by (auto simp: documented_effect_def remaining_def)
    moreover have "Enabled st \<and> DefaultIncoming st \<noteq> ''allow'' \<longrightarrow> unprotected guarded remaining = []"
      using assms(1) 2 by (auto simp: Guard_def Let_def remaining_def)
    ultimately show ?thesis
      using assms(2,3) 2 unprotected_mono [of remaining "Rules_of st'" guarded]
      by (auto simp: documented_effect_def keeps_access_def)
  next
    case 3
    then show ?thesis
      using assms unprotected_mono [of "Rules_of st" "Rules_of st'" guarded]
      by (auto simp: Guard_def documented_effect_def keeps_access_def split: if_splits)
  next
    case 4
    then show ?thesis using assms by (auto simp: documented_effect_def keeps_access_def)
  next
    case 5
    then show ?thesis
      using assms unprotected_mono [of "Rules_of st" "Rules_of st'" guarded]
      by (auto simp: Guard_def documented_effect_def keeps_access_def split: if_splits)
  qed
qed

subsection \<open>Packets\<close>

text \<open>An incoming TCP connection is decided by the first rule that matches it, and by the policy
  when none does. \<open>from_source s a\<close> says that the address \<open>a\<close> is one of those the source \<open>s\<close> names.\<close>

fun verdict :: "(go_string \<Rightarrow> 'a \<Rightarrow> bool) \<Rightarrow> fw_rule list \<Rightarrow> go_string \<Rightarrow> 'a \<Rightarrow> int \<Rightarrow> go_string" where
  "verdict from_source [] policy a port = policy"
| "verdict from_source (r # rs) policy a port =
     (if covers r port \<and> from_source (source_of r) a then r_Action r
      else verdict from_source rs policy a port)"

definition lets_in :: "(go_string \<Rightarrow> 'a \<Rightarrow> bool) \<Rightarrow> fw_status \<Rightarrow> 'a \<Rightarrow> int \<Rightarrow> bool" where
  "lets_in from_source st a port \<longleftrightarrow>
     Enabled st \<longrightarrow> verdict from_source (Rules_of st) (DefaultIncoming st) a port \<in> {''allow'', ''limit''}"

lemma verdict_of_guarded:
  "(\<forall>r \<in> set rs. guardRule guarded r = None) \<Longrightarrow> g \<in> set guarded \<Longrightarrow>
     verdict from_source rs policy a g =
       (if \<exists>r \<in> set rs. covers r g \<and> from_source (source_of r) a then ''allow'' else policy)"
  by (induction rs) (auto simp: guardRule_None)

inductive fw_step :: "int list \<Rightarrow> fw_status \<Rightarrow> fw_status \<Rightarrow> bool" for guarded where
  "Guard guarded c st = None \<Longrightarrow> documented_effect c st st' \<Longrightarrow> fw_step guarded st st'"

interpretation fw_guard: invariant_system "\<lambda>st. \<not> Enabled st \<and> Rules_of st = []" "fw_step guarded" "keeps_access guarded"
  for guarded
proof
  fix st st' :: fw_status
  show "\<not> Enabled st \<and> Rules_of st = [] \<Longrightarrow> keeps_access guarded st" by (simp add: keeps_access_def)
  assume "keeps_access guarded st" "fw_step guarded st st'"
  then show "keeps_access guarded st'" using Guard_keeps_access by (auto elim: fw_step.cases)
qed

text \<open>C3: start from a firewall that is off and empty and make any sequence of changes the guard
  accepts. For every guarded port there is then a source whose connections are let in, whatever
  the other rules are and in whatever order: either one named by a rule, or everybody when the
  firewall does not filter by default.\<close>

theorem guarded_ports_stay_open:
  assumes "reach (\<lambda>st. \<not> Enabled st \<and> Rules_of st = []) (fw_step guarded) st" "g \<in> set guarded"
  shows "(\<forall>a. lets_in from_source st a g) \<or>
    (\<exists>r \<in> set (Rules_of st). opens_port r g \<and>
       (\<forall>a. from_source (source_of r) a \<longrightarrow> lets_in from_source st a g))"
proof -
  have k: "keeps_access guarded st" using fw_guard.reach_inv [OF assms(1)] .
  note v = verdict_of_guarded [of "Rules_of st" guarded g from_source "DefaultIncoming st", OF _ assms(2)]
  show ?thesis
  proof (cases "Enabled st \<and> DefaultIncoming st \<noteq> ''allow''")
    case True
    then obtain r where r: "r \<in> set (Rules_of st)" "opens_port r g"
      using k assms(2) unprotected_Nil by (auto simp: keeps_access_def)
    have "from_source (source_of r) a \<Longrightarrow> lets_in from_source st a g" for a
      using k r v [of a] by (auto simp: keeps_access_def lets_in_def opens_port_def)
    with r show ?thesis by blast
  next
    case False
    then have "lets_in from_source st a g" for a
      using k v [of a] by (auto simp: keeps_access_def lets_in_def split: if_splits)
    then show ?thesis by blast
  qed
qed

definition narrow_rule :: fw_rule where
  "narrow_rule = ssh_rule\<lparr>r_Source := ''203.0.113.7''\<rparr>"

definition example_firewall :: fw_status where
  "example_firewall = \<lparr>Available = True, Enabled = False, DefaultIncoming = ''deny'', DefaultOutgoing = ''allow'',
     Rules_of = []\<rparr>"

definition example_change :: "go_string \<Rightarrow> change" where
  "example_change kind = \<lparr>Kind = kind, ch_Rule = narrow_rule, Policy = [], ch_Direction = []\<rparr>"

lemma example_reach:
  "reach (\<lambda>st. \<not> Enabled st \<and> Rules_of st = []) (fw_step [22])
     (example_firewall\<lparr>Rules_of := [narrow_rule], Enabled := True\<rparr>)"
proof -
  have a: "fw_step [22] example_firewall (example_firewall\<lparr>Rules_of := [narrow_rule]\<rparr>)"
    by (rule fw_step.intros [of "[22]" "example_change ''rule.add''"])
      (code_simp, simp add: documented_effect_def example_change_def example_firewall_def)
  have b: "fw_step [22] (example_firewall\<lparr>Rules_of := [narrow_rule]\<rparr>)
      (example_firewall\<lparr>Rules_of := [narrow_rule], Enabled := True\<rparr>)"
    by (rule fw_step.intros [of "[22]" "example_change ''enable''"])
      (code_simp, simp add: documented_effect_def example_change_def example_firewall_def)
  have "reach (\<lambda>st. \<not> Enabled st \<and> Rules_of st = []) (fw_step [22]) example_firewall"
    by (rule reach_init) (simp add: example_firewall_def)
  from reach_step [OF reach_step [OF this a] b] show ?thesis .
qed

theorem guarded_ports_stay_open_witness:
  "\<exists>r \<in> {narrow_rule}. \<forall>a. source_of r = a \<longrightarrow>
     lets_in (\<lambda>s a. s = a) (example_firewall\<lparr>Rules_of := [narrow_rule], Enabled := True\<rparr>) a 22"
  using guarded_ports_stay_open [OF example_reach, of 22 "\<lambda>s a. s = a"]
  by (auto simp: example_firewall_def)

text \<open>The guard counts a rule that allows a guarded port from one address as keeping it open: with
  such a rule only, it accepts switching the firewall on, and every other address is shut out.\<close>

theorem guard_counts_narrow_rule:
  "Guard [22] (example_change ''enable'') (example_firewall\<lparr>Rules_of := [narrow_rule]\<rparr>) = None \<and>
   (\<forall>a. a \<noteq> ''203.0.113.7'' \<longrightarrow>
      \<not> lets_in (\<lambda>s a. s = a) (example_firewall\<lparr>Rules_of := [narrow_rule], Enabled := True\<rparr>) a 22)"
proof
  show "Guard [22] (example_change ''enable'') (example_firewall\<lparr>Rules_of := [narrow_rule]\<rparr>) = None" by code_simp
  show "\<forall>a. a \<noteq> ''203.0.113.7'' \<longrightarrow>
      \<not> lets_in (\<lambda>s a. s = a) (example_firewall\<lparr>Rules_of := [narrow_rule], Enabled := True\<rparr>) a 22"
    by (auto simp: lets_in_def example_firewall_def narrow_rule_def source_of_def)
qed

end
