(* ===== verification/Go_Effects.thy ===== *)
theory Go_Effects
  imports Go_Prelude
begin

text \<open>
  Operations of several components in their common shape: they change a state and return a value
  or an error. \<open>try_then\<close> is Go's \<open>if err != nil { return err }\<close> between two of them.
\<close>

type_synonym ('s, 'e, 'a) op = "'s \<Rightarrow> ('e + 'a) \<times> 's"

definition try_then :: "('s, 'e, 'a) op \<Rightarrow> ('a \<Rightarrow> ('s, 'e, 'b) op) \<Rightarrow> ('s, 'e, 'b) op" where
  "try_then m f h = (case m h of (Inl e, h') \<Rightarrow> (Inl e, h') | (Inr a, h') \<Rightarrow> f a h')"

definition fail_with :: "'e \<Rightarrow> ('s, 'e, 'a) op" where
  "fail_with e h = (Inl e, h)"

definition return_op :: "'a \<Rightarrow> ('s, 'e, 'a) op" where
  "return_op a h = (Inr a, h)"

lemmas op_simps = fail_with_def return_op_def

lemma try_then_Inr:
  "try_then m f h = (Inr b, h') \<longleftrightarrow> (\<exists>a h1. m h = (Inr a, h1) \<and> f a h1 = (Inr b, h'))"
  by (auto simp: try_then_def split: prod.splits sum.splits)

text \<open>A relation between the states before and after, kept by both parts of a sequence.\<close>

lemma try_then_rel:
  assumes "try_then m f h = (r, h')" "\<And>r h h'. m h = (r, h') \<Longrightarrow> R h h'"
    "\<And>a r h h'. f a h = (r, h') \<Longrightarrow> R h h'" "\<And>a b c. R a b \<Longrightarrow> R b c \<Longrightarrow> R a c"
  shows "R h h'"
proof -
  obtain x h1 where x: "m h = (x, h1)" by (cases "m h")
  then have k: "R h h1" using assms(2) by blast
  show ?thesis
  proof (cases x)
    case (Inr a)
    then have "f a h1 = (r, h')" using assms(1) x by (simp add: try_then_def)
    then show ?thesis using assms(3,4) k by blast
  qed (use assms(1) x k in \<open>simp add: try_then_def\<close>)
qed

text \<open>
  What an operation leaves alone, as a relation between the states before and after, in a form that
  is read off the text of the operation: the relation is reflexive and transitive, and the rules
  follow the way operations are put together.
\<close>

definition keeps :: "('s \<Rightarrow> 's \<Rightarrow> bool) \<Rightarrow> ('s, 'e, 'a) op \<Rightarrow> bool" where
  "keeps R m \<longleftrightarrow> (\<forall>s r s'. m s = (r, s') \<longrightarrow> R s s')"

lemma keepsI: "(\<And>s r s'. m s = (r, s') \<Longrightarrow> R s s') \<Longrightarrow> keeps R m"
  by (auto simp: keeps_def)

lemma keepsD: "keeps R m \<Longrightarrow> m s = (r, s') \<Longrightarrow> R s s'"
  by (auto simp: keeps_def)

locale kept_relation =
  fixes R :: "'s \<Rightarrow> 's \<Rightarrow> bool"
  assumes refl: "R s s"
    and trans: "R s t \<Longrightarrow> R t u \<Longrightarrow> R s u"
begin

lemma keeps_return: "keeps R (return_op a)"
  by (simp add: keeps_def return_op_def refl)

lemma keeps_fail: "keeps R (fail_with e)"
  by (simp add: keeps_def fail_with_def refl)

lemma keeps_then: "keeps R m \<Longrightarrow> (\<And>a. keeps R (f a)) \<Longrightarrow> keeps R (try_then m f)"
  unfolding keeps_def using try_then_rel [of m f _ _ _ R] trans by blast

lemma keeps_if: "keeps R m \<Longrightarrow> keeps R n \<Longrightarrow> keeps R (if b then m else n)"
  by simp

text \<open>The same from one state, where the second part is known to start from a success of the first.\<close>

lemma then_from:
  assumes "try_then m f s = (r, t)" "\<And>x q. m s = (x, q) \<Longrightarrow> R s q"
    "\<And>a q x u. m s = (Inr a, q) \<Longrightarrow> f a q = (x, u) \<Longrightarrow> R q u"
  shows "R s t"
proof -
  obtain x q where x: "m s = (x, q)" by (cases "m s")
  show ?thesis
  proof (cases x)
    case (Inr a)
    then have "f a q = (r, t)" using assms(1) x by (simp add: try_then_def)
    with Inr x show ?thesis using assms(2) [OF x] assms(3) [of a q r t] trans by simp
  qed (use assms(1,2) x in \<open>simp add: try_then_def\<close>)
qed

lemmas keeps_rules = keeps_return keeps_fail keeps_then keeps_if

end

end
