(* ===== verification/Firewall_Host.thy ===== *)
theory Firewall_Host
  imports Firewall_Guard Go_Time Go_Effects
begin

text \<open>
  Package \<open>agent/internal/firewall\<close>, \<open>firewall.go\<close> and \<open>backup.go\<close>: reading the firewall through \<open>ufw\<close>,
  the commands that change it, and the backups of its files.

  The host is a record: the files of \<open>/etc/ufw\<close>, the backup directories, the marker of a pending
  change, and whatever else \<open>ufw\<close> acts on. \<open>ufw\<close> itself is the process \<open>Run\<close> of package \<open>command\<close>
  executes, so it is an argument. Which system calls fail is an argument too; a file whose writing
  failed is taken as empty. File modes, and \<open>status.json\<close> beside a backup, are left out, and
  so are the messages that go with an error.
\<close>

section \<open>The host\<close>

record pending =
  pd_ID :: go_string
  pd_Kind :: go_string
  pd_Rule :: fw_rule
  pd_Policy :: go_string
  pd_Backup :: go_string
  pd_Deadline :: int
  pd_StartedBy :: go_string

datatype marker_file = NoMarker | Marker pending | BrokenMarker

type_synonym files = "go_string \<rightharpoonup> go_string"

record 'k fw_host =
  ufw_files :: files
  backups :: "(go_string \<times> files) list"
  marker :: marker_file
  kernel :: 'k

datatype fw_call =
    MkStateDir | MkBackupDir | ReadState | WriteBackup | ReadBackups | RemoveBackup | ReadBackup
  | WriteRestored | ReadConf | OpenMarker | WriteMarker | SyncMarker | ReadMarker | RemoveMarker

record fw_env =
  fw_fails :: "fw_call \<Rightarrow> go_string \<Rightarrow> bool"
  t_check :: int
  t_backup :: int
  t_id :: int
  t_deadline :: int

record 'k fw_provider =
  fw_available :: bool
  ufw :: "go_string list \<Rightarrow> 'k fw_host \<Rightarrow> (run_result \<times> cmd_err option) \<times> 'k fw_host"
  fw_guarded :: "int list"
  stateDir :: go_string

definition NewProvider :: "cmd_runner \<Rightarrow> (go_string \<rightharpoonup> bool \<times> bool) \<Rightarrow> (go_string \<Rightarrow> bool) \<Rightarrow>
    'k fw_host exec \<Rightarrow> go_string \<Rightarrow> int list \<Rightarrow> 'k fw_provider" where
  "NewProvider r modes opens exec dir ports =
     \<lparr>fw_available = cmd_Available r modes ''ufw'',
      ufw = (\<lambda>args h. Run r modes opens exec ''ufw'' args h),
      fw_guarded = configured_ports ports,
      stateDir = (if dir = [] then ''/var/lib/jothost/firewall'' else dir)\<rparr>"

type_synonym ('k, 'a) fw_op = "('k fw_host, fw_err, 'a) op"

section \<open>firewall.go\<close>

definition err_op :: "verr option \<Rightarrow> ('k, unit) fw_op" where
  "err_op err = (case err of Some e \<Rightarrow> fail_with (Invalid e) | None \<Rightarrow> return_op ())"

definition ufw_run :: "'k fw_provider \<Rightarrow> go_string list \<Rightarrow> ('k, unit) fw_op" where
  "ufw_run p args h =
     (if \<not> fw_available p then (Inl ErrUnavailable, h)
      else (case ufw p args h of
              ((_, Some e), h') \<Rightarrow> (Inl (Command e), h')
            | ((result, None), h') \<Rightarrow>
                if \<not> Succeeded result then (Inl ErrRefused, h')
                else if contains (Stdout result) ''ERROR:'' then (Inl ErrRefused, h')
                else (Inr (), h')))"

definition addRule :: "'k fw_provider \<Rightarrow> fw_rule \<Rightarrow> ('k, unit) fw_op" where
  "addRule p rule = try_then (err_op (Rule_Validate rule)) (\<lambda>_. ufw_run p (Rule_Args rule []))"

definition deleteRule :: "'k fw_provider \<Rightarrow> fw_rule \<Rightarrow> ('k, unit) fw_op" where
  "deleteRule p rule = try_then (err_op (Rule_Validate rule)) (\<lambda>_. ufw_run p (Rule_Args rule ''delete''))"

definition setDefault :: "'k fw_provider \<Rightarrow> go_string \<Rightarrow> go_string \<Rightarrow> ('k, unit) fw_op" where
  "setDefault p direction policy =
     (if policy \<notin> {''allow'', ''deny'', ''reject''} then fail_with (Invalid ErrInvalidFirewallRule)
      else try_then (err_op (FirewallDirection direction))
        (\<lambda>_. ufw_run p [''default'', policy, if direction = ''out'' then ''outgoing'' else ''incoming'']))"

definition enable :: "'k fw_provider \<Rightarrow> ('k, unit) fw_op" where
  "enable p = ufw_run p [''--force'', ''enable'']"

definition disable :: "'k fw_provider \<Rightarrow> ('k, unit) fw_op" where
  "disable p = ufw_run p [''--force'', ''disable'']"

definition paren_char :: "char \<Rightarrow> bool" where
  "paren_char c \<longleftrightarrow> c = CHR ''('' \<or> c = CHR '')''"

definition default_part :: "go_string \<times> go_string \<Rightarrow> go_string \<Rightarrow> go_string \<times> go_string" where
  "default_part policies part =
     (let (policy, scope, found) = cut CHR '' '' (trim_space part); (incoming, outgoing) = policies in
        if \<not> found then policies
        else if trim_both paren_char scope = ''incoming'' then (policy, outgoing)
        else if trim_both paren_char scope = ''outgoing'' then (incoming, policy)
        else policies)"

definition parseDefaults :: "go_string \<Rightarrow> go_string \<times> go_string" where
  "parseDefaults line = foldl default_part ([], []) (split_on CHR '','' (trim_prefix line ''Default:''))"

definition status_line :: "fw_status \<Rightarrow> go_string \<Rightarrow> fw_status" where
  "status_line status line =
     (let trimmed = trim_space line in
        if has_prefix trimmed ''Status:'' then
          status\<lparr>Enabled := equal_fold (trim_space (trim_prefix trimmed ''Status:'')) ''active''\<rparr>
        else if has_prefix trimmed ''Default:'' then
          (let (incoming, outgoing) = parseDefaults trimmed in
             status\<lparr>DefaultIncoming := incoming, DefaultOutgoing := outgoing\<rparr>)
        else status)"

text \<open>The rules of a listing: those that parse, without the IPv6 halves and without duplicates.\<close>

fun collect_rules :: "(go_string \<Rightarrow> fw_rule option) \<Rightarrow> go_string list \<Rightarrow> go_string list \<Rightarrow> fw_rule list" where
  "collect_rules parse [] seen = []"
| "collect_rules parse (line # lines) seen =
     (case parse line of
        None \<Rightarrow> collect_rules parse lines seen
      | Some rule \<Rightarrow>
          if r_V6 rule then collect_rules parse lines seen
          else if Rule_ID rule \<in> set seen then collect_rules parse lines seen
          else rule # collect_rules parse lines (Rule_ID rule # seen))"

definition Rules :: "'k fw_provider \<Rightarrow> bool \<Rightarrow> ('k, fw_rule list) fw_op" where
  "Rules p enabled h =
     (if \<not> fw_available p then (Inl ErrUnavailable, h)
      else
        let args = (if \<not> enabled then [''show'', ''added''] else [''status'', ''numbered'']);
            parse = (if \<not> enabled then parseAddedLine else parseStatusLine)
        in (case ufw p args h of
              ((_, Some e), h') \<Rightarrow> (Inl (Command e), h')
            | ((result, None), h') \<Rightarrow>
                if \<not> Succeeded result then (Inl ErrUnavailable, h')
                else (Inr (collect_rules parse (split_on newline (Stdout result)) []), h')))"

definition no_status :: fw_status where
  "no_status = \<lparr>Available = False, Enabled = False, DefaultIncoming = [], DefaultOutgoing = [], Rules_of = []\<rparr>"

definition Status :: "'k fw_provider \<Rightarrow> ('k, fw_status) fw_op" where
  "Status p h =
     (if \<not> fw_available p then (Inr no_status, h)
      else (case ufw p [''status'', ''verbose''] h of
              ((_, Some e), h') \<Rightarrow> (Inl (Command e), h')
            | ((result, None), h') \<Rightarrow>
                if \<not> Succeeded result then (Inr no_status, h')
                else
                  let status = foldl status_line (no_status\<lparr>Available := True\<rparr>) (split_on newline (Stdout result))
                  in try_then (Rules p (Enabled status)) (\<lambda>rules. return_op (status\<lparr>Rules_of := rules\<rparr>)) h'))"

section \<open>backup.go\<close>

definition stateFiles :: "go_string list" where
  "stateFiles = [''user.rules'', ''user6.rules'', ''ufw.conf'']"

text \<open>\<open>time.Now().UTC().Format("20060102T150405.000000000")\<close> of an instant in nanoseconds.\<close>

definition stamp :: "int \<Rightarrow> go_string" where
  "stamp ns =
     (let t = ns div 1000000000; c = date_of t; two = (\<lambda>n. pad_left 2 (itoa n))
      in pad_left 4 (itoa (cyear c)) @ two (cmonth c) @ two (cday c) @ ''T'' @
         two (hour_of t) @ two (minute_of t) @ two (second_of t) @ ''.'' @ pad_left 9 (itoa (ns mod 1000000000)))"

definition backups_dir :: "'k fw_provider \<Rightarrow> go_string" where
  "backups_dir p = path_join [stateDir p, ''backups'']"

definition backup_path :: "'k fw_provider \<Rightarrow> go_string \<Rightarrow> go_string" where
  "backup_path p name = path_join [stateDir p, ''backups'', name]"

definition maxBackups :: nat where
  "maxBackups = 20"

definition pruneBackups :: "'k fw_provider \<Rightarrow> fw_env \<Rightarrow> 'k fw_host \<Rightarrow> 'k fw_host" where
  "pruneBackups p env h =
     (let names = map fst (backups h) in
        if fw_fails env ReadBackups (backups_dir p) then h
        else if length names \<le> maxBackups then h
        else
          let oldest = filter (\<lambda>name. \<not> fw_fails env RemoveBackup name)
                (take (length names - maxBackups) (sort names))
          in h\<lparr>backups := filter (\<lambda>(name, _). name \<notin> set oldest) (backups h)\<rparr>)"

text \<open>The loop that copies the state files, with the copies made so far.\<close>

fun copy_state :: "fw_env \<Rightarrow> files \<Rightarrow> go_string list \<Rightarrow> files \<Rightarrow> bool \<times> files" where
  "copy_state env source [] copied = (True, copied)"
| "copy_state env source (name # names) copied =
     (if fw_fails env ReadState name then (False, copied)
      else (case source name of
              None \<Rightarrow> copy_state env source names copied
            | Some data \<Rightarrow>
                if fw_fails env WriteBackup name then (False, copied(name \<mapsto> []))
                else copy_state env source names (copied(name \<mapsto> data))))"

definition backup :: "'k fw_provider \<Rightarrow> fw_env \<Rightarrow> ('k, go_string) fw_op" where
  "backup p env h =
     (let name = stamp (t_backup env) in
        if fw_fails env MkStateDir (stateDir p) then (Inl IOFailed, h)
        else if fw_fails env MkBackupDir name then (Inl IOFailed, h)
        else
          let before = (case map_of (backups h) name of None \<Rightarrow> Map.empty | Some existing \<Rightarrow> existing);
              (ok, copied) = copy_state env (ufw_files h) stateFiles before;
              h' = h\<lparr>backups := (name, copied) # filter (\<lambda>(other, _). other \<noteq> name) (backups h)\<rparr>
          in if \<not> ok then (Inl IOFailed, h')
             else if list_all (\<lambda>file. ufw_files h file = None) stateFiles then (Inl ErrUnavailable, h')
             else (Inr (backup_path p name), pruneBackups p env h'))"

definition enabled_line :: "go_string \<Rightarrow> bool option" where
  "enabled_line line =
     (let (key, value, found) = cut CHR ''='' (trim_space line) in
        if \<not> found \<or> trim_space key \<noteq> ''ENABLED'' then None
        else Some (equal_fold (trim_space value) ''yes''))"

fun first_enabled :: "go_string list \<Rightarrow> bool" where
  "first_enabled [] = False"
| "first_enabled (line # lines) =
     (case enabled_line line of Some on \<Rightarrow> on | None \<Rightarrow> first_enabled lines)"

definition enabledInConfig :: "fw_env \<Rightarrow> ('k, bool) fw_op" where
  "enabledInConfig env h =
     (if fw_fails env ReadConf ''ufw.conf'' then (Inl IOFailed, h)
      else (case ufw_files h ''ufw.conf'' of
              None \<Rightarrow> (Inr False, h)
            | Some data \<Rightarrow> (Inr (first_enabled (split_on newline data)), h)))"

definition reload :: "'k fw_provider \<Rightarrow> fw_env \<Rightarrow> ('k, unit) fw_op" where
  "reload p env = try_then (enabledInConfig env)
     (\<lambda>enabled. if \<not> enabled then disable p else try_then (disable p) (\<lambda>_. enable p))"

text \<open>The files of the backup directory at a path; a directory that is not there reads as one
  without files.\<close>

definition backup_files :: "'k fw_provider \<Rightarrow> go_string \<Rightarrow> 'k fw_host \<Rightarrow> files" where
  "backup_files p dir h =
     (case map_of (map (\<lambda>(name, files). (backup_path p name, files)) (backups h)) dir of
        None \<Rightarrow> Map.empty | Some files \<Rightarrow> files)"

fun copy_back :: "fw_env \<Rightarrow> files \<Rightarrow> go_string list \<Rightarrow> files \<Rightarrow> bool \<times> files" where
  "copy_back env saved [] current = (True, current)"
| "copy_back env saved (name # names) current =
     (if fw_fails env ReadBackup name then (False, current)
      else (case saved name of
              None \<Rightarrow> copy_back env saved names current
            | Some data \<Rightarrow>
                if fw_fails env WriteRestored name then (False, current(name \<mapsto> []))
                else copy_back env saved names (current(name \<mapsto> data))))"

definition restore :: "'k fw_provider \<Rightarrow> fw_env \<Rightarrow> go_string \<Rightarrow> ('k, unit) fw_op" where
  "restore p env dir h =
     (if dir = [] then (Inl ErrNoPendingChange, h)
      else if \<not> has_prefix (path_clean dir) (backups_dir p) then (Inl IOFailed, h)
      else
        let saved = backup_files p (path_clean dir) h;
            (ok, current) = copy_back env saved stateFiles (ufw_files h);
            h' = h\<lparr>ufw_files := current\<rparr>
        in if \<not> ok then (Inl IOFailed, h')
           else if list_all (\<lambda>file. saved file = None) stateFiles then (Inl EmptyBackup, h')
           else reload p env h')"

definition Backups :: "'k fw_provider \<Rightarrow> fw_env \<Rightarrow> 'k fw_host \<Rightarrow> go_string list" where
  "Backups p env h =
     (if fw_fails env ReadBackups (backups_dir p) then [] else rev (sort (map fst (backups h))))"

section \<open>Listings\<close>

lemma collect_rules_props:
  assumes valid: "\<forall>l r. parse l = Some r \<longrightarrow> Rule_Validate r = None"
  shows "(\<forall>r \<in> set (collect_rules parse lines seen). Rule_Validate r = None \<and> \<not> r_V6 r \<and> Rule_ID r \<notin> set seen) \<and>
    distinct (map Rule_ID (collect_rules parse lines seen))"
proof (induction lines arbitrary: seen)
  case (Cons line lines)
  show ?case
  proof (cases "parse line")
    case None
    then show ?thesis using Cons by simp
  next
    case (Some r)
    show ?thesis
    proof (cases "r_V6 r \<or> Rule_ID r \<in> set seen")
      case True
      then show ?thesis using Cons Some by auto
    next
      case False
      then have c: "collect_rules parse (line # lines) seen = r # collect_rules parse lines (Rule_ID r # seen)"
        using Some by simp
      have "Rule_Validate r = None" using valid Some by blast
      then show ?thesis unfolding c using Cons [of "Rule_ID r # seen"] False by auto
    qed
  qed
qed simp

text \<open>Whatever \<open>ufw\<close> prints, the rules a listing gives are valid, so that each can be deleted again
  by its specification, none is the IPv6 half of another, and no two have the same identifier.\<close>

theorem Rules_are_manageable:
  assumes "Rules p enabled h = (Inr rules, h')"
  shows "(\<forall>r \<in> set rules. Rule_Validate r = None \<and> \<not> r_V6 r) \<and> distinct (map Rule_ID rules)"
proof -
  define parse where "parse = (if \<not> enabled then parseAddedLine else parseStatusLine)"
  have v: "\<forall>l r. parse l = Some r \<longrightarrow> Rule_Validate r = None"
    using parseAddedLine_valid parseStatusLine_valid by (auto simp: parse_def split: if_splits)
  obtain lines where "rules = collect_rules parse lines []"
    using assms by (auto simp: Rules_def Let_def parse_def split: if_splits prod.splits option.splits)
  with collect_rules_props [OF v, of lines "[]"] show ?thesis by blast
qed

definition listing :: go_string where
  "listing = ''[ 1] 22/tcp ALLOW IN Anywhere # office'' @ [newline] @ ''[ 2] 22/tcp (v6) ALLOW IN Anywhere (v6)''"

definition listing_ufw :: "unit fw_provider" where
  "listing_ufw = \<lparr>fw_available = True,
     ufw = (\<lambda>args h. ((\<lparr>ExitCode = 0, Stdout = listing, Stderr = [], TimedOut = False\<rparr>, None), h)),
     fw_guarded = [22], stateDir = ''/s''\<rparr>"

definition empty_host :: "unit fw_host" where
  "empty_host = \<lparr>ufw_files = Map.empty, backups = [], marker = NoMarker, kernel = ()\<rparr>"

theorem Rules_are_manageable_witness:
  "\<exists>r. fst (Rules listing_ufw True empty_host) = Inr [r] \<and> r_Port r = ''22'' \<and> r_Comment r = ''office'' \<and>
     Rule_Validate r = None \<and> \<not> r_V6 r"
proof -
  let ?r = "ssh_rule\<lparr>r_Comment := ''office''\<rparr>"
  have lines: "split_on newline listing =
      [''[ 1] 22/tcp ALLOW IN Anywhere # office'', ''[ 2] 22/tcp (v6) ALLOW IN Anywhere (v6)'']"
    by (simp add: listing_def)
  have one: "parseStatusLine ''[ 1] 22/tcp ALLOW IN Anywhere # office'' = Some ?r" by code_simp
  have two: "parseStatusLine ''[ 2] 22/tcp (v6) ALLOW IN Anywhere (v6)'' =
      Some (ssh_rule\<lparr>r_Comment := [], r_V6 := True\<rparr>)" by code_simp
  have "\<not> r_V6 ?r" by (simp add: ssh_rule_def blank_rule_def)
  then have a: "fst (Rules listing_ufw True empty_host) = Inr [?r]"
    by (simp add: Rules_def listing_ufw_def Succeeded_def lines one two)
  then have "Rules listing_ufw True empty_host = (Inr [?r], snd (Rules listing_ufw True empty_host))"
    by (metis prod.collapse)
  from Rules_are_manageable [OF this] a show ?thesis
    by (intro exI [of _ ?r]) (simp add: ssh_rule_def)
qed

end
