(* ===== verification/Firewall_Change.thy ===== *)
theory Firewall_Change
  imports Firewall_Host
begin

text \<open>
  Package \<open>agent/internal/firewall\<close>, \<open>change.go\<close>: a change is applied provisionally, with a backup, a
  marker on disk and a timer; it is committed by a confirmation inside its window and undone by
  the timer, by a rollback, or by the next start of the Agent.

  The Agent's memory is the pending change, the timers that are armed (by change identifier and
  deadline) and the one the Agent would stop. Operations run one at a time, under the lock. The
  clock readings of an operation are in its environment, in nanoseconds.
\<close>

record 'k fw_state =
  fs_host :: "'k fw_host"
  fs_pending :: "pending option"
  fs_armed :: "(go_string \<times> int) list"
  fs_timer :: "(go_string \<times> int) option"

definition DefaultWindow :: int where
  "DefaultWindow = 60 * 1000000000"

definition MaxWindow :: int where
  "MaxWindow = 600 * 1000000000"

definition Expired :: "pending \<Rightarrow> int \<Rightarrow> bool" where
  "Expired q now \<longleftrightarrow> now > pd_Deadline q"

definition newChangeID :: "fw_env \<Rightarrow> go_string" where
  "newChangeID env = ''fwc_'' @ stamp (t_id env)"

definition run3 :: "'k fw_provider \<Rightarrow> change \<Rightarrow> ('k, unit) fw_op" where
  "run3 p c =
     (if Kind c = ''rule.add'' then addRule p (ch_Rule c)
      else if Kind c = ''rule.delete'' then deleteRule p (ch_Rule c)
      else if Kind c = ''enable'' then enable p
      else if Kind c = ''disable'' then disable p
      else if Kind c = ''default'' then setDefault p (ch_Direction c) (Policy c)
      else fail_with (Invalid ErrInvalidFirewallRule))"

definition verify :: "'k fw_provider \<Rightarrow> ('k, unit) fw_op" where
  "verify p = try_then (Status p)
     (\<lambda>status.
        if \<not> Available status then fail_with ErrUnavailable
        else if \<not> Enabled status then return_op ()
        else if DefaultIncoming status = ''allow'' then return_op ()
        else (case refuse_missing (fw_guarded p) (Rules_of status) of
                Some e \<Rightarrow> fail_with e
              | None \<Rightarrow> return_op ()))"

section \<open>The marker\<close>

definition writePending :: "'k fw_provider \<Rightarrow> fw_env \<Rightarrow> pending \<Rightarrow> ('k, unit) fw_op" where
  "writePending p env q h =
     (if fw_fails env MkStateDir (stateDir p) then (Inl IOFailed, h)
      else if fw_fails env OpenMarker [] then (Inl IOFailed, h)
      else if fw_fails env WriteMarker [] then (Inl IOFailed, h\<lparr>marker := BrokenMarker\<rparr>)
      else if fw_fails env SyncMarker [] then (Inl IOFailed, h\<lparr>marker := Marker q\<rparr>)
      else (Inr (), h\<lparr>marker := Marker q\<rparr>))"

definition readPending :: "fw_env \<Rightarrow> ('k, pending option) fw_op" where
  "readPending env h =
     (if fw_fails env ReadMarker [] then (Inl IOFailed, h)
      else (case marker h of
              NoMarker \<Rightarrow> (Inr None, h)
            | Marker q \<Rightarrow> (Inr (Some q), h)
            | BrokenMarker \<Rightarrow> (Inl IOFailed, h)))"

definition clearPending :: "fw_env \<Rightarrow> ('k, unit) fw_op" where
  "clearPending env h =
     (if marker h = NoMarker then (Inr (), h)
      else if fw_fails env RemoveMarker [] then (Inl IOFailed, h)
      else (Inr (), h\<lparr>marker := NoMarker\<rparr>))"

section \<open>The protocol\<close>

text \<open>An error of the second half of a change puts the backup back; the error is the one reported,
  whether or not that worked.\<close>

definition undo_on_error :: "'k fw_provider \<Rightarrow> fw_env \<Rightarrow> go_string \<Rightarrow> ('k, 'a) fw_op \<Rightarrow> ('k, 'a) fw_op" where
  "undo_on_error p env dir m h =
     (case m h of
        (Inl e, h') \<Rightarrow> (Inl e, snd (restore p env dir h'))
      | (Inr a, h') \<Rightarrow> (Inr a, h'))"

definition window_of :: "int \<Rightarrow> int" where
  "window_of window =
     (let w = (if window \<le> 0 then DefaultWindow else window) in if w > MaxWindow then MaxWindow else w)"

definition pending_of :: "fw_env \<Rightarrow> change \<Rightarrow> go_string \<Rightarrow> int \<Rightarrow> go_string \<Rightarrow> pending" where
  "pending_of env c dir window req =
     \<lparr>pd_ID = newChangeID env, pd_Kind = Kind c, pd_Rule = ch_Rule c, pd_Policy = Policy c, pd_Backup = dir,
      pd_Deadline = t_deadline env + window, pd_StartedBy = req\<rparr>"

text \<open>Steps 1 to 6 of a change on the host.\<close>

definition provisional :: "'k fw_provider \<Rightarrow> fw_env \<Rightarrow> change \<Rightarrow> int \<Rightarrow> go_string \<Rightarrow> ('k, pending) fw_op" where
  "provisional p env c window req = try_then (Status p)
     (\<lambda>current.
        if \<not> Available current then fail_with ErrUnavailable
        else (case Guard (fw_guarded p) c current of
                Some e \<Rightarrow> fail_with e
              | None \<Rightarrow>
                  try_then (backup p env) (\<lambda>dir.
                  try_then (run3 p c) (\<lambda>_.
                  try_then (undo_on_error p env dir (verify p)) (\<lambda>_.
                    let q = pending_of env c dir window req in
                      try_then (undo_on_error p env dir (writePending p env q)) (\<lambda>_. return_op q))))))"

definition arm :: "pending \<Rightarrow> 'k fw_state \<Rightarrow> 'k fw_state" where
  "arm q s = s\<lparr>fs_pending := Some q, fs_armed := (pd_ID q, pd_Deadline q) # fs_armed s,
     fs_timer := Some (pd_ID q, pd_Deadline q)\<rparr>"

definition Apply_change :: "'k fw_provider \<Rightarrow> fw_env \<Rightarrow> change \<Rightarrow> int \<Rightarrow> go_string \<Rightarrow> 'k fw_state \<Rightarrow>
    (fw_err + pending) \<times> 'k fw_state" where
  "Apply_change p env c window req s =
     (if \<not> fw_available p then (Inl ErrUnavailable, s)
      else if (case fs_pending s of None \<Rightarrow> False | Some q \<Rightarrow> \<not> Expired q (t_check env)) then (Inl ErrChangeInFlight, s)
      else (case provisional p env c (window_of window) req (fs_host s) of
              (Inl e, h) \<Rightarrow> (Inl e, s\<lparr>fs_host := h\<rparr>)
            | (Inr q, h) \<Rightarrow> (Inr q, arm q (s\<lparr>fs_host := h\<rparr>))))"

definition disarm :: "fw_env \<Rightarrow> 'k fw_state \<Rightarrow> 'k fw_state" where
  "disarm env s =
     s\<lparr>fs_armed := (case fs_timer s of None \<Rightarrow> fs_armed s | Some t \<Rightarrow> remove1 t (fs_armed s)),
       fs_timer := None, fs_pending := None, fs_host := snd (clearPending env (fs_host s))\<rparr>"

definition Confirm :: "fw_env \<Rightarrow> go_string \<Rightarrow> 'k fw_state \<Rightarrow> (fw_err + pending) \<times> 'k fw_state" where
  "Confirm env cid s =
     (case fs_pending s of
        None \<Rightarrow> (Inl ErrNoPendingChange, s)
      | Some q \<Rightarrow>
          if pd_ID q \<noteq> cid then (Inl ErrNoPendingChange, s)
          else if Expired q (t_check env) then (Inl ErrNoPendingChange, s)
          else (Inr q, disarm env s))"

definition Rollback :: "'k fw_provider \<Rightarrow> fw_env \<Rightarrow> go_string \<Rightarrow> 'k fw_state \<Rightarrow> (fw_err + pending) \<times> 'k fw_state" where
  "Rollback p env cid s =
     (case fs_pending s of
        None \<Rightarrow> (Inl ErrNoPendingChange, s)
      | Some q \<Rightarrow>
          if cid \<noteq> [] \<and> pd_ID q \<noteq> cid then (Inl ErrNoPendingChange, s)
          else (case restore p env (pd_Backup q) (fs_host s) of
                  (Inl e, h) \<Rightarrow> (Inl e, s\<lparr>fs_host := h\<rparr>)
                | (Inr _, h) \<Rightarrow> (Inr q, disarm env (s\<lparr>fs_host := h\<rparr>))))"

definition expire :: "'k fw_provider \<Rightarrow> fw_env \<Rightarrow> go_string \<Rightarrow> 'k fw_state \<Rightarrow> 'k fw_state" where
  "expire p env cid s =
     (case fs_pending s of
        None \<Rightarrow> s
      | Some q \<Rightarrow>
          if pd_ID q \<noteq> cid then s
          else (case restore p env (pd_Backup q) (fs_host s) of
                  (Inl e, h) \<Rightarrow> s\<lparr>fs_host := h\<rparr>
                | (Inr _, h) \<Rightarrow> disarm env (s\<lparr>fs_host := h\<rparr>)))"

text \<open>\<open>RecoverPending\<close>, after a start of the Agent with an empty memory.\<close>

definition RecoverPending :: "'k fw_provider \<Rightarrow> fw_env \<Rightarrow> 'k fw_state \<Rightarrow> fw_err option \<times> 'k fw_state" where
  "RecoverPending p env s =
     (if \<not> fw_available p then (None, s)
      else (case readPending env (fs_host s) of
              (Inl e, h) \<Rightarrow> (Some e, s\<lparr>fs_host := h\<rparr>)
            | (Inr None, h) \<Rightarrow> (None, s\<lparr>fs_host := h\<rparr>)
            | (Inr (Some q), h) \<Rightarrow>
                if Expired q (t_check env) then
                  (case try_then (restore p env (pd_Backup q)) (\<lambda>_. clearPending env) h of
                     (Inl e, h') \<Rightarrow> (Some e, s\<lparr>fs_host := h'\<rparr>)
                   | (Inr _, h') \<Rightarrow> (None, s\<lparr>fs_host := h'\<rparr>))
                else (None, arm q (s\<lparr>fs_host := h\<rparr>))))"

definition restart :: "'k fw_state \<Rightarrow> 'k fw_state" where
  "restart s = s\<lparr>fs_pending := None, fs_armed := [], fs_timer := None\<rparr>"

section \<open>What is relied on about ufw\<close>

definition rule_files :: "go_string set" where
  "rule_files = {''user.rules'', ''user6.rules''}"

text \<open>\<open>ufw\<close> works in its own directory; its queries, and switching it on or off, leave the rules
  as they are.\<close>

definition ufw_documented :: "'k fw_provider \<Rightarrow> bool" where
  "ufw_documented p \<longleftrightarrow>
     (\<forall>args h. backups (snd (ufw p args h)) = backups h \<and> marker (snd (ufw p args h)) = marker h \<and>
        (args \<in> {[''status'', ''verbose''], [''status'', ''numbered''], [''show'', ''added''],
            [''--force'', ''enable''], [''--force'', ''disable'']} \<longrightarrow>
         (\<forall>f \<in> rule_files. ufw_files (snd (ufw p args h)) f = ufw_files h f)))"

definition ufw_switches :: "'k fw_provider \<Rightarrow> bool" where
  "ufw_switches p \<longleftrightarrow>
     fw_available p \<and>
     (\<forall>h. fst (ufw_run p [''--force'', ''enable''] h) = Inr () \<and>
          fst (ufw_run p [''--force'', ''disable''] h) = Inr ())"

definition no_failures :: "fw_env \<Rightarrow> bool" where
  "no_failures env \<longleftrightarrow> (\<forall>call name. \<not> fw_fails env call name)"

text \<open>What an operation that is neither a change of the rules nor of the backups keeps.\<close>

definition keeps_files :: "'k fw_host \<Rightarrow> 'k fw_host \<Rightarrow> bool" where
  "keeps_files h h' \<longleftrightarrow>
     backups h' = backups h \<and> marker h' = marker h \<and> (\<forall>f \<in> rule_files. ufw_files h' f = ufw_files h f)"

lemma keeps_files_refl [simp]: "keeps_files h h"
  by (simp add: keeps_files_def)

lemma keeps_files_trans: "keeps_files h h1 \<Longrightarrow> keeps_files h1 h2 \<Longrightarrow> keeps_files h h2"
  by (simp add: keeps_files_def)

lemma ufw_call_keeps:
  assumes "ufw_documented p" "ufw p args h = (r, h')"
    "args \<in> {[''status'', ''verbose''], [''status'', ''numbered''], [''show'', ''added''],
       [''--force'', ''enable''], [''--force'', ''disable'']}"
  shows "keeps_files h h'"
proof -
  have "snd (ufw p args h) = h'" using assms(2) by simp
  then show ?thesis using assms(1,3) unfolding ufw_documented_def keeps_files_def by blast
qed

lemma ufw_run_keeps:
  assumes "ufw_documented p" "args \<in> {[''--force'', ''enable''], [''--force'', ''disable'']}"
  shows "keeps_files h (snd (ufw_run p args h))"
proof -
  obtain res err h' where u: "ufw p args h = ((res, err), h')" by (metis prod.collapse)
  then have "keeps_files h h'" using ufw_call_keeps [OF assms(1) u] assms(2) by blast
  then show ?thesis by (simp add: ufw_run_def u split: option.split)
qed

lemma toggle_keeps:
  "ufw_documented p \<Longrightarrow> keeps_files h (snd (enable p h))"
  "ufw_documented p \<Longrightarrow> keeps_files h (snd (disable p h))"
  by (simp_all add: enable_def disable_def ufw_run_keeps)

lemma toggle_works:
  "ufw_switches p \<Longrightarrow> fst (enable p h) = Inr ()" "ufw_switches p \<Longrightarrow> fst (disable p h) = Inr ()"
  by (simp_all add: ufw_switches_def enable_def disable_def)

lemma Rules_keeps: "ufw_documented p \<Longrightarrow> Rules p on h = (r, h') \<Longrightarrow> keeps_files h h'"
  by (auto simp: Rules_def Let_def split: if_splits prod.splits option.splits intro: ufw_call_keeps)

lemma try_then_keeps:
  assumes "try_then m f h = (r, h')" "\<And>r h h'. m h = (r, h') \<Longrightarrow> keeps_files h h'"
    "\<And>a r h h'. f a h = (r, h') \<Longrightarrow> keeps_files h h'"
  shows "keeps_files h h'"
  using assms(1) by (rule try_then_rel) (use assms(2,3) keeps_files_trans in blast)+

lemma Status_keeps:
  assumes "ufw_documented p" "Status p h = (r, h')"
  shows "keeps_files h h'"
proof (cases "fw_available p")
  case True
  obtain res err h1 where u: "ufw p [''status'', ''verbose''] h = ((res, err), h1)" by (metis prod.collapse)
  then have k: "keeps_files h h1" using ufw_call_keeps [OF assms(1)] by blast
  show ?thesis
  proof (cases "err = None \<and> Succeeded res")
    case True
    define st where "st = foldl status_line (no_status\<lparr>Available := True\<rparr>) (split_on newline (Stdout res))"
    have "try_then (Rules p (Enabled st)) (\<lambda>rules. return_op (st\<lparr>Rules_of := rules\<rparr>)) h1 = (r, h')"
      using assms(2) True u \<open>fw_available p\<close> by (simp add: Status_def st_def Let_def)
    then have "keeps_files h1 h'"
      by (rule try_then_keeps) (use assms(1) Rules_keeps in \<open>auto simp: return_op_def\<close>)
    then show ?thesis using k keeps_files_trans by blast
  next
    case False
    then have "h' = h1" using assms(2) u \<open>fw_available p\<close> by (auto simp: Status_def split: option.splits)
    then show ?thesis using k by simp
  qed
qed (use assms(2) in \<open>simp add: Status_def\<close>)

lemma verify_keeps: "ufw_documented p \<Longrightarrow> verify p h = (r, h') \<Longrightarrow> keeps_files h h'"
  unfolding verify_def
  by (erule try_then_keeps) (auto simp: op_simps split: if_splits option.splits dest: Status_keeps)

section \<open>A backup and its restoration\<close>

lemma copy_state_files:
  "copy_state env source names acc = (True, copied) \<Longrightarrow>
     copied f = (if f \<in> set names \<and> source f \<noteq> None then source f else acc f)"
  by (induction env source names acc rule: copy_state.induct) (auto split: if_splits option.splits)

lemma copy_back_files:
  "no_failures env \<Longrightarrow> copy_back env saved names current =
     (True, \<lambda>f. if f \<in> set names \<and> saved f \<noteq> None then saved f else current f)"
  by (induction names arbitrary: current) (auto simp: no_failures_def fun_eq_iff split: option.split)

lemma sort_snoc_max:
  fixes x :: "'a :: linorder"
  assumes "\<forall>y \<in> set ys. y < x"
  shows "sort (x # ys) = sort ys @ [x]"
proof -
  have "insort x zs = zs @ [x]" if "\<forall>y \<in> set zs. y < x" for zs
    using that by (induction zs) auto
  then show ?thesis using assms by simp
qed

text \<open>The clock is ahead of the backups there are, so the name of a new one is the greatest.\<close>

definition clock_ahead :: "fw_env \<Rightarrow> 'k fw_host \<Rightarrow> bool" where
  "clock_ahead env h \<longleftrightarrow> (\<forall>name \<in> set (map fst (backups h)). name < stamp (t_backup env))"

lemma prune_keeps_first:
  assumes "backups h = (name, files) # rest" "\<forall>other \<in> set (map fst rest). other < name"
  shows "\<exists>rest'. backups (pruneBackups p env h) = (name, files) # rest'"
proof -
  define k where "k = length (map fst (backups h)) - maxBackups"
  have "k \<le> length (map fst rest)" using assms(1) by (simp add: k_def maxBackups_def)
  then have "take k (sort (name # map fst rest)) = take k (sort (map fst rest))"
    using sort_snoc_max [OF assms(2)] by simp
  then have "name \<notin> set (take k (sort (map fst (backups h))))"
    using assms by (auto dest!: in_set_takeD)
  then show ?thesis using assms(1) by (auto simp: pruneBackups_def Let_def k_def)
qed

lemma backup_saves:
  assumes "backup p env h = (Inr dir, h')" "clock_ahead env h"
  shows "ufw_files h' = ufw_files h" "marker h' = marker h" "dir = backup_path p (stamp (t_backup env))"
    "f \<in> set stateFiles \<Longrightarrow> backup_files p dir h' f = ufw_files h f"
    "\<exists>file \<in> set stateFiles. ufw_files h file \<noteq> None"
proof -
  let ?name = "stamp (t_backup env)"
  define rest where "rest = filter (\<lambda>(other, _). other \<noteq> ?name) (backups h)"
  have new: "map_of (backups h) ?name = None"
    using assms(2) by (auto simp: clock_ahead_def map_of_eq_None_iff)
  obtain copied where c: "copy_state env (ufw_files h) stateFiles Map.empty = (True, copied)"
    "h' = pruneBackups p env (h\<lparr>backups := (?name, copied) # rest\<rparr>)" "dir = backup_path p ?name"
    "\<not> list_all (\<lambda>file. ufw_files h file = None) stateFiles"
    using assms(1) new by (auto simp: backup_def Let_def rest_def split: if_splits prod.splits)
  have prune: "ufw_files (pruneBackups p env x) = ufw_files x" "marker (pruneBackups p env x) = marker x"
    for x :: "'a fw_host" by (simp_all add: pruneBackups_def Let_def)
  show "ufw_files h' = ufw_files h" "marker h' = marker h" "dir = backup_path p ?name" using c prune by simp_all
  have "\<forall>other \<in> set (map fst rest). other < ?name" using assms(2) by (auto simp: clock_ahead_def rest_def)
  then obtain rest' where "backups h' = (?name, copied) # rest'"
    using prune_keeps_first [of "h\<lparr>backups := (?name, copied) # rest\<rparr>" ?name copied rest p env] c(2) by auto
  then have "backup_files p dir h' = copied" using c(3) by (simp add: backup_files_def)
  then show "f \<in> set stateFiles \<Longrightarrow> backup_files p dir h' f = ufw_files h f"
    using copy_state_files [OF c(1), of f] by auto
  show "\<exists>file \<in> set stateFiles. ufw_files h file \<noteq> None" using c(4) by (auto simp: list_all_iff)
qed

lemma reload_keeps: "ufw_documented p \<Longrightarrow> keeps_files h (snd (reload p env h))"
proof -
  assume u: "ufw_documented p"
  obtain r h' where rl: "reload p env h = (r, h')" by (cases "reload p env h")
  have "keeps_files h h'"
    using rl unfolding reload_def
  proof (rule try_then_keeps)
    show "enabledInConfig env h = (r, h') \<Longrightarrow> keeps_files h h'" for r and h h' :: "'a fw_host"
      by (auto simp: enabledInConfig_def split: if_splits option.splits)
    show "(if \<not> on then disable p else try_then (disable p) (\<lambda>_. enable p)) h = (r, h') \<Longrightarrow> keeps_files h h'"
      for on r and h h' :: "'a fw_host"
      using toggle_keeps [OF u] try_then_keeps [of "disable p" "\<lambda>_. enable p" h r h']
      by (auto split: if_splits) (metis snd_conv)+
  qed
  then show "keeps_files h (snd (reload p env h))" using rl by simp
qed

lemma reload_works:
  assumes "ufw_switches p" "no_failures env"
  shows "fst (reload p env h) = Inr ()"
  using toggle_works [OF assms(1)] assms(2)
  by (auto simp: reload_def try_then_def enabledInConfig_def no_failures_def split: prod.splits sum.splits option.splits)
    (metis fst_conv sum.distinct(1))+

lemma restore_works:
  assumes "ufw_documented p" "ufw_switches p" "no_failures env"
    and "dir \<noteq> []" "has_prefix (path_clean dir) (backups_dir p)" "path_clean dir = dir"
    and "\<exists>file \<in> set stateFiles. backup_files p dir h file \<noteq> None"
  shows "\<exists>h'. restore p env dir h = (Inr (), h') \<and> backups h' = backups h \<and> marker h' = marker h \<and>
    (\<forall>f \<in> rule_files. ufw_files h' f =
       (if backup_files p dir h f \<noteq> None then backup_files p dir h f else ufw_files h f))"
proof -
  define current where "current = (\<lambda>f. if f \<in> set stateFiles \<and> backup_files p dir h f \<noteq> None
      then backup_files p dir h f else ufw_files h f)"
  define h1 where "h1 = h\<lparr>ufw_files := current\<rparr>"
  have "restore p env dir h = reload p env h1"
    using assms(4-7) copy_back_files [OF assms(3)]
    by (auto simp: restore_def h1_def current_def list_all_iff Let_def)
  moreover obtain h' where "reload p env h1 = (Inr (), h')"
    using reload_works [OF assms(2,3), of h1] by (metis prod.collapse)
  moreover have "keeps_files h1 h'" using reload_keeps [OF assms(1), of h1 env] calculation(2) by simp
  moreover have "rule_files \<subseteq> set stateFiles" by (simp add: rule_files_def stateFiles_def)
  ultimately show ?thesis by (auto simp: keeps_files_def h1_def current_def)
qed

lemma plain_stamp: "plain (stamp ns)"
proof -
  have digits: "c \<in> set (stamp ns) \<Longrightarrow> is_digit c \<or> c \<in> {CHR ''-'', CHR ''T'', CHR ''.''}" for c
    unfolding stamp_def Let_def set_append by (auto dest!: set_pad_itoa)
  have "CHR ''T'' \<in> set (stamp ns)" by (simp add: stamp_def Let_def)
  then have "stamp ns \<notin> {'''', ''.'', ''..''}" by auto
  moreover have "slash \<notin> set (stamp ns)" using digits [of slash] by (auto simp: char_class_defs)
  ultimately show ?thesis by (simp add: plain_def)
qed

lemma backup_path_facts:
  assumes "path_is_abs (stateDir p)"
  shows "backup_path p (stamp ns) \<noteq> []" "path_clean (backup_path p (stamp ns)) = backup_path p (stamp ns)"
    "has_prefix (backup_path p (stamp ns)) (backups_dir p)"
proof -
  let ?cs = "comps_of (stateDir p)" and ?b = "''backups''"
  have b: "plain ?b" by (simp add: plain_def)
  have d: "backups_dir p = abs_path (?cs @ [?b])"
    unfolding backups_dir_def using path_join_plain [OF assms b] .
  have "backup_path p (stamp ns) = path_join [stateDir p, ?b @ slash # stamp ns]"
    using path_is_abs_not_Nil [OF assms] by (simp add: backup_path_def path_join_def)
  also have "\<dots> = abs_path (clean_comps True (?cs @ [?b, stamp ns]))"
    using b plain_stamp [of ns] by (simp add: path_join_abs [OF assms] split_on_append_sep split_on_id plain_no_slash)
  finally have p: "backup_path p (stamp ns) = abs_path (?cs @ [?b, stamp ns])"
    using comps_of_plain [of "stateDir p"] b plain_stamp by (simp add: clean_comps_id)
  show "backup_path p (stamp ns) \<noteq> []" by (simp add: p abs_path_def)
  show "path_clean (backup_path p (stamp ns)) = backup_path p (stamp ns)"
    using comps_of_plain [of "stateDir p"] b plain_stamp by (simp add: p path_clean_abs_path)
  have "backup_path p (stamp ns) = backups_dir p @ slash # stamp ns"
    using abs_path_snoc [of "?cs @ [?b]" "[stamp ns]"] plain_stamp [of ns] by (simp add: p d plain_def)
  then show "has_prefix (backup_path p (stamp ns)) (backups_dir p)" by simp
qed

section \<open>A change that is not confirmed is undone\<close>

lemma undo_on_error_Inr [simp]: "undo_on_error p env dir m h = (Inr a, h') \<longleftrightarrow> m h = (Inr a, h')"
  by (auto simp: undo_on_error_def split: prod.splits sum.splits)

lemma ufw_run_backups: "ufw_documented p \<Longrightarrow> backups (snd (ufw_run p args h)) = backups h"
proof -
  assume u: "ufw_documented p"
  obtain res err h' where r: "ufw p args h = ((res, err), h')" by (metis prod.collapse)
  then have "backups h' = backups h" using u unfolding ufw_documented_def by (metis snd_conv)
  then show ?thesis by (simp add: ufw_run_def r split: option.split)
qed

lemma run3_backups:
  assumes "ufw_documented p" "run3 p c h = (r, h')"
  shows "backups h' = backups h"
proof -
  have "backups (snd (run3 p c h)) = backups h"
    using ufw_run_backups [OF assms(1)]
    by (simp add: run3_def addRule_def deleteRule_def setDefault_def enable_def disable_def try_then_def err_op_def
        op_simps split: option.split)
  then show ?thesis using assms(2) by simp
qed

lemma provisional_Inr:
  assumes "provisional p env c window req h = (Inr q, h')"
  obtains current h1 dir h2 h3 h4 where "Status p h = (Inr current, h1)" "Guard (fw_guarded p) c current = None"
    "backup p env h1 = (Inr dir, h2)" "run3 p c h2 = (Inr (), h3)" "verify p h3 = (Inr (), h4)"
    "q = pending_of env c dir window req" "h' = h4\<lparr>marker := Marker q\<rparr>"
proof -
  have w: "writePending p env q h4 = (Inr (), h5) \<Longrightarrow> h5 = h4\<lparr>marker := Marker q\<rparr>" for q h4 and h5 :: "'a fw_host"
    by (auto simp: writePending_def split: if_splits)
  show thesis
    using assms that w unfolding provisional_def
    by (auto simp: try_then_Inr Let_def op_simps split: if_splits option.splits)
qed

lemma Apply_change_Inr:
  assumes "Apply_change p env c window req s = (Inr q, s')"
  obtains h where "provisional p env c (window_of window) req (fs_host s) = (Inr q, h)"
    "s' = arm q (s\<lparr>fs_host := h\<rparr>)" "fw_available p"
  using assms by (auto simp: Apply_change_def split: if_splits prod.splits sum.splits)

lemma Apply_change_saves:
  assumes "ufw_documented p" "path_is_abs (stateDir p)" "clock_ahead env (fs_host s)"
    and "Apply_change p env c window req s = (Inr q, s1)"
  shows "marker (fs_host s1) = Marker q" "fs_pending s1 = Some q"
    "pd_Backup q \<noteq> []" "has_prefix (path_clean (pd_Backup q)) (backups_dir p)" "path_clean (pd_Backup q) = pd_Backup q"
    "\<exists>file \<in> set stateFiles. backup_files p (pd_Backup q) (fs_host s1) file \<noteq> None"
    "f \<in> rule_files \<Longrightarrow> backup_files p (pd_Backup q) (fs_host s1) f = ufw_files (fs_host s) f"
proof -
  obtain h where h: "provisional p env c (window_of window) req (fs_host s) = (Inr q, h)" "s1 = arm q (s\<lparr>fs_host := h\<rparr>)"
    using Apply_change_Inr [OF assms(4)] by blast
  obtain current h1 dir h2 h3 h4 where st: "Status p (fs_host s) = (Inr current, h1)" "backup p env h1 = (Inr dir, h2)"
    "run3 p c h2 = (Inr (), h3)" "verify p h3 = (Inr (), h4)" "q = pending_of env c dir (window_of window) req"
    "h = h4\<lparr>marker := Marker q\<rparr>"
    by (rule provisional_Inr [OF h(1)]) (rule that; assumption)
  have k1: "keeps_files (fs_host s) h1" using Status_keeps [OF assms(1) st(1)] .
  then have ahead: "clock_ahead env h1" using assms(3) by (simp add: clock_ahead_def keeps_files_def)
  note saved = backup_saves [OF st(2) ahead]
  have b: "backups h = backups h2"
    using run3_backups [OF assms(1) st(3)] verify_keeps [OF assms(1) st(4)] st(6) by (simp add: keeps_files_def)
  then have files: "backup_files p dir (fs_host s1) = backup_files p dir h2"
    using h(2) by (simp add: arm_def backup_files_def)
  have dir: "pd_Backup q = dir" using st(5) by (simp add: pending_of_def)
  show "marker (fs_host s1) = Marker q" "fs_pending s1 = Some q" using h(2) st(6) by (simp_all add: arm_def)
  show "pd_Backup q \<noteq> []" "has_prefix (path_clean (pd_Backup q)) (backups_dir p)" "path_clean (pd_Backup q) = pd_Backup q"
    using backup_path_facts [OF assms(2)] saved(3) dir by simp_all
  show "\<exists>file \<in> set stateFiles. backup_files p (pd_Backup q) (fs_host s1) file \<noteq> None"
    using saved(4,5) files dir by auto
  show "f \<in> rule_files \<Longrightarrow> backup_files p (pd_Backup q) (fs_host s1) f = ufw_files (fs_host s) f"
    using saved(4) [of f] files dir k1 by (auto simp: keeps_files_def rule_files_def stateFiles_def)
qed

lemma restore_after_Apply:
  assumes "ufw_documented p" "ufw_switches p" "path_is_abs (stateDir p)" "clock_ahead env (fs_host s)"
    and "Apply_change p env c window req s = (Inr q, s1)" "backups h = backups (fs_host s1)" "no_failures env2"
  shows "\<exists>h'. restore p env2 (pd_Backup q) h = (Inr (), h') \<and> marker h' = marker h \<and>
    (\<forall>f \<in> rule_files. ufw_files (fs_host s) f \<noteq> None \<longrightarrow> ufw_files h' f = ufw_files (fs_host s) f)"
proof -
  note a = Apply_change_saves [OF assms(1,3,4,5)]
  have b: "backup_files p (pd_Backup q) h = backup_files p (pd_Backup q) (fs_host s1)"
    using assms(6) by (simp add: backup_files_def)
  have "\<exists>file \<in> set stateFiles. backup_files p (pd_Backup q) h file \<noteq> None" using a(6) b by simp
  from restore_works [OF assms(1,2,7) a(3-5) this] show ?thesis using a(7) b by auto
qed

text \<open>C2: a change that was applied and is not confirmed is undone when its timer fires, whatever has
  happened to the rules since: nothing is pending any more, the marker is gone, and the files of
  rules \<open>ufw\<close> had before the change are back. The timer works from the backup, which outlives the
  pruning of old ones as long as the clock does not run backwards.\<close>

theorem unconfirmed_change_is_undone:
  assumes "ufw_documented p" "ufw_switches p" "path_is_abs (stateDir p)" "clock_ahead env (fs_host s)"
    and "Apply_change p env c window req s = (Inr q, s1)"
    and "fs_pending s2 = fs_pending s1" "backups (fs_host s2) = backups (fs_host s1)" "no_failures env2"
  shows "fs_pending (expire p env2 (pd_ID q) s2) = None \<and>
    marker (fs_host (expire p env2 (pd_ID q) s2)) = NoMarker \<and>
    (\<forall>f \<in> rule_files. ufw_files (fs_host s) f \<noteq> None \<longrightarrow>
       ufw_files (fs_host (expire p env2 (pd_ID q) s2)) f = ufw_files (fs_host s) f)"
proof -
  obtain h' where h': "restore p env2 (pd_Backup q) (fs_host s2) = (Inr (), h')"
    "\<forall>f \<in> rule_files. ufw_files (fs_host s) f \<noteq> None \<longrightarrow> ufw_files h' f = ufw_files (fs_host s) f"
    using restore_after_Apply [OF assms(1-5,7,8)] by blast
  have "fs_pending s2 = Some q" using assms(6) Apply_change_saves(2) [OF assms(1,3-5)] by simp
  then have e: "expire p env2 (pd_ID q) s2 = disarm env2 (s2\<lparr>fs_host := h'\<rparr>)" using h'(1) by (simp add: expire_def)
  have "snd (clearPending env2 h') = h'\<lparr>marker := NoMarker\<rparr>"
    using assms(8) by (simp add: clearPending_def no_failures_def)
  then show ?thesis unfolding e using h'(2) by (simp add: disarm_def)
qed

text \<open>C27: a restart of the Agent does not make a provisional change permanent: the marker on disk is read,
  and once the window has closed the rules that were there before the change are put back.\<close>

theorem restart_undoes_unconfirmed:
  assumes "ufw_documented p" "ufw_switches p" "path_is_abs (stateDir p)" "clock_ahead env (fs_host s)"
    and "Apply_change p env c window req s = (Inr q, s1)"
    and "marker (fs_host s2) = marker (fs_host s1)" "backups (fs_host s2) = backups (fs_host s1)" "no_failures env2"
    and "Expired q (t_check env2)"
  shows "\<exists>s3. RecoverPending p env2 (restart s2) = (None, s3) \<and> fs_pending s3 = None \<and>
    marker (fs_host s3) = NoMarker \<and>
    (\<forall>f \<in> rule_files. ufw_files (fs_host s) f \<noteq> None \<longrightarrow> ufw_files (fs_host s3) f = ufw_files (fs_host s) f)"
proof -
  obtain h' where h': "restore p env2 (pd_Backup q) (fs_host s2) = (Inr (), h')"
    "\<forall>f \<in> rule_files. ufw_files (fs_host s) f \<noteq> None \<longrightarrow> ufw_files h' f = ufw_files (fs_host s) f"
    using restore_after_Apply [OF assms(1-5,7,8)] by blast
  have m: "marker (fs_host s2) = Marker q" using assms(6) Apply_change_saves(1) [OF assms(1,3-5)] by simp
  have c: "clearPending env2 h' = (Inr (), h'\<lparr>marker := NoMarker\<rparr>)"
    using assms(8) by (simp add: clearPending_def no_failures_def)
  have "RecoverPending p env2 (restart s2) = (None, (restart s2)\<lparr>fs_host := h'\<lparr>marker := NoMarker\<rparr>\<rparr>)"
    using m assms(2,8,9) h'(1) c
    by (simp add: RecoverPending_def ufw_switches_def readPending_def no_failures_def restart_def try_then_def)
  then show ?thesis using h'(2) by (simp add: restart_def)
qed

text \<open>C28: a confirmation is accepted only for the change that is pending, by its identifier and inside its
  window. It leaves the rules as they are, and neither a timer that fires later nor, the marker
  having been removed, a restart undoes the change.\<close>

theorem confirmed_change_stays:
  assumes "Confirm env cid s = (Inr q, s1)"
  shows "fs_pending s = Some q \<and> pd_ID q = cid \<and> t_check env \<le> pd_Deadline q \<and>
    ufw_files (fs_host s1) = ufw_files (fs_host s) \<and>
    (\<forall>p env' cid'. expire p env' cid' s1 = s1) \<and>
    (\<not> fw_fails env RemoveMarker [] \<longrightarrow> (\<forall>p env'. snd (RecoverPending p env' (restart s1)) = restart s1))"
proof -
  have c: "fs_pending s = Some q" "pd_ID q = cid" "\<not> Expired q (t_check env)" "s1 = disarm env s"
    using assms by (auto simp: Confirm_def split: option.splits if_splits)
  have f: "ufw_files (snd (clearPending env h)) = ufw_files h" for h :: "'a fw_host"
    by (simp add: clearPending_def)
  have m: "\<not> fw_fails env RemoveMarker [] \<Longrightarrow> marker (fs_host s1) = NoMarker"
    using c(4) by (simp add: disarm_def clearPending_def)
  have "snd (RecoverPending p env' (restart s1)) = restart s1" if "marker (fs_host s1) = NoMarker" for p env'
    using that by (simp add: RecoverPending_def readPending_def restart_def)
  then show ?thesis using c f m by (simp add: Expired_def disarm_def expire_def)
qed

section \<open>Where the protocol falls short\<close>

text \<open>A change whose window has closed but which has not been undone yet, because its timer is waiting
  for the lock or because putting the backup back failed, does not stop the next change. Once
  that one is applied, neither the timer of the old change nor a restart undoes the old one.\<close>

theorem Apply_change_forgets_expired:
  assumes "fs_pending s = Some old" "Apply_change p env c window req s = (Inr q, s1)" "pd_ID q \<noteq> pd_ID old"
  shows "Expired old (t_check env) \<and> fs_pending s1 = Some q \<and> marker (fs_host s1) = Marker q \<and>
    (\<forall>env'. expire p env' (pd_ID old) s1 = s1)"
proof -
  obtain h where h: "provisional p env c (window_of window) req (fs_host s) = (Inr q, h)" "s1 = arm q (s\<lparr>fs_host := h\<rparr>)"
    using Apply_change_Inr [OF assms(2)] by blast
  have "marker h = Marker q" by (rule provisional_Inr [OF h(1)]) simp
  moreover have "Expired old (t_check env)" using assms(1,2) by (auto simp: Apply_change_def split: if_splits)
  ultimately show ?thesis using h(2) assms(3) by (simp add: arm_def expire_def)
qed

section \<open>An example\<close>

text \<open>A \<open>ufw\<close> that is switched off and writes the last rule command to its rules file.\<close>

definition quiet_ufw :: "go_string list \<Rightarrow> unit fw_host \<Rightarrow> (run_result \<times> cmd_err option) \<times> unit fw_host" where
  "quiet_ufw args h =
     ((\<lparr>ExitCode = 0, Stdout = ''Status: inactive'', Stderr = [], TimedOut = False\<rparr>, None),
      if args \<noteq> [] \<and> hd args \<in> {''status'', ''show'', ''--force''} then h
      else h\<lparr>ufw_files := (ufw_files h)(''user.rules'' \<mapsto> join '' '' args)\<rparr>)"

definition quiet_provider :: "unit fw_provider" where
  "quiet_provider = \<lparr>fw_available = True, ufw = quiet_ufw, fw_guarded = [22], stateDir = ''/s''\<rparr>"

definition quiet_env :: "int \<Rightarrow> fw_env" where
  "quiet_env t = \<lparr>fw_fails = (\<lambda>_ _. False), t_check = t, t_backup = t, t_id = t, t_deadline = t\<rparr>"

definition quiet_state :: "unit fw_state" where
  "quiet_state =
     \<lparr>fs_host = empty_host\<lparr>ufw_files := [''user.rules'' \<mapsto> ''old'', ''ufw.conf'' \<mapsto> ''ENABLED=no'']\<rparr>,
      fs_pending = None, fs_armed = [], fs_timer = None\<rparr>"

definition add_ssh :: change where
  "add_ssh = \<lparr>Kind = ''rule.add'', ch_Rule = ssh_rule\<lparr>r_Comment := []\<rparr>, Policy = [], ch_Direction = []\<rparr>"

definition quiet_pending :: "int \<Rightarrow> pending" where
  "quiet_pending t = pending_of (quiet_env t) add_ssh (backup_path quiet_provider (stamp t)) DefaultWindow ''req''"

lemma quiet_documented: "ufw_documented quiet_provider"
  by (auto simp: ufw_documented_def quiet_provider_def quiet_ufw_def)

lemma quiet_output: "\<not> contains ''Status: inactive'' ''ERROR:''" "parseAddedLine ''Status: inactive'' = None"
  "status_line s ''Status: inactive'' = s\<lparr>Enabled := False\<rparr>"
proof -
  show "\<not> contains ''Status: inactive'' ''ERROR:''" "parseAddedLine ''Status: inactive'' = None" by code_simp+
  have "trim_space ''Status: inactive'' = ''Status: inactive''"
    "trim_space '' inactive'' = ''inactive''" "\<not> equal_fold ''inactive'' ''active''" by code_simp+
  then show "status_line s ''Status: inactive'' = s\<lparr>Enabled := False\<rparr>"
    by (simp add: status_line_def has_prefix_def trim_prefix_def)
qed

lemma quiet_run: "ufw_run quiet_provider args h = (Inr (), snd (quiet_ufw args h))"
  using quiet_output(1) by (simp add: ufw_run_def quiet_provider_def quiet_ufw_def Succeeded_def)

lemma quiet_switches: "ufw_switches quiet_provider"
  by (simp add: ufw_switches_def quiet_run) (simp add: quiet_provider_def)

lemma quiet_Status: "Status quiet_provider h = (Inr (no_status\<lparr>Available := True\<rparr>), h)"
  by (simp add: Status_def Rules_def quiet_provider_def quiet_ufw_def Succeeded_def try_then_def return_op_def
      quiet_output no_status_def)

lemma quiet_stateDir: "path_is_abs (stateDir quiet_provider)"
  by (simp add: quiet_provider_def path_is_abs_def has_prefix_def)

lemma quiet_clock: "clock_ahead env (fs_host quiet_state)"
  by (simp add: clock_ahead_def quiet_state_def empty_host_def)

lemma quiet_no_failures: "no_failures (quiet_env t)"
  by (simp add: no_failures_def quiet_env_def)

definition quiet_applied :: "int \<Rightarrow> unit fw_state" where
  "quiet_applied t = snd (Apply_change quiet_provider (quiet_env t) add_ssh 0 ''req'' quiet_state)"

lemma quiet_Apply:
  "Apply_change quiet_provider (quiet_env t) add_ssh 0 ''req'' quiet_state = (Inr (quiet_pending t), quiet_applied t)"
  "ufw_files (fs_host (quiet_applied t)) ''user.rules'' = Some ''allow 22/tcp''"
proof -
  have valid: "Rule_Validate (ch_Rule add_ssh) = None" by code_simp
  have args: "join '' '' (Rule_Args (ch_Rule add_ssh) []) = ''allow 22/tcp''" "Rule_Args (ch_Rule add_ssh) [] = [''allow'', ''22/tcp'']"
    by code_simp+
  have run: "run3 quiet_provider add_ssh h = (Inr (), h\<lparr>ufw_files := (ufw_files h)(''user.rules'' \<mapsto> ''allow 22/tcp'')\<rparr>)" for h
    using valid args
    by (simp add: run3_def addRule_def try_then_def err_op_def return_op_def quiet_run quiet_ufw_def)
      (simp add: add_ssh_def)
  have guard: "Guard gs add_ssh st = None" for gs st
    by (simp add: Guard_def add_ssh_def guardRule_def ssh_rule_def)
  define h where "h = (fs_host quiet_state)\<lparr>backups :=
      [(stamp t, [''user.rules'' \<mapsto> ''old'', ''ufw.conf'' \<mapsto> ''ENABLED=no''])]\<rparr>"
  have backup: "backup quiet_provider (quiet_env t) (fs_host quiet_state) = (Inr (backup_path quiet_provider (stamp t)), h)"
    by (simp add: backup_def quiet_env_def quiet_state_def empty_host_def stateFiles_def pruneBackups_def maxBackups_def
        h_def Let_def)
  have verify: "verify quiet_provider h = (Inr (), h)" for h
    by (simp add: verify_def try_then_def quiet_Status return_op_def no_status_def)
  have mark: "writePending quiet_provider (quiet_env t) q h = (Inr (), h\<lparr>marker := Marker q\<rparr>)" for q h
    by (simp add: writePending_def quiet_env_def)
  have "provisional quiet_provider (quiet_env t) add_ssh DefaultWindow ''req'' (fs_host quiet_state) =
      (Inr (quiet_pending t), h\<lparr>ufw_files := (ufw_files h)(''user.rules'' \<mapsto> ''allow 22/tcp''), marker := Marker (quiet_pending t)\<rparr>)"
    by (simp add: provisional_def try_then_def quiet_Status guard backup run verify undo_on_error_def return_op_def
        no_status_def mark quiet_pending_def Let_def)
  moreover have "window_of 0 = DefaultWindow" by (simp add: window_of_def DefaultWindow_def MaxWindow_def)
  ultimately have "Apply_change quiet_provider (quiet_env t) add_ssh 0 ''req'' quiet_state =
      (Inr (quiet_pending t), arm (quiet_pending t) (quiet_state\<lparr>fs_host :=
        h\<lparr>ufw_files := (ufw_files h)(''user.rules'' \<mapsto> ''allow 22/tcp''), marker := Marker (quiet_pending t)\<rparr>\<rparr>))"
    by (simp add: Apply_change_def) (simp add: quiet_provider_def quiet_state_def)
  then show "Apply_change quiet_provider (quiet_env t) add_ssh 0 ''req'' quiet_state = (Inr (quiet_pending t), quiet_applied t)"
    "ufw_files (fs_host (quiet_applied t)) ''user.rules'' = Some ''allow 22/tcp''"
    by (simp_all add: quiet_applied_def arm_def)
qed

lemma quiet_old: "ufw_files (fs_host quiet_state) ''user.rules'' = Some ''old''"
  by (simp add: quiet_state_def)

lemma quiet_f: "''user.rules'' \<in> rule_files"
  by (simp add: rule_files_def)

theorem unconfirmed_change_is_undone_witness:
  "ufw_files (fs_host (quiet_applied 5)) ''user.rules'' = Some ''allow 22/tcp'' \<and>
   ufw_files (fs_host (expire quiet_provider (quiet_env 70) (pd_ID (quiet_pending 5)) (quiet_applied 5))) ''user.rules'' =
     Some ''old''"
  using unconfirmed_change_is_undone [OF quiet_documented quiet_switches quiet_stateDir quiet_clock quiet_Apply(1)
      refl refl quiet_no_failures, of 70 5] quiet_Apply(2) quiet_old quiet_f by auto

lemma quiet_Expired: "Expired (quiet_pending t) u \<longleftrightarrow> u > t + DefaultWindow"
  by (simp add: Expired_def quiet_pending_def pending_of_def quiet_env_def)

lemma quiet_late: "Expired (quiet_pending 5) (t_check (quiet_env 100000000000))"
  by (simp add: quiet_Expired quiet_env_def DefaultWindow_def)

theorem restart_undoes_unconfirmed_witness:
  "\<exists>s3. RecoverPending quiet_provider (quiet_env 100000000000) (restart (quiet_applied 5)) = (None, s3) \<and>
     ufw_files (fs_host s3) ''user.rules'' = Some ''old''"
  using restart_undoes_unconfirmed [OF quiet_documented quiet_switches quiet_stateDir quiet_clock quiet_Apply(1)
      refl refl quiet_no_failures quiet_late] quiet_old quiet_f by (metis option.distinct(1))

lemma quiet_applied_pending: "fs_pending (quiet_applied t) = Some (quiet_pending t)" "marker (fs_host (quiet_applied t)) = Marker (quiet_pending t)"
  using Apply_change_saves(1,2) [OF quiet_documented quiet_stateDir quiet_clock quiet_Apply(1)] by simp_all

lemma quiet_Confirm:
  "Confirm (quiet_env 6) (pd_ID (quiet_pending 5)) (quiet_applied 5) = (Inr (quiet_pending 5), disarm (quiet_env 6) (quiet_applied 5))"
  using quiet_applied_pending [of 5]
  by (simp add: Confirm_def quiet_Expired quiet_env_def DefaultWindow_def)

theorem confirmed_change_stays_witness:
  "ufw_files (fs_host (disarm (quiet_env 6) (quiet_applied 5))) ''user.rules'' = Some ''allow 22/tcp'' \<and>
   snd (RecoverPending quiet_provider (quiet_env 100000000000) (restart (disarm (quiet_env 6) (quiet_applied 5)))) =
     restart (disarm (quiet_env 6) (quiet_applied 5))"
  using confirmed_change_stays [OF quiet_Confirm] quiet_Apply(2) [of 5] by (simp add: quiet_env_def)

lemma quiet_IDs: "pd_ID (quiet_pending 5) \<noteq> pd_ID (quiet_pending 200000000000)"
proof -
  have "stamp 5 \<noteq> stamp 200000000000" by code_simp
  then show ?thesis by (simp add: quiet_pending_def pending_of_def newChangeID_def quiet_env_def)
qed

text \<open>The state in which the window of an earlier change has closed, before its timer has run.\<close>

definition quiet_late_state :: "unit fw_state" where
  "quiet_late_state = quiet_state\<lparr>fs_pending := Some (quiet_pending 5)\<rparr>"

lemma quiet_late_Apply:
  "\<exists>s1. Apply_change quiet_provider (quiet_env 200000000000) add_ssh 0 ''req'' quiet_late_state =
     (Inr (quiet_pending 200000000000), s1)"
proof -
  let ?env = "quiet_env 200000000000"
  obtain h where h: "provisional quiet_provider ?env add_ssh (window_of 0) ''req'' (fs_host quiet_state) = (Inr (quiet_pending 200000000000), h)"
    using Apply_change_Inr [OF quiet_Apply(1) [of 200000000000]] by blast
  have "Expired (quiet_pending 5) (t_check ?env)"
    by (simp add: quiet_Expired) (simp add: quiet_env_def DefaultWindow_def)
  then show ?thesis using h by (simp add: Apply_change_def quiet_late_state_def) (simp add: quiet_provider_def)
qed

theorem Apply_change_forgets_expired_witness:
  "\<exists>s1. fst (Apply_change quiet_provider (quiet_env 200000000000) add_ssh 0 ''req'' quiet_late_state) =
       Inr (quiet_pending 200000000000) \<and>
     fs_pending s1 = Some (quiet_pending 200000000000) \<and>
     expire quiet_provider (quiet_env 0) (pd_ID (quiet_pending 5)) s1 = s1"
proof -
  obtain s1 where a: "Apply_change quiet_provider (quiet_env 200000000000) add_ssh 0 ''req'' quiet_late_state =
     (Inr (quiet_pending 200000000000), s1)" using quiet_late_Apply by blast
  have p: "fs_pending quiet_late_state = Some (quiet_pending 5)" by (simp add: quiet_late_state_def)
  show ?thesis using Apply_change_forgets_expired [OF p a] quiet_IDs a by auto
qed

text \<open>When removing the marker of a confirmed change fails, the confirmation is still reported as a
  success, and the next start of the Agent after the deadline undoes the confirmed change.\<close>

theorem confirmed_change_undone_by_restart:
  "fst (Confirm (quiet_env 6\<lparr>fw_fails := (\<lambda>call _. call = RemoveMarker)\<rparr>) (pd_ID (quiet_pending 5)) (quiet_applied 5)) =
     Inr (quiet_pending 5) \<and>
   (\<exists>s3. RecoverPending quiet_provider (quiet_env 100000000000)
        (restart (snd (Confirm (quiet_env 6\<lparr>fw_fails := (\<lambda>call _. call = RemoveMarker)\<rparr>) (pd_ID (quiet_pending 5)) (quiet_applied 5)))) =
        (None, s3) \<and> ufw_files (fs_host s3) ''user.rules'' = Some ''old'')"
proof
  let ?env = "quiet_env 6\<lparr>fw_fails := (\<lambda>call _. call = RemoveMarker)\<rparr>"
  have c: "Confirm ?env (pd_ID (quiet_pending 5)) (quiet_applied 5) = (Inr (quiet_pending 5), disarm ?env (quiet_applied 5))"
    using quiet_applied_pending [of 5] by (simp add: Confirm_def quiet_Expired quiet_env_def DefaultWindow_def)
  then show "fst (Confirm ?env (pd_ID (quiet_pending 5)) (quiet_applied 5)) = Inr (quiet_pending 5)" by simp
  have h: "fs_host (disarm ?env (quiet_applied 5)) = fs_host (quiet_applied 5)"
    by (simp add: disarm_def clearPending_def quiet_env_def)
  obtain h' where h': "restore quiet_provider (quiet_env 100000000000) (pd_Backup (quiet_pending 5)) (fs_host (quiet_applied 5)) = (Inr (), h')"
    "marker h' = Marker (quiet_pending 5)" "ufw_files h' ''user.rules'' = Some ''old''"
    using restore_after_Apply [OF quiet_documented quiet_switches quiet_stateDir quiet_clock quiet_Apply(1) refl quiet_no_failures]
      quiet_applied_pending quiet_old quiet_f by (metis option.distinct(1))
  have "RecoverPending quiet_provider (quiet_env 100000000000) (restart (disarm ?env (quiet_applied 5))) =
      (None, (restart (disarm ?env (quiet_applied 5)))\<lparr>fs_host := h'\<lparr>marker := NoMarker\<rparr>\<rparr>)"
    using quiet_applied_pending(2) [of 5] quiet_late quiet_no_failures [of 100000000000] h' h
    by (simp add: RecoverPending_def readPending_def no_failures_def restart_def try_then_def clearPending_def)
      (simp add: quiet_provider_def)
  then show "\<exists>s3. RecoverPending quiet_provider (quiet_env 100000000000)
        (restart (snd (Confirm ?env (pd_ID (quiet_pending 5)) (quiet_applied 5)))) = (None, s3) \<and>
      ufw_files (fs_host s3) ''user.rules'' = Some ''old''"
    using c h'(3) by simp
qed

section \<open>The life of a pending change\<close>

text \<open>What happens to the Agent in time: operations, timers that fire once their deadline is reached,
  and restarts. An operation reads the clock not before it began.\<close>

definition env_at :: "int \<Rightarrow> fw_env \<Rightarrow> bool" where
  "env_at now env \<longleftrightarrow> now \<le> t_check env \<and> now \<le> t_deadline env"

inductive change_step :: "'k fw_provider \<Rightarrow> int \<times> 'k fw_state \<Rightarrow> int \<times> 'k fw_state \<Rightarrow> bool" for p where
  tick: "now \<le> later \<Longrightarrow> change_step p (now, s) (later, s)"
| applied: "env_at now env \<Longrightarrow> Apply_change p env c window req s = (r, s') \<Longrightarrow> change_step p (now, s) (now, s')"
| confirm: "env_at now env \<Longrightarrow> Confirm env cid s = (r, s') \<Longrightarrow> change_step p (now, s) (now, s')"
| rollback: "env_at now env \<Longrightarrow> Rollback p env cid s = (r, s') \<Longrightarrow> change_step p (now, s) (now, s')"
| fire: "(cid, deadline) \<in> set (fs_armed s) \<Longrightarrow> deadline \<le> now \<Longrightarrow>
    change_step p (now, s) (now, expire p env cid (s\<lparr>fs_armed := remove1 (cid, deadline) (fs_armed s)\<rparr>))"
| recover: "env_at now env \<Longrightarrow> RecoverPending p env (restart s) = (r, s') \<Longrightarrow> change_step p (now, s) (now, s')"

text \<open>A change that is pending has its timer armed, unless its deadline has come.\<close>

definition watched :: "int \<times> 'k fw_state \<Rightarrow> bool" where
  "watched = (\<lambda>(now, s). \<forall>q. fs_pending s = Some q \<longrightarrow>
     ((pd_ID q, pd_Deadline q) \<in> set (fs_armed s) \<or> pd_Deadline q \<le> now))"

lemma watched_arm: "watched (now, arm q s)"
  by (simp add: watched_def arm_def)

lemma watched_host: "watched (now, s\<lparr>fs_host := h\<rparr>) = watched (now, s)"
  by (simp add: watched_def)

lemma watched_disarm: "watched (now, disarm env s)"
  by (simp add: watched_def disarm_def)

lemma watched_fire:
  assumes "watched (now, s)" "deadline \<le> now"
  shows "watched (now, s\<lparr>fs_armed := remove1 (cid, deadline) (fs_armed s)\<rparr>)"
  using assms by (auto simp: watched_def in_set_remove1)

lemma watched_expire: "watched (now, s) \<Longrightarrow> watched (now, expire p env cid s)"
  by (auto simp: expire_def watched_host watched_disarm split: option.splits prod.splits sum.splits)

lemma watched_restart: "watched (now, restart s)"
  by (simp add: watched_def restart_def)

interpretation fw_changes: invariant_system "\<lambda>(now, s). fs_pending s = None" "change_step p" watched
  for p :: "'k fw_provider"
proof
  fix x y :: "int \<times> 'k fw_state"
  show "(case x of (now, s) \<Rightarrow> fs_pending s = None) \<Longrightarrow> watched x" by (auto simp: watched_def)
  assume w: "watched x" and step: "change_step p x y"
  from step show "watched y"
  proof cases
    case (tick now later s)
    then show ?thesis using w by (fastforce simp: watched_def)
  next
    case (applied now env c window req s r s')
    then show ?thesis
      using w by (auto simp: Apply_change_def watched_arm watched_host split: if_splits prod.splits sum.splits)
  next
    case (confirm now env cid s r s')
    then show ?thesis using w by (auto simp: Confirm_def watched_disarm split: option.splits if_splits)
  next
    case (rollback now env cid s r s')
    then show ?thesis
      using w by (auto simp: Rollback_def watched_disarm watched_host split: option.splits if_splits prod.splits sum.splits)
  next
    case (fire cid deadline s now env)
    then show ?thesis using w watched_fire watched_expire by blast
  next
    case (recover now env s r s')
    then show ?thesis
      by (auto simp: RecoverPending_def watched_arm watched_host watched_restart split: if_splits prod.splits sum.splits option.splits)
  qed
qed

text \<open>C29: in every state the Agent can reach, through any interleaving of changes, confirmations,
  rollbacks, timers and restarts, a change that is pending and whose deadline has not come has a timer
  armed for it with that deadline.\<close>

theorem pending_change_has_timer:
  assumes "reach (\<lambda>(now, s). fs_pending s = None) (change_step p) (now, s)" "fs_pending s = Some q" "now < pd_Deadline q"
  shows "(pd_ID q, pd_Deadline q) \<in> set (fs_armed s)"
  using fw_changes.reach_inv [OF assms(1)] assms(2,3) by (auto simp: watched_def)

theorem pending_change_has_timer_witness:
  "(pd_ID (quiet_pending 5), pd_Deadline (quiet_pending 5)) \<in> set (fs_armed (quiet_applied 5))"
proof -
  have i: "reach (\<lambda>(now, s). fs_pending s = None) (change_step quiet_provider) (5, quiet_state)"
    by (rule reach_init) (simp add: quiet_state_def)
  have e: "env_at 5 (quiet_env 5)" by (simp add: env_at_def quiet_env_def)
  have "reach (\<lambda>(now, s). fs_pending s = None) (change_step quiet_provider) (5, quiet_applied 5)"
    by (rule reach_step [OF i change_step.applied [OF e quiet_Apply(1)]])
  then show ?thesis
    by (rule pending_change_has_timer [OF _ quiet_applied_pending(1)])
      (simp add: quiet_pending_def pending_of_def quiet_env_def DefaultWindow_def)
qed

end
