(* ===== verification/Go_Encoding.thy ===== *)
theory Go_Encoding
  imports Go_Prelude "HOL-Library.Word"
begin

text \<open>
  Packages \<open>encoding/hex\<close>, \<open>encoding/base64\<close> and \<open>encoding/base32\<close> without padding, as the program
  uses them: the bits of the bytes in order, cut into groups of four, six or five, each group
  a character of an alphabet. Package \<open>encoding/binary\<close>: words in the order of the network.
\<close>

section \<open>Bits\<close>

definition char_bits :: "char \<Rightarrow> bool list" where
  "char_bits c = [digit7 c, digit6 c, digit5 c, digit4 c, digit3 c, digit2 c, digit1 c, digit0 c]"

definition char_of_bits :: "bool list \<Rightarrow> char" where
  "char_of_bits b = Char (b ! 7) (b ! 6) (b ! 5) (b ! 4) (b ! 3) (b ! 2) (b ! 1) (b ! 0)"

definition bits_of :: "go_string \<Rightarrow> bool list" where
  "bits_of s = concat (map char_bits s)"

text \<open>The whole bytes at the start of a list of bits.\<close>

fun bytes_of :: "bool list \<Rightarrow> go_string" where
  "bytes_of (a # b # c # d # e # f # g # h # bs) =
     char_of_bits [a, b, c, d, e, f, g, h] # bytes_of bs"
| "bytes_of _ = []"

definition bits_val :: "bool list \<Rightarrow> nat" where
  "bits_val b = foldl (\<lambda>n x. 2 * n + of_bool x) 0 b"

fun val_bits :: "nat \<Rightarrow> nat \<Rightarrow> bool list" where
  "val_bits 0 n = []"
| "val_bits (Suc k) n = val_bits k (n div 2) @ [odd n]"

lemma char_bits_inverse [simp]: "char_of_bits (char_bits c) = c"
  by (cases c) (simp add: char_bits_def char_of_bits_def)

lemma length_char_bits [simp]: "length (char_bits c) = 8"
  by (simp add: char_bits_def)

lemma bits_of_simps [simp]: "bits_of [] = []" "bits_of (c # s) = char_bits c @ bits_of s"
  by (simp_all add: bits_of_def)

lemma length_bits_of [simp]: "length (bits_of s) = 8 * length s"
  by (induction s) auto

lemma bytes_of_short: "length b < 8 \<Longrightarrow> bytes_of b = []"
  by (induction b rule: bytes_of.induct) auto

lemma bytes_of_Cons: "bytes_of (char_bits c @ b) = c # bytes_of b"
  using char_bits_inverse [of c] by (simp add: char_bits_def)

lemma bytes_of_bits_of: "length b < 8 \<Longrightarrow> bytes_of (bits_of s @ b) = s"
  by (induction s) (auto simp: bytes_of_short bytes_of_Cons)

lemma bits_val_snoc [simp]: "bits_val (b @ [x]) = 2 * bits_val b + of_bool x" "bits_val [] = 0"
  by (simp_all add: bits_val_def)

lemma val_bits_val: "val_bits (length b) (bits_val b) = b"
  by (induction b rule: rev_induct) auto

lemma bits_val_less: "bits_val b < 2 ^ length b"
  by (induction b rule: rev_induct) auto

section \<open>Groups\<close>

fun groups :: "nat \<Rightarrow> bool list \<Rightarrow> bool list list" where
  "groups k [] = []"
| "groups k (x # b) =
     (if k = 0 then []
      else (take k (x # b) @ replicate (k - length (x # b)) False) # groups k (drop k (x # b)))"

lemma groups_length: "0 < k \<Longrightarrow> g \<in> set (groups k b) \<Longrightarrow> length g = k"
  by (induction k b rule: groups.induct) (auto split: if_splits)

lemma groups_concat:
  "0 < k \<Longrightarrow> \<exists>pad < k. concat (groups k b) = b @ replicate pad False"
proof (induction k b rule: groups.induct)
  case (2 k x b)
  show ?case
  proof (cases "length (x # b) \<le> k")
    case True
    then have "concat (groups k (x # b)) = (x # b) @ replicate (k - length (x # b)) False"
      using 2(2) by simp
    moreover have "k - length (x # b) < k" using 2(2) by simp
    ultimately show ?thesis by blast
  next
    case False
    obtain pad where pad: "pad < k" "concat (groups k (drop k (x # b))) = drop k (x # b) @ replicate pad False"
      using 2 by blast
    have "concat (groups k (x # b)) =
        take k (x # b) @ replicate (k - length (x # b)) False @ concat (groups k (drop k (x # b)))"
      using 2(2) by simp
    then have "concat (groups k (x # b)) = (x # b) @ replicate pad False"
      using pad(2) False by (simp only: append_assoc [symmetric] append_take_drop_id diff_is_0_eq) simp
    with pad(1) show ?thesis by blast
  qed
qed auto

lemma length_concat_groups: "0 < k \<Longrightarrow> length (concat (groups k b)) = k * length (groups k b)"
  by (induction k b rule: groups.induct) auto

section \<open>Alphabets\<close>

definition encode :: "nat \<Rightarrow> go_string \<Rightarrow> go_string \<Rightarrow> go_string" where
  "encode k alphabet s = map (\<lambda>g. alphabet ! bits_val g) (groups k (bits_of s))"

fun position :: "char \<Rightarrow> go_string \<Rightarrow> nat option" where
  "position c [] = None"
| "position c (a # as) = (if c = a then Some 0 else map_option Suc (position c as))"

text \<open>Line breaks are skipped; any other byte outside the alphabet is an error.\<close>

definition no_breaks :: "go_string \<Rightarrow> go_string" where
  "no_breaks s = filter (\<lambda>c. c \<noteq> newline \<and> c \<noteq> carriage_return) s"

fun decode_bits :: "nat \<Rightarrow> go_string \<Rightarrow> go_string \<Rightarrow> bool list option" where
  "decode_bits k alphabet [] = Some []"
| "decode_bits k alphabet (c # s) =
     (case position c alphabet of
        None \<Rightarrow> None
      | Some n \<Rightarrow> map_option (\<lambda>b. val_bits k n @ b) (decode_bits k alphabet s))"

lemma position_nth: "distinct as \<Longrightarrow> n < length as \<Longrightarrow> position (as ! n) as = Some n"
proof (induction as arbitrary: n)
  case (Cons a as)
  then show ?case by (cases n) auto
qed simp

lemma encode_in_alphabet:
  assumes "0 < k" "2 ^ k \<le> length alphabet" "c \<in> set (encode k alphabet s)"
  shows "c \<in> set alphabet"
proof -
  obtain g where g: "g \<in> set (groups k (bits_of s))" "c = alphabet ! bits_val g"
    using assms(3) by (auto simp: encode_def)
  then have "bits_val g < length alphabet"
    using bits_val_less [of g] groups_length [OF assms(1)] assms(2) by fastforce
  then show ?thesis using g(2) by simp
qed

lemma decode_bits_map:
  assumes "distinct alphabet" "2 ^ k \<le> length alphabet" "\<forall>g \<in> set gs. length g = k"
  shows "decode_bits k alphabet (map (\<lambda>g. alphabet ! bits_val g) gs) = Some (concat gs)"
  using assms(3)
proof (induction gs)
  case (Cons g gs)
  have "bits_val g < length alphabet" using bits_val_less [of g] Cons.prems assms(2) by simp
  then show ?case
    using Cons position_nth [OF assms(1)] val_bits_val [of g] by simp
qed simp

lemma decode_encode_bits:
  assumes "distinct alphabet" "2 ^ k \<le> length alphabet" "0 < k"
    "newline \<notin> set alphabet" "carriage_return \<notin> set alphabet"
  shows "\<exists>pad < k. no_breaks (encode k alphabet s) = encode k alphabet s \<and>
    decode_bits k alphabet (encode k alphabet s) = Some (bits_of s @ replicate pad False) \<and>
    k * length (encode k alphabet s) = 8 * length s + pad"
proof -
  obtain pad where pad: "pad < k" "concat (groups k (bits_of s)) = bits_of s @ replicate pad False"
    using groups_concat [OF assms(3)] by blast
  have "no_breaks (encode k alphabet s) = encode k alphabet s"
    using encode_in_alphabet [OF assms(3,2)] assms(4,5) by (auto simp: no_breaks_def filter_id_conv)
  moreover have "decode_bits k alphabet (encode k alphabet s) = Some (bits_of s @ replicate pad False)"
    using decode_bits_map [OF assms(1,2)] groups_length [OF assms(3)] pad(2) by (simp add: encode_def)
  moreover have "k * length (encode k alphabet s) = 8 * length s + pad"
    using length_concat_groups [OF assms(3), of "bits_of s"] pad(2) by (simp add: encode_def)
  ultimately show ?thesis using pad(1) by blast
qed

section \<open>Hexadecimal, base 64 and base 32\<close>

definition hex_alphabet :: go_string where "hex_alphabet = ''0123456789abcdef''"

definition hex_encode :: "go_string \<Rightarrow> go_string" where
  "hex_encode s = encode 4 hex_alphabet s"

text \<open>\<open>hex.DecodeString\<close> reads digits of either case, two to a byte.\<close>

definition hex_decode :: "go_string \<Rightarrow> go_string option" where
  "hex_decode s = (if odd (length s) then None else map_option bytes_of (decode_bits 4 hex_alphabet (to_lower s)))"

definition std_alphabet :: go_string where
  "std_alphabet = ''ABCDEFGHIJKLMNOPQRSTUVWXYZabcdefghijklmnopqrstuvwxyz0123456789+/''"

definition url_alphabet :: go_string where
  "url_alphabet = ''ABCDEFGHIJKLMNOPQRSTUVWXYZabcdefghijklmnopqrstuvwxyz0123456789-_''"

text \<open>\<open>base64.RawStdEncoding\<close>; \<open>Strict()\<close> refuses bits that are left over and not zero, and a
  length no bytes have is refused anyway.\<close>

definition base64_encode :: "go_string \<Rightarrow> go_string" where
  "base64_encode s = encode 6 std_alphabet s"

definition base64_decode_strict :: "go_string \<Rightarrow> go_string option" where
  "base64_decode_strict s =
     (case decode_bits 6 std_alphabet (no_breaks s) of
        None \<Rightarrow> None
      | Some b \<Rightarrow>
          let rest = drop (length b div 8 * 8) b in
            if length rest \<ge> 6 \<or> True \<in> set rest then None else Some (bytes_of b))"

definition base32_alphabet :: go_string where
  "base32_alphabet = ''ABCDEFGHIJKLMNOPQRSTUVWXYZ234567''"

definition base32_encode :: "go_string \<Rightarrow> go_string" where
  "base32_encode s = encode 5 base32_alphabet s"

text \<open>\<open>base32.StdEncoding.WithPadding(NoPadding)\<close>: whole blocks of eight characters are five
  bytes; a last block of 2, 4, 5 or 7 characters is 1, 2, 3 or 4 bytes, and of any other length it
  is dropped.\<close>

definition last_block :: "nat \<Rightarrow> nat" where
  "last_block r = (if r = 2 then 1 else if r = 4 then 2 else if r = 5 then 3 else if r = 7 then 4 else 0)"

definition base32_decode :: "go_string \<Rightarrow> go_string option" where
  "base32_decode s =
     (let s' = no_breaks s in
        map_option (\<lambda>b. take (5 * (length s' div 8) + last_block (length s' mod 8)) (bytes_of b))
          (decode_bits 5 base32_alphabet s'))"

lemma alphabets:
  "distinct std_alphabet" "length std_alphabet = 64" "distinct base32_alphabet" "length base32_alphabet = 32"
  "newline \<notin> set std_alphabet" "carriage_return \<notin> set std_alphabet"
  "newline \<notin> set base32_alphabet" "carriage_return \<notin> set base32_alphabet"
  "CHR ''$'' \<notin> set std_alphabet"
  by (code_simp, code_simp, code_simp, code_simp, code_simp, code_simp, code_simp, code_simp, code_simp)

lemma hex_alphabet_facts:
  "distinct hex_alphabet" "length hex_alphabet = 16" "newline \<notin> set hex_alphabet" "carriage_return \<notin> set hex_alphabet"
  "list_all (\<lambda>c. \<not> is_upper c) hex_alphabet"
  by (code_simp, code_simp, code_simp, code_simp, code_simp)

lemma hex_roundtrip [simp]: "hex_decode (hex_encode s) = Some s" "length (hex_encode s) = 2 * length s"
proof -
  obtain pad where pad: "pad < 4" "decode_bits 4 hex_alphabet (hex_encode s) = Some (bits_of s @ replicate pad False)"
    "4 * length (hex_encode s) = 8 * length s + pad"
    using decode_encode_bits [of hex_alphabet 4 s] hex_alphabet_facts by (auto simp: hex_encode_def)
  have "to_lower (hex_encode s) = hex_encode s"
    using encode_in_alphabet [of 4 hex_alphabet _ s] hex_alphabet_facts
    by (auto simp: to_lower_def hex_encode_def list_all_iff lower_char_id intro!: map_idI)
  moreover show "length (hex_encode s) = 2 * length s" using pad(1,3) by presburger
  ultimately show "hex_decode (hex_encode s) = Some s"
    using pad(1,2) by (simp add: hex_decode_def bytes_of_bits_of)
qed

lemma base64_no_dollar: "CHR ''$'' \<notin> set (base64_encode s)"
  using encode_in_alphabet [of 6 std_alphabet "CHR ''$''" s] alphabets by (auto simp: base64_encode_def)

lemma base64_roundtrip [simp]: "base64_decode_strict (base64_encode s) = Some s"
proof -
  obtain pad where pad: "pad < 6" "no_breaks (base64_encode s) = base64_encode s"
    "decode_bits 6 std_alphabet (base64_encode s) = Some (bits_of s @ replicate pad False)"
    using decode_encode_bits [of std_alphabet 6 s] alphabets by (auto simp: base64_encode_def)
  then have "bytes_of (bits_of s @ replicate pad False) = s" by (simp add: bytes_of_bits_of)
  moreover have "(8 * length s + pad) div 8 * 8 = 8 * length s" using pad(1) by simp
  ultimately show ?thesis using pad by (simp add: base64_decode_strict_def)
qed

lemma last_block_length:
  assumes "5 * n = 8 * m + pad" "pad < 5"
  shows "5 * (n div 8) + last_block (n mod 8) = m"
proof -
  obtain q r where n: "n = 8 * q + r" "r < 8" by (metis mult_div_mod_eq mod_less_divisor zero_less_numeral)
  then have "n div 8 = q" "n mod 8 = r" by simp_all
  moreover have eq: "5 * r + (5 * q) * 8 = pad + m * 8" using assms(1) n(1) by simp
  have pad: "pad = 5 * r mod 8"
    using arg_cong [OF eq, of "\<lambda>x. x mod 8"] assms(2) by (simp only: mod_mult_self1) simp
  have m: "5 * r div 8 + 5 * q = m"
    using arg_cong [OF eq, of "\<lambda>x. x div 8"] assms(2) by simp
  have "r \<in> {0, 1, 2, 3, 4, 5, 6, 7}" using n(2) by auto
  then have "5 * q + last_block r = m"
    using m pad assms(2) by (elim insertE emptyE) (simp_all add: last_block_def)
  ultimately show ?thesis by simp
qed

lemma base32_roundtrip [simp]: "base32_decode (base32_encode s) = Some s"
proof -
  obtain pad where pad: "pad < 5" "no_breaks (base32_encode s) = base32_encode s"
    "decode_bits 5 base32_alphabet (base32_encode s) = Some (bits_of s @ replicate pad False)"
    "5 * length (base32_encode s) = 8 * length s + pad"
    using decode_encode_bits [of base32_alphabet 5 s] alphabets by (auto simp: base32_encode_def)
  then have "bytes_of (bits_of s @ replicate pad False) = s" by (simp add: bytes_of_bits_of)
  then show ?thesis
    using pad last_block_length [OF pad(4,1)] by (simp add: base32_decode_def Let_def)
qed

text \<open>The test vectors of RFC 4648.\<close>

lemma encoding_examples:
  "base64_encode ''foob'' = ''Zm9vYg''" "base32_encode ''foob'' = ''MZXW6YQ''" "hex_encode ''foob'' = ''666f6f62''"
  by (code_simp, code_simp, code_simp)


section \<open>Words\<close>

unbundle bit_operations_syntax

definition put_uint64 :: "64 word \<Rightarrow> go_string" where
  "put_uint64 w = map (\<lambda>i. char_of (unat (drop_bit (8 * i) w AND 255))) (rev [0..<8])"

definition big_endian32 :: "go_string \<Rightarrow> 32 word" where
  "big_endian32 s = foldl (\<lambda>w ch. push_bit 8 w OR of_nat (code_of ch)) 0 s"

definition put_uint32 :: "32 word \<Rightarrow> go_string" where
  "put_uint32 w = map (\<lambda>i. char_of (unat (drop_bit (8 * i) w AND 255))) (rev [0..<4])"

lemma and_255: "w AND 255 = take_bit 8 (w :: 'a::len word)"
  by (simp add: take_bit_eq_mask mask_eq_exp_minus_1)

lemma unat_byte: "unat (take_bit 8 w) < 256"
proof -
  have "unat (take_bit 8 w) = take_bit 8 (unat w)" by (simp add: unsigned_take_bit_eq)
  then show ?thesis using take_bit_nat_less_exp [of 8 "unat w"] by simp
qed

lemma code_of_byte: "code_of (char_of (unat (take_bit 8 w))) = unat (take_bit 8 w)"
  using unat_byte [of w] by simp

lemma bytes_determine:
  fixes v w :: "'a::len word"
  assumes "\<forall>i < m. take_bit 8 (drop_bit (8 * i) v) = take_bit 8 (drop_bit (8 * i) w)" "LENGTH('a) \<le> 8 * m"
  shows "v = w"
proof (rule bit_word_eqI)
  fix n assume n: "n < LENGTH('a)"
  let ?i = "n div 8" and ?k = "n mod 8"
  have "?i < m" using n assms(2) by (simp add: less_mult_imp_div_less mult.commute)
  with assms(1) have "bit (take_bit 8 (drop_bit (8 * ?i) v)) ?k = bit (take_bit 8 (drop_bit (8 * ?i) w)) ?k" by simp
  then show "bit v n = bit w n" by (simp add: bit_take_bit_iff bit_drop_bit_eq)
qed

lemma length_put_uint: "length (put_uint64 w) = 8" "length (put_uint32 v) = 4"
  by (simp_all add: put_uint64_def put_uint32_def)

lemma put_uint64_inject: "put_uint64 v = put_uint64 w \<longleftrightarrow> v = w"
proof
  assume eq: "put_uint64 v = put_uint64 w"
  show "v = w"
  proof (rule bytes_determine [where m = 8])
    show "\<forall>i < 8. take_bit 8 (drop_bit (8 * i) v) = take_bit 8 (drop_bit (8 * i) w)"
    proof (intro allI impI)
      fix i :: nat assume i: "i < 8"
      have "char_of (unat (take_bit 8 (drop_bit (8 * i) v))) = (char_of (unat (take_bit 8 (drop_bit (8 * i) w))) :: char)"
        using eq i by (simp add: put_uint64_def and_255 map_eq_conv)
      then show "take_bit 8 (drop_bit (8 * i) v) = take_bit 8 (drop_bit (8 * i) w)"
        using code_of_byte [of "drop_bit (8 * i) v"] code_of_byte [of "drop_bit (8 * i) w"] by (metis word_unat_eq_iff)
    qed
  qed simp
qed simp

lemma big_endian32_put: "big_endian32 (put_uint32 w) = w"
proof -
  have list: "rev [0..<4] = [3, 2, 1, 0 :: nat]" by code_simp
  have "bit (push_bit 8 (push_bit 8 (push_bit 8 (take_bit 8 (drop_bit 24 w)) OR take_bit 8 (drop_bit 16 w)) OR
      take_bit 8 (drop_bit 8 w)) OR take_bit 8 w) n = bit w n" if "n < 32" for n
    using that by (cases "n < 8"; cases "n < 16"; cases "n < 24") (auto simp: bit_simps)
  then show ?thesis
    by (intro bit_word_eqI) (simp add: big_endian32_def put_uint32_def list and_255 unat_byte)
qed

end
