(* ===== verification/Api_Secrets.thy ===== *)
theory Api_Secrets
  imports Go_Encoding Go_Time
begin

text \<open>
  Package \<open>api/internal/secrets\<close>: token hashes, password hashes, encrypted values and one-time
  codes. Hash functions, the cipher and Argon2 are parameters, taken together in \<open>primitives\<close>;
  random bytes are arguments.
\<close>

unbundle bit_operations_syntax

record primitives =
  sha256 :: "go_string \<Rightarrow> go_string"
  hmac_sha1 :: "go_string \<Rightarrow> go_string \<Rightarrow> go_string"
  argon2_key :: "go_string \<Rightarrow> go_string \<Rightarrow> nat \<Rightarrow> nat \<Rightarrow> nat \<Rightarrow> nat \<Rightarrow> go_string"
  gcm_seal :: "go_string \<Rightarrow> go_string \<Rightarrow> go_string \<Rightarrow> go_string"
  gcm_open :: "go_string \<Rightarrow> go_string \<Rightarrow> go_string \<Rightarrow> go_string option"

section \<open>Tokens\<close>

text \<open>\<open>NewToken\<close> of 32 random bytes. Its alphabet is the one for URLs.\<close>

definition NewToken :: "go_string \<Rightarrow> go_string" where
  "NewToken bytes = encode 6 url_alphabet bytes"

definition HashToken :: "primitives \<Rightarrow> go_string \<Rightarrow> go_string" where
  "HashToken c token = hex_encode (sha256 c token)"

section \<open>Passwords\<close>

definition MinPasswordLength :: nat where "MinPasswordLength = 12"
definition MaxPasswordLength :: nat where "MaxPasswordLength = 1024"

datatype secrets_err = ErrPasswordTooShort | ErrPasswordTooLong | ErrInvalidHash
  | ErrCiphertextForm | ErrDecryptFailed | ErrTOTPSecret

definition ValidatePassword :: "go_string \<Rightarrow> secrets_err option" where
  "ValidatePassword password =
     (if length password < MinPasswordLength then Some ErrPasswordTooShort
      else if length password > MaxPasswordLength then Some ErrPasswordTooLong
      else None)"

definition argonMemoryKiB :: nat where "argonMemoryKiB = 47104"
definition argonIterations :: nat where "argonIterations = 1"
definition argonThreads :: nat where "argonThreads = 1"
definition argonKeyLength :: nat where "argonKeyLength = 32"

definition HashPassword :: "primitives \<Rightarrow> go_string \<Rightarrow> go_string \<Rightarrow> secrets_err + go_string" where
  "HashPassword c salt password =
     (case ValidatePassword password of
        Some err \<Rightarrow> Inl err
      | None \<Rightarrow>
          let key = argon2_key c password salt argonIterations argonMemoryKiB argonThreads argonKeyLength in
            Inr (''$argon2id$v='' @ itoa 19 @ ''$m='' @ itoa (int argonMemoryKiB) @ '',t='' @ itoa (int argonIterations) @
                 '',p='' @ itoa (int argonThreads) @ ''$'' @ base64_encode salt @ ''$'' @ base64_encode key))"

text \<open>\<open>fmt.Sscanf\<close>, for literals and \<open>%d\<close>: each step returns what is left of the input. White space is
  skipped before a number, and a line break there is an error; what is left at the end is ignored.\<close>

definition scan_literal :: "go_string \<Rightarrow> go_string \<Rightarrow> go_string option" where
  "scan_literal p s = (if has_prefix s p then Some (drop (length p) s) else None)"

definition scan_space :: "go_string \<Rightarrow> go_string option" where
  "scan_space s =
     (let s' = dropWhile (\<lambda>c. is_space c \<and> c \<noteq> newline) s in
        case s' of c # _ \<Rightarrow> if c = newline then None else Some s' | [] \<Rightarrow> Some s')"

definition scan_digits :: "int \<Rightarrow> go_string \<Rightarrow> (int \<times> go_string) option" where
  "scan_digits bound s =
     (let d = takeWhile is_digit s in
        if d = [] \<or> digits_val d > bound then None else Some (digits_val d, dropWhile is_digit s))"

definition scan_uint :: "nat \<Rightarrow> go_string \<Rightarrow> (nat \<times> go_string) option" where
  "scan_uint bits s =
     (case scan_space s of
        None \<Rightarrow> None
      | Some s' \<Rightarrow> map_option (\<lambda>(n, rest). (nat n, rest)) (scan_digits (2 ^ bits - 1) s'))"

definition scan_int :: "go_string \<Rightarrow> (int \<times> go_string) option" where
  "scan_int s =
     (case scan_space s of
        None \<Rightarrow> None
      | Some [] \<Rightarrow> None
      | Some (c # t) \<Rightarrow>
          if c = CHR ''-'' then map_option (\<lambda>(n, rest). (- n, rest)) (scan_digits (max_int64 + 1) t)
          else if c = CHR ''+'' then scan_digits max_int64 t
          else scan_digits max_int64 (c # t))"

record argon_params =
  ap_memory :: nat
  ap_iterations :: nat
  ap_threads :: nat

definition scan_params :: "go_string \<Rightarrow> argon_params option" where
  "scan_params s =
     Option.bind (scan_literal ''m='' s) (\<lambda>s1.
     Option.bind (scan_uint 32 s1) (\<lambda>(m, s2).
     Option.bind (scan_literal '',t='' s2) (\<lambda>s3.
     Option.bind (scan_uint 32 s3) (\<lambda>(t, s4).
     Option.bind (scan_literal '',p='' s4) (\<lambda>s5.
     Option.bind (scan_uint 8 s5) (\<lambda>(p, _).
       Some \<lparr>ap_memory = m, ap_iterations = t, ap_threads = p\<rparr>))))))"

definition decodeHash :: "go_string \<Rightarrow> (argon_params \<times> go_string \<times> go_string) option" where
  "decodeHash encoded =
     (let parts = split_on CHR ''$'' encoded in
        if length parts \<noteq> 6 \<or> parts ! 0 \<noteq> [] \<or> parts ! 1 \<noteq> ''argon2id'' then None
        else
          (case Option.bind (scan_literal ''v='' (parts ! 2)) scan_int of
             None \<Rightarrow> None
           | Some (version, _) \<Rightarrow>
               if version \<noteq> 19 then None
               else
                 (case scan_params (parts ! 3) of
                    None \<Rightarrow> None
                  | Some params \<Rightarrow>
                      if ap_memory params = 0 \<or> ap_iterations params = 0 \<or> ap_threads params = 0 then None
                      else
                        (case (base64_decode_strict (parts ! 4), base64_decode_strict (parts ! 5)) of
                           (Some salt, Some key) \<Rightarrow>
                             if salt = [] \<or> key = [] then None else Some (params, salt, key)
                         | _ \<Rightarrow> None))))"

definition VerifyPassword :: "primitives \<Rightarrow> go_string \<Rightarrow> go_string \<Rightarrow> secrets_err + bool" where
  "VerifyPassword c password encoded =
     (case decodeHash encoded of
        None \<Rightarrow> Inl ErrInvalidHash
      | Some (params, salt, want) \<Rightarrow>
          if length password > MaxPasswordLength then Inr False
          else
            let got = argon2_key c password salt (ap_iterations params) (ap_memory params) (ap_threads params) (length want)
            in Inr (got = want))"

definition NeedsRehash :: "go_string \<Rightarrow> bool" where
  "NeedsRehash encoded =
     (case decodeHash encoded of
        None \<Rightarrow> True
      | Some (params, _, _) \<Rightarrow>
          ap_memory params < argonMemoryKiB \<or> ap_iterations params < argonIterations \<or>
          ap_threads params \<noteq> argonThreads)"

section \<open>Encryption at rest\<close>

text \<open>AES-GCM with the nonce in front; a nonce has 12 bytes and the tag 16.\<close>

definition Encrypt :: "primitives \<Rightarrow> go_string \<Rightarrow> go_string \<Rightarrow> go_string \<Rightarrow> go_string" where
  "Encrypt c nonce plaintext context = base64_encode (nonce @ gcm_seal c nonce plaintext context)"

definition Decrypt :: "primitives \<Rightarrow> go_string \<Rightarrow> go_string \<Rightarrow> secrets_err + go_string" where
  "Decrypt c encoded context =
     (case base64_decode_strict encoded of
        None \<Rightarrow> Inl ErrCiphertextForm
      | Some raw \<Rightarrow>
          if length raw < 12 + 16 then Inl ErrCiphertextForm
          else (case gcm_open c (take 12 raw) (drop 12 raw) context of
                  None \<Rightarrow> Inl ErrDecryptFailed
                | Some plaintext \<Rightarrow> Inr plaintext))"

section \<open>One-time codes\<close>

definition totpDigits :: nat where "totpDigits = 6"
definition totpPeriod :: int where "totpPeriod = 30"
definition totpSkew :: int where "totpSkew = 1"

definition NewTOTPSecret :: "go_string \<Rightarrow> go_string" where
  "NewTOTPSecret bytes = base32_encode bytes"

definition upper_char :: "char \<Rightarrow> char" where
  "upper_char ch = (if is_lower ch then char_of (code_of ch - 32) else ch)"

definition decodeTOTPSecret :: "go_string \<Rightarrow> secrets_err + go_string" where
  "decodeTOTPSecret secret =
     (let normalized = map upper_char (filter (\<lambda>ch. ch \<noteq> CHR '' '') (trim_space secret));
          normalized = trim_right (\<lambda>ch. ch = CHR ''='') normalized
      in case base32_decode normalized of
           None \<Rightarrow> Inl ErrTOTPSecret
         | Some key \<Rightarrow> if key = [] then Inl ErrTOTPSecret else Inr key)"

text \<open>\<open>binary.BigEndian\<close>.\<close>

text \<open>\<open>%0*d\<close> of a number that is not negative.\<close>

definition zero_padded :: "nat \<Rightarrow> nat \<Rightarrow> go_string" where
  "zero_padded width n = replicate (width - length (itoa_nat n)) CHR ''0'' @ itoa_nat n"

definition totpAt :: "primitives \<Rightarrow> go_string \<Rightarrow> int \<Rightarrow> go_string" where
  "totpAt c key counter =
     (let sum = hmac_sha1 c key (put_uint64 (word_of_int counter));
          offset = code_of (last sum) mod 16;
          truncated = big_endian32 (take 4 (drop offset sum)) AND 0x7fffffff
      in zero_padded totpDigits (unat (truncated mod 10 ^ totpDigits)))"

text \<open>Division of Go rounds towards zero.\<close>

definition time_step :: "instant \<Rightarrow> int" where
  "time_step t = (if 0 \<le> t then t div totpPeriod else - ((- t) div totpPeriod))"

definition TOTPCode :: "primitives \<Rightarrow> go_string \<Rightarrow> instant \<Rightarrow> secrets_err + go_string" where
  "TOTPCode c secret at =
     (case decodeTOTPSecret secret of Inl e \<Rightarrow> Inl e | Inr key \<Rightarrow> Inr (totpAt c key (time_step at)))"

definition VerifyTOTP :: "primitives \<Rightarrow> go_string \<Rightarrow> go_string \<Rightarrow> instant \<Rightarrow> secrets_err + bool" where
  "VerifyTOTP c secret code now =
     (let code = trim_space code in
        if length code \<noteq> totpDigits then Inr False
        else if \<not> list_all is_digit code then Inr False
        else
          (case decodeTOTPSecret secret of
             Inl e \<Rightarrow> Inl e
           | Inr key \<Rightarrow>
               Inr (list_ex (\<lambda>offset. totpAt c key (time_step now + offset) = code) [- totpSkew..totpSkew])))"

section \<open>A stored password\<close>

lemma scan_literal_append [simp]: "scan_literal p (p @ s) = Some s"
  by (simp add: scan_literal_def)

lemma scan_digits_itoa:
  assumes "int n \<le> bound" "rest = [] \<or> \<not> is_digit (hd rest)"
  shows "scan_digits bound (itoa_nat n @ rest) = Some (int n, rest)"
proof -
  have d: "list_all is_digit (itoa_nat n)" "itoa_nat n \<noteq> []" using itoa_nat_digits by auto
  have "takeWhile is_digit rest = []" "dropWhile is_digit rest = rest" using assms(2) by (cases rest; simp)+
  then have "takeWhile is_digit (itoa_nat n @ rest) = itoa_nat n" "dropWhile is_digit (itoa_nat n @ rest) = rest"
    using d(1) by (simp_all add: list_all_iff)
  then show ?thesis using assms(1) d(2) by (simp add: scan_digits_def digits_val_itoa_nat)
qed

lemma scan_space_itoa: "scan_space (itoa_nat n @ rest) = Some (itoa_nat n @ rest)"
proof -
  obtain d t where d: "itoa_nat n = d # t" "is_digit d"
    using itoa_nat_digits [of n] by (cases "itoa_nat n") auto
  then have "\<not> is_space d" "d \<noteq> newline" by (auto simp: char_class_defs)
  with d(1) show ?thesis by (simp add: scan_space_def)
qed

lemma scan_uint_itoa:
  assumes "int n \<le> 2 ^ bits - 1" "rest = [] \<or> \<not> is_digit (hd rest)"
  shows "scan_uint bits (itoa (int n) @ rest) = Some (n, rest)"
  using scan_digits_itoa [OF assms] by (simp add: scan_uint_def scan_space_itoa itoa_def)

lemma itoa_no_dollar [simp]: "CHR ''$'' \<notin> set (itoa (int n))"
proof -
  have "\<not> is_digit CHR ''$''" by code_simp
  then show ?thesis using itoa_nat_digits [of n] by (auto simp: itoa_def list_all_iff)
qed

lemma scan_params_printed:
  assumes "int m \<le> 2 ^ 32 - 1" "int t \<le> 2 ^ 32 - 1" "int p \<le> 2 ^ 8 - 1"
  shows "scan_params (''m='' @ itoa (int m) @ '',t='' @ itoa (int t) @ '',p='' @ itoa (int p)) =
    Some \<lparr>ap_memory = m, ap_iterations = t, ap_threads = p\<rparr>"
proof -
  have c: "\<not> is_digit CHR '',''" by code_simp
  then show ?thesis
    using scan_uint_itoa [OF assms(1), of "'',t='' @ itoa (int t) @ '',p='' @ itoa (int p)"]
      scan_uint_itoa [OF assms(2), of "'',p='' @ itoa (int p)"] scan_uint_itoa [OF assms(3), of "[]"]
    unfolding scan_params_def by (simp del: append_Cons append_Nil add: bind_eq_Some_conv)
qed

lemma decodeHash_HashPassword:
  assumes "HashPassword c salt password = Inr h" "salt \<noteq> []"
    "argon2_key c password salt argonIterations argonMemoryKiB argonThreads argonKeyLength \<noteq> []"
  shows "decodeHash h = Some (\<lparr>ap_memory = argonMemoryKiB, ap_iterations = argonIterations, ap_threads = argonThreads\<rparr>,
    salt, argon2_key c password salt argonIterations argonMemoryKiB argonThreads argonKeyLength)"
proof -
  let ?key = "argon2_key c password salt argonIterations argonMemoryKiB argonThreads argonKeyLength"
  let ?params = "''m='' @ itoa (int argonMemoryKiB) @ '',t='' @ itoa (int argonIterations) @ '',p='' @ itoa (int argonThreads)"
  let ?D = "CHR ''$''"
  have h: "h = [] @ ?D # ''argon2id'' @ ?D # (''v='' @ itoa 19) @ ?D # ?params @ ?D # base64_encode salt @ ?D # base64_encode ?key"
    using assms(1) by (simp add: HashPassword_def Let_def split: option.splits)
  have v: "?D \<notin> set (''v='' @ itoa 19)" by code_simp
  have p: "?D \<notin> set ?params" by (simp add: itoa_no_dollar)
  have parts: "split_on ?D h = [[], ''argon2id'', ''v='' @ itoa 19, ?params, base64_encode salt, base64_encode ?key]"
    unfolding h by (subst split_on_append, simp, subst split_on_append, simp, subst split_on_append, rule v,
      subst split_on_append, rule p, subst split_on_append, rule base64_no_dollar, simp add: split_on_id base64_no_dollar)
  have "Option.bind (scan_literal ''v='' (''v='' @ itoa 19)) scan_int = Some (19, [])" by code_simp
  moreover have "scan_params ?params =
      Some \<lparr>ap_memory = argonMemoryKiB, ap_iterations = argonIterations, ap_threads = argonThreads\<rparr>"
    by (rule scan_params_printed) (simp_all add: argonMemoryKiB_def argonIterations_def argonThreads_def)
  ultimately show ?thesis
    unfolding decodeHash_def parts using assms(2,3)
    by (simp add: argonMemoryKiB_def argonIterations_def argonThreads_def)
qed

lemma HashPassword_ok:
  assumes "\<And>p s t m k n. length (argon2_key c p s t m k n) = n"
    and "HashPassword c salt password = Inr h" "length salt = 16"
  shows "VerifyPassword c password h = Inr True" "\<not> NeedsRehash h"
    "VerifyPassword c other h =
       Inr (length other \<le> MaxPasswordLength \<and>
            argon2_key c other salt argonIterations argonMemoryKiB argonThreads argonKeyLength =
            argon2_key c password salt argonIterations argonMemoryKiB argonThreads argonKeyLength)"
proof -
  let ?key = "argon2_key c password salt argonIterations argonMemoryKiB argonThreads argonKeyLength"
  have len: "length ?key = argonKeyLength" by (rule assms(1))
  then have "?key \<noteq> []" by (auto simp: argonKeyLength_def)
  moreover have "salt \<noteq> []" using assms(3) by auto
  ultimately have d: "decodeHash h = Some (\<lparr>ap_memory = argonMemoryKiB, ap_iterations = argonIterations, ap_threads = argonThreads\<rparr>, salt, ?key)"
    using decodeHash_HashPassword [OF assms(2)] by blast
  have "length password \<le> MaxPasswordLength"
    using assms(2) by (auto simp: HashPassword_def ValidatePassword_def split: option.splits if_splits)
  with d len show "VerifyPassword c password h = Inr True" by (simp add: VerifyPassword_def)
  from d show "\<not> NeedsRehash h" by (simp add: NeedsRehash_def)
  from d len show "VerifyPassword c other h =
       Inr (length other \<le> MaxPasswordLength \<and>
            argon2_key c other salt argonIterations argonMemoryKiB argonThreads argonKeyLength = ?key)"
    by (auto simp: VerifyPassword_def)
qed

text \<open>C19: a password that was hashed verifies against its hash, another one exactly when Argon2 gives
  it the same key, and a hash made with the current parameters is not made again. Argon2 is relied
  on to return a key of the length asked for.\<close>

theorem HashPassword_verifies:
  assumes "\<And>p s t m k n. length (argon2_key c p s t m k n) = n"
    and "HashPassword c salt password = Inr h" "length salt = 16"
  shows "VerifyPassword c password h = Inr True \<and> \<not> NeedsRehash h \<and>
    VerifyPassword c other h =
       Inr (length other \<le> MaxPasswordLength \<and>
            argon2_key c other salt argonIterations argonMemoryKiB argonThreads argonKeyLength =
            argon2_key c password salt argonIterations argonMemoryKiB argonThreads argonKeyLength)"
  using HashPassword_ok [OF assms] by simp

definition toy_primitives :: primitives where
  "toy_primitives =
     \<lparr>sha256 = (\<lambda>s. take 32 (s @ replicate 32 CHR ''.'')),
      hmac_sha1 = (\<lambda>key s. take 20 (rev s @ key @ replicate 20 CHR ''A'')),
      argon2_key = (\<lambda>p s t m k n. take n (p @ s @ replicate n CHR ''.'')),
      gcm_seal = (\<lambda>n p a. p @ replicate 16 CHR ''t''),
      gcm_open = (\<lambda>n ct a. Some (take (length ct - 16) ct))\<rparr>"

theorem HashPassword_verifies_witness:
  "\<exists>h. HashPassword toy_primitives ''0123456789abcdef'' ''correct horse'' = Inr h \<and>
     VerifyPassword toy_primitives ''correct horse'' h = Inr True \<and> \<not> NeedsRehash h \<and>
     VerifyPassword toy_primitives ''another horse'' h = Inr False"
proof -
  obtain h where h: "HashPassword toy_primitives ''0123456789abcdef'' ''correct horse'' = Inr h"
    by (simp add: HashPassword_def ValidatePassword_def MinPasswordLength_def MaxPasswordLength_def Let_def)
  have len: "\<And>p s t m k n. length (argon2_key toy_primitives p s t m k n) = n"
    by (simp add: toy_primitives_def)
  have ne: "argon2_key toy_primitives ''another horse'' s t m k argonKeyLength \<noteq>
      argon2_key toy_primitives ''correct horse'' s t m k argonKeyLength" for s t m k
    by (simp add: toy_primitives_def argonKeyLength_def numeral_eq_Suc)
  from h HashPassword_verifies [OF len h, of "''another horse''"] ne show ?thesis by simp
qed

section \<open>A stored secret\<close>

lemma Decrypt_Encrypt:
  assumes "gcm_open c nonce (gcm_seal c nonce p ctx) ctx = Some p" "16 \<le> length (gcm_seal c nonce p ctx)" "length nonce = 12"
  shows "Decrypt c (Encrypt c nonce p ctx) ctx = Inr p"
  using assms by (simp add: Decrypt_def Encrypt_def)

section \<open>One-time codes\<close>

lemma length_itoa_nat: "n < 10 ^ Suc k \<Longrightarrow> length (itoa_nat n) \<le> Suc k"
proof (induction k arbitrary: n)
  case 0
  then show ?case by (subst itoa_nat.simps) simp
next
  case (Suc k)
  then have "n div 10 < 10 ^ Suc k" by (simp add: less_mult_imp_div_less mult.commute)
  with Suc.IH have "length (itoa_nat (n div 10)) \<le> Suc k" by blast
  then show ?case by (subst itoa_nat.simps) simp
qed

lemma totpAt_form: "length (totpAt c key n) = totpDigits \<and> list_all is_digit (totpAt c key n)"
proof -
  obtain m where m: "m < 10 ^ 6" "totpAt c key n = zero_padded totpDigits m"
  proof (rule that)
    let ?w = "big_endian32 (take 4 (drop (code_of (last (hmac_sha1 c key (put_uint64 (word_of_int n)))) mod 16)
      (hmac_sha1 c key (put_uint64 (word_of_int n))))) AND 0x7fffffff"
    show "totpAt c key n = zero_padded totpDigits (unat (?w mod 10 ^ totpDigits))"
      by (simp add: totpAt_def Let_def)
    have "unat (?w mod 10 ^ totpDigits) = unat ?w mod 1000000"
      by (simp add: totpDigits_def unat_mod)
    then show "unat (?w mod 10 ^ totpDigits) < 10 ^ 6" by simp
  qed
  moreover have "length (itoa_nat m) \<le> 6" using length_itoa_nat [of m 5] m(1) by simp
  moreover have "is_digit CHR ''0''" by code_simp
  ultimately show ?thesis
    using itoa_nat_digits [of m] by (auto simp: zero_padded_def totpDigits_def list_all_iff)
qed

lemma VerifyTOTP_accepts_exactly:
  assumes "decodeTOTPSecret secret = Inr key"
  shows "VerifyTOTP c secret code now = Inr True \<longleftrightarrow>
    (\<exists>offset. - 1 \<le> offset \<and> offset \<le> 1 \<and> trim_space code = totpAt c key (time_step now + offset))"
proof -
  have eq: "list_ex (\<lambda>offset. totpAt c key (time_step now + offset) = trim_space code) [- totpSkew..totpSkew] \<longleftrightarrow>
      (\<exists>offset. - 1 \<le> offset \<and> offset \<le> 1 \<and> trim_space code = totpAt c key (time_step now + offset))"
    by (auto simp: list_ex_iff totpSkew_def)
  show ?thesis
  proof (cases "length (trim_space code) = totpDigits \<and> list_all is_digit (trim_space code)")
    case True
    then show ?thesis using assms eq by (simp add: VerifyTOTP_def Let_def)
  next
    case False
    then have "\<not> VerifyTOTP c secret code now = Inr True" by (auto simp: VerifyTOTP_def Let_def)
    with False totpAt_form show ?thesis by metis
  qed
qed

lemma base32_char: "ch \<in> set base32_alphabet \<Longrightarrow> \<not> is_space ch \<and> upper_char ch = ch \<and> ch \<noteq> CHR '' '' \<and> ch \<noteq> CHR ''=''"
proof -
  have "list_all (\<lambda>ch. \<not> is_space ch \<and> upper_char ch = ch \<and> ch \<noteq> CHR '' '' \<and> ch \<noteq> CHR ''='') base32_alphabet" by code_simp
  then show "ch \<in> set base32_alphabet \<Longrightarrow> \<not> is_space ch \<and> upper_char ch = ch \<and> ch \<noteq> CHR '' '' \<and> ch \<noteq> CHR ''=''"
    by (simp add: list_all_iff)
qed

lemma decode_NewTOTPSecret:
  assumes "bytes \<noteq> []"
  shows "decodeTOTPSecret (NewTOTPSecret bytes) = Inr bytes"
proof -
  let ?s = "base32_encode bytes"
  have in_alpha: "\<forall>ch \<in> set ?s. \<not> is_space ch \<and> upper_char ch = ch \<and> ch \<noteq> CHR '' '' \<and> ch \<noteq> CHR ''=''"
    using encode_in_alphabet [of 5 base32_alphabet _ bytes] base32_char alphabets by (simp add: base32_encode_def)
  then have "trim_space ?s = ?s" by (simp add: trim_space_id)
  moreover have "filter (\<lambda>ch. ch \<noteq> CHR '' '') ?s = ?s" using in_alpha by (simp add: filter_id_conv)
  moreover have "map upper_char ?s = ?s" using in_alpha by (simp add: map_idI)
  moreover have "trim_right (\<lambda>ch. ch = CHR ''='') ?s = ?s"
    using in_alpha last_in_set by (intro trim_right_id) blast
  ultimately show ?thesis using assms by (simp add: decodeTOTPSecret_def NewTOTPSecret_def)
qed

lemma time_step_near:
  assumes "\<bar>now - t\<bar> \<le> 30"
  shows "\<bar>time_step t - time_step now\<bar> \<le> 1"
proof -
  have d: "30 * (x div 30) \<le> x \<and> x \<le> 30 * (x div 30) + 29" for x :: int
    using mult_div_mod_eq [of 30 x] pos_mod_bound [of 30 x] pos_mod_sign [of 30 x] by linarith
  show ?thesis
    using assms d [of t] d [of now] d [of "- t"] d [of "- now"]
    unfolding time_step_def totpPeriod_def by (cases "0 \<le> t"; cases "0 \<le> now"; simp)
qed


lemma TOTP_parts:
  assumes "bytes \<noteq> []"
  shows "VerifyTOTP c (NewTOTPSecret bytes) code now = Inr True \<longleftrightarrow>
      (\<exists>offset. - 1 \<le> offset \<and> offset \<le> 1 \<and> trim_space code = totpAt c bytes (time_step now + offset))"
    and "TOTPCode c (NewTOTPSecret bytes) at = Inr shown \<Longrightarrow> \<bar>now - at\<bar> \<le> 30 \<Longrightarrow>
      VerifyTOTP c (NewTOTPSecret bytes) shown now = Inr True"
proof -
  have d: "decodeTOTPSecret (NewTOTPSecret bytes) = Inr bytes" using decode_NewTOTPSecret [OF assms(1)] .
  show "VerifyTOTP c (NewTOTPSecret bytes) code now = Inr True \<longleftrightarrow>
      (\<exists>offset. - 1 \<le> offset \<and> offset \<le> 1 \<and> trim_space code = totpAt c bytes (time_step now + offset))"
    by (rule VerifyTOTP_accepts_exactly [OF d])
  assume shown: "TOTPCode c (NewTOTPSecret bytes) at = Inr shown" and near: "\<bar>now - at\<bar> \<le> 30"
  have code: "shown = totpAt c bytes (time_step at)" using shown d by (simp add: TOTPCode_def)
  then have "\<forall>ch \<in> set shown. \<not> is_space ch"
    using totpAt_form [of c bytes "time_step at"] by (auto simp: list_all_iff char_class_defs)
  then have "trim_space shown = totpAt c bytes (time_step now + (time_step at - time_step now))"
    using code by (simp add: trim_space_id)
  moreover have "- 1 \<le> time_step at - time_step now" "time_step at - time_step now \<le> 1"
    using time_step_near [OF near] by auto
  ultimately show "VerifyTOTP c (NewTOTPSecret bytes) shown now = Inr True"
    unfolding VerifyTOTP_accepts_exactly [OF d] by blast
qed

text \<open>C20: for an enrolled secret, a code is accepted exactly when it is, up to white space around it, the
  RFC 6238 code of the current time step or of the one before or after; so the code an
  authenticator computes is accepted for thirty seconds on either side of that moment.\<close>

theorem TOTP_window:
  assumes "bytes \<noteq> []"
  shows "(VerifyTOTP c (NewTOTPSecret bytes) code now = Inr True \<longleftrightarrow>
      (\<exists>offset. - 1 \<le> offset \<and> offset \<le> 1 \<and> trim_space code = totpAt c bytes (time_step now + offset))) \<and>
    (TOTPCode c (NewTOTPSecret bytes) at = Inr shown \<and> \<bar>now - at\<bar> \<le> 30 \<longrightarrow>
      VerifyTOTP c (NewTOTPSecret bytes) shown now = Inr True)"
  using TOTP_parts [OF assms] by blast

theorem TOTP_window_witness:
  "\<exists>code. TOTPCode toy_primitives (NewTOTPSecret ''secret'') 59 = Inr code \<and>
     VerifyTOTP toy_primitives (NewTOTPSecret ''secret'') code 80 = Inr True"
proof -
  obtain code where code: "TOTPCode toy_primitives (NewTOTPSecret ''secret'') 59 = Inr code"
    using decode_NewTOTPSecret [of "''secret''"] by (simp add: TOTPCode_def)
  have "VerifyTOTP toy_primitives (NewTOTPSecret ''secret'') code 80 = Inr True"
    using TOTP_window [of "''secret''" toy_primitives "[]" 80 59 code] code by simp
  with code show ?thesis by simp
qed

end
