(* ===== verification/Api_Ratelimit.thy ===== *)
theory Api_Ratelimit
  imports Go_Prelude
begin

text \<open>
  Package \<open>api/internal/ratelimit\<close>: the limiter of sign-in attempts, counters in Redis.

  A Redis counter is its value with the instant it expires, if it does; an expired one reads as
  absent. Instants and durations are nanoseconds, except that the script sets the expiry in
  milliseconds and \<open>TTL\<close> answers in seconds. Whether a command fails is an argument.
\<close>

section \<open>The limiter\<close>

type_synonym counters = "go_string \<rightharpoonup> int \<times> int option"

record limiter =
  l_prefix :: go_string
  l_limit :: int
  l_window :: int

record rate_result =
  Allowed :: bool
  Remaining :: int
  RetryAfter :: int

definition live :: "counters \<Rightarrow> int \<Rightarrow> go_string \<Rightarrow> (int \<times> int option) option" where
  "live c now key =
     (case c key of
        Some (count, Some expiry) \<Rightarrow> if now < expiry then Some (count, Some expiry) else None
      | other \<Rightarrow> other)"

text \<open>The script: \<open>INCR\<close>, and \<open>PEXPIRE\<close> when the key has no expiry.\<close>

definition consume :: "int \<Rightarrow> int \<Rightarrow> go_string \<Rightarrow> counters \<Rightarrow> int \<times> counters" where
  "consume milliseconds now key c =
     (let (count, expiry) = (case live c now key of None \<Rightarrow> (0, None) | Some entry \<Rightarrow> entry);
          expiry' = (case expiry of None \<Rightarrow> now + 1000000 * milliseconds | Some e \<Rightarrow> e)
      in (count + 1, c(key \<mapsto> (count + 1, Some expiry'))))"

definition ttl_seconds :: "counters \<Rightarrow> int \<Rightarrow> go_string \<Rightarrow> int" where
  "ttl_seconds c now key =
     (case live c now key of
        Some (_, Some expiry) \<Rightarrow> 1000000000 * (((expiry - now) div 1000000 + 500) div 1000)
      | _ \<Rightarrow> - 1)"

definition Allow :: "limiter \<Rightarrow> bool \<Rightarrow> bool \<Rightarrow> int \<Rightarrow> go_string \<Rightarrow> counters \<Rightarrow> rate_result option \<times> counters" where
  "Allow l script_fails ttl_fails now key c =
     (let redis_key = l_prefix l @ key in
        if script_fails then (None, c)
        else
          let (count, c') = consume (l_window l div 1000000) now redis_key c in
            if count > l_limit l then
              let ttl = ttl_seconds c' now redis_key in
                (Some \<lparr>Allowed = False, Remaining = 0,
                   RetryAfter = (if ttl_fails \<or> ttl < 0 then l_window l else ttl)\<rparr>, c')
            else (Some \<lparr>Allowed = True, Remaining = l_limit l - count, RetryAfter = 0\<rparr>, c'))"

definition Reset :: "limiter \<Rightarrow> bool \<Rightarrow> go_string \<Rightarrow> counters \<Rightarrow> bool \<times> counters" where
  "Reset l del_fails key c =
     (if del_fails then (False, c) else (True, c(l_prefix l @ key := None)))"

section \<open>How many attempts get through\<close>

text \<open>The attempts at a key at the given times, with Redis answering.\<close>

fun attempts :: "limiter \<Rightarrow> go_string \<Rightarrow> int list \<Rightarrow> counters \<Rightarrow> bool list" where
  "attempts l key [] c = []"
| "attempts l key (t # ts) c =
     (case Allow l False False t key c of
        (None, c') \<Rightarrow> attempts l key ts c'
      | (Some r, c') \<Rightarrow> Allowed r # attempts l key ts c')"

definition window_ns :: "limiter \<Rightarrow> int" where
  "window_ns l = 1000000 * (l_window l div 1000000)"

definition next_counter :: "limiter \<Rightarrow> int \<Rightarrow> (int \<times> int option) option \<Rightarrow> int \<times> int" where
  "next_counter l t entry =
     (let (count, expiry) = (case entry of None \<Rightarrow> (0, None) | Some e \<Rightarrow> e)
      in (count + 1, case expiry of None \<Rightarrow> t + window_ns l | Some e \<Rightarrow> e))"

lemma Allow_next:
  assumes "next_counter l t (live c t (l_prefix l @ key)) = (n, e)"
  shows "\<exists>r. Allow l False f t key c = (Some r, c(l_prefix l @ key \<mapsto> (n, Some e))) \<and> (Allowed r \<longleftrightarrow> n \<le> l_limit l)"
  using assms
  by (auto simp: Allow_def consume_def next_counter_def window_ns_def Let_def split: prod.splits option.splits)

lemma attempts_step:
  assumes "next_counter l t (live c t (l_prefix l @ key)) = (n, e)"
  shows "attempts l key (t # ts) c = (n \<le> l_limit l) # attempts l key ts (c(l_prefix l @ key \<mapsto> (n, Some e)))"
  using Allow_next [OF assms, of False] by auto

definition passed :: "bool list \<Rightarrow> int" where
  "passed bs = int (length (filter id bs))"

lemma passed_simps [simp]: "passed [] = 0" "passed (b # bs) = (if b then 1 else 0) + passed bs"
  by (simp_all add: passed_def)

text \<open>While one window is open, what is left of the limit gets through.\<close>

lemma passed_in_window:
  assumes "c (l_prefix l @ key) = Some (n, Some e)" "\<forall>t \<in> set ts. t < e"
  shows "passed (attempts l key ts c) \<le> max 0 (l_limit l - n)"
  using assms
proof (induction ts arbitrary: c n)
  case (Cons t ts)
  have nx: "next_counter l t (live c t (l_prefix l @ key)) = (n + 1, e)"
    using Cons.prems by (simp add: live_def next_counter_def)
  have "passed (attempts l key ts (c(l_prefix l @ key \<mapsto> (n + 1, Some e)))) \<le> max 0 (l_limit l - (n + 1))"
    using Cons.prems(2) by (intro Cons.IH) auto
  then show ?case unfolding attempts_step [OF nx] by auto
qed simp

lemma passed_across_windows:
  assumes "\<forall>t \<in> set ts. t < T \<and> T \<le> t + window_ns l" "0 \<le> l_limit l"
  shows "passed (attempts l key ts c) \<le>
    (case c (l_prefix l @ key) of Some (n, _) \<Rightarrow> max 0 (l_limit l - n) | None \<Rightarrow> 0) + l_limit l"
  using assms
proof (induction ts arbitrary: c)
  case Nil
  then show ?case by (auto split: option.splits)
next
  case (Cons t ts)
  let ?k = "l_prefix l @ key"
  obtain n e where nx: "next_counter l t (live c t ?k) = (n, e)" by (cases "next_counter l t (live c t ?k)")
  let ?c = "c(?k \<mapsto> (n, Some e))"
  have later: "\<forall>u \<in> set ts. u < T \<and> T \<le> u + window_ns l" using Cons.prems(1) by auto
  have step: "passed (attempts l key (t # ts) c) = (if n \<le> l_limit l then 1 else 0) + passed (attempts l key ts ?c)"
    unfolding attempts_step [OF nx] by simp
  show ?case
  proof (cases "\<exists>m x. c ?k = Some (m, Some x) \<and> t < x")
    case True
    then obtain m x where m: "c ?k = Some (m, Some x)" "t < x" by blast
    then have "n = m + 1" using nx by (auto simp: live_def next_counter_def)
    have "passed (attempts l key ts ?c) \<le> max 0 (l_limit l - n) + l_limit l"
      using Cons.IH [OF later Cons.prems(2), of ?c] by (simp only: fun_upd_same option.case prod.case)
    with \<open>n = m + 1\<close> have "passed (attempts l key (t # ts) c) \<le> max 0 (l_limit l - m) + l_limit l"
      unfolding step by auto
    then show ?thesis using m(1) by (simp only: option.case prod.case)
  next
    case False
    then have e: "e = t + window_ns l"
      using nx by (auto simp: live_def next_counter_def split: option.splits prod.splits)
    have "\<forall>u \<in> set ts. u < e" using Cons.prems(1) e by force
    then have w: "passed (attempts l key ts ?c) \<le> max 0 (l_limit l - n)"
      by (intro passed_in_window) auto
    show ?thesis
    proof (cases "c ?k")
      case None
      then have "n = 1" using nx by (auto simp: live_def next_counter_def)
      then show ?thesis using w step None Cons.prems(2) by auto
    next
      case (Some entry)
      show ?thesis
      proof (cases entry)
        case (Pair m x)
        then have "x = None \<and> n = m + 1 \<or> n = 1"
          using False nx Some by (cases x) (auto simp: live_def next_counter_def)
        then show ?thesis using w step Some Pair Cons.prems(2) by (cases x) auto
      qed
    qed
  qed
qed

text \<open>C40: in any stretch of time not longer than the window, however the attempts are spread over it and
  whatever the counter was before, at most twice the limit of attempts at one key get through,
  the bound the package documents, as long as the counter is not reset in between.\<close>

theorem at_most_twice_the_limit:
  assumes "\<forall>t \<in> set ts. start \<le> t \<and> t < start + window_ns l" "0 \<le> l_limit l"
    "\<forall>n e. c (l_prefix l @ key) = Some (n, e) \<longrightarrow> 0 \<le> n"
  shows "int (length (filter id (attempts l key ts c))) \<le> 2 * l_limit l"
proof -
  have "\<forall>t \<in> set ts. t < start + window_ns l \<and> start + window_ns l \<le> t + window_ns l" using assms(1) by auto
  from passed_across_windows [OF this assms(2), of key c] show ?thesis
    using assms(2,3) by (auto simp: passed_def split: option.splits)
qed

definition example_limiter :: limiter where
  "example_limiter = \<lparr>l_prefix = ''login:'', l_limit = 2, l_window = 10000000\<rparr>"

theorem at_most_twice_the_limit_witness:
  "attempts example_limiter ''bob'' [4, 5, 6, 7, 8] [''login:bob'' \<mapsto> (0, Some 6)] = [True, True, True, True, False] \<and>
   int (length (filter id (attempts example_limiter ''bob'' [4, 5, 6, 7, 8] [''login:bob'' \<mapsto> (0, Some 6)]))) \<le> 4"
proof -
  have "int (length (filter id (attempts example_limiter ''bob'' [4, 5, 6, 7, 8] [''login:bob'' \<mapsto> (0, Some 6)]))) \<le>
      2 * l_limit example_limiter"
    by (rule at_most_twice_the_limit [of _ 4]) (auto simp: example_limiter_def window_ns_def)
  then show ?thesis
    by (simp add: Allow_def consume_def live_def example_limiter_def Let_def)
qed

end
