(* ===== verification/Api_Sessions.thy ===== *)
theory Api_Sessions
  imports Api_Secrets Api_Ratelimit Go_Effects Go_Netip "HOL-Library.Char_ord" "HOL-Library.List_Lexorder"
begin

text \<open>
  The stores behind sign-in: the tables \<open>users\<close>, \<open>sessions\<close>, \<open>session_token_history\<close> and the role
  tables (packages \<open>users\<close>, \<open>sessions\<close>, \<open>rbac\<close>), and the tokens kept in Redis
  (\<open>auth/tokenstore.go\<close>).

  A table is the list of its rows, and a statement is the operation on that list it stands for,
  with the unique indexes and references of the migrations. Redis keeps a value with the instant
  it expires; the three kinds of key have prefixes of their own, so each kind is a map of its own.
  Instants and durations are nanoseconds. Whether a call to a store fails is decided by the
  environment, for every call; a call that fails has no effect. One reading of the clock serves
  one operation.
\<close>

section \<open>State\<close>

record user =
  u_ID :: go_string
  u_Username :: go_string
  u_PasswordHash :: go_string
  u_Status :: go_string
  u_LastLoginAt :: "int option"

record session =
  se_ID :: go_string
  se_UserID :: go_string
  se_TokenHash :: go_string
  se_IPAddress :: "go_string option"
  se_UserAgent :: "go_string option"
  se_ExpiresAt :: int
  se_CreatedAt :: int
  se_RevokedAt :: "int option"

record claims =
  c_UserID :: go_string
  c_Username :: go_string
  c_SessionID :: go_string
  c_Permissions :: "go_string list"
  c_Roles :: "go_string list"
  c_IssuedAt :: int
  c_ImpersonatorUserID :: go_string

record challenge =
  m_UserID :: go_string
  m_Username :: go_string
  m_IPAddress :: go_string

record enrolment =
  en_UserID :: go_string
  en_Secret :: go_string
  en_Enabled :: bool

record recovery_row =
  rr_UserID :: go_string
  rr_CodeHash :: go_string
  rr_UsedAt :: "int option"

record audit_event =
  ev_UserID :: go_string
  ev_Action :: go_string
  ev_ResourceID :: go_string
  ev_IPAddress :: go_string
  ev_Status :: go_string
  ev_Metadata :: "(go_string \<times> go_string) list"

record panel =
  users :: "user list"
  sessions :: "session list"
  retired :: "(go_string \<times> go_string) list"
  user_roles :: "(go_string \<times> go_string) list"
  role_permissions :: "(go_string \<times> go_string) list"
  enrolments :: "enrolment list"
  recovery_codes :: "recovery_row list"
  access_tokens :: "go_string \<rightharpoonup> claims \<times> int"
  token_index :: "go_string \<rightharpoonup> go_string list \<times> int"
  challenges :: "go_string \<rightharpoonup> challenge \<times> int"
  throttle :: counters
  audit_trail :: "audit_event list"

datatype auth_err = ErrInvalidCredentials | ErrAccountInactive | ErrRateLimited | ErrInvalidToken
  | ErrInvalidTOTP | ErrInvalidRecoveryCode | ErrTwoFactorEnabled | ErrUserNotFound | ErrSessionNotFound
  | ErrTokenNotFound | ErrNotEnrolled | ErrNotEnabled | ErrCannotImpersonate | StoreFailed | Crypto secrets_err

datatype store_call = InsertSession | SelectSessionByHash | SelectSessionByID | RotateSession | RecordRetired
  | SelectRetired | RevokeOne | RevokeAll | SelectUserByName | SelectUserByID | UpdateLastLogin | UpdateHash
  | SelectRoles | SelectPermissions | StoreToken | ReadToken | ListTokens go_string | DropTokens go_string
  | StoreChallenge | ReadChallenge | DropChallenge | UserLimitScript | UserLimitTTL | AddressLimitScript | AddressLimitTTL
  | ResetLimit | SelectEnrolment | SelectEnabled | StoreEnrolment | ReplaceCodes | UseCode | CountCodes | DeleteEnrolment

datatype random_call = DrawRefresh | DrawAccess | DrawChallenge | DrawCodes | DrawSecret | DrawSalt

record auth_env =
  at_time :: int
  store_fails :: "store_call \<Rightarrow> bool"
  random_fails :: "random_call \<Rightarrow> bool"

type_synonym 'a panel_op = "(panel, auth_err, 'a) op"

definition store_op :: "auth_env \<Rightarrow> store_call \<Rightarrow> 'a panel_op \<Rightarrow> 'a panel_op" where
  "store_op env call m p = (if store_fails env call then (Inl StoreFailed, p) else m p)"

section \<open>Users and roles\<close>

definition StatusActive :: go_string where "StatusActive = ''active''"

definition IsActive :: "user \<Rightarrow> bool" where
  "IsActive u \<longleftrightarrow> u_Status u = StatusActive"

definition NormalizeUsername :: "go_string \<Rightarrow> go_string" where
  "NormalizeUsername name = to_lower (trim_space name)"

definition GetByUsername :: "auth_env \<Rightarrow> go_string \<Rightarrow> user panel_op" where
  "GetByUsername env name =
     store_op env SelectUserByName
       (\<lambda>p. (case find (\<lambda>u. u_Username u = NormalizeUsername name) (users p) of
                None \<Rightarrow> Inl ErrUserNotFound | Some u \<Rightarrow> Inr u, p))"

definition GetUserByID :: "auth_env \<Rightarrow> go_string \<Rightarrow> user panel_op" where
  "GetUserByID env i =
     store_op env SelectUserByID
       (\<lambda>p. (case find (\<lambda>u. u_ID u = i) (users p) of None \<Rightarrow> Inl ErrUserNotFound | Some u \<Rightarrow> Inr u, p))"

definition update_user :: "go_string \<Rightarrow> (user \<Rightarrow> user) \<Rightarrow> unit panel_op" where
  "update_user i f p =
     (if \<exists>u \<in> set (users p). u_ID u = i
      then (Inr (), p\<lparr>users := map (\<lambda>u. if u_ID u = i then f u else u) (users p)\<rparr>)
      else (Inl ErrUserNotFound, p))"

definition TouchLastLogin :: "auth_env \<Rightarrow> go_string \<Rightarrow> unit panel_op" where
  "TouchLastLogin env i = store_op env UpdateLastLogin (update_user i (\<lambda>u. u\<lparr>u_LastLoginAt := Some (at_time env)\<rparr>))"

definition UpdatePasswordHash :: "auth_env \<Rightarrow> go_string \<Rightarrow> go_string \<Rightarrow> unit panel_op" where
  "UpdatePasswordHash env i hash = store_op env UpdateHash (update_user i (\<lambda>u. u\<lparr>u_PasswordHash := hash\<rparr>))"

text \<open>\<open>ORDER BY\<close> is bytewise here.\<close>

definition RolesForUser :: "auth_env \<Rightarrow> go_string \<Rightarrow> go_string list panel_op" where
  "RolesForUser env i =
     store_op env SelectRoles (\<lambda>p. (Inr (sort [r. (u, r) \<leftarrow> user_roles p, u = i]), p))"

definition permissions_of :: "panel \<Rightarrow> go_string \<Rightarrow> go_string list" where
  "permissions_of p i =
     sort (remdups [q. (u, r) \<leftarrow> user_roles p, u = i, (r', q) \<leftarrow> role_permissions p, r' = r])"

definition PermissionsForUser :: "auth_env \<Rightarrow> go_string \<Rightarrow> go_string list panel_op" where
  "PermissionsForUser env i =
     store_op env SelectPermissions (\<lambda>p. (Inr (permissions_of p i), p))"

definition Has :: "go_string list \<Rightarrow> go_string \<Rightarrow> bool" where
  "Has permissions want = list_ex (\<lambda>q. q = want) permissions"

definition HasAll :: "go_string list \<Rightarrow> go_string list \<Rightarrow> bool" where
  "HasAll permissions want = list_all (Has permissions) want"

section \<open>Sessions\<close>

definition IsUsable :: "session \<Rightarrow> int \<Rightarrow> bool" where
  "IsUsable s now \<longleftrightarrow> se_RevokedAt s = None \<and> now < se_ExpiresAt s"

text \<open>\<open>net.SplitHostPort\<close>, its host; \<open>net.ParseIP\<close> accepts the addresses without a zone.\<close>

definition last_index :: "char \<Rightarrow> go_string \<Rightarrow> nat option" where
  "last_index c s = (if c \<in> set s then Some (length s - Suc (length (takeWhile (\<lambda>x. x \<noteq> c) (rev s)))) else None)"

definition split_host :: "go_string \<Rightarrow> go_string option" where
  "split_host s =
     (case last_index CHR '':'' s of
        None \<Rightarrow> None
      | Some i \<Rightarrow>
          if hd s = CHR ''['' then
            (let e = length (takeWhile (\<lambda>x. x \<noteq> CHR '']'') s) in
               if e = length s \<or> e + 1 \<noteq> i then None
               else if CHR ''['' \<in> set (drop 1 s) \<or> CHR '']'' \<in> set (drop (e + 1) s) then None
               else Some (take (e - 1) (drop 1 s)))
          else
            let host = take i s in
              if CHR '':'' \<in> set host \<or> CHR ''['' \<in> set s \<or> CHR '']'' \<in> set s then None else Some host)"

definition normalizeIP :: "go_string \<Rightarrow> go_string option" where
  "normalizeIP raw =
     (if raw = [] then None
      else let raw = (case split_host raw of Some host \<Rightarrow> host | None \<Rightarrow> raw) in
        case ParseAddr raw of
          None \<Rightarrow> None
        | Some a \<Rightarrow> if Zone a \<noteq> [] then None else Some raw)"

definition maxUserAgentLength :: nat where "maxUserAgentLength = 512"

definition truncate_text :: "go_string \<Rightarrow> nat \<Rightarrow> go_string option" where
  "truncate_text value limit =
     (if value = [] then None else Some (if length value > limit then take limit value else value))"

text \<open>\<open>Create\<close>: the reference to the user, the primary key and the unique index on the hash.\<close>

definition CreateSession :: "auth_env \<Rightarrow> go_string \<Rightarrow> go_string \<Rightarrow> go_string \<Rightarrow> go_string \<Rightarrow> go_string \<Rightarrow> int \<Rightarrow> session panel_op" where
  "CreateSession env new_id user_id hash address agent expires =
     store_op env InsertSession
       (\<lambda>p. if (\<forall>u \<in> set (users p). u_ID u \<noteq> user_id) \<or>
               (\<exists>s \<in> set (sessions p). se_ID s = new_id \<or> se_TokenHash s = hash)
            then (Inl StoreFailed, p)
            else
              let s = \<lparr>se_ID = new_id, se_UserID = user_id, se_TokenHash = hash,
                       se_IPAddress = normalizeIP address,
                       se_UserAgent = truncate_text agent maxUserAgentLength,
                       se_ExpiresAt = expires, se_CreatedAt = at_time env, se_RevokedAt = None\<rparr>
              in (Inr s, p\<lparr>sessions := sessions p @ [s]\<rparr>))"

definition GetByTokenHash :: "auth_env \<Rightarrow> go_string \<Rightarrow> session panel_op" where
  "GetByTokenHash env hash =
     store_op env SelectSessionByHash
       (\<lambda>p. (case find (\<lambda>s. se_TokenHash s = hash) (sessions p) of
                None \<Rightarrow> Inl ErrSessionNotFound | Some s \<Rightarrow> Inr s, p))"

definition GetSessionByID :: "auth_env \<Rightarrow> go_string \<Rightarrow> session panel_op" where
  "GetSessionByID env i =
     store_op env SelectSessionByID
       (\<lambda>p. (case find (\<lambda>s. se_ID s = i) (sessions p) of None \<Rightarrow> Inl ErrSessionNotFound | Some s \<Rightarrow> Inr s, p))"

text \<open>\<open>Rotate\<close>: both statements in one transaction, which an error takes back.\<close>

definition Rotate :: "auth_env \<Rightarrow> go_string \<Rightarrow> go_string \<Rightarrow> int \<Rightarrow> session panel_op" where
  "Rotate env old_hash new_hash expires p =
     (if store_fails env RotateSession then (Inl StoreFailed, p)
      else
        (case find (\<lambda>s. se_TokenHash s = old_hash \<and> IsUsable s (at_time env)) (sessions p) of
           None \<Rightarrow> (Inl ErrSessionNotFound, p)
         | Some s \<Rightarrow>
             if \<exists>s' \<in> set (sessions p). se_TokenHash s' = new_hash \<and> se_ID s' \<noteq> se_ID s then (Inl StoreFailed, p)
             else if store_fails env RecordRetired then (Inl StoreFailed, p)
             else
               let s' = s\<lparr>se_TokenHash := new_hash, se_ExpiresAt := expires\<rparr> in
                 (Inr s',
                  p\<lparr>sessions := map (\<lambda>x. if se_ID x = se_ID s then s' else x) (sessions p),
                    retired := (if old_hash \<in> fst ` set (retired p) then retired p
                                else retired p @ [(old_hash, se_ID s)])\<rparr>)))"

definition FindRetiredToken :: "auth_env \<Rightarrow> go_string \<Rightarrow> go_string panel_op" where
  "FindRetiredToken env hash =
     store_op env SelectRetired
       (\<lambda>p. (case map_of (retired p) hash of None \<Rightarrow> Inl ErrSessionNotFound | Some i \<Rightarrow> Inr i, p))"

definition revoke_where :: "int \<Rightarrow> (session \<Rightarrow> bool) \<Rightarrow> session list \<Rightarrow> session list" where
  "revoke_where now P = map (\<lambda>s. if P s \<and> se_RevokedAt s = None then s\<lparr>se_RevokedAt := Some now\<rparr> else s)"

definition Revoke :: "auth_env \<Rightarrow> go_string \<Rightarrow> unit panel_op" where
  "Revoke env i =
     store_op env RevokeOne
       (\<lambda>p. (Inr (), p\<lparr>sessions := revoke_where (at_time env) (\<lambda>s. se_ID s = i) (sessions p)\<rparr>))"

definition RevokeAllForUser :: "auth_env \<Rightarrow> go_string \<Rightarrow> go_string list panel_op" where
  "RevokeAllForUser env i =
     store_op env RevokeAll
       (\<lambda>p. (Inr [se_ID s. s \<leftarrow> sessions p, se_UserID s = i \<and> se_RevokedAt s = None],
             p\<lparr>sessions := revoke_where (at_time env) (\<lambda>s. se_UserID s = i) (sessions p)\<rparr>))"

text \<open>\<open>DeleteExpired\<close>; the history of a deleted session goes with it.\<close>

definition DeleteExpired :: "int \<Rightarrow> panel \<Rightarrow> panel" where
  "DeleteExpired cutoff p =
     (let kept = filter (\<lambda>s. cutoff \<le> se_ExpiresAt s) (sessions p) in
        p\<lparr>sessions := kept, retired := filter (\<lambda>(_, i). i \<in> se_ID ` set kept) (retired p)\<rparr>)"

section \<open>Tokens in Redis\<close>

definition accessTokenPrefix :: go_string where "accessTokenPrefix = ''jothost:access:''"
definition sessionIndexPrefix :: go_string where "sessionIndexPrefix = ''jothost:session_tokens:''"
definition mfaChallengePrefix :: go_string where "mfaChallengePrefix = ''jothost:mfa:''"

definition unexpired :: "int \<Rightarrow> ('v \<times> int) option \<Rightarrow> 'v option" where
  "unexpired now entry = (case entry of Some (v, e) \<Rightarrow> if now < e then Some v else None | None \<Rightarrow> None)"

definition access_key :: "primitives \<Rightarrow> go_string \<Rightarrow> go_string" where
  "access_key c token = accessTokenPrefix @ HashToken c token"

definition minute :: int where "minute = 60000000000"

definition Issue :: "primitives \<Rightarrow> auth_env \<Rightarrow> int \<Rightarrow> go_string \<Rightarrow> claims \<Rightarrow> go_string panel_op" where
  "Issue c env ttl bytes cl p =
     (if random_fails env DrawAccess then (Inl StoreFailed, p)
      else
        let token = NewToken bytes; key = access_key c token;
            index = sessionIndexPrefix @ c_SessionID cl;
            members = (case unexpired (at_time env) (token_index p index) of None \<Rightarrow> [] | Some m \<Rightarrow> m)
        in if store_fails env StoreToken then (Inl StoreFailed, p)
           else (Inr token,
             p\<lparr>access_tokens := (access_tokens p)(key \<mapsto> (cl, at_time env + ttl)),
               token_index := (token_index p)(index \<mapsto> (List.insert key members, at_time env + ttl + minute))\<rparr>))"

definition Lookup :: "primitives \<Rightarrow> auth_env \<Rightarrow> go_string \<Rightarrow> claims panel_op" where
  "Lookup c env token =
     (if token = [] then fail_with ErrTokenNotFound
      else store_op env ReadToken
        (\<lambda>p. (case unexpired (at_time env) (access_tokens p (access_key c token)) of
                 None \<Rightarrow> Inl ErrTokenNotFound | Some cl \<Rightarrow> Inr cl, p)))"

definition RevokeSession :: "auth_env \<Rightarrow> go_string \<Rightarrow> unit panel_op" where
  "RevokeSession env i p =
     (let index = sessionIndexPrefix @ i in
        if store_fails env (ListTokens i) then (Inl StoreFailed, p)
        else
          let members = (case unexpired (at_time env) (token_index p index) of None \<Rightarrow> [] | Some m \<Rightarrow> m) in
            if store_fails env (DropTokens i) then (Inl StoreFailed, p)
            else (Inr (), p\<lparr>access_tokens := (\<lambda>k. if k \<in> set members then None else access_tokens p k),
                            token_index := (token_index p)(index := None)\<rparr>))"

fun RevokeSessions :: "auth_env \<Rightarrow> go_string list \<Rightarrow> unit panel_op" where
  "RevokeSessions env [] = return_op ()"
| "RevokeSessions env (i # ids) = try_then (RevokeSession env i) (\<lambda>_. RevokeSessions env ids)"

definition challenge_key :: "primitives \<Rightarrow> go_string \<Rightarrow> go_string" where
  "challenge_key c token = mfaChallengePrefix @ HashToken c token"

definition IssueMFAChallenge :: "primitives \<Rightarrow> auth_env \<Rightarrow> int \<Rightarrow> go_string \<Rightarrow> challenge \<Rightarrow> go_string panel_op" where
  "IssueMFAChallenge c env ttl bytes ch p =
     (if random_fails env DrawChallenge \<or> store_fails env StoreChallenge then (Inl StoreFailed, p)
      else let token = NewToken bytes in
        (Inr token, p\<lparr>challenges := (challenges p)(challenge_key c token \<mapsto> (ch, at_time env + ttl))\<rparr>))"

definition PeekMFAChallenge :: "primitives \<Rightarrow> auth_env \<Rightarrow> go_string \<Rightarrow> challenge panel_op" where
  "PeekMFAChallenge c env token =
     (if token = [] then fail_with ErrTokenNotFound
      else store_op env ReadChallenge
        (\<lambda>p. (case unexpired (at_time env) (challenges p (challenge_key c token)) of
                 None \<Rightarrow> Inl ErrTokenNotFound | Some ch \<Rightarrow> Inr ch, p)))"

definition ConsumeMFAChallenge :: "primitives \<Rightarrow> auth_env \<Rightarrow> go_string \<Rightarrow> unit panel_op" where
  "ConsumeMFAChallenge c env token =
     store_op env DropChallenge (\<lambda>p. (Inr (), p\<lparr>challenges := (challenges p)(challenge_key c token := None)\<rparr>))"

end
