(* ===== verification/Api_Twofactor.thy ===== *)
theory Api_Twofactor
  imports Api_Sessions
begin

text \<open>
  Package \<open>api/internal/twofactor\<close>: enrolment of a one-time code secret (\<open>twofactor.go\<close>) and the
  recovery codes that stand in for it (\<open>recovery.go\<close>). Random draws are arguments.
\<close>

section \<open>Recovery codes\<close>

definition RecoveryCodeCount :: nat where "RecoveryCodeCount = 10"
definition recoveryCodeLength :: nat where "recoveryCodeLength = 16"

definition recoveryAlphabet :: go_string where
  "recoveryAlphabet = ''23456789abcdefghjkmnpqrstuvwxyz''"

fun format_from :: "nat \<Rightarrow> go_string \<Rightarrow> go_string" where
  "format_from i [] = []"
| "format_from i (r # raw) = (if i > 0 \<and> i mod 4 = 0 then [CHR ''-''] else []) @ r # format_from (Suc i) raw"

definition formatRecoveryCode :: "go_string \<Rightarrow> go_string" where
  "formatRecoveryCode raw = format_from 0 raw"

text \<open>\<open>draws\<close> are the numbers drawn for one code, each below the size of the alphabet.\<close>

definition GenerateRecoveryCodes :: "nat list list \<Rightarrow> go_string list" where
  "GenerateRecoveryCodes draws = map (\<lambda>ns. formatRecoveryCode (map (\<lambda>n. recoveryAlphabet ! n) ns)) draws"

definition separator :: "char \<Rightarrow> bool" where
  "separator r \<longleftrightarrow> r = CHR ''-'' \<or> r = CHR '' '' \<or> r = CHR 0x09"

fun normalize_loop :: "go_string \<Rightarrow> go_string option" where
  "normalize_loop [] = Some []"
| "normalize_loop (r # s) =
     (if separator r then normalize_loop s
      else if r \<in> set recoveryAlphabet then map_option ((#) r) (normalize_loop s)
      else None)"

definition NormalizeRecoveryCode :: "go_string \<Rightarrow> go_string option" where
  "NormalizeRecoveryCode input =
     (case normalize_loop (to_lower input) of
        None \<Rightarrow> None
      | Some out \<Rightarrow> if length out \<noteq> recoveryCodeLength then None else Some out)"

definition recoveryHashLabel :: go_string where
  "recoveryHashLabel = ''jothost two-factor recovery code v1''"

definition hashRecoveryCode :: "primitives \<Rightarrow> go_string \<Rightarrow> go_string \<Rightarrow> go_string" where
  "hashRecoveryCode c user_id normalized =
     hex_encode (sha256 c (recoveryHashLabel @ [null_byte] @ user_id @ [null_byte] @ normalized))"

section \<open>Enrolment\<close>

definition encryptionContext :: "go_string \<Rightarrow> go_string" where
  "encryptionContext user_id = ''two_factor_auth:'' @ user_id"

definition GetEnrolment :: "auth_env \<Rightarrow> go_string \<Rightarrow> enrolment panel_op" where
  "GetEnrolment env i =
     store_op env SelectEnrolment
       (\<lambda>p. (case find (\<lambda>e. en_UserID e = i) (enrolments p) of None \<Rightarrow> Inl ErrNotEnrolled | Some e \<Rightarrow> Inr e, p))"

definition IsEnabled :: "auth_env \<Rightarrow> go_string \<Rightarrow> bool panel_op" where
  "IsEnabled env i =
     store_op env SelectEnabled
       (\<lambda>p. (case find (\<lambda>e. en_UserID e = i) (enrolments p) of None \<Rightarrow> Inr False | Some e \<Rightarrow> Inr (en_Enabled e), p))"

text \<open>\<open>INSERT ... ON CONFLICT (user_id) DO UPDATE\<close>.\<close>

definition upsert_enrolment :: "go_string \<Rightarrow> go_string \<Rightarrow> enrolment list \<Rightarrow> enrolment list" where
  "upsert_enrolment i secret es =
     (if \<exists>e \<in> set es. en_UserID e = i
      then map (\<lambda>e. if en_UserID e = i then e\<lparr>en_Secret := secret, en_Enabled := False\<rparr> else e) es
      else es @ [\<lparr>en_UserID = i, en_Secret = secret, en_Enabled = False\<rparr>])"

definition StartEnrolment :: "primitives \<Rightarrow> auth_env \<Rightarrow> go_string \<Rightarrow> go_string \<Rightarrow> go_string \<Rightarrow> go_string panel_op" where
  "StartEnrolment c env bytes nonce i =
     try_then (IsEnabled env i) (\<lambda>enabled.
       if enabled then fail_with ErrTwoFactorEnabled
       else if random_fails env DrawSecret then fail_with StoreFailed
       else
         let secret = NewTOTPSecret bytes; ciphertext = Encrypt c nonce secret (encryptionContext i) in
           store_op env StoreEnrolment
             (\<lambda>p. if \<forall>u \<in> set (users p). u_ID u \<noteq> i then (Inl StoreFailed, p)
                  else (Inr secret, p\<lparr>enrolments := upsert_enrolment i ciphertext (enrolments p)\<rparr>)))"

definition VerifyCode :: "primitives \<Rightarrow> auth_env \<Rightarrow> go_string \<Rightarrow> go_string \<Rightarrow> bool panel_op" where
  "VerifyCode c env i code =
     try_then (GetEnrolment env i) (\<lambda>e.
       case Decrypt c (en_Secret e) (encryptionContext i) of
         Inl err \<Rightarrow> fail_with (Crypto err)
       | Inr secret \<Rightarrow>
           (case VerifyTOTP c secret code (at_time env div 1000000000) of
              Inl err \<Rightarrow> fail_with (Crypto err)
            | Inr valid \<Rightarrow> return_op valid))"

text \<open>\<open>Disable\<close>; the recovery codes go with the row.\<close>

definition Disable :: "auth_env \<Rightarrow> go_string \<Rightarrow> unit panel_op" where
  "Disable env i =
     store_op env DeleteEnrolment
       (\<lambda>p. (Inr (), p\<lparr>enrolments := filter (\<lambda>e. en_UserID e \<noteq> i) (enrolments p),
                       recovery_codes := filter (\<lambda>r. rr_UserID r \<noteq> i) (recovery_codes p)\<rparr>))"

section \<open>Sets of codes\<close>

text \<open>\<open>replaceRecoveryCodes\<close> inside a transaction: \<open>None\<close> is an error, which takes everything back.
  A user cannot have two codes with one hash.\<close>

definition replaceRecoveryCodes :: "primitives \<Rightarrow> go_string \<Rightarrow> go_string list \<Rightarrow> recovery_row list \<Rightarrow> recovery_row list option" where
  "replaceRecoveryCodes c i codes rows =
     (let normalized = map NormalizeRecoveryCode codes;
          hashes = map (hashRecoveryCode c i) (map the normalized)
      in if None \<in> set normalized \<or> \<not> distinct hashes then None
         else Some (filter (\<lambda>r. rr_UserID r \<noteq> i) rows @
                    map (\<lambda>h. \<lparr>rr_UserID = i, rr_CodeHash = h, rr_UsedAt = None\<rparr>) hashes))"

definition EnableWithRecoveryCodes :: "primitives \<Rightarrow> auth_env \<Rightarrow> nat list list \<Rightarrow> go_string \<Rightarrow> go_string list panel_op" where
  "EnableWithRecoveryCodes c env draws i =
     (if random_fails env DrawCodes then fail_with StoreFailed
      else
        let codes = GenerateRecoveryCodes draws in
          store_op env ReplaceCodes
            (\<lambda>p. if \<forall>e \<in> set (enrolments p). en_UserID e \<noteq> i then (Inl ErrNotEnrolled, p)
                 else (case replaceRecoveryCodes c i codes (recovery_codes p) of
                         None \<Rightarrow> (Inl StoreFailed, p)
                       | Some rows \<Rightarrow>
                           (Inr codes,
                            p\<lparr>enrolments := map (\<lambda>e. if en_UserID e = i then e\<lparr>en_Enabled := True\<rparr> else e) (enrolments p),
                              recovery_codes := rows\<rparr>))))"

definition RegenerateRecoveryCodes :: "primitives \<Rightarrow> auth_env \<Rightarrow> nat list list \<Rightarrow> go_string \<Rightarrow> go_string list panel_op" where
  "RegenerateRecoveryCodes c env draws i =
     (if random_fails env DrawCodes then fail_with StoreFailed
      else
        let codes = GenerateRecoveryCodes draws in
          store_op env ReplaceCodes
            (\<lambda>p. case find (\<lambda>e. en_UserID e = i) (enrolments p) of
                   None \<Rightarrow> (Inl ErrNotEnabled, p)
                 | Some e \<Rightarrow>
                     if \<not> en_Enabled e then (Inl ErrNotEnabled, p)
                     else (case replaceRecoveryCodes c i codes (recovery_codes p) of
                             None \<Rightarrow> (Inl StoreFailed, p)
                           | Some rows \<Rightarrow> (Inr codes, p\<lparr>recovery_codes := rows\<rparr>))))"

definition RecoveryCodesRemaining :: "auth_env \<Rightarrow> go_string \<Rightarrow> nat panel_op" where
  "RecoveryCodesRemaining env i =
     store_op env CountCodes
       (\<lambda>p. (Inr (length (filter (\<lambda>r. rr_UserID r = i \<and> rr_UsedAt r = None) (recovery_codes p))), p))"

text \<open>The rows the statement of \<open>UseRecoveryCode\<close> matches: an unused code of a user whose second factor
  is on.\<close>

definition spendable :: "panel \<Rightarrow> go_string \<Rightarrow> go_string \<Rightarrow> recovery_row \<Rightarrow> bool" where
  "spendable p i hash r \<longleftrightarrow>
     rr_UserID r = i \<and> rr_CodeHash r = hash \<and> rr_UsedAt r = None \<and>
     (\<exists>e \<in> set (enrolments p). en_UserID e = i \<and> en_Enabled e)"

definition mark_used :: "int \<Rightarrow> (recovery_row \<Rightarrow> bool) \<Rightarrow> recovery_row list \<Rightarrow> recovery_row list" where
  "mark_used now P rows = map (\<lambda>r. if P r then r\<lparr>rr_UsedAt := Some now\<rparr> else r) rows"

definition UseRecoveryCode :: "primitives \<Rightarrow> auth_env \<Rightarrow> go_string \<Rightarrow> go_string \<Rightarrow> (bool \<times> nat) panel_op" where
  "UseRecoveryCode c env i input =
     (case NormalizeRecoveryCode input of
        None \<Rightarrow> return_op (False, 0)
      | Some normalized \<Rightarrow>
          let hash = hashRecoveryCode c i normalized in
            try_then
              (store_op env UseCode
                (\<lambda>p. (Inr (length (filter (spendable p i hash) (recovery_codes p))),
                      p\<lparr>recovery_codes := mark_used (at_time env) (spendable p i hash) (recovery_codes p)\<rparr>)))
              (\<lambda>affected.
                 if affected \<noteq> 1 then return_op (False, 0)
                 else try_then (RecoveryCodesRemaining env i) (\<lambda>remaining. return_op (True, remaining))))"

section \<open>Writing and reading a code\<close>

lemma recovery_char:
  assumes "r \<in> set recoveryAlphabet"
  shows "lower_char r = r" "\<not> separator r"
proof -
  have "list_all (\<lambda>r. lower_char r = r \<and> \<not> separator r) recoveryAlphabet" by code_simp
  with assms show "lower_char r = r" "\<not> separator r" by (simp_all add: list_all_iff)
qed

lemma normalize_loop_filter:
  "set (filter (\<lambda>r. \<not> separator r) s) \<subseteq> set recoveryAlphabet \<Longrightarrow>
     normalize_loop s = Some (filter (\<lambda>r. \<not> separator r) s)"
  by (induction s) (auto split: if_splits)

lemma format_from_filter:
  "set raw \<subseteq> set recoveryAlphabet \<Longrightarrow> filter (\<lambda>r. \<not> separator r) (format_from i raw) = raw"
  using recovery_char by (induction raw arbitrary: i) (auto simp: separator_def)

lemma separator_lower [simp]: "separator (lower_char r) = separator r"
proof (cases "is_upper r")
  case True
  then have "65 \<le> code_of r" "code_of r \<le> 90" by (auto simp: char_class_defs)
  moreover from this have "97 \<le> code_of (lower_char r)" using True by (simp add: code_of_lower_char)
  ultimately show ?thesis by (auto simp: separator_def)
qed (simp add: lower_char_id)

lemma to_lower_filter: "filter (\<lambda>r. \<not> separator r) (to_lower s) = to_lower (filter (\<lambda>r. \<not> separator r) s)"
  by (simp add: to_lower_def filter_map comp_def)

text \<open>Whatever a typist does with case, spaces and dashes, the code is read as what it was.\<close>

lemma NormalizeRecoveryCode_forgives:
  assumes "set raw \<subseteq> set recoveryAlphabet" "length raw = recoveryCodeLength"
    "to_lower (filter (\<lambda>r. \<not> separator r) typed) = raw"
  shows "NormalizeRecoveryCode typed = Some raw"
  using normalize_loop_filter [of "to_lower typed"] assms by (simp add: NormalizeRecoveryCode_def to_lower_filter)

lemma Normalize_format:
  assumes "set raw \<subseteq> set recoveryAlphabet" "length raw = recoveryCodeLength"
  shows "NormalizeRecoveryCode (formatRecoveryCode raw) = Some raw"
proof (rule NormalizeRecoveryCode_forgives [OF assms])
  have "to_lower raw = raw" using recovery_char(1) assms(1) by (auto simp: to_lower_def intro: map_idI)
  then show "to_lower (filter (\<lambda>r. \<not> separator r) (formatRecoveryCode raw)) = raw"
    using format_from_filter [OF assms(1)] by (simp add: formatRecoveryCode_def)
qed

section \<open>Spending a code\<close>

lemma filter_eq_single: "distinct hs \<Longrightarrow> h \<in> set hs \<Longrightarrow> filter (\<lambda>x. x = h) hs = [h]"
  by (induction hs) (auto simp: filter_empty_conv)

text \<open>The rows a fresh set of codes leaves, and what spending does to them.\<close>

definition fresh_codes :: "go_string \<Rightarrow> go_string list \<Rightarrow> recovery_row list \<Rightarrow> recovery_row list" where
  "fresh_codes i hashes others = others @ map (\<lambda>h. \<lparr>rr_UserID = i, rr_CodeHash = h, rr_UsedAt = None\<rparr>) hashes"

lemma replaceRecoveryCodes_Some:
  assumes "replaceRecoveryCodes c i codes rows = Some rows'"
  shows "\<exists>raws. map NormalizeRecoveryCode codes = map Some raws \<and> distinct (map (hashRecoveryCode c i) raws) \<and>
    rows' = fresh_codes i (map (hashRecoveryCode c i) raws) (filter (\<lambda>r. rr_UserID r \<noteq> i) rows)"
proof -
  let ?raws = "map the (map NormalizeRecoveryCode codes)"
  have none: "None \<notin> set (map NormalizeRecoveryCode codes)"
    and d: "distinct (map (hashRecoveryCode c i) ?raws)"
    and rows: "rows' = fresh_codes i (map (hashRecoveryCode c i) ?raws) (filter (\<lambda>r. rr_UserID r \<noteq> i) rows)"
    using assms by (auto simp: replaceRecoveryCodes_def Let_def fresh_codes_def comp_assoc split: if_splits)
  have "map NormalizeRecoveryCode codes = map Some ?raws" using none by (auto simp: image_iff)
  with d rows show ?thesis by blast
qed

lemma spend_fresh:
  assumes "recovery_codes p = fresh_codes i hashes others" "\<forall>r \<in> set others. rr_UserID r \<noteq> i"
    "distinct hashes" "hash \<in> set hashes" "\<exists>e \<in> set (enrolments p). en_UserID e = i \<and> en_Enabled e"
  shows "length (filter (spendable p i hash) (recovery_codes p)) = 1"
    and "length (filter (\<lambda>r. rr_UserID r = i \<and> rr_UsedAt r = None)
           (mark_used t (spendable p i hash) (recovery_codes p))) = length hashes - 1"
proof -
  have sp: "spendable p i hash r \<longleftrightarrow> rr_UserID r = i \<and> rr_CodeHash r = hash \<and> rr_UsedAt r = None" for r
    using assms(5) by (auto simp: spendable_def)
  have o: "filter (spendable p i hash) others = []" using assms(2) by (auto simp: sp filter_empty_conv)
  show one: "length (filter (spendable p i hash) (recovery_codes p)) = 1"
    using filter_eq_single [OF assms(3,4)] o
    by (simp add: assms(1) fresh_codes_def sp filter_map comp_def)
  have "length (filter (\<lambda>h. h \<noteq> hash) hashes) + length (filter (\<lambda>h. h = hash) hashes) = length hashes"
    using sum_length_filter_compl [of "\<lambda>h. h = hash" hashes] by simp
  then have "length (filter (\<lambda>h. h \<noteq> hash) hashes) = length hashes - 1"
    using filter_eq_single [OF assms(3,4)] by simp
  moreover have "filter (\<lambda>r. rr_UserID r = i \<and> rr_UsedAt r = None)
      (mark_used t (spendable p i hash) others) = []"
    using assms(2) by (auto simp: filter_empty_conv mark_used_def)
  ultimately show "length (filter (\<lambda>r. rr_UserID r = i \<and> rr_UsedAt r = None)
           (mark_used t (spendable p i hash) (recovery_codes p))) = length hashes - 1"
    unfolding assms(1) fresh_codes_def mark_used_def map_append filter_append
    by (simp add: sp filter_map comp_def map_map)
qed

lemma spent_not_spendable:
  "filter (spendable (p\<lparr>recovery_codes := rows\<rparr>) i hash)
     (mark_used t (spendable p i hash) (recovery_codes p)) = []"
proof -
  have "\<not> spendable (p\<lparr>recovery_codes := rows\<rparr>) i hash (if spendable p i hash r then r\<lparr>rr_UsedAt := Some t\<rparr> else r)" for r
    by (simp add: spendable_def)
  then show ?thesis unfolding filter_empty_conv mark_used_def set_map by blast
qed

lemma mark_used_none: "filter P rows = [] \<Longrightarrow> mark_used t P rows = rows"
  by (induction rows) (auto simp: mark_used_def split: if_splits)

text \<open>C10: every code of a fresh set, typed with whatever case, spaces and dashes, signs its owner in
  once and says how many are left, and the same code is refused from then on.\<close>

theorem recovery_code_works_once:
  assumes "EnableWithRecoveryCodes c env draws i p = (Inr codes, p1)" "code \<in> set codes"
    "NormalizeRecoveryCode typed = NormalizeRecoveryCode code" "NormalizeRecoveryCode again = NormalizeRecoveryCode code"
    "\<And>env'. env' \<in> {env1, env2} \<Longrightarrow> \<not> store_fails env' UseCode \<and> \<not> store_fails env' CountCodes"
  shows "\<exists>p2. UseRecoveryCode c env1 i typed p1 = (Inr (True, length codes - 1), p2) \<and>
    UseRecoveryCode c env2 i again p2 = (Inr (False, 0), p2)"
proof -
  obtain rows where rows: "replaceRecoveryCodes c i codes (recovery_codes p) = Some rows"
    and p1: "p1 = p\<lparr>enrolments := map (\<lambda>e. if en_UserID e = i then e\<lparr>en_Enabled := True\<rparr> else e) (enrolments p), recovery_codes := rows\<rparr>"
    and enrolled: "\<exists>e \<in> set (enrolments p). en_UserID e = i"
    using assms(1) by (auto simp: EnableWithRecoveryCodes_def Let_def store_op_def fail_with_def split: if_splits option.splits)
  obtain raws where raws: "map NormalizeRecoveryCode codes = map Some raws" "distinct (map (hashRecoveryCode c i) raws)"
    and rows': "rows = fresh_codes i (map (hashRecoveryCode c i) raws) (filter (\<lambda>r. rr_UserID r \<noteq> i) (recovery_codes p))"
    using replaceRecoveryCodes_Some [OF rows] by blast
  have "NormalizeRecoveryCode code \<in> set (map Some raws)"
    unfolding raws(1) [symmetric] using assms(2) by simp
  then obtain raw where raw: "NormalizeRecoveryCode code = Some raw" "raw \<in> set raws" by auto
  let ?hash = "hashRecoveryCode c i raw"
  let ?rows = "mark_used (at_time env1) (spendable p1 i ?hash) (recovery_codes p1)"
  have len: "length raws = length codes" using arg_cong [OF raws(1), of length] by simp
  obtain e where e: "e \<in> set (enrolments p)" "en_UserID e = i" using enrolled by blast
  then have on: "\<exists>e \<in> set (enrolments p1). en_UserID e = i \<and> en_Enabled e"
    by (intro bexI [of _ "e\<lparr>en_Enabled := True\<rparr>"]) (auto simp: p1 image_iff)
  have rec: "recovery_codes p1 = fresh_codes i (map (hashRecoveryCode c i) raws) (filter (\<lambda>r. rr_UserID r \<noteq> i) (recovery_codes p))"
    by (simp add: p1 rows')
  have others: "\<forall>r \<in> set (filter (\<lambda>r. rr_UserID r \<noteq> i) (recovery_codes p)). rr_UserID r \<noteq> i" by simp
  have mem: "?hash \<in> set (map (hashRecoveryCode c i) raws)" using raw(2) by simp
  note spend = spend_fresh [OF rec others raws(2) mem on, unfolded length_map len]
  have ok: "\<not> store_fails env1 UseCode" "\<not> store_fails env1 CountCodes" "\<not> store_fails env2 UseCode"
    using assms(5) by auto
  have first: "UseRecoveryCode c env1 i typed p1 = (Inr (True, length codes - 1), p1\<lparr>recovery_codes := ?rows\<rparr>)"
    using spend(1) spend(2) [of "at_time env1"] ok assms(3) raw(1)
    by (simp add: UseRecoveryCode_def Let_def try_then_def store_op_def RecoveryCodesRemaining_def return_op_def)
  have gone: "filter (spendable (p1\<lparr>recovery_codes := ?rows\<rparr>) i ?hash) ?rows = []" by (rule spent_not_spendable)
  have "UseRecoveryCode c env2 i again (p1\<lparr>recovery_codes := ?rows\<rparr>) = (Inr (False, 0), p1\<lparr>recovery_codes := ?rows\<rparr>)"
    using ok(3) assms(4) raw(1) gone mark_used_none [OF gone, of "at_time env2"]
    by (simp add: UseRecoveryCode_def Let_def try_then_def store_op_def return_op_def)
  with first show ?thesis by blast
qed

text \<open>Two draws for a user who has enrolled; the stores answer.\<close>

definition calm :: "int \<Rightarrow> auth_env" where
  "calm t = \<lparr>at_time = t, store_fails = (\<lambda>_. False), random_fails = (\<lambda>_. False)\<rparr>"

definition empty_panel :: panel where
  "empty_panel =
     \<lparr>users = [], sessions = [], retired = [], user_roles = [], role_permissions = [], enrolments = [],
      recovery_codes = [], access_tokens = Map.empty, token_index = Map.empty, challenges = Map.empty,
      throttle = Map.empty, audit_trail = []\<rparr>"

text \<open>A hash that is not one: it keeps its input, so no two inputs collide.\<close>

definition open_primitives :: primitives where
  "open_primitives = toy_primitives\<lparr>sha256 := (\<lambda>s. s)\<rparr>"

theorem recovery_code_works_once_witness:
  "\<exists>codes p1 p2. EnableWithRecoveryCodes open_primitives (calm 0) [replicate 16 0, replicate 16 2] ''u1''
      (empty_panel\<lparr>enrolments := [\<lparr>en_UserID = ''u1'', en_Secret = [], en_Enabled = False\<rparr>]\<rparr>) = (Inr codes, p1) \<and>
     UseRecoveryCode open_primitives (calm 5) ''u1'' ''2222 2222 2222 2222'' p1 = (Inr (True, 1), p2) \<and>
     UseRecoveryCode open_primitives (calm 9) ''u1'' ''2222-2222-2222-2222'' p2 = (Inr (False, 0), p2)"
proof -
  let ?p = "empty_panel\<lparr>enrolments := [\<lparr>en_UserID = ''u1'', en_Secret = [], en_Enabled = False\<rparr>]\<rparr>"
  let ?codes = "[''2222-2222-2222-2222'', ''4444-4444-4444-4444'']"
  have codes: "GenerateRecoveryCodes [replicate 16 0, replicate 16 2] = ?codes" by code_simp
  have norm: "map NormalizeRecoveryCode ?codes = [Some (replicate 16 CHR ''2''), Some (replicate 16 CHR ''4'')]"
    "NormalizeRecoveryCode ''2222 2222 2222 2222'' = NormalizeRecoveryCode ''2222-2222-2222-2222''" by code_simp+
  have dist: "hashRecoveryCode open_primitives ''u1'' (replicate 16 CHR ''2'') \<noteq>
      hashRecoveryCode open_primitives ''u1'' (replicate 16 CHR ''4'')"
    by code_simp
  obtain rows where "replaceRecoveryCodes open_primitives ''u1'' ?codes (recovery_codes ?p) = Some rows"
    using norm(1) dist by (simp add: replaceRecoveryCodes_def Let_def)
  then obtain p1 where p1: "EnableWithRecoveryCodes open_primitives (calm 0) [replicate 16 0, replicate 16 2] ''u1'' ?p = (Inr ?codes, p1)"
    by (simp add: EnableWithRecoveryCodes_def codes Let_def store_op_def calm_def del: replicate.simps)
  have "\<exists>p2. UseRecoveryCode open_primitives (calm 5) ''u1'' ''2222 2222 2222 2222'' p1 = (Inr (True, length ?codes - 1), p2) \<and>
      UseRecoveryCode open_primitives (calm 9) ''u1'' ''2222-2222-2222-2222'' p2 = (Inr (False, 0), p2)"
    by (rule recovery_code_works_once [OF p1]) (auto simp: norm(2) calm_def)
  with p1 show ?thesis by auto
qed

end
