(* ===== verification/Api_Auth.thy ===== *)
theory Api_Auth
  imports Api_Twofactor Transition_Systems
begin

text \<open>
  Package \<open>api/internal/auth\<close>: sign-in, refreshing, signing out (\<open>service.go\<close>), signing in as
  somebody else (\<open>impersonation.go\<close>) and the checks in front of every handler (\<open>middleware.go\<close>).

  The work spent on the hash of a password that belongs to nobody changes no state and has no
  result, and is left out. The audit trail is the list of the events handed to the recorder,
  which writes them in the background.
\<close>

section \<open>Configuration\<close>

record service =
  sv_crypto :: primitives
  sv_access_ttl :: int
  sv_refresh_ttl :: int
  sv_mfa_ttl :: int
  sv_user_limit :: limiter
  sv_ip_limit :: limiter

record request_ctx =
  rq_IPAddress :: go_string
  rq_UserAgent :: go_string

text \<open>What an operation draws: the bytes of its tokens, a salt, the identifier of a new session.\<close>

record draw =
  dr_refresh :: go_string
  dr_access :: go_string
  dr_salt :: go_string
  dr_session :: go_string

record token_pair =
  tp_Access :: go_string
  tp_Refresh :: go_string
  tp_ExpiresIn :: int

datatype login_result = LoginTokens token_pair | LoginChallenge go_string

definition emit :: "go_string \<Rightarrow> go_string \<Rightarrow> go_string \<Rightarrow> request_ctx \<Rightarrow> go_string \<Rightarrow> (go_string \<times> go_string) list \<Rightarrow> unit panel_op" where
  "emit uid action resource rc status meta p =
     (Inr (), p\<lparr>audit_trail := audit_trail p @
        [\<lparr>ev_UserID = uid, ev_Action = action, ev_ResourceID = resource, ev_IPAddress = rq_IPAddress rc,
          ev_Status = status, ev_Metadata = meta\<rparr>]\<rparr>)"

text \<open>An operation whose error is only logged.\<close>

definition ignoring :: "'a panel_op \<Rightarrow> unit panel_op" where
  "ignoring m p = (Inr (), snd (m p))"

definition crypto_op :: "secrets_err + 'a \<Rightarrow> 'a panel_op" where
  "crypto_op r p = (case r of Inl e \<Rightarrow> (Inl (Crypto e), p) | Inr a \<Rightarrow> (Inr a, p))"

section \<open>Throttling\<close>

definition limit_op :: "auth_env \<Rightarrow> limiter \<Rightarrow> store_call \<Rightarrow> store_call \<Rightarrow> go_string \<Rightarrow> bool panel_op" where
  "limit_op env l script ttl key p =
     (case Allow l (store_fails env script) (store_fails env ttl) (at_time env) key (throttle p) of
        (None, c) \<Rightarrow> (Inl StoreFailed, p\<lparr>throttle := c\<rparr>)
      | (Some r, c) \<Rightarrow> (Inr (Allowed r), p\<lparr>throttle := c\<rparr>))"

definition recordRateLimit :: "go_string \<Rightarrow> request_ctx \<Rightarrow> go_string \<Rightarrow> unit panel_op" where
  "recordRateLimit name rc scope =
     emit [] ''auth.login_rate_limited'' [] rc ''FAILURE'' [(''username'', name), (''scope'', scope)]"

definition checkRateLimits :: "service \<Rightarrow> auth_env \<Rightarrow> go_string \<Rightarrow> request_ctx \<Rightarrow> unit panel_op" where
  "checkRateLimits sv env name rc =
     try_then (limit_op env (sv_user_limit sv) UserLimitScript UserLimitTTL name) (\<lambda>ok.
       if \<not> ok then try_then (recordRateLimit name rc ''username'') (\<lambda>_. fail_with ErrRateLimited)
       else if rq_IPAddress rc = [] then return_op ()
       else try_then (limit_op env (sv_ip_limit sv) AddressLimitScript AddressLimitTTL (rq_IPAddress rc)) (\<lambda>ok.
         if \<not> ok then try_then (recordRateLimit name rc ''ip'') (\<lambda>_. fail_with ErrRateLimited)
         else return_op ()))"

definition reset_limit :: "service \<Rightarrow> auth_env \<Rightarrow> go_string \<Rightarrow> unit panel_op" where
  "reset_limit sv env name p =
     (Inr (), p\<lparr>throttle := snd (Reset (sv_user_limit sv) (store_fails env ResetLimit) name (throttle p))\<rparr>)"

section \<open>Signing in\<close>

definition recordLoginFailure :: "go_string \<Rightarrow> go_string \<Rightarrow> request_ctx \<Rightarrow> go_string \<Rightarrow> unit panel_op" where
  "recordLoginFailure uid name rc reason =
     emit uid ''auth.login_failed'' [] rc ''FAILURE'' [(''username'', name), (''reason'', reason)]"

definition issueAccessToken :: "service \<Rightarrow> auth_env \<Rightarrow> draw \<Rightarrow> user \<Rightarrow> go_string \<Rightarrow> go_string panel_op" where
  "issueAccessToken sv env d u sid =
     try_then (PermissionsForUser env (u_ID u)) (\<lambda>permissions.
     try_then (RolesForUser env (u_ID u)) (\<lambda>roles.
       Issue (sv_crypto sv) env (sv_access_ttl sv) (dr_access d)
         \<lparr>c_UserID = u_ID u, c_Username = u_Username u, c_SessionID = sid, c_Permissions = permissions,
          c_Roles = roles, c_IssuedAt = at_time env, c_ImpersonatorUserID = []\<rparr>))"

definition tokenPair :: "service \<Rightarrow> go_string \<Rightarrow> go_string \<Rightarrow> token_pair" where
  "tokenPair sv access refresh =
     \<lparr>tp_Access = access, tp_Refresh = refresh, tp_ExpiresIn = sv_access_ttl sv div 1000000000\<rparr>"

definition refresh_token :: "draw \<Rightarrow> go_string" where
  "refresh_token d = NewToken (dr_refresh d)"

definition completeLogin :: "service \<Rightarrow> auth_env \<Rightarrow> draw \<Rightarrow> user \<Rightarrow> request_ctx \<Rightarrow> token_pair panel_op" where
  "completeLogin sv env d u rc =
     (if random_fails env DrawRefresh then fail_with StoreFailed
      else
        try_then (CreateSession env (dr_session d) (u_ID u) (HashToken (sv_crypto sv) (refresh_token d))
                    (rq_IPAddress rc) (rq_UserAgent rc) (at_time env + sv_refresh_ttl sv)) (\<lambda>s.
        try_then (issueAccessToken sv env d u (se_ID s)) (\<lambda>access.
        try_then (ignoring (TouchLastLogin env (u_ID u))) (\<lambda>_.
        try_then (reset_limit sv env (u_Username u)) (\<lambda>_.
        try_then (emit (u_ID u) ''auth.login'' (se_ID s) rc ''SUCCESS'' []) (\<lambda>_.
          return_op (tokenPair sv access (refresh_token d))))))))"

definition rehashPassword :: "service \<Rightarrow> auth_env \<Rightarrow> draw \<Rightarrow> go_string \<Rightarrow> go_string \<Rightarrow> unit panel_op" where
  "rehashPassword sv env d uid password =
     (if random_fails env DrawSalt then return_op ()
      else (case HashPassword (sv_crypto sv) (dr_salt d) password of
              Inl _ \<Rightarrow> return_op ()
            | Inr hash \<Rightarrow> ignoring (UpdatePasswordHash env uid hash)))"

text \<open>\<open>Login\<close>, in the three parts it has: up to the account, the password, and what it earns.\<close>

definition earn :: "service \<Rightarrow> auth_env \<Rightarrow> draw \<Rightarrow> user \<Rightarrow> request_ctx \<Rightarrow> login_result panel_op" where
  "earn sv env d u rc =
     try_then (IsEnabled env (u_ID u)) (\<lambda>enabled.
       if enabled then
         try_then (IssueMFAChallenge (sv_crypto sv) env (sv_mfa_ttl sv) (dr_access d)
                     \<lparr>m_UserID = u_ID u, m_Username = u_Username u, m_IPAddress = rq_IPAddress rc\<rparr>)
           (\<lambda>token. return_op (LoginChallenge token))
       else
         try_then (completeLogin sv env d u rc) (\<lambda>pair. return_op (LoginTokens pair)))"

definition check_password :: "service \<Rightarrow> auth_env \<Rightarrow> draw \<Rightarrow> user \<Rightarrow> go_string \<Rightarrow> go_string \<Rightarrow> request_ctx \<Rightarrow> login_result panel_op" where
  "check_password sv env d u normalized password rc =
     try_then (crypto_op (VerifyPassword (sv_crypto sv) password (u_PasswordHash u))) (\<lambda>matched.
       if \<not> matched then
         try_then (recordLoginFailure (u_ID u) normalized rc ''bad_password'') (\<lambda>_. fail_with ErrInvalidCredentials)
       else if \<not> IsActive u then
         try_then (recordLoginFailure (u_ID u) normalized rc ''inactive_account'') (\<lambda>_. fail_with ErrAccountInactive)
       else
         try_then (if NeedsRehash (u_PasswordHash u) then rehashPassword sv env d (u_ID u) password else return_op ())
           (\<lambda>_. earn sv env d u rc))"

definition Login :: "service \<Rightarrow> auth_env \<Rightarrow> draw \<Rightarrow> go_string \<Rightarrow> go_string \<Rightarrow> request_ctx \<Rightarrow> login_result panel_op" where
  "Login sv env d username password rc =
     (let normalized = NormalizeUsername username in
        try_then (checkRateLimits sv env normalized rc) (\<lambda>_ p.
          case GetByUsername env normalized p of
            (Inl e, p) \<Rightarrow>
              if e = ErrUserNotFound
              then try_then (recordLoginFailure [] normalized rc ''unknown_user'') (\<lambda>_. fail_with ErrInvalidCredentials) p
              else (Inl e, p)
          | (Inr u, p) \<Rightarrow> check_password sv env d u normalized password rc p))"

text \<open>The second step: a check of the challenge, then the challenge is used up.\<close>

definition completeChallenge :: "service \<Rightarrow> auth_env \<Rightarrow> draw \<Rightarrow> go_string \<Rightarrow> request_ctx \<Rightarrow> (challenge \<Rightarrow> unit panel_op) \<Rightarrow> token_pair panel_op" where
  "completeChallenge sv env d token rc check p =
     (case PeekMFAChallenge (sv_crypto sv) env token p of
        (Inl e, p) \<Rightarrow> (Inl (if e = ErrTokenNotFound then ErrInvalidToken else e), p)
      | (Inr ch, p) \<Rightarrow>
          try_then (checkRateLimits sv env (m_Username ch) rc) (\<lambda>_.
          try_then (check ch) (\<lambda>_.
          try_then (ConsumeMFAChallenge (sv_crypto sv) env token) (\<lambda>_.
          try_then (GetUserByID env (m_UserID ch)) (\<lambda>u.
            if \<not> IsActive u then fail_with ErrAccountInactive
            else completeLogin sv env d u rc)))) p)"

definition check_code :: "service \<Rightarrow> auth_env \<Rightarrow> go_string \<Rightarrow> request_ctx \<Rightarrow> challenge \<Rightarrow> unit panel_op" where
  "check_code sv env code rc ch p =
     (case VerifyCode (sv_crypto sv) env (m_UserID ch) code p of
        (Inl e, p) \<Rightarrow> (Inl (if e = ErrNotEnrolled then ErrInvalidToken else e), p)
      | (Inr valid, p) \<Rightarrow>
          if \<not> valid
          then try_then (emit (m_UserID ch) ''user.2fa_failed'' [] rc ''FAILURE'' []) (\<lambda>_. fail_with ErrInvalidTOTP) p
          else (Inr (), p))"

definition VerifyTwoFactor :: "service \<Rightarrow> auth_env \<Rightarrow> draw \<Rightarrow> go_string \<Rightarrow> go_string \<Rightarrow> request_ctx \<Rightarrow> token_pair panel_op" where
  "VerifyTwoFactor sv env d token code rc = completeChallenge sv env d token rc (check_code sv env code rc)"

definition check_recovery :: "service \<Rightarrow> auth_env \<Rightarrow> go_string \<Rightarrow> request_ctx \<Rightarrow> challenge \<Rightarrow> unit panel_op" where
  "check_recovery sv env code rc ch =
     try_then (UseRecoveryCode (sv_crypto sv) env (m_UserID ch) code) (\<lambda>(valid, remaining).
       if \<not> valid
       then try_then (emit (m_UserID ch) ''user.2fa_failed'' [] rc ''FAILURE'' [(''method'', ''recovery_code'')])
              (\<lambda>_. fail_with ErrInvalidRecoveryCode)
       else emit (m_UserID ch) ''user.2fa_recovery_code_used'' [] rc ''SUCCESS'' [(''remaining'', itoa (int remaining))])"

definition VerifyRecoveryCode :: "service \<Rightarrow> auth_env \<Rightarrow> draw \<Rightarrow> go_string \<Rightarrow> go_string \<Rightarrow> request_ctx \<Rightarrow> token_pair panel_op" where
  "VerifyRecoveryCode sv env d token code rc = completeChallenge sv env d token rc (check_recovery sv env code rc)"

section \<open>Refreshing and signing out\<close>

definition end_session :: "auth_env \<Rightarrow> go_string \<Rightarrow> unit panel_op" where
  "end_session env sid = try_then (Revoke env sid) (\<lambda>_. RevokeSession env sid)"

definition locateLeakedToken :: "auth_env \<Rightarrow> go_string \<Rightarrow> panel \<Rightarrow> (go_string \<times> go_string) option" where
  "locateLeakedToken env hash p =
     (case fst (GetByTokenHash env hash p) of
        Inr s \<Rightarrow> Some (se_ID s, se_UserID s)
      | Inl _ \<Rightarrow>
          (case fst (FindRetiredToken env hash p) of
             Inl _ \<Rightarrow> None
           | Inr sid \<Rightarrow>
               (case fst (GetSessionByID env sid p) of
                  Inl _ \<Rightarrow> None
                | Inr s \<Rightarrow> Some (se_ID s, se_UserID s))))"

definition handleRefreshFailure :: "auth_env \<Rightarrow> go_string \<Rightarrow> request_ctx \<Rightarrow> panel \<Rightarrow> panel" where
  "handleRefreshFailure env hash rc p =
     (case locateLeakedToken env hash p of
        None \<Rightarrow> p
      | Some (sid, uid) \<Rightarrow>
          (case RevokeAllForUser env uid p of
             (Inl _, p) \<Rightarrow> p
           | (Inr revoked, p) \<Rightarrow>
               snd (emit uid ''auth.refresh_reuse_detected'' sid rc ''FAILURE''
                      [(''sessions_revoked'', itoa (int (length revoked)))]
                      (snd (RevokeSessions env (revoked @ [sid]) p)))))"

definition Refresh :: "service \<Rightarrow> auth_env \<Rightarrow> draw \<Rightarrow> go_string \<Rightarrow> request_ctx \<Rightarrow> token_pair panel_op" where
  "Refresh sv env d token rc p =
     (if token = [] then (Inl ErrInvalidToken, p)
      else if random_fails env DrawRefresh then (Inl StoreFailed, p)
      else
        let old_hash = HashToken (sv_crypto sv) token in
          case Rotate env old_hash (HashToken (sv_crypto sv) (refresh_token d)) (at_time env + sv_refresh_ttl sv) p of
            (Inl e, p) \<Rightarrow>
              if e = ErrSessionNotFound then (Inl ErrInvalidToken, handleRefreshFailure env old_hash rc p)
              else (Inl e, p)
          | (Inr s, p) \<Rightarrow>
              try_then (GetUserByID env (se_UserID s)) (\<lambda>u.
                if \<not> IsActive u then
                  try_then (ignoring (end_session env (se_ID s))) (\<lambda>_. fail_with ErrAccountInactive)
                else
                  try_then (RevokeSession env (se_ID s)) (\<lambda>_.
                  try_then (issueAccessToken sv env d u (se_ID s)) (\<lambda>access.
                  try_then (emit (u_ID u) ''auth.refresh'' (se_ID s) rc ''SUCCESS'' []) (\<lambda>_.
                    return_op (tokenPair sv access (refresh_token d)))))) p)"

definition Logout :: "auth_env \<Rightarrow> claims \<Rightarrow> request_ctx \<Rightarrow> unit panel_op" where
  "Logout env cl rc =
     try_then (end_session env (c_SessionID cl)) (\<lambda>_. emit (c_UserID cl) ''auth.logout'' (c_SessionID cl) rc ''SUCCESS'' [])"

section \<open>Authenticating a request\<close>

definition Authenticate :: "service \<Rightarrow> auth_env \<Rightarrow> go_string \<Rightarrow> claims panel_op" where
  "Authenticate sv env token p =
     (case Lookup (sv_crypto sv) env token p of
        (Inl e, p) \<Rightarrow> (Inl (if e = ErrTokenNotFound then ErrInvalidToken else e), p)
      | (Inr cl, p) \<Rightarrow>
          (case GetSessionByID env (c_SessionID cl) p of
             (Inl e, p) \<Rightarrow> (Inl (if e = ErrSessionNotFound then ErrInvalidToken else e), p)
           | (Inr s, p) \<Rightarrow>
               if \<not> IsUsable s (at_time env) then (Inl ErrInvalidToken, snd (RevokeSession env (se_ID s) p))
               else (Inr cl, p)))"

definition bearerToken :: "go_string \<Rightarrow> go_string" where
  "bearerToken header =
     (if header = [] then []
      else let (scheme, token, found) = cut CHR '' '' header in
        if \<not> found \<or> \<not> equal_fold scheme ''Bearer'' then [] else trim_space token)"

datatype reply = Unauthorized | InternalError | Forbidden | Served claims

text \<open>A route behind \<open>RequireAuth\<close> and \<open>RequirePermission\<close>.\<close>

definition guarded_route :: "service \<Rightarrow> auth_env \<Rightarrow> go_string \<Rightarrow> go_string \<Rightarrow> panel \<Rightarrow> reply \<times> panel" where
  "guarded_route sv env permission header p =
     (let token = bearerToken header in
        if token = [] then (Unauthorized, p)
        else (case Authenticate sv env token p of
                (Inl e, p) \<Rightarrow> (if e = ErrInvalidToken then Unauthorized else InternalError, p)
              | (Inr cl, p) \<Rightarrow> (if Has (c_Permissions cl) permission then Served cl else Forbidden, p)))"

section \<open>Signing in as somebody else\<close>

definition forbiddenWhileImpersonating :: "go_string list" where
  "forbiddenWhileImpersonating = [''tenant.view'', ''tenant.manage'', ''tenant.impersonate'', ''user.manage'']"

definition stripForbidden :: "go_string list \<Rightarrow> go_string list" where
  "stripForbidden permissions = filter (\<lambda>q. q \<notin> set forbiddenWhileImpersonating) permissions"

definition impersonationTTL :: int where "impersonationTTL = 60 * minute"

definition issueImpersonatedAccessToken :: "service \<Rightarrow> auth_env \<Rightarrow> draw \<Rightarrow> user \<Rightarrow> go_string \<Rightarrow> go_string \<Rightarrow> go_string panel_op" where
  "issueImpersonatedAccessToken sv env d u sid actor =
     try_then (PermissionsForUser env (u_ID u)) (\<lambda>permissions.
     try_then (RolesForUser env (u_ID u)) (\<lambda>roles.
       Issue (sv_crypto sv) env (sv_access_ttl sv) (dr_access d)
         \<lparr>c_UserID = u_ID u, c_Username = u_Username u, c_SessionID = sid,
          c_Permissions = stripForbidden permissions, c_Roles = roles, c_IssuedAt = at_time env,
          c_ImpersonatorUserID = actor\<rparr>))"

text \<open>The shorter of the two lives, and the pair never announces a longer one.\<close>

definition impersonation_ttl :: "service \<Rightarrow> int" where
  "impersonation_ttl sv = (if impersonationTTL < sv_refresh_ttl sv then impersonationTTL else sv_refresh_ttl sv)"

definition capped :: "int \<Rightarrow> token_pair \<Rightarrow> token_pair" where
  "capped ttl pair =
     (if ttl div 1000000000 < tp_ExpiresIn pair then pair\<lparr>tp_ExpiresIn := ttl div 1000000000\<rparr> else pair)"

definition Impersonate :: "service \<Rightarrow> auth_env \<Rightarrow> draw \<Rightarrow> go_string \<Rightarrow> user \<Rightarrow> request_ctx \<Rightarrow> (token_pair \<times> go_string) panel_op" where
  "Impersonate sv env d actor subject rc =
     (if \<not> IsActive subject then fail_with ErrAccountInactive
      else if actor = u_ID subject then fail_with ErrCannotImpersonate
      else if random_fails env DrawRefresh then fail_with StoreFailed
      else
        try_then (CreateSession env (dr_session d) (u_ID subject) (HashToken (sv_crypto sv) (refresh_token d))
                    (rq_IPAddress rc) (rq_UserAgent rc) (at_time env + impersonation_ttl sv)) (\<lambda>s.
        try_then (issueImpersonatedAccessToken sv env d subject (se_ID s) actor) (\<lambda>access.
        try_then (emit actor ''tenant.impersonate.session'' (se_ID s) rc ''SUCCESS''
                    [(''subject_user_id'', u_ID subject), (''subject'', u_Username subject)]) (\<lambda>_.
          return_op (capped (impersonation_ttl sv) (tokenPair sv access (refresh_token d)), se_ID s)))))"

definition EndImpersonation :: "auth_env \<Rightarrow> go_string \<Rightarrow> unit panel_op" where
  "EndImpersonation env sid = (if trim_space sid = [] then fail_with ErrInvalidToken else end_session env sid)"

section \<open>The second factor\<close>

definition SetupTwoFactor :: "service \<Rightarrow> auth_env \<Rightarrow> go_string \<Rightarrow> go_string \<Rightarrow> go_string \<Rightarrow> request_ctx \<Rightarrow> go_string panel_op" where
  "SetupTwoFactor sv env bytes nonce uid rc =
     try_then (GetUserByID env uid) (\<lambda>_.
     try_then (IsEnabled env uid) (\<lambda>enabled.
       if enabled then fail_with ErrTwoFactorEnabled
       else try_then (StartEnrolment (sv_crypto sv) env bytes nonce uid) (\<lambda>secret.
         try_then (emit uid ''user.2fa_setup'' [] rc ''SUCCESS'' []) (\<lambda>_. return_op secret))))"

definition EnableTwoFactor :: "service \<Rightarrow> auth_env \<Rightarrow> nat list list \<Rightarrow> go_string \<Rightarrow> go_string \<Rightarrow> request_ctx \<Rightarrow> go_string list panel_op" where
  "EnableTwoFactor sv env draws uid code rc =
     try_then (VerifyCode (sv_crypto sv) env uid code) (\<lambda>valid.
       if \<not> valid then try_then (emit uid ''user.2fa_failed'' [] rc ''FAILURE'' []) (\<lambda>_. fail_with ErrInvalidTOTP)
       else try_then (EnableWithRecoveryCodes (sv_crypto sv) env draws uid) (\<lambda>codes.
         try_then (emit uid ''user.2fa_enabled'' [] rc ''SUCCESS'' []) (\<lambda>_. return_op codes)))"

text \<open>The operations that ask for the password again.\<close>

definition with_password :: "service \<Rightarrow> auth_env \<Rightarrow> go_string \<Rightarrow> go_string \<Rightarrow> go_string \<Rightarrow> request_ctx \<Rightarrow> 'a panel_op \<Rightarrow> 'a panel_op" where
  "with_password sv env uid password action rc m =
     try_then (GetUserByID env uid) (\<lambda>u.
     try_then (crypto_op (VerifyPassword (sv_crypto sv) password (u_PasswordHash u))) (\<lambda>matched.
       if \<not> matched then try_then (emit uid action [] rc ''FAILURE'' []) (\<lambda>_. fail_with ErrInvalidCredentials)
       else try_then m (\<lambda>a. try_then (emit uid action [] rc ''SUCCESS'' []) (\<lambda>_. return_op a))))"

definition ServiceRegenerateRecoveryCodes :: "service \<Rightarrow> auth_env \<Rightarrow> nat list list \<Rightarrow> go_string \<Rightarrow> go_string \<Rightarrow> request_ctx \<Rightarrow> go_string list panel_op" where
  "ServiceRegenerateRecoveryCodes sv env draws uid password rc =
     with_password sv env uid password ''user.2fa_recovery_codes_regenerated'' rc
       (RegenerateRecoveryCodes (sv_crypto sv) env draws uid)"

definition DisableTwoFactor :: "service \<Rightarrow> auth_env \<Rightarrow> go_string \<Rightarrow> go_string \<Rightarrow> request_ctx \<Rightarrow> unit panel_op" where
  "DisableTwoFactor sv env uid password rc =
     with_password sv env uid password ''user.2fa_disabled'' rc (Disable env uid)"

end
