(* ===== verification/Api_Signin.thy ===== *)
theory Api_Signin
  imports Api_Auth
begin

text \<open>
  What it takes to be signed in: the password, a live account, and the second factor where it is on;
  and what a session opened for somebody else may do.
\<close>

section \<open>What each operation leaves alone\<close>

lemmas panel_op_defs = try_then_def store_op_def fail_with_def return_op_def emit_def ignoring_def crypto_op_def

lemma trim_space_to_lower: "trim_space (to_lower s) = to_lower (trim_space s)"
  by (simp add: trim_space_def trim_both_def trim_left_def trim_right_def to_lower_def dropWhile_map rev_map comp_def)

lemma NormalizeUsername_idem [simp]: "NormalizeUsername (NormalizeUsername name) = NormalizeUsername name"
  by (simp add: NormalizeUsername_def trim_space_to_lower)

lemma GetByUsername_Inr:
  "GetByUsername env name p = (Inr u, p') \<longleftrightarrow>
     \<not> store_fails env SelectUserByName \<and> find (\<lambda>u. u_Username u = NormalizeUsername name) (users p) = Some u \<and> p' = p"
  by (auto simp: GetByUsername_def store_op_def split: option.splits)

lemma GetUserByID_Inr:
  "GetUserByID env i p = (Inr u, p') \<longleftrightarrow>
     \<not> store_fails env SelectUserByID \<and> find (\<lambda>u. u_ID u = i) (users p) = Some u \<and> p' = p"
  by (auto simp: GetUserByID_def store_op_def split: option.splits)

lemma find_some: "find P xs = Some x \<Longrightarrow> x \<in> set xs \<and> P x"
  by (induction xs) (auto split: if_splits)

lemma crypto_op_Inr: "crypto_op r p = (Inr a, p') \<longleftrightarrow> r = Inr a \<and> p' = p"
  by (auto simp: crypto_op_def split: sum.splits)

definition logged :: "panel \<Rightarrow> panel \<Rightarrow> bool" where
  "logged p p' \<longleftrightarrow>
     users p' = users p \<and> sessions p' = sessions p \<and> retired p' = retired p \<and> enrolments p' = enrolments p \<and>
     recovery_codes p' = recovery_codes p \<and> access_tokens p' = access_tokens p \<and> token_index p' = token_index p \<and>
     challenges p' = challenges p \<and> user_roles p' = user_roles p \<and> role_permissions p' = role_permissions p"

interpretation log: kept_relation logged
  by unfold_locales (simp_all add: logged_def)

lemma emit_logged: "keeps logged (emit u act i rc st m)"
  by (auto simp: keeps_def emit_def logged_def)

lemma limit_op_logged: "keeps logged (limit_op env l sc tc key)"
  by (auto simp: keeps_def limit_op_def logged_def split: prod.splits option.splits)

lemma reset_limit_logged: "keeps logged (reset_limit sv env name)"
  by (auto simp: keeps_def reset_limit_def logged_def)

lemma crypto_op_logged: "keeps logged (crypto_op r)"
  by (auto simp: keeps_def crypto_op_def logged_def split: sum.splits)

lemma checkRateLimits_logged: "keeps logged (checkRateLimits sv env name rc)"
  unfolding checkRateLimits_def recordRateLimit_def
  by (intro log.keeps_rules limit_op_logged emit_logged)

text \<open>Bookkeeping: the accounts and the log change, what grants access does not.\<close>

definition same_access :: "panel \<Rightarrow> panel \<Rightarrow> bool" where
  "same_access p p' \<longleftrightarrow>
     sessions p' = sessions p \<and> retired p' = retired p \<and> enrolments p' = enrolments p \<and>
     recovery_codes p' = recovery_codes p \<and> access_tokens p' = access_tokens p \<and> token_index p' = token_index p \<and>
     challenges p' = challenges p \<and> user_roles p' = user_roles p \<and> role_permissions p' = role_permissions p"

interpretation book: kept_relation same_access
  by unfold_locales (simp_all add: same_access_def)

lemma logged_same_access: "logged p p' \<Longrightarrow> same_access p p'"
  by (simp add: logged_def same_access_def)

lemma keeps_weaken: "keeps R m \<Longrightarrow> (\<And>s t. R s t \<Longrightarrow> Q s t) \<Longrightarrow> keeps Q m"
  by (auto simp: keeps_def)

lemmas logged_book = logged_same_access [THEN keeps_weaken [rotated]]

lemma update_user_book: "keeps same_access (store_op env call (update_user i f))"
  by (auto simp: keeps_def store_op_def update_user_def same_access_def)

lemma ignoring_keeps: "keeps R m \<Longrightarrow> keeps R (ignoring m)"
  by (auto simp: keeps_def ignoring_def) (metis prod.collapse)

lemma rehashPassword_book: "keeps same_access (rehashPassword sv env d uid password)"
  unfolding rehashPassword_def UpdatePasswordHash_def
  by (auto intro!: book.keeps_rules ignoring_keeps update_user_book split: sum.splits)

section \<open>What success says\<close>

lemma CreateSession_Inr:
  "CreateSession env new_id uid hash address agent expires p = (Inr s, p') \<longleftrightarrow>
     \<not> store_fails env InsertSession \<and> (\<exists>u \<in> set (users p). u_ID u = uid) \<and>
     (\<forall>x \<in> set (sessions p). se_ID x \<noteq> new_id \<and> se_TokenHash x \<noteq> hash) \<and>
     s = \<lparr>se_ID = new_id, se_UserID = uid, se_TokenHash = hash, se_IPAddress = normalizeIP address,
           se_UserAgent = truncate_text agent maxUserAgentLength, se_ExpiresAt = expires,
           se_CreatedAt = at_time env, se_RevokedAt = None\<rparr> \<and>
     p' = p\<lparr>sessions := sessions p @ [s]\<rparr>"
  by (auto simp: CreateSession_def store_op_def Let_def)

definition issued :: "primitives \<Rightarrow> auth_env \<Rightarrow> int \<Rightarrow> go_string \<Rightarrow> claims \<Rightarrow> panel \<Rightarrow> panel" where
  "issued c env ttl token cl p =
     (let index = sessionIndexPrefix @ c_SessionID cl;
          members = (case unexpired (at_time env) (token_index p index) of None \<Rightarrow> [] | Some m \<Rightarrow> m)
      in p\<lparr>access_tokens := (access_tokens p)(access_key c token \<mapsto> (cl, at_time env + ttl)),
           token_index := (token_index p)(index \<mapsto> (List.insert (access_key c token) members, at_time env + ttl + minute))\<rparr>)"

lemma Issue_Inr:
  "Issue c env ttl bytes cl p = (Inr token, p') \<longleftrightarrow>
     \<not> random_fails env DrawAccess \<and> \<not> store_fails env StoreToken \<and> token = NewToken bytes \<and>
     p' = issued c env ttl token cl p"
  by (auto simp: Issue_def issued_def Let_def)

lemma permissions_Inr:
  "PermissionsForUser env i p = (Inr qs, p') \<longleftrightarrow>
     \<not> store_fails env SelectPermissions \<and> qs = permissions_of p i \<and> p' = p"
  by (auto simp: PermissionsForUser_def store_op_def)

lemma permissions_of_sessions [simp]: "permissions_of (p\<lparr>sessions := ss\<rparr>) i = permissions_of p i"
  by (simp add: permissions_of_def cong: if_cong)

lemma permissions_of_same: "same_access p p' \<Longrightarrow> permissions_of p' i = permissions_of p i"
  by (simp add: permissions_of_def same_access_def cong: if_cong)

lemma roles_Inr: "RolesForUser env i p = (Inr qs, p') \<Longrightarrow> p' = p"
  by (auto simp: RolesForUser_def store_op_def split: if_splits)

lemma issueAccessToken_Inr:
  assumes "issueAccessToken sv env d u sid p = (Inr token, p')"
  shows "\<exists>roles. p' = issued (sv_crypto sv) env (sv_access_ttl sv) token
      \<lparr>c_UserID = u_ID u, c_Username = u_Username u, c_SessionID = sid, c_Permissions = permissions_of p (u_ID u),
       c_Roles = roles, c_IssuedAt = at_time env, c_ImpersonatorUserID = []\<rparr> p"
  using assms unfolding issueAccessToken_def
  by (auto simp: try_then_Inr permissions_Inr Issue_Inr dest!: roles_Inr)

lemma issueImpersonated_Inr:
  assumes "issueImpersonatedAccessToken sv env d u sid actor p = (Inr token, p')"
  shows "\<exists>roles. p' = issued (sv_crypto sv) env (sv_access_ttl sv) token
      \<lparr>c_UserID = u_ID u, c_Username = u_Username u, c_SessionID = sid,
       c_Permissions = stripForbidden (permissions_of p (u_ID u)),
       c_Roles = roles, c_IssuedAt = at_time env, c_ImpersonatorUserID = actor\<rparr> p"
  using assms unfolding issueImpersonatedAccessToken_def
  by (auto simp: try_then_Inr permissions_Inr Issue_Inr dest!: roles_Inr)

text \<open>A session that was just opened for a user, with the token that goes with it.\<close>

definition opened :: "service \<Rightarrow> auth_env \<Rightarrow> user \<Rightarrow> token_pair \<Rightarrow> int \<Rightarrow> session \<Rightarrow> claims \<Rightarrow> panel \<Rightarrow> panel \<Rightarrow> bool" where
  "opened sv env u pair ttl s cl p p' \<longleftrightarrow>
     (\<forall>x \<in> set (sessions p). se_ID x \<noteq> se_ID s \<and> se_TokenHash x \<noteq> se_TokenHash s) \<and>
     se_UserID s = u_ID u \<and> se_TokenHash s = HashToken (sv_crypto sv) (tp_Refresh pair) \<and>
     se_ExpiresAt s = at_time env + ttl \<and> se_RevokedAt s = None \<and>
     c_UserID cl = u_ID u \<and> c_SessionID cl = se_ID s \<and>
     same_access (issued (sv_crypto sv) env (sv_access_ttl sv) (tp_Access pair) cl (p\<lparr>sessions := sessions p @ [s]\<rparr>)) p'"

lemma completeLogin_Inr:
  assumes "completeLogin sv env d u rc p = (Inr pair, p')"
  shows "\<exists>s cl. opened sv env u pair (sv_refresh_ttl sv) s cl p p' \<and> se_ID s = dr_session d \<and>
    tp_Refresh pair = refresh_token d \<and>
    c_Permissions cl = permissions_of p (u_ID u) \<and> c_ImpersonatorUserID cl = []"
proof -
  obtain s p1 access p2 p3 p4 p5 where
    create: "CreateSession env (dr_session d) (u_ID u) (HashToken (sv_crypto sv) (refresh_token d))
        (rq_IPAddress rc) (rq_UserAgent rc) (at_time env + sv_refresh_ttl sv) p = (Inr s, p1)"
    and issue: "issueAccessToken sv env d u (se_ID s) p1 = (Inr access, p2)"
    and touch: "ignoring (TouchLastLogin env (u_ID u)) p2 = (Inr (), p3)"
    and reset: "reset_limit sv env (u_Username u) p3 = (Inr (), p4)"
    and ev: "emit (u_ID u) ''auth.login'' (se_ID s) rc ''SUCCESS'' [] p4 = (Inr (), p5)"
    and pair: "pair = tokenPair sv access (refresh_token d)" "p' = p5"
    using assms unfolding completeLogin_def
    by (auto simp: try_then_Inr return_op_def fail_with_def split: if_splits)
  have "same_access p2 p3"
    using keepsD [OF ignoring_keeps [OF update_user_book] touch [unfolded TouchLastLogin_def]] .
  moreover have "same_access p3 p4" using keepsD [OF reset_limit_logged reset] by (rule logged_same_access)
  moreover have "same_access p4 p5" using keepsD [OF emit_logged ev] by (rule logged_same_access)
  ultimately have same: "same_access p2 p'" using book.trans pair(2) by blast
  obtain roles where "p2 = issued (sv_crypto sv) env (sv_access_ttl sv) access
      \<lparr>c_UserID = u_ID u, c_Username = u_Username u, c_SessionID = se_ID s, c_Permissions = permissions_of p1 (u_ID u),
       c_Roles = roles, c_IssuedAt = at_time env, c_ImpersonatorUserID = []\<rparr> p1" (is "_ = issued _ _ _ _ ?cl _")
    using issueAccessToken_Inr [OF issue] by blast
  moreover have "p1 = p\<lparr>sessions := sessions p @ [s]\<rparr>" using create by (simp add: CreateSession_Inr)
  moreover from this have "permissions_of p1 (u_ID u) = permissions_of p (u_ID u)" by simp
  ultimately show ?thesis
    using create same pair(1)
    by (intro exI [of _ s] exI [of _ ?cl]) (auto simp: opened_def CreateSession_Inr tokenPair_def)
qed

section \<open>The password, and the second factor\<close>

definition second_factor :: "panel \<Rightarrow> go_string \<Rightarrow> bool" where
  "second_factor p uid \<longleftrightarrow> (case find (\<lambda>e. en_UserID e = uid) (enrolments p) of None \<Rightarrow> False | Some e \<Rightarrow> en_Enabled e)"

lemma IsEnabled_Inr: "IsEnabled env uid p = (Inr b, p') \<Longrightarrow> b = second_factor p uid \<and> p' = p"
  by (auto simp: IsEnabled_def store_op_def second_factor_def split: if_splits option.splits)

lemma challenge_Inr:
  "IssueMFAChallenge c env ttl bytes ch p = (Inr token, p') \<Longrightarrow>
     p' = p\<lparr>challenges := (challenges p)(challenge_key c token \<mapsto> (ch, at_time env + ttl))\<rparr>"
  by (auto simp: IssueMFAChallenge_def Let_def split: if_splits)

lemma opened_from:
  assumes "opened sv env u pair ttl s cl q p'" "same_access p q"
  shows "opened sv env u pair ttl s cl p p'"
  using assms unfolding opened_def by (auto simp: issued_def same_access_def Let_def)

lemma earn_Inr:
  assumes "earn sv env d u rc p = (Inr result, p')"
  shows "if second_factor p (u_ID u)
    then \<exists>token. IssueMFAChallenge (sv_crypto sv) env (sv_mfa_ttl sv) (dr_access d)
           \<lparr>m_UserID = u_ID u, m_Username = u_Username u, m_IPAddress = rq_IPAddress rc\<rparr> p = (Inr token, p') \<and> result = LoginChallenge token
    else \<exists>pair. completeLogin sv env d u rc p = (Inr pair, p') \<and> result = LoginTokens pair"
proof -
  obtain b q where on: "IsEnabled env (u_ID u) p = (Inr b, q)"
    and after: "(if b then try_then (IssueMFAChallenge (sv_crypto sv) env (sv_mfa_ttl sv) (dr_access d)
                     \<lparr>m_UserID = u_ID u, m_Username = u_Username u, m_IPAddress = rq_IPAddress rc\<rparr>)
           (\<lambda>token. return_op (LoginChallenge token))
         else try_then (completeLogin sv env d u rc) (\<lambda>pair. return_op (LoginTokens pair))) q = (Inr result, p')"
    using assms unfolding earn_def try_then_Inr by blast
  have "b = second_factor p (u_ID u)" "q = p" using IsEnabled_Inr [OF on] by auto
  with after show ?thesis by (cases b) (auto simp: try_then_Inr return_op_def)
qed

lemma check_password_Inr:
  assumes "check_password sv env d u name password rc p = (Inr result, p')"
  obtains q where "VerifyPassword (sv_crypto sv) password (u_PasswordHash u) = Inr True" "IsActive u"
    "same_access p q" "earn sv env d u rc q = (Inr result, p')"
proof -
  let ?rehash = "if NeedsRehash (u_PasswordHash u) then rehashPassword sv env d (u_ID u) password else return_op ()"
  obtain m where m: "VerifyPassword (sv_crypto sv) password (u_PasswordHash u) = Inr m"
    and after: "(if \<not> m then
         try_then (recordLoginFailure (u_ID u) name rc ''bad_password'') (\<lambda>_. fail_with ErrInvalidCredentials)
       else if \<not> IsActive u then
         try_then (recordLoginFailure (u_ID u) name rc ''inactive_account'') (\<lambda>_. fail_with ErrAccountInactive)
       else try_then ?rehash (\<lambda>_. earn sv env d u rc)) p = (Inr result, p')"
    using assms unfolding check_password_def try_then_Inr [of "crypto_op _"] crypto_op_Inr by blast
  have ok: m "IsActive u" using after by (auto simp: try_then_Inr fail_with_def split: if_splits)
  then obtain q where q: "?rehash p = (Inr (), q)" "earn sv env d u rc q = (Inr result, p')"
    using after by (auto simp: try_then_Inr)
  have "keeps same_access ?rehash" by (intro book.keeps_rules rehashPassword_book)
  then have "same_access p q" using q(1) by (rule keepsD)
  with m ok q(2) show ?thesis by (intro that) auto
qed

text \<open>C7: \<open>Login\<close> hands out tokens only to somebody the throttle let through who gave the name and the
  password of an account that is active and has no second factor on; the tokens then belong to
  one new session of that account. With a second factor on, the password earns a
  challenge, and neither a session nor a token.\<close>

theorem Login_needs_password:
  assumes "Login sv env d username password rc p = (Inr result, p')"
  shows "\<exists>u \<in> set (users p). u_Username u = NormalizeUsername username \<and>
    VerifyPassword (sv_crypto sv) password (u_PasswordHash u) = Inr True \<and> IsActive u \<and>
    fst (checkRateLimits sv env (NormalizeUsername username) rc p) = Inr () \<and>
    (case result of
       LoginTokens pair \<Rightarrow> \<not> second_factor p (u_ID u) \<and>
         (\<exists>s cl. opened sv env u pair (sv_refresh_ttl sv) s cl p p' \<and> c_Permissions cl = permissions_of p (u_ID u))
     | LoginChallenge token \<Rightarrow> second_factor p (u_ID u) \<and> sessions p' = sessions p \<and> access_tokens p' = access_tokens p \<and>
         challenges p' = (challenges p)(challenge_key (sv_crypto sv) token \<mapsto>
           (\<lparr>m_UserID = u_ID u, m_Username = u_Username u, m_IPAddress = rq_IPAddress rc\<rparr>, at_time env + sv_mfa_ttl sv)))"
proof -
  let ?name = "NormalizeUsername username"
  obtain p1 where limits: "checkRateLimits sv env ?name rc p = (Inr (), p1)"
    using assms unfolding Login_def Let_def by (auto simp: try_then_Inr)
  have p1: "logged p p1" using keepsD [OF checkRateLimits_logged limits] .
  obtain u where u: "GetByUsername env ?name p1 = (Inr u, p1)"
    using assms limits unfolding Login_def Let_def
    by (auto simp: try_then_def fail_with_def GetByUsername_Inr split: prod.splits sum.splits if_splits)
  have found: "u \<in> set (users p)" "u_Username u = ?name"
    using u p1 find_some [of _ "users p" u] by (auto simp: GetByUsername_Inr logged_def)
  have run: "check_password sv env d u ?name password rc p1 = (Inr result, p')"
    using assms limits u by (simp add: Login_def Let_def try_then_def)
  obtain p2 where matched: "VerifyPassword (sv_crypto sv) password (u_PasswordHash u) = Inr True" and active: "IsActive u"
    and same': "same_access p1 p2" and earn: "earn sv env d u rc p2 = (Inr result, p')"
    by (rule check_password_Inr [OF run])
  from same' have same: "same_access p p2" using logged_same_access [OF p1] book.trans by blast
  then have sf: "second_factor p2 (u_ID u) = second_factor p (u_ID u)" by (simp add: second_factor_def same_access_def)
  have "case result of
       LoginTokens pair \<Rightarrow> \<not> second_factor p (u_ID u) \<and>
         (\<exists>s cl. opened sv env u pair (sv_refresh_ttl sv) s cl p p' \<and> c_Permissions cl = permissions_of p (u_ID u))
     | LoginChallenge token \<Rightarrow> second_factor p (u_ID u) \<and> sessions p' = sessions p \<and> access_tokens p' = access_tokens p \<and>
         challenges p' = (challenges p)(challenge_key (sv_crypto sv) token \<mapsto>
           (\<lparr>m_UserID = u_ID u, m_Username = u_Username u, m_IPAddress = rq_IPAddress rc\<rparr>, at_time env + sv_mfa_ttl sv))"
  proof (cases "second_factor p (u_ID u)")
    case True
    then obtain token where token: "IssueMFAChallenge (sv_crypto sv) env (sv_mfa_ttl sv) (dr_access d)
        \<lparr>m_UserID = u_ID u, m_Username = u_Username u, m_IPAddress = rq_IPAddress rc\<rparr> p2 = (Inr token, p')"
      "result = LoginChallenge token"
      using earn_Inr [OF earn] sf by auto
    with True challenge_Inr [OF token(1)] same show ?thesis by (simp add: same_access_def)
  next
    case False
    then obtain pair where pair: "completeLogin sv env d u rc p2 = (Inr pair, p')" "result = LoginTokens pair"
      using earn_Inr [OF earn] sf by auto
    with completeLogin_Inr [OF pair(1)] False show ?thesis
      using opened_from [OF _ same] permissions_of_same [OF same] by simp blast
  qed
  with found matched active limits show ?thesis by auto
qed

section \<open>The second step\<close>

lemma PeekMFAChallenge_Inr:
  "PeekMFAChallenge c env token p = (Inr ch, p') \<Longrightarrow>
     p' = p \<and> unexpired (at_time env) (challenges p (challenge_key c token)) = Some ch"
  by (auto simp: PeekMFAChallenge_def store_op_def fail_with_def split: if_splits option.splits)

lemma UseRecoveryCode_keeps:
  "UseRecoveryCode c env i code p = (r, p') \<Longrightarrow> p' = p\<lparr>recovery_codes := recovery_codes p'\<rparr>"
  by (auto simp: UseRecoveryCode_def Let_def panel_op_defs RecoveryCodesRemaining_def
      split: option.splits if_splits)

lemma completeChallenge_Inr:
  assumes "completeChallenge sv env d token rc check p = (Inr pair, p')"
  obtains ch q q' u where "unexpired (at_time env) (challenges p (challenge_key (sv_crypto sv) token)) = Some ch"
    "logged p q" "check ch q = (Inr (), q')" "find (\<lambda>u. u_ID u = m_UserID ch) (users q') = Some u" "IsActive u"
    "completeLogin sv env d u rc (q'\<lparr>challenges := (challenges q')(challenge_key (sv_crypto sv) token := None)\<rparr>) = (Inr pair, p')"
proof -
  obtain ch p0 where peek: "PeekMFAChallenge (sv_crypto sv) env token p = (Inr ch, p0)"
    using assms unfolding completeChallenge_def by (auto split: prod.splits sum.splits)
  have p0: "p0 = p" "unexpired (at_time env) (challenges p (challenge_key (sv_crypto sv) token)) = Some ch"
    using PeekMFAChallenge_Inr [OF peek] by auto
  obtain q q' q2 q3 u where limits: "checkRateLimits sv env (m_Username ch) rc p = (Inr (), q)"
    and check: "check ch q = (Inr (), q')"
    and consume: "ConsumeMFAChallenge (sv_crypto sv) env token q' = (Inr (), q2)"
    and user: "GetUserByID env (m_UserID ch) q2 = (Inr u, q3)"
    and login: "(if \<not> IsActive u then fail_with ErrAccountInactive else completeLogin sv env d u rc) q3 = (Inr pair, p')"
    using assms peek p0(1) unfolding completeChallenge_def by (simp add: try_then_Inr) blast
  have q2: "q2 = q'\<lparr>challenges := (challenges q')(challenge_key (sv_crypto sv) token := None)\<rparr>"
    using consume by (auto simp: ConsumeMFAChallenge_def store_op_def split: if_splits)
  have "IsActive u" "completeLogin sv env d u rc q3 = (Inr pair, p')"
    using login by (auto simp: fail_with_def split: if_splits)
  with user q2 have "find (\<lambda>u. u_ID u = m_UserID ch) (users q') = Some u" "IsActive u"
    "completeLogin sv env d u rc (q'\<lparr>challenges := (challenges q')(challenge_key (sv_crypto sv) token := None)\<rparr>) = (Inr pair, p')"
    by (auto simp: GetUserByID_Inr)
  with that [OF p0(2) keepsD [OF checkRateLimits_logged limits] check] show ?thesis by blast
qed

text \<open>What signing in with a challenge leaves.\<close>

definition challenged :: "service \<Rightarrow> auth_env \<Rightarrow> go_string \<Rightarrow> token_pair \<Rightarrow> challenge \<Rightarrow> panel \<Rightarrow> panel \<Rightarrow> bool" where
  "challenged sv env token pair ch p p' \<longleftrightarrow>
     unexpired (at_time env) (challenges p (challenge_key (sv_crypto sv) token)) = Some ch \<and>
     challenges p' = (challenges p)(challenge_key (sv_crypto sv) token := None) \<and>
     (\<exists>u \<in> set (users p). u_ID u = m_UserID ch \<and> IsActive u) \<and>
     (\<exists>s cl. sessions p' = sessions p @ [s] \<and> se_UserID s = m_UserID ch \<and> se_RevokedAt s = None \<and>
       se_TokenHash s = HashToken (sv_crypto sv) (tp_Refresh pair) \<and> c_UserID cl = m_UserID ch \<and> c_SessionID cl = se_ID s \<and>
       access_tokens p' = (access_tokens p)(access_key (sv_crypto sv) (tp_Access pair) \<mapsto> (cl, at_time env + sv_access_ttl sv)))"

lemma completeChallenge_challenged:
  assumes "completeChallenge sv env d token rc check p = (Inr pair, p')"
    and "\<And>ch q q'. check ch q = (Inr (), q') \<Longrightarrow>
      users q' = users q \<and> sessions q' = sessions q \<and> access_tokens q' = access_tokens q \<and> challenges q' = challenges q"
  shows "\<exists>ch q. challenged sv env token pair ch p p' \<and> logged p q \<and> fst (check ch q) = Inr ()"
proof -
  obtain ch q q' u where c: "unexpired (at_time env) (challenges p (challenge_key (sv_crypto sv) token)) = Some ch"
    "logged p q" "check ch q = (Inr (), q')" "find (\<lambda>u. u_ID u = m_UserID ch) (users q') = Some u" "IsActive u"
    "completeLogin sv env d u rc (q'\<lparr>challenges := (challenges q')(challenge_key (sv_crypto sv) token := None)\<rparr>) = (Inr pair, p')"
    by (rule completeChallenge_Inr [OF assms(1)])
  have q': "users q' = users p" "sessions q' = sessions p" "access_tokens q' = access_tokens p" "challenges q' = challenges p"
    using assms(2) [OF c(3)] c(2) by (auto simp: logged_def)
  have u: "u \<in> set (users p)" "u_ID u = m_UserID ch" using find_some [OF c(4)] q' by auto
  obtain s cl where "opened sv env u pair (sv_refresh_ttl sv) s cl
      (q'\<lparr>challenges := (challenges q')(challenge_key (sv_crypto sv) token := None)\<rparr>) p'"
    using completeLogin_Inr [OF c(6)] by blast
  then have "challenged sv env token pair ch p p'"
    using c(1,5) u q' unfolding challenged_def opened_def same_access_def issued_def Let_def by auto
  with c(2,3) show ?thesis by (metis fst_conv)
qed

lemma check_code_Inr:
  assumes "check_code sv env code rc ch q = (Inr (), q')"
  shows "q' = q \<and> fst (VerifyCode (sv_crypto sv) env (m_UserID ch) code q) = Inr True"
proof -
  have "q1 = q" if "VerifyCode (sv_crypto sv) env (m_UserID ch) code q = (r, q1)" for r q1
    using that unfolding VerifyCode_def GetEnrolment_def
    by (auto simp: panel_op_defs split: option.splits sum.splits if_splits)
  then show ?thesis using assms unfolding check_code_def
    by (auto simp: panel_op_defs split: prod.splits sum.splits if_splits)
qed

lemma check_recovery_Inr:
  assumes "check_recovery sv env code rc ch q = (Inr (), q')"
  shows "(\<exists>n. fst (UseRecoveryCode (sv_crypto sv) env (m_UserID ch) code q) = Inr (True, n)) \<and>
    users q' = users q \<and> sessions q' = sessions q \<and> access_tokens q' = access_tokens q \<and> challenges q' = challenges q"
proof -
  obtain v n q1 where use: "UseRecoveryCode (sv_crypto sv) env (m_UserID ch) code q = (Inr (v, n), q1)"
    and rest: "(if \<not> v
       then try_then (emit (m_UserID ch) ''user.2fa_failed'' [] rc ''FAILURE'' [(''method'', ''recovery_code'')])
              (\<lambda>_. fail_with ErrInvalidRecoveryCode)
       else emit (m_UserID ch) ''user.2fa_recovery_code_used'' [] rc ''SUCCESS'' [(''remaining'', itoa (int n))]) q1 = (Inr (), q')"
    using assms unfolding check_recovery_def try_then_Inr by auto
  have v: v using rest by (auto simp: panel_op_defs split: if_splits)
  then have "logged q1 q'" using rest keepsD [OF emit_logged] by auto
  moreover have "q1 = q\<lparr>recovery_codes := recovery_codes q1\<rparr>" by (rule UseRecoveryCode_keeps [OF use])
  then have "users q1 = users q" "sessions q1 = sessions q" "access_tokens q1 = access_tokens q" "challenges q1 = challenges q"
    by (metis panel.select_convs panel.surjective panel.update_convs(7))+
  ultimately show ?thesis using use v by (auto simp: logged_def)
qed

lemma VerifyCode_same: "logged p q \<Longrightarrow> fst (VerifyCode c env i code q) = fst (VerifyCode c env i code p)"
  by (auto simp: VerifyCode_def GetEnrolment_def panel_op_defs logged_def split: option.splits sum.splits)

lemma UseRecoveryCode_same: "logged p q \<Longrightarrow> fst (UseRecoveryCode c env i code q) = fst (UseRecoveryCode c env i code p)"
proof -
  assume l: "logged p q"
  then have s: "spendable q i h = spendable p i h" for h by (auto simp: spendable_def logged_def fun_eq_iff)
  show ?thesis
    using l by (auto simp: UseRecoveryCode_def Let_def RecoveryCodesRemaining_def panel_op_defs logged_def s split: option.splits)
qed

lemma used_challenge_refused:
  assumes "challenges p (challenge_key (sv_crypto sv) token) = None"
  shows "fst (completeChallenge sv env d token rc check p) \<noteq> Inr pair"
  using assms
  by (auto simp: completeChallenge_def PeekMFAChallenge_def store_op_def fail_with_def unexpired_def split: prod.splits)

lemma challenge_parts:
  assumes "VerifyTwoFactor sv env d token code rc p = (Inr pair, p') \<or> VerifyRecoveryCode sv env d token code rc p = (Inr pair, p')"
  shows "\<exists>ch. challenged sv env token pair ch p p' \<and>
      (fst (VerifyCode (sv_crypto sv) env (m_UserID ch) code p) = Inr True \<or>
       (\<exists>n. fst (UseRecoveryCode (sv_crypto sv) env (m_UserID ch) code p) = Inr (True, n)))"
    and "fst (VerifyTwoFactor sv env2 d2 token code2 rc2 p') \<noteq> Inr pair2"
    and "fst (VerifyRecoveryCode sv env2 d2 token code2 rc2 p') \<noteq> Inr pair2"
proof -
  show ex: "\<exists>ch. challenged sv env token pair ch p p' \<and>
      (fst (VerifyCode (sv_crypto sv) env (m_UserID ch) code p) = Inr True \<or>
       (\<exists>n. fst (UseRecoveryCode (sv_crypto sv) env (m_UserID ch) code p) = Inr (True, n)))"
    using assms
  proof
    assume run: "VerifyTwoFactor sv env d token code rc p = (Inr pair, p')"
    obtain ch q where c: "challenged sv env token pair ch p p'" "logged p q" "fst (check_code sv env code rc ch q) = Inr ()"
      using completeChallenge_challenged [OF run [unfolded VerifyTwoFactor_def]] check_code_Inr by blast
    then have "fst (VerifyCode (sv_crypto sv) env (m_UserID ch) code q) = Inr True"
      using check_code_Inr [of sv env code rc ch q "snd (check_code sv env code rc ch q)"] by (simp add: prod_eq_iff)
    with c VerifyCode_same show ?thesis by metis
  next
    assume run: "VerifyRecoveryCode sv env d token code rc p = (Inr pair, p')"
    obtain ch q where c: "challenged sv env token pair ch p p'" "logged p q" "fst (check_recovery sv env code rc ch q) = Inr ()"
      using completeChallenge_challenged [OF run [unfolded VerifyRecoveryCode_def]] check_recovery_Inr by blast
    then obtain n where "fst (UseRecoveryCode (sv_crypto sv) env (m_UserID ch) code q) = Inr (True, n)"
      using check_recovery_Inr [of sv env code rc ch q "snd (check_recovery sv env code rc ch q)"] by (auto simp: prod_eq_iff)
    with c UseRecoveryCode_same show ?thesis by metis
  qed
  then have "challenges p' (challenge_key (sv_crypto sv) token) = None" by (auto simp: challenged_def)
  then show "fst (VerifyTwoFactor sv env2 d2 token code2 rc2 p') \<noteq> Inr pair2"
    "fst (VerifyRecoveryCode sv env2 d2 token code2 rc2 p') \<noteq> Inr pair2"
    by (simp_all add: VerifyTwoFactor_def VerifyRecoveryCode_def used_challenge_refused)
qed

text \<open>C8: a challenge is turned into a session only with a valid one-time code or an unused recovery code
  of the account the challenge was issued for, while that account is active; one new session of
  that account is opened, the challenge is gone, and presenting it again opens none.\<close>

theorem challenge_needs_second_factor:
  assumes "VerifyTwoFactor sv env d token code rc p = (Inr pair, p') \<or> VerifyRecoveryCode sv env d token code rc p = (Inr pair, p')"
  shows "(\<exists>ch. challenged sv env token pair ch p p' \<and>
      (fst (VerifyCode (sv_crypto sv) env (m_UserID ch) code p) = Inr True \<or>
       (\<exists>n. fst (UseRecoveryCode (sv_crypto sv) env (m_UserID ch) code p) = Inr (True, n)))) \<and>
    fst (VerifyTwoFactor sv env2 d2 token code2 rc2 p') \<noteq> Inr pair2 \<and>
    fst (VerifyRecoveryCode sv env2 d2 token code2 rc2 p') \<noteq> Inr pair2"
  using challenge_parts [OF assms] by (intro conjI)

section \<open>Somebody else's session\<close>

lemma Impersonate_Inr:
  assumes "Impersonate sv env d actor subject rc p = (Inr (pair, sid), p')"
  shows "IsActive subject" "actor \<noteq> u_ID subject"
    "\<exists>s cl. opened sv env subject pair (impersonation_ttl sv) s cl p p' \<and> se_ID s = sid \<and>
      sid = dr_session d \<and> tp_Refresh pair = refresh_token d \<and>
      c_ImpersonatorUserID cl = actor \<and> c_Permissions cl = stripForbidden (permissions_of p (u_ID subject))"
    "tp_ExpiresIn pair \<le> impersonation_ttl sv div 1000000000"
proof -
  show active: "IsActive subject" "actor \<noteq> u_ID subject"
    using assms by (auto simp: Impersonate_def fail_with_def split: if_splits)
  have go: "\<not> random_fails env DrawRefresh" using assms active by (auto simp: Impersonate_def fail_with_def split: if_splits)
  obtain s p1 access p2 p3 where
    create: "CreateSession env (dr_session d) (u_ID subject) (HashToken (sv_crypto sv) (refresh_token d))
        (rq_IPAddress rc) (rq_UserAgent rc) (at_time env + impersonation_ttl sv) p = (Inr s, p1)"
    and issue: "issueImpersonatedAccessToken sv env d subject (se_ID s) actor p1 = (Inr access, p2)"
    and ev: "emit actor ''tenant.impersonate.session'' (se_ID s) rc ''SUCCESS''
        [(''subject_user_id'', u_ID subject), (''subject'', u_Username subject)] p2 = (Inr (), p3)"
    and pair: "pair = capped (impersonation_ttl sv) (tokenPair sv access (refresh_token d))" "sid = se_ID s" "p' = p3"
    using assms active go unfolding Impersonate_def
    by (simp add: try_then_Inr return_op_def) blast
  have fields: "tp_Access pair = access" "tp_Refresh pair = refresh_token d"
    by (simp_all add: pair(1) capped_def tokenPair_def)
  show "tp_ExpiresIn pair \<le> impersonation_ttl sv div 1000000000" by (simp add: pair(1) capped_def)
  have same: "same_access p2 p'" using keepsD [OF emit_logged ev] pair(3) by (simp add: logged_same_access)
  obtain roles where "p2 = issued (sv_crypto sv) env (sv_access_ttl sv) access
      \<lparr>c_UserID = u_ID subject, c_Username = u_Username subject, c_SessionID = se_ID s,
       c_Permissions = stripForbidden (permissions_of p1 (u_ID subject)),
       c_Roles = roles, c_IssuedAt = at_time env, c_ImpersonatorUserID = actor\<rparr> p1" (is "_ = issued _ _ _ _ ?cl _")
    using issueImpersonated_Inr [OF issue] by blast
  moreover have p1: "p1 = p\<lparr>sessions := sessions p @ [s]\<rparr>" using create by (simp add: CreateSession_Inr)
  moreover from p1 have "permissions_of p1 (u_ID subject) = permissions_of p (u_ID subject)" by simp
  ultimately have "opened sv env subject pair (impersonation_ttl sv) s ?cl p p'"
    using create same fields by (auto simp: opened_def CreateSession_Inr)
  moreover have "se_ID s = dr_session d" using create by (simp add: CreateSession_Inr)
  ultimately show "\<exists>s cl. opened sv env subject pair (impersonation_ttl sv) s cl p p' \<and> se_ID s = sid \<and>
      sid = dr_session d \<and> tp_Refresh pair = refresh_token d \<and>
      c_ImpersonatorUserID cl = actor \<and> c_Permissions cl = stripForbidden (permissions_of p (u_ID subject))"
    using fields(2) pair(2) p1
    by (intro exI [of _ s] exI [of _ ?cl]) simp
qed

lemma Lookup_Inr:
  "Lookup c env token p = (Inr cl, q) \<Longrightarrow> q = p \<and> unexpired (at_time env) (access_tokens p (access_key c token)) = Some cl"
  by (auto simp: Lookup_def store_op_def fail_with_def split: if_splits option.splits)

lemma GetSessionByID_Inr:
  "GetSessionByID env i p = (Inr s, q) \<Longrightarrow> q = p \<and> find (\<lambda>s. se_ID s = i) (sessions p) = Some s"
  by (auto simp: GetSessionByID_def store_op_def split: if_splits option.splits)

lemma Authenticate_Inr:
  assumes "Authenticate sv env token p = (Inr cl, p')"
  obtains s where "unexpired (at_time env) (access_tokens p (access_key (sv_crypto sv) token)) = Some cl"
    "find (\<lambda>s. se_ID s = c_SessionID cl) (sessions p) = Some s" "IsUsable s (at_time env)" "p' = p"
proof -
  obtain cl' q where l: "Lookup (sv_crypto sv) env token p = (Inr cl', q)"
    using assms by (auto simp: Authenticate_def split: prod.splits sum.splits)
  have q: "q = p" "unexpired (at_time env) (access_tokens p (access_key (sv_crypto sv) token)) = Some cl'"
    using Lookup_Inr [OF l] by auto
  obtain s q2 where s: "GetSessionByID env (c_SessionID cl') p = (Inr s, q2)"
    using assms l q by (auto simp: Authenticate_def split: prod.splits sum.splits)
  then have q2: "q2 = p" "find (\<lambda>s. se_ID s = c_SessionID cl') (sessions p) = Some s"
    using GetSessionByID_Inr by auto
  have "IsUsable s (at_time env)" "cl' = cl" "p' = p"
    using assms l q(1) s q2(1) by (auto simp: Authenticate_def split: if_splits)
  with q(2) q2(2) that show ?thesis by blast
qed

lemma guarded_route_Served:
  assumes "fst (guarded_route sv env permission header p) = Served cl"
  shows "fst (Authenticate sv env (bearerToken header) p) = Inr cl" "Has (c_Permissions cl) permission"
  using assms by (auto simp: guarded_route_def Let_def split: if_splits prod.splits sum.splits)

lemma impersonation_parts:
  assumes "Impersonate sv env d actor subject rc p = (Inr (pair, sid), p')"
  shows "IsActive subject" "actor \<noteq> u_ID subject" "tp_ExpiresIn pair \<le> 3600"
    and "\<exists>s cl. opened sv env subject pair (impersonation_ttl sv) s cl p p' \<and> se_ID s = sid \<and>
      se_ExpiresAt s \<le> at_time env + 60 * minute \<and> c_ImpersonatorUserID cl = actor"
    and "permission \<in> set forbiddenWhileImpersonating \<Longrightarrow> bearerToken header = tp_Access pair \<Longrightarrow>
      fst (guarded_route sv env2 permission header p') \<noteq> Served cl2"
proof -
  note imp = Impersonate_Inr [OF assms]
  show "IsActive subject" "actor \<noteq> u_ID subject" by (fact imp(1), fact imp(2))
  have ttl: "impersonation_ttl sv \<le> 60 * minute" by (simp add: impersonation_ttl_def impersonationTTL_def)
  then have "impersonation_ttl sv div 1000000000 \<le> 3600" by (simp add: minute_def)
  with imp(4) show "tp_ExpiresIn pair \<le> 3600" by linarith
  obtain s cl where o: "opened sv env subject pair (impersonation_ttl sv) s cl p p'" "se_ID s = sid"
    "c_ImpersonatorUserID cl = actor" "c_Permissions cl = stripForbidden (permissions_of p (u_ID subject))"
    using imp(3) by blast
  from o(1) ttl have "se_ExpiresAt s \<le> at_time env + 60 * minute" by (simp add: opened_def)
  with o show "\<exists>s cl. opened sv env subject pair (impersonation_ttl sv) s cl p p' \<and> se_ID s = sid \<and>
      se_ExpiresAt s \<le> at_time env + 60 * minute \<and> c_ImpersonatorUserID cl = actor"
    by blast
  assume q: "permission \<in> set forbiddenWhileImpersonating" and h: "bearerToken header = tp_Access pair"
  show "fst (guarded_route sv env2 permission header p') \<noteq> Served cl2"
  proof
    assume served: "fst (guarded_route sv env2 permission header p') = Served cl2"
    have auth: "Authenticate sv env2 (tp_Access pair) p' = (Inr cl2, snd (Authenticate sv env2 (tp_Access pair) p'))"
      using guarded_route_Served(1) [OF served] h by (simp add: prod_eq_iff)
    have "access_tokens p' (access_key (sv_crypto sv) (tp_Access pair)) = Some (cl, at_time env + sv_access_ttl sv)"
      using o(1) by (simp add: opened_def same_access_def issued_def Let_def)
    moreover have "unexpired (at_time env2) (access_tokens p' (access_key (sv_crypto sv) (tp_Access pair))) = Some cl2"
      by (rule Authenticate_Inr [OF auth])
    ultimately have "cl2 = cl" by (simp add: unexpired_def split: if_splits)
    with guarded_route_Served(2) [OF served] o(4) q show False
      by (auto simp: Has_def list_ex_iff stripForbidden_def)
  qed
qed

text \<open>Right after it was opened: a session opened for somebody else is for an active account that is not the actor's own, lives
  an hour at most, names the actor in its claims, and a route that asks for one of the
  permissions of tenancy or of user management is not served to its access token.\<close>

theorem impersonation_first_token:
  assumes "Impersonate sv env d actor subject rc p = (Inr (pair, sid), p')"
  shows "IsActive subject \<and> actor \<noteq> u_ID subject \<and> tp_ExpiresIn pair \<le> 3600 \<and>
    (\<exists>s cl. opened sv env subject pair (impersonation_ttl sv) s cl p p' \<and> se_ID s = sid \<and>
      se_ExpiresAt s \<le> at_time env + 60 * minute \<and> c_ImpersonatorUserID cl = actor) \<and>
    (permission \<in> set forbiddenWhileImpersonating \<and> bearerToken header = tp_Access pair \<longrightarrow>
      fst (guarded_route sv env2 permission header p') \<noteq> Served cl2)"
  using impersonation_parts [OF assms] by (intro conjI impI) simp_all

section \<open>Examples\<close>

definition demo_service :: service where
  "demo_service =
     \<lparr>sv_crypto = open_primitives, sv_access_ttl = 15 * minute, sv_refresh_ttl = 20160 * minute, sv_mfa_ttl = 5 * minute,
      sv_user_limit = \<lparr>l_prefix = ''u:'', l_limit = 5, l_window = 15 * minute\<rparr>,
      sv_ip_limit = \<lparr>l_prefix = ''i:'', l_limit = 20, l_window = 15 * minute\<rparr>\<rparr>"

definition demo_draw :: draw where
  "demo_draw = \<lparr>dr_refresh = ''r'', dr_access = ''a'', dr_salt = ''s'', dr_session = ''s1''\<rparr>"

definition demo_rc :: request_ctx where
  "demo_rc = \<lparr>rq_IPAddress = ''203.0.113.7'', rq_UserAgent = ''curl''\<rparr>"

definition demo_user :: "go_string \<Rightarrow> user" where
  "demo_user hash = \<lparr>u_ID = ''u1'', u_Username = ''alice'', u_PasswordHash = hash, u_Status = ''active'', u_LastLoginAt = None\<rparr>"

definition demo_panel :: "go_string \<Rightarrow> panel" where
  "demo_panel hash = empty_panel\<lparr>users := [demo_user hash], user_roles := [(''u1'', ''reseller'')],
     role_permissions := [(''reseller'', ''tenant.view''), (''reseller'', ''website.view'')]\<rparr>"

lemmas demo_defs = demo_service_def demo_draw_def demo_rc_def demo_user_def demo_panel_def calm_def empty_panel_def

lemma demo_limits:
  assumes "throttle p = Map.empty"
  shows "\<exists>q. checkRateLimits demo_service (calm 0) name demo_rc p = (Inr (), q) \<and> logged p q"
proof -
  have "fst (checkRateLimits demo_service (calm 0) name demo_rc p) = Inr ()"
    using assms
    by (auto simp: checkRateLimits_def try_then_def limit_op_def Allow_def consume_def live_def Let_def return_op_def
        demo_service_def calm_def demo_rc_def split: option.splits)
  then show ?thesis using keepsD [OF checkRateLimits_logged] by (metis prod.collapse)
qed

lemma demo_complete:
  assumes "users p = [u]" "sessions p = []"
  shows "\<exists>pair p'. completeLogin demo_service (calm 0) demo_draw u demo_rc p = (Inr pair, p')"
  using assms
  by (simp add: completeLogin_def try_then_def CreateSession_def store_op_def issueAccessToken_def PermissionsForUser_def
      RolesForUser_def Issue_def Let_def ignoring_def reset_limit_def emit_def return_op_def calm_def)

theorem Login_needs_password_witness:
  "\<exists>h pair p'. HashPassword open_primitives ''0123456789abcdef'' ''correct horse'' = Inr h \<and>
     Login demo_service (calm 0) demo_draw '' Alice'' ''correct horse'' demo_rc (demo_panel h) = (Inr (LoginTokens pair), p') \<and>
     \<not> second_factor (demo_panel h) ''u1'' \<and> (\<exists>s. sessions p' = [s] \<and> se_UserID s = ''u1'')"
proof -
  let ?pw = "''correct horse''"
  obtain h where h: "HashPassword open_primitives ''0123456789abcdef'' ?pw = Inr h"
    by (simp add: HashPassword_def ValidatePassword_def MinPasswordLength_def MaxPasswordLength_def Let_def)
  have len: "\<And>p s t m k n. length (argon2_key open_primitives p s t m k n) = n"
    by (simp add: open_primitives_def toy_primitives_def)
  have pw: "VerifyPassword open_primitives ?pw h = Inr True" "\<not> NeedsRehash h"
    using HashPassword_ok [OF len h] by simp_all
  have name: "NormalizeUsername '' Alice'' = ''alice''" "NormalizeUsername ''alice'' = ''alice''" by code_simp+
  obtain q where q: "checkRateLimits demo_service (calm 0) ''alice'' demo_rc (demo_panel h) = (Inr (), q)" "logged (demo_panel h) q"
    using demo_limits [of "demo_panel h"] by (auto simp: demo_panel_def empty_panel_def)
  have fields: "users q = [demo_user h]" "sessions q = []" "enrolments q = []"
    using q(2) by (simp_all add: logged_def demo_panel_def empty_panel_def)
  obtain pair p' where pair: "completeLogin demo_service (calm 0) demo_draw (demo_user h) demo_rc q = (Inr pair, p')"
    using demo_complete [OF fields(1,2)] by blast
  have "GetByUsername (calm 0) ''alice'' q = (Inr (demo_user h), q)"
    using fields(1) name(2) by (simp add: GetByUsername_Inr calm_def demo_user_def)
  then have run: "Login demo_service (calm 0) demo_draw '' Alice'' ?pw demo_rc (demo_panel h) = (Inr (LoginTokens pair), p')"
    using q(1) name(1) pw pair fields(3)
    by (simp add: Login_def Let_def try_then_def check_password_def crypto_op_def earn_def IsEnabled_def store_op_def
        return_op_def IsActive_def StatusActive_def demo_user_def calm_def demo_service_def)
  from Login_needs_password [OF run] obtain u s cl where "u \<in> set (users (demo_panel h))" "\<not> second_factor (demo_panel h) (u_ID u)"
    "opened demo_service (calm 0) u pair (sv_refresh_ttl demo_service) s cl (demo_panel h) p'"
    by auto
  then have "u_ID u = ''u1''" "\<not> second_factor (demo_panel h) ''u1''" "sessions p' = [s]" "se_UserID s = ''u1''"
    by (auto simp: opened_def same_access_def issued_def Let_def demo_panel_def demo_user_def empty_panel_def)
  with h run show ?thesis by blast
qed

theorem challenge_needs_second_factor_witness:
  "\<exists>pair p' d2. VerifyRecoveryCode demo_service (calm 0) demo_draw ''tok'' ''2222-2222-2222-2222'' demo_rc
      (demo_panel []\<lparr>enrolments := [\<lparr>en_UserID = ''u1'', en_Secret = [], en_Enabled = True\<rparr>],
        recovery_codes := [\<lparr>rr_UserID = ''u1'', rr_CodeHash = hashRecoveryCode open_primitives ''u1'' (replicate 16 CHR ''2''), rr_UsedAt = None\<rparr>],
        challenges := [challenge_key open_primitives ''tok'' \<mapsto> (\<lparr>m_UserID = ''u1'', m_Username = ''alice'', m_IPAddress = []\<rparr>, minute)]\<rparr>) = (Inr pair, p') \<and>
     (\<exists>s. sessions p' = [s] \<and> se_UserID s = ''u1'') \<and>
     fst (VerifyRecoveryCode demo_service (calm 1) d2 ''tok'' ''2222-2222-2222-2222'' demo_rc p') \<noteq> Inr pair"
proof -
  let ?ch = "\<lparr>m_UserID = ''u1'', m_Username = ''alice'', m_IPAddress = []\<rparr>"
  let ?p = "demo_panel []\<lparr>enrolments := [\<lparr>en_UserID = ''u1'', en_Secret = [], en_Enabled = True\<rparr>],
        recovery_codes := [\<lparr>rr_UserID = ''u1'', rr_CodeHash = hashRecoveryCode open_primitives ''u1'' (replicate 16 CHR ''2''), rr_UsedAt = None\<rparr>],
        challenges := [challenge_key open_primitives ''tok'' \<mapsto> (?ch, minute)]\<rparr>"
  have norm: "NormalizeRecoveryCode ''2222-2222-2222-2222'' = Some (replicate 16 CHR ''2'')" by code_simp
  have peek: "PeekMFAChallenge open_primitives (calm 0) ''tok'' ?p = (Inr ?ch, ?p)"
    by (simp add: PeekMFAChallenge_def store_op_def unexpired_def calm_def minute_def)
  obtain q where q: "checkRateLimits demo_service (calm 0) ''alice'' demo_rc ?p = (Inr (), q)" "logged ?p q"
    using demo_limits [of ?p] by (auto simp: demo_panel_def empty_panel_def)
  have fields: "users q = [demo_user []]" "sessions q = []" "enrolments q = enrolments ?p" "recovery_codes q = recovery_codes ?p"
    using q(2) by (simp_all add: logged_def demo_panel_def empty_panel_def)
  obtain q2 where q2: "check_recovery demo_service (calm 0) ''2222-2222-2222-2222'' demo_rc ?ch q = (Inr (), q2)"
    using fields(3,4) norm
    by (simp add: check_recovery_def try_then_def UseRecoveryCode_def Let_def store_op_def spendable_def calm_def
        RecoveryCodesRemaining_def return_op_def emit_def demo_service_def)
  from check_recovery_Inr [OF q2] fields(1,2) have q2f: "users q2 = [demo_user []]" "sessions q2 = []" by auto
  obtain pair p' where pair: "completeLogin demo_service (calm 0) demo_draw (demo_user []) demo_rc
      (q2\<lparr>challenges := (challenges q2)(challenge_key open_primitives ''tok'' := None)\<rparr>) = (Inr pair, p')"
    using demo_complete [of "q2\<lparr>challenges := (challenges q2)(challenge_key open_primitives ''tok'' := None)\<rparr>"] q2f by auto
  have sv: "sv_crypto demo_service = open_primitives" by (simp add: demo_service_def)
  have run: "VerifyRecoveryCode demo_service (calm 0) demo_draw ''tok'' ''2222-2222-2222-2222'' demo_rc ?p = (Inr pair, p')"
    unfolding VerifyRecoveryCode_def completeChallenge_def sv peek using q(1) q2 pair q2f(1)
    by (simp add: try_then_def ConsumeMFAChallenge_def store_op_def GetUserByID_def IsActive_def StatusActive_def calm_def demo_user_def)
  note c = challenge_needs_second_factor [OF disjI2, OF run]
  have "\<exists>s. sessions p' = [s] \<and> se_UserID s = ''u1''"
    using c [THEN conjunct1] by (auto simp: challenged_def sv unexpired_def calm_def demo_panel_def empty_panel_def split: if_splits)
  with run c show ?thesis by blast
qed

theorem impersonation_first_token_witness:
  "\<exists>pair sid p'. Impersonate demo_service (calm 0) demo_draw ''admin'' (demo_user []) demo_rc (demo_panel []) = (Inr (pair, sid), p') \<and>
     tp_ExpiresIn pair \<le> 3600 \<and>
     fst (guarded_route demo_service (calm 1) ''tenant.view'' (''Bearer '' @ tp_Access pair) p') \<notin> range Served"
proof -
  have "\<exists>pair sid p'. Impersonate demo_service (calm 0) demo_draw ''admin'' (demo_user []) demo_rc (demo_panel []) = (Inr (pair, sid), p')"
    by (simp add: Impersonate_def try_then_def CreateSession_def store_op_def issueImpersonatedAccessToken_def PermissionsForUser_def
        RolesForUser_def Issue_def Let_def emit_def return_op_def IsActive_def StatusActive_def demo_defs)
  then obtain pair sid p' where run: "Impersonate demo_service (calm 0) demo_draw ''admin'' (demo_user []) demo_rc (demo_panel []) = (Inr (pair, sid), p')"
    by blast
  have "tp_Access pair = NewToken ''a''"
    using run by (simp add: Impersonate_def try_then_def CreateSession_def store_op_def issueImpersonatedAccessToken_def PermissionsForUser_def
        RolesForUser_def Issue_def Let_def emit_def return_op_def IsActive_def StatusActive_def demo_defs capped_def tokenPair_def split: if_splits)
      auto
  moreover have "bearerToken (''Bearer '' @ NewToken ''a'') = NewToken ''a''" by code_simp
  ultimately have "fst (guarded_route demo_service (calm 1) ''tenant.view'' (''Bearer '' @ tp_Access pair) p') \<noteq> Served cl" for cl
    using impersonation_first_token [OF run, of "''tenant.view''" "''Bearer '' @ tp_Access pair"]
    by (simp add: forbiddenWhileImpersonating_def)
  with run impersonation_first_token [OF run] show ?thesis by blast
qed

end
