(* ===== verification/Api_Session_Moves.thy ===== *)
theory Api_Session_Moves
  imports Api_Signin
begin

text \<open>
  What the calls of \<open>Api_Auth\<close> do to what grants access, the session rows, the retired hashes and
  the access tokens: each call, whatever fails in it, is shown to be a sequence of a few moves, and
  what a move keeps is proved once for all the calls.
\<close>

section \<open>The moves\<close>

definition new_hash :: "service \<Rightarrow> draw \<Rightarrow> go_string" where
  "new_hash sv d = HashToken (sv_crypto sv) (refresh_token d)"

definition grants :: "panel \<Rightarrow> session list \<times> (go_string \<times> go_string) list \<times>
    (go_string \<rightharpoonup> claims \<times> int) \<times> (go_string \<rightharpoonup> go_string list \<times> int)" where
  "grants p = (sessions p, retired p, access_tokens p, token_index p)"

definition live_members :: "auth_env \<Rightarrow> panel \<Rightarrow> go_string \<Rightarrow> go_string list" where
  "live_members env p index = (case unexpired (at_time env) (token_index p index) of None \<Rightarrow> [] | Some m \<Rightarrow> m)"

definition dropped :: "auth_env \<Rightarrow> go_string \<Rightarrow> panel \<Rightarrow> panel" where
  "dropped env i p =
     p\<lparr>access_tokens := (\<lambda>k. if k \<in> set (live_members env p (sessionIndexPrefix @ i)) then None else access_tokens p k),
       token_index := (token_index p)(sessionIndexPrefix @ i := None)\<rparr>"

inductive access_move :: "service \<Rightarrow> auth_env \<Rightarrow> draw \<Rightarrow> panel \<Rightarrow> panel \<Rightarrow> bool" for sv env d where
  book: "grants p' = grants p \<Longrightarrow> access_move sv env d p p'"
| open_new: "se_ID s = dr_session d \<Longrightarrow> se_TokenHash s = new_hash sv d \<Longrightarrow> se_RevokedAt s = None \<Longrightarrow>
    \<forall>x \<in> set (sessions p). se_ID x \<noteq> se_ID s \<and> se_TokenHash x \<noteq> se_TokenHash s \<Longrightarrow>
    \<forall>k cl e. access_tokens p k = Some (cl, e) \<longrightarrow> c_SessionID cl \<noteq> se_ID s \<Longrightarrow>
    grants p' = grants (p\<lparr>sessions := sessions p @ [s]\<rparr>) \<Longrightarrow> access_move sv env d p p'"
| issuing: "\<exists>s \<in> set (sessions p). se_ID s = c_SessionID cl \<and> se_UserID s = c_UserID cl \<and> se_TokenHash s = new_hash sv d \<Longrightarrow>
    grants p' = grants (issued (sv_crypto sv) env (sv_access_ttl sv) token cl p) \<Longrightarrow> access_move sv env d p p'"
| rotating: "s \<in> set (sessions p) \<Longrightarrow> IsUsable s (at_time env) \<Longrightarrow>
    \<forall>x \<in> set (sessions p). se_TokenHash x \<noteq> new_hash sv d \<Longrightarrow>
    grants p' = grants (p\<lparr>sessions := map (\<lambda>x. if se_ID x = se_ID s then s\<lparr>se_TokenHash := new_hash sv d, se_ExpiresAt := e\<rparr> else x) (sessions p),
      retired := (if se_TokenHash s \<in> fst ` set (retired p) then retired p else retired p @ [(se_TokenHash s, se_ID s)])\<rparr>) \<Longrightarrow>
    access_move sv env d p p'"
| revoking: "grants p' = grants (p\<lparr>sessions := revoke_where (at_time env) P (sessions p)\<rparr>) \<Longrightarrow> access_move sv env d p p'"
| dropping: "grants p' = grants (dropped env i p) \<Longrightarrow> access_move sv env d p p'"
| deleting: "grants p' = grants (p\<lparr>sessions := filter P (sessions p), retired := filter Q (retired p)\<rparr>) \<Longrightarrow> access_move sv env d p p'"

abbreviation moves :: "service \<Rightarrow> auth_env \<Rightarrow> draw \<Rightarrow> panel \<Rightarrow> panel \<Rightarrow> bool" where
  "moves sv env d \<equiv> (access_move sv env d)\<^sup>*\<^sup>*"

interpretation mv: kept_relation "moves sv env d" for sv env d
  by unfold_locales auto

lemma move: "access_move sv env d p p' \<Longrightarrow> moves sv env d p p'"
  by blast

text \<open>Most of what the calls do in between grants nothing.\<close>

definition quiet :: "panel \<Rightarrow> panel \<Rightarrow> bool" where
  "quiet p p' \<longleftrightarrow> grants p' = grants p"

interpretation qt: kept_relation quiet
  by unfold_locales (simp_all add: quiet_def)

lemma quiet_moves: "quiet p p' \<Longrightarrow> moves sv env d p p'"
  by (intro move access_move.book) (simp add: quiet_def)

lemma same_access_quiet: "same_access p p' \<Longrightarrow> quiet p p'"
  by (simp add: same_access_def quiet_def grants_def)

lemma keeps_moves: "keeps quiet m \<Longrightarrow> keeps (moves sv env d) m"
  by (erule keeps_weaken) (rule quiet_moves)

section \<open>The calls are made of moves\<close>

lemma book_quiet: "keeps same_access m \<Longrightarrow> keeps quiet m"
  by (erule keeps_weaken) (rule same_access_quiet)

lemma logged_quiet: "keeps logged m \<Longrightarrow> keeps quiet m"
  by (erule keeps_weaken) (rule same_access_quiet [OF logged_same_access])

lemmas log_quiet = emit_logged [THEN logged_quiet] crypto_op_logged [THEN logged_quiet]
  checkRateLimits_logged [THEN logged_quiet] reset_limit_logged [THEN logged_quiet] rehashPassword_book [THEN book_quiet]

lemma grants_quiet: "(\<And>p r p'. m p = (r, p') \<Longrightarrow> grants p' = grants p) \<Longrightarrow> keeps quiet m"
  by (auto simp: keeps_def quiet_def)

lemmas read_defs = GetByUsername_def GetUserByID_def GetEnrolment_def IsEnabled_def RolesForUser_def PermissionsForUser_def
  GetSessionByID_def Lookup_def PeekMFAChallenge_def ConsumeMFAChallenge_def IssueMFAChallenge_def Disable_def
  RecoveryCodesRemaining_def

lemma read_quiet:
  "keeps quiet (GetByUsername env name)" "keeps quiet (GetUserByID env i)" "keeps quiet (GetEnrolment env i)"
  "keeps quiet (IsEnabled env i)" "keeps quiet (RolesForUser env i)" "keeps quiet (PermissionsForUser env i)"
  "keeps quiet (GetSessionByID env i)" "keeps quiet (Lookup c env token)" "keeps quiet (PeekMFAChallenge c env token)"
  "keeps quiet (ConsumeMFAChallenge c env token)" "keeps quiet (IssueMFAChallenge c env ttl bytes ch)"
  "keeps quiet (Disable env i)" "keeps quiet (RecoveryCodesRemaining env i)"
  by (rule grants_quiet, auto simp: read_defs store_op_def fail_with_def grants_def Let_def split: if_splits option.splits)+

lemma store_moves: "(\<And>p r p'. m p = (r, p') \<Longrightarrow> moves sv env d p p') \<Longrightarrow> keeps (moves sv env d) (store_op env call m)"
  by (auto simp: keeps_def store_op_def)

lemma Revoke_moves: "keeps (moves sv env d) (Revoke env i)"
  unfolding Revoke_def by (rule store_moves) (auto intro!: move access_move.revoking)

lemma RevokeAllForUser_moves: "keeps (moves sv env d) (RevokeAllForUser env i)"
  unfolding RevokeAllForUser_def by (rule store_moves) (auto intro!: move access_move.revoking)

lemma RevokeSession_eq:
  "RevokeSession env i p =
     (if store_fails env (ListTokens i) \<or> store_fails env (DropTokens i) then (Inl StoreFailed, p) else (Inr (), dropped env i p))"
  by (simp add: RevokeSession_def dropped_def live_members_def Let_def)

lemma RevokeSession_moves: "keeps (moves sv env d) (RevokeSession env i)"
  by (auto simp: keeps_def RevokeSession_eq intro!: move access_move.dropping)

lemmas end_moves = Revoke_moves RevokeAllForUser_moves RevokeSession_moves

lemma RevokeSessions_moves: "keeps (moves sv env d) (RevokeSessions env ids)"
  by (induction ids) (simp_all add: mv.keeps_return mv.keeps_then end_moves)

lemma end_session_moves: "keeps (moves sv env d) (end_session env i)"
  unfolding end_session_def by (intro mv.keeps_rules end_moves)

lemma issue_moves:
  assumes "issueAccessToken sv env d u sid p = (r, p')" "\<exists>s \<in> set (sessions p). se_ID s = sid \<and> se_UserID s = u_ID u \<and> se_TokenHash s = new_hash sv d"
  shows "moves sv env d p p'"
proof (cases r)
  case (Inl e)
  then have "p' = p"
    using assms(1) unfolding issueAccessToken_def
    by (auto simp: try_then_def PermissionsForUser_def RolesForUser_def store_op_def Issue_def Let_def split: prod.splits sum.splits if_splits)
  then show ?thesis by simp
next
  case (Inr token)
  with issueAccessToken_Inr [of sv env d u sid p token p'] assms(1) obtain roles where
    "p' = issued (sv_crypto sv) env (sv_access_ttl sv) token
      \<lparr>c_UserID = u_ID u, c_Username = u_Username u, c_SessionID = sid, c_Permissions = permissions_of p (u_ID u),
       c_Roles = roles, c_IssuedAt = at_time env, c_ImpersonatorUserID = []\<rparr> p" by blast
  then show ?thesis using assms(2) by (intro move access_move.issuing) auto
qed

lemma issue_impersonated_moves:
  assumes "issueImpersonatedAccessToken sv env d u sid actor p = (r, p')" "\<exists>s \<in> set (sessions p). se_ID s = sid \<and> se_UserID s = u_ID u \<and> se_TokenHash s = new_hash sv d"
  shows "moves sv env d p p'"
proof (cases r)
  case (Inl e)
  then have "p' = p"
    using assms(1) unfolding issueImpersonatedAccessToken_def
    by (auto simp: try_then_def PermissionsForUser_def RolesForUser_def store_op_def Issue_def Let_def split: prod.splits sum.splits if_splits)
  then show ?thesis by simp
next
  case (Inr token)
  with issueImpersonated_Inr [of sv env d u sid actor p token p'] assms(1) obtain roles where
    "p' = issued (sv_crypto sv) env (sv_access_ttl sv) token
      \<lparr>c_UserID = u_ID u, c_Username = u_Username u, c_SessionID = sid, c_Permissions = stripForbidden (permissions_of p (u_ID u)),
       c_Roles = roles, c_IssuedAt = at_time env, c_ImpersonatorUserID = actor\<rparr> p" by blast
  then show ?thesis using assms(2) by (intro move access_move.issuing) auto
qed

text \<open>What a draw has to be for the call it serves: its session identifier names no token.\<close>

definition unnamed :: "draw \<Rightarrow> panel \<Rightarrow> bool" where
  "unnamed d p \<longleftrightarrow> (\<forall>k cl e. access_tokens p k = Some (cl, e) \<longrightarrow> c_SessionID cl \<noteq> dr_session d)"

lemma create_moves:
  assumes "CreateSession env (dr_session d) uid (new_hash sv d) address agent e p = (r, p')" "unnamed d p"
  shows "moves sv env d p p'"
proof (cases r)
  case (Inl e)
  with assms(1) show ?thesis by (auto simp: CreateSession_def store_op_def Let_def split: if_splits)
next
  case (Inr s)
  then show ?thesis
    using assms by (intro move access_move.open_new [of s]) (auto simp: CreateSession_Inr unnamed_def)
qed

lemma completeLogin_moves:
  assumes "completeLogin sv env d u rc p = (r, p')" "unnamed d p"
  shows "moves sv env d p p'"
proof (cases "random_fails env DrawRefresh")
  case True
  with assms(1) show ?thesis by (simp add: completeLogin_def fail_with_def)
next
  case False
  let ?rest = "\<lambda>s access. try_then (ignoring (TouchLastLogin env (u_ID u))) (\<lambda>_.
        try_then (reset_limit sv env (u_Username u)) (\<lambda>_.
        try_then (emit (u_ID u) ''auth.login'' (se_ID s) rc ''SUCCESS'' []) (\<lambda>_.
          return_op (tokenPair sv access (refresh_token d)))))"
  have rest: "keeps (moves sv env d) (?rest s access)" for s access
    unfolding TouchLastLogin_def
    by (intro keeps_moves qt.keeps_rules ignoring_keeps log_quiet book_quiet [OF update_user_book])
  have run: "try_then (CreateSession env (dr_session d) (u_ID u) (new_hash sv d) (rq_IPAddress rc) (rq_UserAgent rc)
      (at_time env + sv_refresh_ttl sv)) (\<lambda>s. try_then (issueAccessToken sv env d u (se_ID s)) (?rest s)) p = (r, p')"
    using assms(1) False by (simp add: completeLogin_def new_hash_def)
  show ?thesis
  proof (rule mv.then_from [OF run])
    fix s q x t
    assume create: "CreateSession env (dr_session d) (u_ID u) (new_hash sv d) (rq_IPAddress rc) (rq_UserAgent rc)
        (at_time env + sv_refresh_ttl sv) p = (Inr s, q)"
      and after: "try_then (issueAccessToken sv env d u (se_ID s)) (?rest s) q = (x, t)"
    have row: "\<exists>s' \<in> set (sessions q). se_ID s' = se_ID s \<and> se_UserID s' = u_ID u \<and> se_TokenHash s' = new_hash sv d"
      using create by (simp add: CreateSession_Inr)
    show "moves sv env d q t"
      by (rule mv.then_from [OF after]) (auto intro: issue_moves [OF _ row] keepsD [OF rest])
  qed (rule create_moves [OF _ assms(2)])
qed

lemma quiet_unnamed: "quiet p q \<Longrightarrow> unnamed d p \<Longrightarrow> unnamed d q"
  by (simp add: quiet_def grants_def unnamed_def)

text \<open>A call fits when it makes moves from every state its draw is still unused in.\<close>

definition fits :: "service \<Rightarrow> auth_env \<Rightarrow> draw \<Rightarrow> 'a panel_op \<Rightarrow> bool" where
  "fits sv env d m \<longleftrightarrow> (\<forall>p r p'. m p = (r, p') \<longrightarrow> unnamed d p \<longrightarrow> moves sv env d p p')"

lemma fitsD: "fits sv env d m \<Longrightarrow> m p = (r, p') \<Longrightarrow> unnamed d p \<Longrightarrow> moves sv env d p p'"
  by (auto simp: fits_def)

lemma fits_keeps: "keeps (moves sv env d) m \<Longrightarrow> fits sv env d m"
  by (auto simp: fits_def keeps_def)

lemma fits_quiet: "keeps quiet m \<Longrightarrow> fits sv env d m"
  by (intro fits_keeps keeps_moves)

lemma fits_then:
  assumes "keeps quiet m" "\<And>a. fits sv env d (f a)"
  shows "fits sv env d (try_then m f)"
  unfolding fits_def
proof (intro allI impI)
  fix p r p'
  assume run: "try_then m f p = (r, p')" and un: "unnamed d p"
  show "moves sv env d p p'"
  proof (rule mv.then_from [OF run])
    fix a q x t
    assume "m p = (Inr a, q)" "f a q = (x, t)"
    then show "moves sv env d q t" using fitsD [OF assms(2)] quiet_unnamed [OF keepsD [OF assms(1)] un] by blast
  qed (rule keepsD [OF keeps_moves [OF assms(1)]])
qed

lemma fits_last:
  assumes "fits sv env d m" "\<And>a. keeps quiet (f a)"
  shows "fits sv env d (try_then m f)"
  unfolding fits_def
proof (intro allI impI)
  fix p r p'
  assume run: "try_then m f p = (r, p')" and un: "unnamed d p"
  show "moves sv env d p p'"
    by (rule mv.then_from [OF run]) (auto intro: fitsD [OF assms(1) _ un] keepsD [OF keeps_moves [OF assms(2)]])
qed

lemma fits_if: "fits sv env d m \<Longrightarrow> fits sv env d n \<Longrightarrow> fits sv env d (if b then m else n)"
  by simp

lemma completeLogin_fits: "fits sv env d (completeLogin sv env d u rc)"
  by (auto simp: fits_def intro: completeLogin_moves)

lemma refuse_quiet: "keeps quiet (try_then (emit u act i rc st m) (\<lambda>_. fail_with e))"
  by (intro qt.keeps_rules log_quiet)

lemma earn_fits: "fits sv env d (earn sv env d u rc)"
  unfolding earn_def
  by (intro fits_then fits_if fits_last completeLogin_fits fits_quiet qt.keeps_rules read_quiet)

lemma check_password_fits: "fits sv env d (check_password sv env d u name password rc)"
  unfolding check_password_def recordLoginFailure_def
  by (intro fits_then fits_if earn_fits fits_quiet [OF refuse_quiet] qt.keeps_if qt.keeps_return log_quiet)

lemma GetByUsername_same: "GetByUsername env name p = (r, q) \<Longrightarrow> q = p"
  by (auto simp: GetByUsername_def store_op_def split: if_splits)

lemma Login_fits: "fits sv env d (Login sv env d username password rc)"
proof -
  let ?name = "NormalizeUsername username"
  have "fits sv env d (\<lambda>p. case GetByUsername env ?name p of
            (Inl e, p) \<Rightarrow>
              if e = ErrUserNotFound
              then try_then (recordLoginFailure [] ?name rc ''unknown_user'') (\<lambda>_. fail_with ErrInvalidCredentials) p
              else (Inl e, p)
          | (Inr u, p) \<Rightarrow> check_password sv env d u ?name password rc p)" (is "fits _ _ _ ?m")
    unfolding fits_def
  proof (intro allI impI)
    fix p r p'
    assume run: "?m p = (r, p')" and un: "unnamed d p"
    obtain y q where y: "GetByUsername env ?name p = (y, q)" by (cases "GetByUsername env ?name p")
    then have q: "q = p" by (rule GetByUsername_same)
    show "moves sv env d p p'"
    proof (cases y)
      case (Inl e)
      with run y q show ?thesis
        using keepsD [OF keeps_moves [OF refuse_quiet]] by (auto simp: recordLoginFailure_def split: if_splits)
    next
      case (Inr u)
      with run y q show ?thesis using fitsD [OF check_password_fits _ un] by simp
    qed
  qed
  then show ?thesis unfolding Login_def Let_def by (intro fits_then log_quiet)
qed

lemma VerifyCode_quiet: "keeps quiet (VerifyCode c env i code)"
  unfolding VerifyCode_def
  by (intro qt.keeps_then read_quiet) (auto split: sum.splits intro: qt.keeps_rules)

lemma UseRecoveryCode_quiet: "keeps quiet (UseRecoveryCode c env i code)"
proof (rule grants_quiet)
  fix p r p'
  assume "UseRecoveryCode c env i code p = (r, p')"
  then have "p' = p\<lparr>recovery_codes := recovery_codes p'\<rparr>" by (rule UseRecoveryCode_keeps)
  then have "sessions p' = sessions p \<and> retired p' = retired p \<and> access_tokens p' = access_tokens p \<and> token_index p' = token_index p"
    by (metis panel.select_convs panel.surjective panel.update_convs(7))
  then show "grants p' = grants p" by (simp add: grants_def)
qed

lemma check_code_quiet: "keeps quiet (check_code sv env code rc ch)"
proof -
  have e: "keeps quiet (try_then (emit (m_UserID ch) ''user.2fa_failed'' [] rc ''FAILURE'' []) (\<lambda>_. fail_with ErrInvalidTOTP))"
    by (intro qt.keeps_rules log_quiet)
  show ?thesis
    unfolding keeps_def
  proof (intro allI impI)
    fix p r p'
    assume run: "check_code sv env code rc ch p = (r, p')"
    obtain x q where x: "VerifyCode (sv_crypto sv) env (m_UserID ch) code p = (x, q)"
      by (cases "VerifyCode (sv_crypto sv) env (m_UserID ch) code p")
    have q: "quiet p q" using keepsD [OF VerifyCode_quiet x] .
    have "quiet q p'"
      using run x keepsD [OF e] by (auto simp: check_code_def qt.refl split: sum.splits if_splits)
    with q show "quiet p p'" by (rule qt.trans)
  qed
qed

lemma check_recovery_quiet: "keeps quiet (check_recovery sv env code rc ch)"
  unfolding check_recovery_def
  by (intro qt.keeps_then UseRecoveryCode_quiet) (auto intro: qt.keeps_rules log_quiet)

lemma completeChallenge_fits:
  assumes "\<And>ch. keeps quiet (check ch)"
  shows "fits sv env d (completeChallenge sv env d token rc check)"
  unfolding fits_def
proof (intro allI impI)
  fix p r p'
  assume run: "completeChallenge sv env d token rc check p = (r, p')" and un: "unnamed d p"
  obtain x q where x: "PeekMFAChallenge (sv_crypto sv) env token p = (x, q)" by (cases "PeekMFAChallenge (sv_crypto sv) env token p")
  have q: "quiet p q" using keepsD [OF read_quiet(9) x] .
  show "moves sv env d p p'"
  proof (cases x)
    case (Inl e)
    with run x q show ?thesis by (auto simp: completeChallenge_def intro: quiet_moves)
  next
    case (Inr ch)
    have "fits sv env d (try_then (checkRateLimits sv env (m_Username ch) rc) (\<lambda>_.
          try_then (check ch) (\<lambda>_.
          try_then (ConsumeMFAChallenge (sv_crypto sv) env token) (\<lambda>_.
          try_then (GetUserByID env (m_UserID ch)) (\<lambda>u.
            if \<not> IsActive u then fail_with ErrAccountInactive else completeLogin sv env d u rc)))))"
      by (intro fits_then fits_if completeLogin_fits fits_quiet [OF qt.keeps_fail] assms log_quiet read_quiet)
    then have "moves sv env d q p'"
      using run x Inr quiet_unnamed [OF q un] by (auto simp: completeChallenge_def intro: fitsD)
    with quiet_moves [OF q] show ?thesis by (rule rtranclp_trans)
  qed
qed

lemma handleRefreshFailure_moves: "moves sv env d p (handleRefreshFailure env hash rc p)"
proof (cases "locateLeakedToken env hash p")
  case None
  then show ?thesis by (simp add: handleRefreshFailure_def)
next
  case (Some found)
  obtain sid uid where f: "found = (sid, uid)" by (cases found)
  obtain x q where x: "RevokeAllForUser env uid p = (x, q)" by (cases "RevokeAllForUser env uid p")
  have q: "moves sv env d p q" using keepsD [OF RevokeAllForUser_moves x] .
  show ?thesis
  proof (cases x)
    case (Inl e)
    with Some f x q show ?thesis by (simp add: handleRefreshFailure_def)
  next
    case (Inr revoked)
    obtain y t where y: "RevokeSessions env (revoked @ [sid]) q = (y, t)" by (cases "RevokeSessions env (revoked @ [sid]) q")
    have "moves sv env d q t" using keepsD [OF RevokeSessions_moves y] .
    moreover have "moves sv env d t (handleRefreshFailure env hash rc p)"
      using Some f x Inr y
      by (auto simp: handleRefreshFailure_def emit_def grants_def intro!: move access_move.book)
    ultimately show ?thesis using q by (meson rtranclp_trans)
  qed
qed

lemma Rotate_Inr:
  assumes "Rotate env old_hash hash e p = (Inr s', p')"
  obtains s where "s \<in> set (sessions p)" "se_TokenHash s = old_hash" "IsUsable s (at_time env)"
    "s' = s\<lparr>se_TokenHash := hash, se_ExpiresAt := e\<rparr>"
    "p' = p\<lparr>sessions := map (\<lambda>x. if se_ID x = se_ID s then s' else x) (sessions p),
      retired := (if old_hash \<in> fst ` set (retired p) then retired p else retired p @ [(old_hash, se_ID s)])\<rparr>"
  using assms by (auto simp: Rotate_def Let_def split: if_splits option.splits dest!: find_some)

lemma Rotate_Inl: "Rotate env old_hash hash e p = (Inl err, p') \<Longrightarrow> p' = p"
  by (auto simp: Rotate_def Let_def split: if_splits option.splits)

definition unseen_hash :: "service \<Rightarrow> draw \<Rightarrow> panel \<Rightarrow> bool" where
  "unseen_hash sv d p \<longleftrightarrow> (\<forall>s \<in> set (sessions p). se_TokenHash s \<noteq> new_hash sv d)"

lemma Refresh_moves:
  assumes "Refresh sv env d token rc p = (r, p')" "unseen_hash sv d p"
  shows "moves sv env d p p'"
proof (cases "token = [] \<or> random_fails env DrawRefresh")
  case True
  with assms(1) show ?thesis by (auto simp: Refresh_def split: if_splits)
next
  case False
  let ?old = "HashToken (sv_crypto sv) token"
  obtain x q where x: "Rotate env ?old (new_hash sv d) (at_time env + sv_refresh_ttl sv) p = (x, q)"
    by (cases "Rotate env ?old (new_hash sv d) (at_time env + sv_refresh_ttl sv) p")
  show ?thesis
  proof (cases x)
    case (Inl e)
    with Rotate_Inl x have "q = p" by blast
    with assms(1) False x Inl show ?thesis
      by (auto simp: Refresh_def Let_def new_hash_def handleRefreshFailure_moves split: if_splits)
  next
    case (Inr s')
    obtain s where s: "s \<in> set (sessions p)" "se_TokenHash s = ?old" "IsUsable s (at_time env)"
      "s' = s\<lparr>se_TokenHash := new_hash sv d, se_ExpiresAt := at_time env + sv_refresh_ttl sv\<rparr>"
      "q = p\<lparr>sessions := map (\<lambda>x. if se_ID x = se_ID s then s' else x) (sessions p),
        retired := (if ?old \<in> fst ` set (retired p) then retired p else retired p @ [(?old, se_ID s)])\<rparr>"
      by (rule Rotate_Inr [OF x [unfolded Inr]])
    have rot: "moves sv env d p q"
      using s assms(2) by (intro move access_move.rotating [where s = s and e = "at_time env + sv_refresh_ttl sv"]) (simp_all add: unseen_hash_def cong: if_cong)
    have "sessions q = map (\<lambda>x. if se_ID x = se_ID s then s' else x) (sessions p)" by (simp add: s(5))
    then have "(\<lambda>x. if se_ID x = se_ID s then s' else x) s \<in> set (sessions q)"
      using s(1) by (metis (mono_tags, lifting) image_eqI set_map)
    then have "s' \<in> set (sessions q)" by simp
    then have row: "\<exists>r \<in> set (sessions q). se_ID r = se_ID s' \<and> se_UserID r = se_UserID s' \<and> se_TokenHash r = new_hash sv d"
      using s(4) by (intro bexI [of _ s']) simp_all
    have run: "try_then (GetUserByID env (se_UserID s')) (\<lambda>u.
                if \<not> IsActive u then
                  try_then (ignoring (end_session env (se_ID s'))) (\<lambda>_. fail_with ErrAccountInactive)
                else
                  try_then (RevokeSession env (se_ID s')) (\<lambda>_.
                  try_then (issueAccessToken sv env d u (se_ID s')) (\<lambda>access.
                  try_then (emit (u_ID u) ''auth.refresh'' (se_ID s') rc ''SUCCESS'' []) (\<lambda>_.
                    return_op (tokenPair sv access (refresh_token d)))))) q = (r, p')"
      using assms(1) False x Inr by (simp add: Refresh_def Let_def new_hash_def)
    have "moves sv env d q p'"
    proof (rule mv.then_from [OF run])
      fix u q2 y t
      assume user: "GetUserByID env (se_UserID s') q = (Inr u, q2)" and after: "(if \<not> IsActive u then
                  try_then (ignoring (end_session env (se_ID s'))) (\<lambda>_. fail_with ErrAccountInactive)
                else
                  try_then (RevokeSession env (se_ID s')) (\<lambda>_.
                  try_then (issueAccessToken sv env d u (se_ID s')) (\<lambda>access.
                  try_then (emit (u_ID u) ''auth.refresh'' (se_ID s') rc ''SUCCESS'' []) (\<lambda>_.
                    return_op (tokenPair sv access (refresh_token d)))))) q2 = (y, t)"
      have q2: "q2 = q" "u_ID u = se_UserID s'" using user find_some [of _ "users q" u] by (auto simp: GetUserByID_Inr)
      have inactive: "keeps (moves sv env d) (try_then (ignoring (end_session env (se_ID s'))) (\<lambda>_. fail_with ErrAccountInactive))"
        by (intro mv.keeps_rules ignoring_keeps end_session_moves)
      show "moves sv env d q2 t"
      proof (cases "IsActive u")
        case True
        with after have go: "try_then (RevokeSession env (se_ID s')) (\<lambda>_.
                  try_then (issueAccessToken sv env d u (se_ID s')) (\<lambda>access.
                  try_then (emit (u_ID u) ''auth.refresh'' (se_ID s') rc ''SUCCESS'' []) (\<lambda>_.
                    return_op (tokenPair sv access (refresh_token d))))) q2 = (y, t)" by simp
        show ?thesis
        proof (rule mv.then_from [OF go])
          fix a q3 z v
          assume drop: "RevokeSession env (se_ID s') q2 = (Inr a, q3)"
            and issue: "try_then (issueAccessToken sv env d u (se_ID s')) (\<lambda>access.
                  try_then (emit (u_ID u) ''auth.refresh'' (se_ID s') rc ''SUCCESS'' []) (\<lambda>_.
                    return_op (tokenPair sv access (refresh_token d)))) q3 = (z, v)"
          have "sessions q3 = sessions q" using drop q2(1) by (auto simp: RevokeSession_eq dropped_def split: if_splits)
          with row q2(2) have row3: "\<exists>r \<in> set (sessions q3). se_ID r = se_ID s' \<and> se_UserID r = u_ID u \<and> se_TokenHash r = new_hash sv d" by simp
          have tail: "keeps (moves sv env d) (try_then (emit (u_ID u) ''auth.refresh'' (se_ID s') rc ''SUCCESS'' [])
              (\<lambda>_. return_op (tokenPair sv access (refresh_token d))))" for access
            by (intro keeps_moves qt.keeps_rules log_quiet)
          show "moves sv env d q3 v"
            by (rule mv.then_from [OF issue]) (auto intro: issue_moves [OF _ row3] keepsD [OF tail])
        qed (rule keepsD [OF RevokeSession_moves])
      next
        case False
        with after keepsD [OF inactive] show ?thesis by simp
      qed
    qed (rule keepsD [OF keeps_moves [OF read_quiet(2)]])
    with rot show ?thesis by (rule rtranclp_trans)
  qed
qed

lemma Authenticate_moves: "keeps (moves sv env d) (Authenticate sv env token)"
  unfolding keeps_def
proof (intro allI impI)
  fix p r p'
  assume run: "Authenticate sv env token p = (r, p')"
  obtain x q where x: "Lookup (sv_crypto sv) env token p = (x, q)" by (cases "Lookup (sv_crypto sv) env token p")
  have q: "moves sv env d p q" using keepsD [OF keeps_moves [OF read_quiet(8)] x] .
  show "moves sv env d p p'"
  proof (cases x)
    case (Inl e)
    with run x q show ?thesis by (auto simp: Authenticate_def)
  next
    case (Inr cl)
    obtain y q2 where y: "GetSessionByID env (c_SessionID cl) q = (y, q2)" by (cases "GetSessionByID env (c_SessionID cl) q")
    have q2: "moves sv env d q q2" using keepsD [OF keeps_moves [OF read_quiet(7)] y] .
    have drop: "moves sv env d q2 (snd (RevokeSession env i q2))" for i
      by (rule keepsD [OF RevokeSession_moves]) (rule prod.collapse [symmetric])
    have "moves sv env d q2 p'"
      using run x y Inr drop by (auto simp: Authenticate_def split: sum.splits if_splits)
    with q q2 show ?thesis by (meson rtranclp_trans)
  qed
qed

lemma Impersonate_fits: "fits sv env d (Impersonate sv env d actor subject rc)"
  unfolding fits_def
proof (intro allI impI)
  fix p r p'
  assume run: "Impersonate sv env d actor subject rc p = (r, p')" and un: "unnamed d p"
  let ?tail = "\<lambda>s access. try_then (emit actor ''tenant.impersonate.session'' (se_ID s) rc ''SUCCESS''
      [(''subject_user_id'', u_ID subject), (''subject'', u_Username subject)]) (\<lambda>_.
        return_op (capped (impersonation_ttl sv) (tokenPair sv access (refresh_token d)), se_ID s))"
  show "moves sv env d p p'"
  proof (cases "\<not> IsActive subject \<or> actor = u_ID subject \<or> random_fails env DrawRefresh")
    case True
    with run show ?thesis by (auto simp: Impersonate_def fail_with_def split: if_splits)
  next
    case False
    have tail: "keeps (moves sv env d) (?tail s access)" for s access
      by (intro keeps_moves qt.keeps_rules log_quiet)
    have go: "try_then (CreateSession env (dr_session d) (u_ID subject) (new_hash sv d)
        (rq_IPAddress rc) (rq_UserAgent rc) (at_time env + impersonation_ttl sv)) (\<lambda>s.
        try_then (issueImpersonatedAccessToken sv env d subject (se_ID s) actor) (?tail s)) p = (r, p')"
      using run False by (simp add: Impersonate_def new_hash_def)
    show ?thesis
    proof (rule mv.then_from [OF go])
      fix s q x t
      assume create: "CreateSession env (dr_session d) (u_ID subject) (new_hash sv d)
          (rq_IPAddress rc) (rq_UserAgent rc) (at_time env + impersonation_ttl sv) p = (Inr s, q)"
        and after: "try_then (issueImpersonatedAccessToken sv env d subject (se_ID s) actor) (?tail s) q = (x, t)"
      have row: "\<exists>s' \<in> set (sessions q). se_ID s' = se_ID s \<and> se_UserID s' = u_ID subject \<and> se_TokenHash s' = new_hash sv d"
        using create by (simp add: CreateSession_Inr)
      show "moves sv env d q t"
        by (rule mv.then_from [OF after]) (auto intro: issue_impersonated_moves [OF _ row] keepsD [OF tail])
    qed (rule create_moves [OF _ un])
  qed
qed

lemma EndImpersonation_moves: "keeps (moves sv env d) (EndImpersonation env sid)"
  unfolding EndImpersonation_def by (intro mv.keeps_rules end_session_moves)

lemma Logout_moves: "keeps (moves sv env d) (Logout env cl rc)"
  unfolding Logout_def by (intro mv.keeps_rules end_session_moves keeps_moves log_quiet)

lemma enrol_quiet:
  "keeps quiet (StartEnrolment c env bytes nonce i)" "keeps quiet (EnableWithRecoveryCodes c env draws i)"
  "keeps quiet (RegenerateRecoveryCodes c env draws i)"
proof -
  have store: "keeps quiet (store_op env StoreEnrolment (\<lambda>p. if \<forall>u \<in> set (users p). u_ID u \<noteq> i then (Inl StoreFailed, p)
      else (Inr secret, p\<lparr>enrolments := upsert_enrolment i ciphertext (enrolments p)\<rparr>)))" for secret ciphertext
    by (rule grants_quiet) (auto simp: store_op_def grants_def split: if_splits)
  show "keeps quiet (StartEnrolment c env bytes nonce i)"
    unfolding StartEnrolment_def Let_def by (intro qt.keeps_rules read_quiet store)
  show "keeps quiet (EnableWithRecoveryCodes c env draws i)" "keeps quiet (RegenerateRecoveryCodes c env draws i)"
    by (rule grants_quiet, auto simp: EnableWithRecoveryCodes_def RegenerateRecoveryCodes_def Let_def store_op_def fail_with_def grants_def
        split: if_splits option.splits)+
qed

lemma with_password_quiet: "keeps quiet m \<Longrightarrow> keeps quiet (with_password sv env uid password action rc m)"
  unfolding with_password_def by (intro qt.keeps_rules read_quiet log_quiet refuse_quiet)

lemma second_factor_quiet:
  "keeps quiet (SetupTwoFactor sv env bytes nonce uid rc)" "keeps quiet (EnableTwoFactor sv env draws uid code rc)"
  "keeps quiet (DisableTwoFactor sv env uid password rc)" "keeps quiet (ServiceRegenerateRecoveryCodes sv env draws uid password rc)"
  unfolding SetupTwoFactor_def EnableTwoFactor_def DisableTwoFactor_def ServiceRegenerateRecoveryCodes_def
  by (intro qt.keeps_rules read_quiet log_quiet enrol_quiet VerifyCode_quiet with_password_quiet refuse_quiet)+

section \<open>The system\<close>

text \<open>Accounts and roles change elsewhere in the panel; the rows of a deleted account go with it.\<close>

definition replace_accounts :: "user list \<Rightarrow> (go_string \<times> go_string) list \<Rightarrow> (go_string \<times> go_string) list \<Rightarrow> panel \<Rightarrow> panel" where
  "replace_accounts us roles permissions p =
     (let kept = filter (\<lambda>s. se_UserID s \<in> u_ID ` set us) (sessions p) in
        p\<lparr>users := us, user_roles := roles, role_permissions := permissions, sessions := kept,
          retired := filter (\<lambda>(_, i). i \<in> se_ID ` set kept) (retired p),
          enrolments := filter (\<lambda>e. en_UserID e \<in> u_ID ` set us) (enrolments p),
          recovery_codes := filter (\<lambda>r. rr_UserID r \<in> u_ID ` set us) (recovery_codes p)\<rparr>)"

datatype auth_call =
    SignIn go_string go_string request_ctx
  | WithCode go_string go_string request_ctx
  | WithRecoveryCode go_string go_string request_ctx
  | Renew go_string request_ctx
  | SignOut claims request_ctx
  | Use go_string
  | SignInAs go_string user request_ctx
  | StopActing go_string
  | Enrol go_string go_string go_string request_ctx
  | Activate "nat list list" go_string go_string request_ctx
  | Deactivate go_string go_string request_ctx
  | NewCodes "nat list list" go_string go_string request_ctx
  | Cleanup int
  | Accounts "user list" "(go_string \<times> go_string) list" "(go_string \<times> go_string) list"

fun perform :: "service \<Rightarrow> auth_env \<Rightarrow> draw \<Rightarrow> auth_call \<Rightarrow> panel \<Rightarrow> panel" where
  "perform sv env d (SignIn name password rc) p = snd (Login sv env d name password rc p)"
| "perform sv env d (WithCode token code rc) p = snd (VerifyTwoFactor sv env d token code rc p)"
| "perform sv env d (WithRecoveryCode token code rc) p = snd (VerifyRecoveryCode sv env d token code rc p)"
| "perform sv env d (Renew token rc) p = snd (Refresh sv env d token rc p)"
| "perform sv env d (SignOut cl rc) p = snd (Logout env cl rc p)"
| "perform sv env d (Use token) p = snd (Authenticate sv env token p)"
| "perform sv env d (SignInAs actor subject rc) p = snd (Impersonate sv env d actor subject rc p)"
| "perform sv env d (StopActing sid) p = snd (EndImpersonation env sid p)"
| "perform sv env d (Enrol bytes nonce uid rc) p = snd (SetupTwoFactor sv env bytes nonce uid rc p)"
| "perform sv env d (Activate draws uid code rc) p = snd (EnableTwoFactor sv env draws uid code rc p)"
| "perform sv env d (Deactivate uid password rc) p = snd (DisableTwoFactor sv env uid password rc p)"
| "perform sv env d (NewCodes draws uid password rc) p = snd (ServiceRegenerateRecoveryCodes sv env draws uid password rc p)"
| "perform sv env d (Cleanup cutoff) p = DeleteExpired cutoff p"
| "perform sv env d (Accounts us roles permissions) p = replace_accounts us roles permissions p"

lemma snd_keeps: "keeps R m \<Longrightarrow> R p (snd (m p))"
  by (auto simp: keeps_def) (metis prod.collapse)

lemma snd_fits: "fits sv env d m \<Longrightarrow> unnamed d p \<Longrightarrow> moves sv env d p (snd (m p))"
  by (rule fitsD) (auto simp: prod_eq_iff)

lemma perform_moves:
  assumes "unnamed d p" "unseen_hash sv d p"
  shows "moves sv env d p (perform sv env d call p)"
proof (cases call)
  case (Renew token rc)
  then show ?thesis using Refresh_moves [OF _ assms(2)] by (metis perform.simps(4) prod.collapse)
next
  case (Cleanup cutoff)
  then show ?thesis
    by (auto simp: DeleteExpired_def Let_def intro!: move access_move.deleting)
next
  case (Accounts us roles permissions)
  have "grants (replace_accounts us roles permissions p) = grants (p\<lparr>sessions := filter (\<lambda>s. se_UserID s \<in> u_ID ` set us) (sessions p),
      retired := filter (\<lambda>(_, i). i \<in> se_ID ` set (filter (\<lambda>s. se_UserID s \<in> u_ID ` set us) (sessions p))) (retired p)\<rparr>)"
    by (simp add: replace_accounts_def Let_def grants_def)
  with Accounts show ?thesis by (auto intro!: move access_move.deleting)
qed (simp_all add: snd_fits [OF _ assms(1)] snd_keeps Login_fits VerifyTwoFactor_def VerifyRecoveryCode_def completeChallenge_fits
    check_code_quiet check_recovery_quiet Logout_moves Authenticate_moves Impersonate_fits EndImpersonation_moves
    keeps_moves second_factor_quiet)

section \<open>What holds between the moves\<close>

text \<open>\<open>I\<close> and \<open>H\<close> are the identifiers and the hashes in use before the call.\<close>

definition rows_ok :: "service \<Rightarrow> draw \<Rightarrow> go_string set \<Rightarrow> go_string set \<Rightarrow> panel \<Rightarrow> bool" where
  "rows_ok sv d I H p \<longleftrightarrow>
     distinct (map se_ID (sessions p)) \<and> distinct (map se_TokenHash (sessions p)) \<and>
     se_ID ` set (sessions p) \<subseteq> insert (dr_session d) I \<and>
     se_TokenHash ` set (sessions p) \<subseteq> insert (new_hash sv d) H \<and>
     fst ` set (retired p) \<subseteq> H \<and> fst ` set (retired p) \<inter> se_TokenHash ` set (sessions p) = {}"

definition tokens_ok :: "draw \<Rightarrow> go_string set \<Rightarrow> panel \<Rightarrow> bool" where
  "tokens_ok d I p \<longleftrightarrow>
     (\<forall>k cl e. access_tokens p k = Some (cl, e) \<longrightarrow>
        c_SessionID cl \<in> insert (dr_session d) I \<and>
        (\<forall>s \<in> set (sessions p). se_ID s = c_SessionID cl \<longrightarrow> se_UserID s = c_UserID cl))"

lemma rows_ok_grants: "grants p' = grants p \<Longrightarrow> rows_ok sv d I H p' = rows_ok sv d I H p"
  by (simp add: grants_def rows_ok_def)

lemma tokens_ok_grants: "grants p' = grants p \<Longrightarrow> tokens_ok d I p' = tokens_ok d I p"
  by (simp add: grants_def tokens_ok_def)

lemma rows_ok_with:
  "distinct (map se_ID R) \<Longrightarrow> distinct (map se_TokenHash R) \<Longrightarrow> set (map se_ID R) \<subseteq> insert (dr_session d) I \<Longrightarrow>
    se_TokenHash ` set R \<subseteq> insert (new_hash sv d) H \<Longrightarrow> fst ` set T \<subseteq> H \<Longrightarrow> fst ` set T \<inter> se_TokenHash ` set R = {} \<Longrightarrow>
    rows_ok sv d I H (p\<lparr>sessions := R, retired := T\<rparr>)"
  by (simp add: rows_ok_def)

lemma same_id: "distinct (map f xs) \<Longrightarrow> x \<in> set xs \<Longrightarrow> y \<in> set xs \<Longrightarrow> f x = f y \<Longrightarrow> x = y"
  by (metis distinct_map inj_on_def)

lemma map_replace_fields:
  assumes "f s' = f s" "distinct (map g xs)" "s \<in> set xs"
  shows "map f (map (\<lambda>x. if g x = g s then s' else x) xs) = map f xs"
  using assms same_id [OF assms(2) _ assms(3)] by auto

lemma apart_after:
  "A \<subseteq> insert n (B - {h}) \<Longrightarrow> h \<in> H \<Longrightarrow> R \<subseteq> H \<Longrightarrow> R \<inter> B = {} \<Longrightarrow> n \<notin> H \<Longrightarrow> insert h R \<inter> A = {}"
  by auto

lemma known_after: "A \<subseteq> insert n (B - {h}) \<Longrightarrow> B \<subseteq> insert n H \<Longrightarrow> A \<subseteq> insert n H"
  by auto

lemma replace_distinct:
  assumes "distinct (map g xs)" "distinct (map f xs)" "s \<in> set xs" "\<forall>x \<in> set xs. f x \<noteq> f s'"
  shows "distinct (map f (map (\<lambda>x. if g x = g s then s' else x) xs))"
proof -
  have "inj_on (\<lambda>x. f (if g x = g s then s' else x)) (set xs)"
    using assms(4) same_id [OF assms(1) _ assms(3)] same_id [OF assms(2)] by (simp add: inj_on_def) metis
  moreover have "distinct xs" using assms(1) by (simp add: distinct_map)
  ultimately show ?thesis by (simp add: distinct_map o_def)
qed

lemma map_filter_distinct: "distinct (map f xs) \<Longrightarrow> distinct (map f (filter P xs))"
  by (induction xs) auto

lemma move_rows:
  assumes "access_move sv env d p p'" "rows_ok sv d I H p" "new_hash sv d \<notin> H"
  shows "rows_ok sv d I H p'"
  using assms
proof cases
  case (rotating s e)
  let ?s = "s\<lparr>se_TokenHash := new_hash sv d, se_ExpiresAt := e\<rparr>"
  let ?rows = "map (\<lambda>x. if se_ID x = se_ID s then ?s else x) (sessions p)"
  let ?retired = "if se_TokenHash s \<in> fst ` set (retired p) then retired p else retired p @ [(se_TokenHash s, se_ID s)]"
  have d: "distinct (map se_ID (sessions p))" "distinct (map se_TokenHash (sessions p))"
    using assms(2) by (simp_all add: rows_ok_def)
  have ids: "map se_ID ?rows = map se_ID (sessions p)"
    by (rule map_replace_fields [OF _ d(1) rotating(1)]) simp
  have hashes: "se_TokenHash ` set ?rows \<subseteq> insert (new_hash sv d) (se_TokenHash ` set (sessions p) - {se_TokenHash s})"
    using same_id [OF d(1) _ rotating(1)] same_id [OF d(2) _ rotating(1)] by auto
  have dist: "distinct (map se_TokenHash ?rows)"
    by (rule replace_distinct [OF d rotating(1)]) (use rotating(3) in simp_all)
  have old: "se_TokenHash s \<in> H" "fst ` set (retired p) \<subseteq> H" "fst ` set (retired p) \<inter> se_TokenHash ` set (sessions p) = {}"
    "se_TokenHash ` set (sessions p) \<subseteq> insert (new_hash sv d) H"
    using assms(2) rotating(1,3) by (auto simp: rows_ok_def)
  have kept: "fst ` set ?retired = insert (se_TokenHash s) (fst ` set (retired p))" by auto
  have apart: "fst ` set ?retired \<inter> se_TokenHash ` set ?rows = {}"
    unfolding kept by (rule apart_after [OF hashes old(1,2,3) assms(3)])
  have inside: "fst ` set ?retired \<subseteq> H" unfolding kept using old(1,2) by blast
  have known: "se_TokenHash ` set ?rows \<subseteq> insert (new_hash sv d) H" by (rule known_after [OF hashes old(4)])
  have inside_ids: "set (map se_ID ?rows) \<subseteq> insert (dr_session d) I"
    unfolding ids using assms(2) by (simp add: rows_ok_def)
  have "distinct (map se_ID ?rows)" by (simp only: ids d(1))
  then have "rows_ok sv d I H (p\<lparr>sessions := ?rows, retired := ?retired\<rparr>)"
    by (rule rows_ok_with [OF _ dist inside_ids known inside apart])
  then show ?thesis unfolding rows_ok_grants [OF rotating(4)] .
next
  case (open_new s)
  then have "rows_ok sv d I H (p\<lparr>sessions := sessions p @ [s]\<rparr>)"
    using assms(2,3) by (auto simp: rows_ok_def)
  then show ?thesis using rows_ok_grants open_new by blast
next
  case (issuing cl token)
  then show ?thesis using assms(2) rows_ok_grants [OF issuing(2)] by (simp add: rows_ok_def issued_def Let_def)
next
  case (revoking P)
  have "map se_ID (revoke_where (at_time env) P (sessions p)) = map se_ID (sessions p)"
    "map se_TokenHash (revoke_where (at_time env) P (sessions p)) = map se_TokenHash (sessions p)"
    by (auto simp: revoke_where_def)
  then have "rows_ok sv d I H (p\<lparr>sessions := revoke_where (at_time env) P (sessions p)\<rparr>)"
    using assms(2) unfolding rows_ok_def by (metis (no_types, lifting) list.set_map panel.select_convs(2,3) panel.surjective panel.update_convs(2))
  then show ?thesis using rows_ok_grants [OF revoking] by simp
next
  case (dropping i)
  then show ?thesis using assms(2) rows_ok_grants [OF dropping] by (simp add: rows_ok_def dropped_def)
next
  case (deleting Q P)
  have "rows_ok sv d I H (p\<lparr>sessions := filter P (sessions p), retired := filter Q (retired p)\<rparr>)"
    using assms(2) by (auto simp: rows_ok_def map_filter_distinct)
  then show ?thesis using rows_ok_grants [OF deleting] by simp
qed (use assms(2) rows_ok_grants in blast)


lemma tokens_ok_rows:
  assumes "tokens_ok d I p" "\<forall>x \<in> set R. \<exists>y \<in> set (sessions p). se_ID x = se_ID y \<and> se_UserID x = se_UserID y"
  shows "tokens_ok d I (p\<lparr>sessions := R, retired := T\<rparr>)"
  using assms unfolding tokens_ok_def by simp metis

lemma move_tokens:
  assumes "access_move sv env d p p'" "rows_ok sv d I H p" "tokens_ok d I p"
  shows "tokens_ok d I p'"
  using assms(1)
proof cases
  case (rotating s e)
  let ?s = "s\<lparr>se_TokenHash := new_hash sv d, se_ExpiresAt := e\<rparr>"
  have "tokens_ok d I (p\<lparr>sessions := map (\<lambda>x. if se_ID x = se_ID s then ?s else x) (sessions p), retired := rs\<rparr>)" for rs
    by (rule tokens_ok_rows [OF assms(3)]) (use rotating(1) in auto)
  then show ?thesis unfolding tokens_ok_grants [OF rotating(4)] .
next
  case (open_new s)
  have "tokens_ok d I (p\<lparr>sessions := sessions p @ [s]\<rparr>)"
    using assms(3) open_new(5) by (auto simp: tokens_ok_def) blast
  then show ?thesis using tokens_ok_grants [OF open_new(6)] by simp
next
  case (issuing cl token)
  then obtain r where r: "r \<in> set (sessions p)" "se_ID r = c_SessionID cl" "se_UserID r = c_UserID cl" by blast
  have "\<forall>s \<in> set (sessions p). se_ID s = c_SessionID cl \<longrightarrow> se_UserID s = c_UserID cl"
    using r same_id [of se_ID "sessions p"] assms(2) unfolding rows_ok_def by metis
  moreover have "c_SessionID cl \<in> insert (dr_session d) I"
    using r assms(2) unfolding rows_ok_def by (metis image_eqI subsetD)
  ultimately have "tokens_ok d I (issued (sv_crypto sv) env (sv_access_ttl sv) token cl p)"
    using assms(3) by (simp add: tokens_ok_def issued_def Let_def)
  then show ?thesis using tokens_ok_grants [OF issuing(2)] by simp
next
  case (revoking P)
  have "tokens_ok d I (p\<lparr>sessions := revoke_where (at_time env) P (sessions p)\<rparr>)"
    using assms(3) by (auto simp: tokens_ok_def revoke_where_def) blast+
  then show ?thesis using tokens_ok_grants [OF revoking] by simp
next
  case (dropping i)
  then show ?thesis using assms(3) tokens_ok_grants [OF dropping] by (auto simp: tokens_ok_def dropped_def)
next
  case (deleting Q P)
  then show ?thesis using assms(3) tokens_ok_grants [OF deleting] by (auto simp: tokens_ok_def)
qed (use assms(3) tokens_ok_grants in blast)

lemma moves_ok:
  assumes "moves sv env d p p'" "rows_ok sv d I H p" "tokens_ok d I p" "new_hash sv d \<notin> H"
  shows "rows_ok sv d I H p' \<and> tokens_ok d I p'"
  using assms(1)
proof (induction rule: rtranclp_induct)
  case (step q t)
  then show ?case using move_rows [OF _ _ assms(4)] move_tokens by blast
qed (use assms in blast)

text \<open>A session that has ended, and a refresh token that has been used, stay so.\<close>

definition ended :: "go_string \<Rightarrow> panel \<Rightarrow> bool" where
  "ended i p \<longleftrightarrow> (\<forall>s \<in> set (sessions p). se_ID s = i \<longrightarrow> se_RevokedAt s \<noteq> None)"

definition spent :: "go_string \<Rightarrow> panel \<Rightarrow> bool" where
  "spent hash p \<longleftrightarrow> (\<forall>s \<in> set (sessions p). se_TokenHash s \<noteq> hash)"

definition grown :: "service \<Rightarrow> draw \<Rightarrow> session list \<Rightarrow> session list \<Rightarrow> bool" where
  "grown sv d rows rows' \<longleftrightarrow>
     (\<forall>s' \<in> set rows'. se_ID s' = dr_session d \<and> se_TokenHash s' = new_hash sv d \<or>
        (\<exists>s \<in> set rows. se_ID s' = se_ID s \<and> se_TokenHash s' \<in> {se_TokenHash s, new_hash sv d} \<and>
           (se_RevokedAt s \<noteq> None \<longrightarrow> se_RevokedAt s' \<noteq> None)))"

lemma sessions_grants: "grants p' = grants q \<Longrightarrow> sessions p' = sessions q"
  by (simp add: grants_def)

lemma move_grown:
  assumes "access_move sv env d p p'"
  shows "grown sv d (sessions p) (sessions p')"
  using assms
proof cases
  case book
  show ?thesis unfolding sessions_grants [OF book] by (auto simp: grown_def)
next
  case (open_new s)
  show ?thesis unfolding sessions_grants [OF open_new(6)] using open_new(1,2) by (auto simp: grown_def)
next
  case (issuing cl token)
  show ?thesis unfolding sessions_grants [OF issuing(2)] by (auto simp: grown_def issued_def Let_def)
next
  case (rotating s e)
  show ?thesis unfolding sessions_grants [OF rotating(4)] using rotating(1) by (auto simp: grown_def)
next
  case (revoking P)
  show ?thesis unfolding sessions_grants [OF revoking] by (auto simp: grown_def revoke_where_def)
next
  case (dropping i)
  show ?thesis unfolding sessions_grants [OF dropping] by (auto simp: grown_def dropped_def)
next
  case (deleting Q P)
  show ?thesis unfolding sessions_grants [OF deleting] by (auto simp: grown_def)
qed

lemma move_ended: "access_move sv env d p p' \<Longrightarrow> ended i p \<Longrightarrow> i \<noteq> dr_session d \<Longrightarrow> ended i p'"
  using move_grown unfolding ended_def grown_def by metis

lemma move_spent: "access_move sv env d p p' \<Longrightarrow> spent hash p \<Longrightarrow> hash \<noteq> new_hash sv d \<Longrightarrow> spent hash p'"
  using move_grown unfolding spent_def grown_def by (metis empty_iff insert_iff)

lemma moves_ended: "moves sv env d p p' \<Longrightarrow> ended i p \<Longrightarrow> i \<noteq> dr_session d \<Longrightarrow> ended i p'"
  by (induction rule: rtranclp_induct) (auto intro: move_ended)

lemma moves_spent: "moves sv env d p p' \<Longrightarrow> spent hash p \<Longrightarrow> hash \<noteq> new_hash sv d \<Longrightarrow> spent hash p'"
  by (induction rule: rtranclp_induct) (auto intro: move_spent)

lemma replaced_spent:
  assumes "distinct (map se_TokenHash rows)" "s \<in> set rows" "se_TokenHash s' \<noteq> se_TokenHash s"
    "x \<in> set (map (\<lambda>x. if se_ID x = se_ID s then s' else x) rows)"
  shows "se_TokenHash x \<noteq> se_TokenHash s"
proof -
  obtain r where "r \<in> set rows" "x = (if se_ID r = se_ID s then s' else r)" using assms(4) by auto
  then show ?thesis using assms(3) same_id [OF assms(1) _ assms(2)] by (cases "se_ID r = se_ID s") auto
qed

text \<open>Session \<open>i\<close> is as it was opened, with refresh hash \<open>hash\<close> and end \<open>e\<close>, and its tokens are of the claims
  \<open>P\<close>, until the refresh token is redeemed.\<close>

definition acting :: "go_string \<Rightarrow> go_string \<Rightarrow> int \<Rightarrow> (claims \<Rightarrow> bool) \<Rightarrow> panel \<Rightarrow> bool" where
  "acting i hash e P p \<longleftrightarrow>
     spent hash p \<or>
     (\<forall>s \<in> set (sessions p). se_ID s = i \<longrightarrow> se_TokenHash s = hash \<and> se_ExpiresAt s = e) \<and>
     (\<forall>k cl t. access_tokens p k = Some (cl, t) \<longrightarrow> c_SessionID cl = i \<longrightarrow> P cl)"

lemma acting_grants: "grants p' = grants p \<Longrightarrow> acting i hash e P p' = acting i hash e P p"
  by (simp add: grants_def acting_def spent_def)

lemma acting_with:
  assumes "acting i hash e P p" "\<not> spent hash p"
    "\<forall>x \<in> set R. se_ID x = i \<longrightarrow> (\<exists>y \<in> set (sessions p). se_ID y = i \<and> se_TokenHash x = se_TokenHash y \<and> se_ExpiresAt x = se_ExpiresAt y)"
  shows "acting i hash e P (p\<lparr>sessions := R, retired := T\<rparr>)" "acting i hash e P (p\<lparr>sessions := R\<rparr>)"
  using assms unfolding acting_def by (simp_all, metis+)

lemma move_acting:
  assumes "access_move sv env d p p'" "rows_ok sv d I H p" "acting i hash e P p" "i \<noteq> dr_session d" "hash \<noteq> new_hash sv d"
  shows "acting i hash e P p'"
proof (cases "spent hash p")
  case True
  then show ?thesis using move_spent [OF assms(1) _ assms(5)] by (simp add: acting_def)
next
  case False
  note kept = acting_with [OF assms(3) False]
  from assms(1) show ?thesis
  proof cases
    case book
    then show ?thesis using acting_grants assms(3) by blast
  next
    case (open_new s)
    have "acting i hash e P (p\<lparr>sessions := sessions p @ [s]\<rparr>)"
      by (rule kept(2)) (use open_new(1) assms(4) in auto)
    then show ?thesis using acting_grants [OF open_new(6)] by simp
  next
    case (issuing cl token)
    then have "c_SessionID cl \<noteq> i" using assms(3,5) False unfolding acting_def by metis
    then have "acting i hash e P (issued (sv_crypto sv) env (sv_access_ttl sv) token cl p)"
      using assms(3) False by (auto simp: acting_def spent_def issued_def Let_def)
    then show ?thesis using acting_grants [OF issuing(2)] by simp
  next
    case (rotating s e')
    let ?s = "s\<lparr>se_TokenHash := new_hash sv d, se_ExpiresAt := e'\<rparr>"
    show ?thesis
    proof (cases "se_ID s = i")
      case True
      then have h: "se_TokenHash s = hash" using assms(3) False rotating(1) unfolding acting_def by blast
      have "distinct (map se_TokenHash (sessions p))" using assms(2) by (simp add: rows_ok_def)
      from replaced_spent [OF this rotating(1), of ?s] h assms(5) have "spent hash p'"
        unfolding spent_def sessions_grants [OF rotating(4)] by auto
      then show ?thesis by (simp add: acting_def)
    next
      case other: False
      have "acting i hash e P (p\<lparr>sessions := map (\<lambda>x. if se_ID x = se_ID s then ?s else x) (sessions p), retired := T\<rparr>)" for T
        by (rule kept(1)) (use other in \<open>auto split: if_splits\<close>)
      then show ?thesis using acting_grants [OF rotating(4)] by simp
    qed
  next
    case (revoking Q)
    have "acting i hash e P (p\<lparr>sessions := revoke_where (at_time env) Q (sessions p)\<rparr>)"
      by (rule kept(2)) (auto simp: revoke_where_def)
    then show ?thesis using acting_grants [OF revoking] by simp
  next
    case (dropping j)
    have "acting i hash e P (dropped env j p)" using assms(3) by (auto simp: acting_def spent_def dropped_def)
    then show ?thesis using acting_grants [OF dropping] by simp
  next
    case (deleting Q' Q)
    have "acting i hash e P (p\<lparr>sessions := filter Q (sessions p), retired := filter Q' (retired p)\<rparr>)"
      by (rule kept(1)) auto
    then show ?thesis using acting_grants [OF deleting] by simp
  qed
qed

lemma moves_acting:
  assumes "moves sv env d p p'" "rows_ok sv d I H p" "tokens_ok d I p" "new_hash sv d \<notin> H"
    "acting i hash e P p" "i \<noteq> dr_session d" "hash \<noteq> new_hash sv d"
  shows "acting i hash e P p'"
  using assms(1)
proof (induction rule: rtranclp_induct)
  case (step q t)
  then show ?case using move_acting [OF _ _ _ assms(6,7)] moves_ok [OF step(1) assms(2-4)] by blast
qed (use assms(5) in simp)

end
