(* ===== verification/Api_Session_System.thy ===== *)
theory Api_Session_System
  imports Api_Session_Moves Transition_Systems
begin

text \<open>
  Sessions over time: the calls of \<open>Api_Auth\<close> in any order and number, with any failures of the
  stores, as steps of one system.

  What is relied on beyond the code: a new session identifier and the hash of a new refresh token
  are not ones that were in use before, as random 122 and 256 bits are not. The clock is not
  relied on: it may jump, back too.
\<close>

section \<open>The system\<close>

record auth_system =
  sy_panel :: panel
  sy_ids :: "go_string set"
  sy_hashes :: "go_string set"

definition fresh :: "service \<Rightarrow> draw \<Rightarrow> auth_system \<Rightarrow> bool" where
  "fresh sv d y \<longleftrightarrow> dr_session d \<notin> sy_ids y \<and> new_hash sv d \<notin> sy_hashes y"

definition after_call :: "service \<Rightarrow> auth_env \<Rightarrow> draw \<Rightarrow> auth_call \<Rightarrow> auth_system \<Rightarrow> auth_system" where
  "after_call sv env d c y =
     \<lparr>sy_panel = perform sv env d c (sy_panel y),
      sy_ids = insert (dr_session d) (sy_ids y), sy_hashes = insert (new_hash sv d) (sy_hashes y)\<rparr>"

inductive auth_step :: "service \<Rightarrow> auth_system \<Rightarrow> auth_system \<Rightarrow> bool" for sv where
  call: "fresh sv d y \<Longrightarrow> auth_step sv y (after_call sv env d c y)"

definition no_sessions :: "auth_system \<Rightarrow> bool" where
  "no_sessions y \<longleftrightarrow> sessions (sy_panel y) = [] \<and> retired (sy_panel y) = [] \<and> access_tokens (sy_panel y) = (\<lambda>_. None)"

abbreviation auth_reach :: "service \<Rightarrow> auth_system \<Rightarrow> bool" where
  "auth_reach sv \<equiv> reach no_sessions (auth_step sv)"

abbreviation later :: "service \<Rightarrow> auth_system \<Rightarrow> auth_system \<Rightarrow> bool" where
  "later sv \<equiv> (auth_step sv)\<^sup>*\<^sup>*"

definition sessions_ok :: "auth_system \<Rightarrow> bool" where
  "sessions_ok y \<longleftrightarrow>
     (let p = sy_panel y in
        distinct (map se_ID (sessions p)) \<and> distinct (map se_TokenHash (sessions p)) \<and>
        se_ID ` set (sessions p) \<subseteq> sy_ids y \<and> se_TokenHash ` set (sessions p) \<subseteq> sy_hashes y \<and>
        fst ` set (retired p) \<subseteq> sy_hashes y \<and> fst ` set (retired p) \<inter> se_TokenHash ` set (sessions p) = {} \<and>
        (\<forall>k cl e. access_tokens p k = Some (cl, e) \<longrightarrow>
           c_SessionID cl \<in> sy_ids y \<and> (\<forall>s \<in> set (sessions p). se_ID s = c_SessionID cl \<longrightarrow> se_UserID s = c_UserID cl)))"

lemma sessions_ok_before:
  "sessions_ok y \<Longrightarrow> rows_ok sv d (sy_ids y) (sy_hashes y) (sy_panel y) \<and> tokens_ok d (sy_ids y) (sy_panel y)"
  by (simp add: sessions_ok_def rows_ok_def tokens_ok_def Let_def subset_insertI2)

lemma sessions_ok_after:
  "rows_ok sv d I H p \<Longrightarrow> tokens_ok d I p \<Longrightarrow>
    sessions_ok \<lparr>sy_panel = p, sy_ids = insert (dr_session d) I, sy_hashes = insert (new_hash sv d) H\<rparr>"
  unfolding sessions_ok_def rows_ok_def tokens_ok_def Let_def by auto

lemma token_owner:
  assumes "sessions_ok y" "access_tokens (sy_panel y) k = Some (cl, e)" "s \<in> set (sessions (sy_panel y))" "se_ID s = c_SessionID cl"
  shows "se_UserID s = c_UserID cl"
  using assms unfolding sessions_ok_def Let_def by metis

lemma fresh_draw:
  assumes "sessions_ok y" "fresh sv d y"
  shows "unnamed d (sy_panel y)" "unseen_hash sv d (sy_panel y)"
proof -
  show "unnamed d (sy_panel y)"
    using assms unfolding sessions_ok_def fresh_def unnamed_def Let_def by metis
  have "se_TokenHash ` set (sessions (sy_panel y)) \<subseteq> sy_hashes y"
    using assms(1) by (simp add: sessions_ok_def Let_def)
  then show "unseen_hash sv d (sy_panel y)" using assms(2) by (auto simp: unseen_hash_def fresh_def)
qed

lemma step_moves:
  assumes "auth_step sv y y'" "sessions_ok y"
  obtains env d where "moves sv env d (sy_panel y) (sy_panel y')" "dr_session d \<notin> sy_ids y" "new_hash sv d \<notin> sy_hashes y"
    "sy_ids y' = insert (dr_session d) (sy_ids y)" "sy_hashes y' = insert (new_hash sv d) (sy_hashes y)"
  using assms(1)
proof cases
  case (call d env c)
  then show ?thesis
    using perform_moves [OF fresh_draw [OF assms(2) call(2)]]
    by (intro that [of env d]) (simp_all add: fresh_def after_call_def)
qed

interpretation auth: invariant_system no_sessions "auth_step sv" sessions_ok for sv
proof
  fix y y' :: auth_system
  show "no_sessions y \<Longrightarrow> sessions_ok y" by (simp add: no_sessions_def sessions_ok_def Let_def)
  assume ok: "sessions_ok y" and step: "auth_step sv y y'"
  obtain env d where m: "moves sv env d (sy_panel y) (sy_panel y')" "new_hash sv d \<notin> sy_hashes y"
    "sy_ids y' = insert (dr_session d) (sy_ids y)" "sy_hashes y' = insert (new_hash sv d) (sy_hashes y)"
    by (rule step_moves [OF step ok])
  have before: "rows_ok sv d (sy_ids y) (sy_hashes y) (sy_panel y)" "tokens_ok d (sy_ids y) (sy_panel y)"
    using sessions_ok_before [OF ok] by blast+
  have "rows_ok sv d (sy_ids y) (sy_hashes y) (sy_panel y')" "tokens_ok d (sy_ids y) (sy_panel y')"
    using moves_ok [OF m(1) before m(2)] by blast+
  from sessions_ok_after [OF this] m(3,4) show "sessions_ok y'" by (metis auth_system.surjective old.unit.exhaust)
qed

text \<open>What stays once it holds, from any reachable state on.\<close>

interpretation ends: invariant_system "\<lambda>y. False" "auth_step sv"
  "\<lambda>y. sessions_ok y \<and> i \<in> sy_ids y \<and> ended i (sy_panel y)" for sv i
proof
  fix y y' :: auth_system
  assume inv: "sessions_ok y \<and> i \<in> sy_ids y \<and> ended i (sy_panel y)" and step: "auth_step sv y y'"
  then obtain env d where m: "moves sv env d (sy_panel y) (sy_panel y')" "dr_session d \<notin> sy_ids y"
    "sy_ids y' = insert (dr_session d) (sy_ids y)" using step_moves by metis
  moreover have "i \<noteq> dr_session d" using m(2) inv by blast
  ultimately show "sessions_ok y' \<and> i \<in> sy_ids y' \<and> ended i (sy_panel y')"
    using auth.step_inv [OF _ step] inv moves_ended by blast
qed simp

interpretation spends: invariant_system "\<lambda>y. False" "auth_step sv"
  "\<lambda>y. sessions_ok y \<and> hash \<in> sy_hashes y \<and> spent hash (sy_panel y)" for sv hash
proof
  fix y y' :: auth_system
  assume inv: "sessions_ok y \<and> hash \<in> sy_hashes y \<and> spent hash (sy_panel y)" and step: "auth_step sv y y'"
  then obtain env d where m: "moves sv env d (sy_panel y) (sy_panel y')" "new_hash sv d \<notin> sy_hashes y"
    "sy_hashes y' = insert (new_hash sv d) (sy_hashes y)" using step_moves by metis
  moreover have "hash \<noteq> new_hash sv d" using m(2) inv by blast
  ultimately show "sessions_ok y' \<and> hash \<in> sy_hashes y' \<and> spent hash (sy_panel y')"
    using auth.step_inv [OF _ step] inv moves_spent by blast
qed simp


interpretation acts: invariant_system "\<lambda>y. False" "auth_step sv"
  "\<lambda>y. sessions_ok y \<and> i \<in> sy_ids y \<and> hash \<in> sy_hashes y \<and> acting i hash e P (sy_panel y)" for sv i hash e P
proof
  fix y y' :: auth_system
  assume inv: "sessions_ok y \<and> i \<in> sy_ids y \<and> hash \<in> sy_hashes y \<and> acting i hash e P (sy_panel y)" and step: "auth_step sv y y'"
  then obtain env d where m: "moves sv env d (sy_panel y) (sy_panel y')" "dr_session d \<notin> sy_ids y" "new_hash sv d \<notin> sy_hashes y"
    "sy_ids y' = insert (dr_session d) (sy_ids y)" "sy_hashes y' = insert (new_hash sv d) (sy_hashes y)" using step_moves by metis
  moreover have "i \<noteq> dr_session d" "hash \<noteq> new_hash sv d" using m(2,3) inv by blast+
  moreover have "rows_ok sv d (sy_ids y) (sy_hashes y) (sy_panel y)" "tokens_ok d (sy_ids y) (sy_panel y)"
    using sessions_ok_before inv by blast+
  ultimately show "sessions_ok y' \<and> i \<in> sy_ids y' \<and> hash \<in> sy_hashes y' \<and> acting i hash e P (sy_panel y')"
    using auth.step_inv [OF _ step] inv moves_acting by (metis insertCI)
qed simp


section \<open>What ends stays ended\<close>

lemma no_claims_of_ended:
  assumes "Authenticate sv env token p = (Inr cl, p')" "ended i p"
  shows "c_SessionID cl \<noteq> i"
proof -
  obtain s where s: "find (\<lambda>s. se_ID s = c_SessionID cl) (sessions p) = Some s" "IsUsable s (at_time env)"
    by (rule Authenticate_Inr [OF assms(1)])
  then show ?thesis using assms(2) find_some [OF s(1)] by (auto simp: ended_def IsUsable_def)
qed

lemma ended_for_good:
  assumes "sessions_ok y" "i \<in> sy_ids y" "ended i (sy_panel y)" "later sv y z"
    "fst (Authenticate sv env token (sy_panel z)) = Inr cl"
  shows "c_SessionID cl \<noteq> i"
proof -
  have "ended i (sy_panel z)" using ends.steps_inv [OF assms(4)] assms(1-3) by blast
  moreover obtain q where "Authenticate sv env token (sy_panel z) = (Inr cl, q)" using assms(5) by (metis prod.collapse)
  ultimately show ?thesis using no_claims_of_ended by blast
qed

lemma revoke_where_member:
  "s' \<in> set (revoke_where now P rows) \<Longrightarrow>
    \<exists>s \<in> set rows. se_ID s' = se_ID s \<and> se_UserID s' = se_UserID s \<and> (P s \<longrightarrow> se_RevokedAt s' \<noteq> None)"
  unfolding revoke_where_def by (induction rows) (auto split: if_splits)

lemma end_session_ends:
  assumes "end_session env i p = (Inr (), p')"
  shows "ended i p'"
proof -
  let ?rows = "revoke_where (at_time env) (\<lambda>s. se_ID s = i) (sessions p)"
  have "sessions p' = ?rows"
    using assms by (auto simp: end_session_def try_then_Inr Revoke_def store_op_def RevokeSession_eq dropped_def split: if_splits)
  moreover have "\<forall>s \<in> set ?rows. se_ID s = i \<longrightarrow> se_RevokedAt s \<noteq> None" by (auto dest: revoke_where_member)
  ultimately show ?thesis by (simp add: ended_def)
qed

lemma Logout_ends:
  assumes "Logout env cl rc p = (Inr (), p')"
  shows "ended (c_SessionID cl) p'"
proof -
  obtain q where q: "end_session env (c_SessionID cl) p = (Inr (), q)" "sessions p' = sessions q"
    using assms by (auto simp: Logout_def try_then_Inr emit_def)
  from end_session_ends [OF q(1)] q(2) show ?thesis by (simp add: ended_def)
qed

lemma EndImpersonation_ends: "EndImpersonation env i p = (Inr (), p') \<Longrightarrow> ended i p'"
  by (auto simp: EndImpersonation_def fail_with_def split: if_splits intro: end_session_ends)

lemma authenticated_known:
  assumes "sessions_ok y" "fst (Authenticate sv env token (sy_panel y)) = Inr cl"
  shows "c_SessionID cl \<in> sy_ids y"
proof -
  obtain q where q: "Authenticate sv env token (sy_panel y) = (Inr cl, q)" using assms(2) by (metis prod.collapse)
  obtain s where "find (\<lambda>s. se_ID s = c_SessionID cl) (sessions (sy_panel y)) = Some s"
    by (rule Authenticate_Inr [OF q])
  from find_some [OF this] assms(1) show ?thesis by (auto simp: sessions_ok_def Let_def)
qed

lemma after_ok: "sessions_ok y \<Longrightarrow> fresh sv d y \<Longrightarrow> sessions_ok (after_call sv env d c y)"
  using auth.step_inv auth_step.call by blast

text \<open>C4: once the session behind a token has been ended, by \<open>Logout\<close> of its claims or by
  \<open>EndImpersonation\<close> of its identifier, no token whatever is accepted again with claims of that
  session, in any state any later sequence of calls leads to and whatever the clock and the stores do.\<close>

theorem session_stays_ended:
  assumes "auth_reach sv y" "fst (Authenticate sv env token (sy_panel y)) = Inr cl" "fresh sv d y"
    "call = SignOut cl rc \<and> fst (Logout env2 cl rc (sy_panel y)) = Inr () \<or>
     call = StopActing (c_SessionID cl) \<and> fst (EndImpersonation env2 (c_SessionID cl) (sy_panel y)) = Inr ()"
    "later sv (after_call sv env2 d call y) z" "fst (Authenticate sv env3 token3 (sy_panel z)) = Inr cl3"
  shows "c_SessionID cl3 \<noteq> c_SessionID cl"
proof (rule ended_for_good [OF after_ok [OF auth.reach_inv [OF assms(1)] assms(3)] _ _ assms(5,6)])
  show "c_SessionID cl \<in> sy_ids (after_call sv env2 d call y)"
    using authenticated_known [OF auth.reach_inv [OF assms(1)] assms(2)] by (simp add: after_call_def)
  show "ended (c_SessionID cl) (sy_panel (after_call sv env2 d call y))"
    using assms(4)
  proof
    assume "call = SignOut cl rc \<and> fst (Logout env2 cl rc (sy_panel y)) = Inr ()"
    then show ?thesis by (simp add: after_call_def) (metis Logout_ends prod.collapse)
  next
    assume "call = StopActing (c_SessionID cl) \<and> fst (EndImpersonation env2 (c_SessionID cl) (sy_panel y)) = Inr ()"
    then show ?thesis by (simp add: after_call_def) (metis EndImpersonation_ends prod.collapse)
  qed
qed


section \<open>Refresh tokens\<close>

lemma Refresh_rotates:
  assumes "fst (Refresh sv env d token rc p) = Inr pair"
  obtains s q where "Rotate env (HashToken (sv_crypto sv) token) (new_hash sv d) (at_time env + sv_refresh_ttl sv) p = (Inr s, q)"
    "sessions (snd (Refresh sv env d token rc p)) = sessions q"
proof -
  let ?rotate = "Rotate env (HashToken (sv_crypto sv) token) (new_hash sv d) (at_time env + sv_refresh_ttl sv) p"
  obtain s q where r: "?rotate = (Inr s, q)"
    using assms by (cases ?rotate; cases "fst ?rotate") (auto simp: Refresh_def Let_def new_hash_def split: if_splits)
  obtain p' where p': "Refresh sv env d token rc p = (Inr pair, p')" using assms by (metis prod.collapse)
  have "sessions p' = sessions q"
    using p' r
    by (auto simp: Refresh_def Let_def new_hash_def try_then_Inr GetUserByID_Inr RevokeSession_eq dropped_def emit_def issued_def
        return_op_def fail_with_def split: if_splits dest!: issueAccessToken_Inr)
  with r p' that show ?thesis by simp
qed

lemma Refresh_spends:
  assumes "sessions_ok y" "fresh sv d y" "fst (Refresh sv env d token rc (sy_panel y)) = Inr pair"
  shows "spent (HashToken (sv_crypto sv) token) (snd (Refresh sv env d token rc (sy_panel y)))"
    "HashToken (sv_crypto sv) token \<in> sy_hashes y"
proof -
  let ?p = "sy_panel y"
  obtain s' q where r: "Rotate env (HashToken (sv_crypto sv) token) (new_hash sv d) (at_time env + sv_refresh_ttl sv) ?p = (Inr s', q)"
    "sessions (snd (Refresh sv env d token rc ?p)) = sessions q"
    by (rule Refresh_rotates [OF assms(3)])
  obtain s where s: "s \<in> set (sessions ?p)" "se_TokenHash s = HashToken (sv_crypto sv) token"
    "s' = s\<lparr>se_TokenHash := new_hash sv d, se_ExpiresAt := at_time env + sv_refresh_ttl sv\<rparr>"
    "sessions q = map (\<lambda>x. if se_ID x = se_ID s then s' else x) (sessions ?p)"
    by (rule Rotate_Inr [OF r(1)]) auto
  have ok: "distinct (map se_TokenHash (sessions ?p))" "se_TokenHash ` set (sessions ?p) \<subseteq> sy_hashes y"
    using assms(1) by (simp_all add: sessions_ok_def Let_def)
  show known: "HashToken (sv_crypto sv) token \<in> sy_hashes y" using ok(2) s(1,2) by auto
  then have "se_TokenHash s' \<noteq> se_TokenHash s" using assms(2) s(2,3) by (auto simp: fresh_def)
  from replaced_spent [OF ok(1) s(1) this] show "spent (HashToken (sv_crypto sv) token) (snd (Refresh sv env d token rc ?p))"
    unfolding spent_def r(2) s(4) s(2) [symmetric] by blast
qed

lemma spent_fails:
  assumes "spent (HashToken (sv_crypto sv) token) p"
  shows "isl (fst (Refresh sv env d token rc p))"
proof (rule ccontr)
  assume "\<not> isl (fst (Refresh sv env d token rc p))"
  then obtain pair where "fst (Refresh sv env d token rc p) = Inr pair" by (cases "fst (Refresh sv env d token rc p)") auto
  then obtain s q where r: "Rotate env (HashToken (sv_crypto sv) token) (new_hash sv d) (at_time env + sv_refresh_ttl sv) p = (Inr s, q)"
    by (rule Refresh_rotates)
  show False by (rule Rotate_Inr [OF r]) (use assms in \<open>auto simp: spent_def\<close>)
qed

text \<open>C5: a refresh token works once: after a \<open>Refresh\<close> that succeeded with it, no \<open>Refresh\<close> with
  the same token succeeds in any later state.\<close>

theorem refresh_token_works_once:
  assumes "auth_reach sv y" "fresh sv d y" "fst (Refresh sv env d token rc (sy_panel y)) = Inr pair"
    "later sv (after_call sv env d (Renew token rc) y) z"
  shows "isl (fst (Refresh sv env2 d2 token rc2 (sy_panel z)))"
proof -
  note ok = auth.reach_inv [OF assms(1)]
  let ?y = "after_call sv env d (Renew token rc) y" and ?hash = "HashToken (sv_crypto sv) token"
  have "sessions_ok ?y" by (rule after_ok [OF ok assms(2)])
  moreover have "?hash \<in> sy_hashes ?y" "spent ?hash (sy_panel ?y)"
    using Refresh_spends [OF ok assms(2,3)] by (simp_all add: after_call_def)
  ultimately have "spent ?hash (sy_panel z)" using spends.steps_inv [OF assms(4)] by blast
  then show ?thesis by (rule spent_fails)
qed


lemma RevokeSessions_sessions: "sessions (snd (RevokeSessions env ids p)) = sessions p"
  by (induction ids arbitrary: p) (simp_all add: return_op_def try_then_def RevokeSession_eq dropped_def)

lemma replay_revokes:
  assumes "spent (HashToken (sv_crypto sv) token) p" "token \<noteq> []" "\<not> random_fails env DrawRefresh" "\<forall>c. \<not> store_fails env c"
    "map_of (retired p) (HashToken (sv_crypto sv) token) = Some i" "find (\<lambda>s. se_ID s = i) (sessions p) = Some s"
  shows "fst (Refresh sv env d token rc p) = Inl ErrInvalidToken"
    "sessions (snd (Refresh sv env d token rc p)) = revoke_where (at_time env) (\<lambda>x. se_UserID x = se_UserID s) (sessions p)"
proof -
  let ?hash = "HashToken (sv_crypto sv) token"
  have none: "find (\<lambda>s. se_TokenHash s = ?hash \<and> IsUsable s t) (sessions p) = None" "find (\<lambda>s. se_TokenHash s = ?hash) (sessions p) = None" for t
    using assms(1) by (auto simp: find_None_iff spent_def)
  have rotate: "Rotate env ?hash n e p = (Inl ErrSessionNotFound, p)" for n e
    using assms(4) none(1) by (simp add: Rotate_def)
  have leak: "locateLeakedToken env ?hash p = Some (se_ID s, se_UserID s)"
    using assms(4-6) none(2) by (simp add: locateLeakedToken_def GetByTokenHash_def FindRetiredToken_def GetSessionByID_def store_op_def)
  show "fst (Refresh sv env d token rc p) = Inl ErrInvalidToken"
    using assms(2,3) rotate by (simp add: Refresh_def Let_def)
  show "sessions (snd (Refresh sv env d token rc p)) = revoke_where (at_time env) (\<lambda>x. se_UserID x = se_UserID s) (sessions p)"
    using assms(2-4) rotate leak
    by (simp add: Refresh_def Let_def handleRefreshFailure_def RevokeAllForUser_def store_op_def emit_def RevokeSessions_sessions)
qed

lemma revoked_ended:
  assumes "sessions p' = revoke_where t (\<lambda>x. se_UserID x = uid) (sessions p)" "distinct (map se_ID (sessions p))"
    "x \<in> set (sessions p)" "se_UserID x = uid"
  shows "ended (se_ID x) p'"
  unfolding ended_def
proof (intro ballI impI)
  fix s' assume "s' \<in> set (sessions p')" "se_ID s' = se_ID x"
  then obtain s where "s \<in> set (sessions p)" "se_ID s = se_ID x" "se_UserID s = uid \<longrightarrow> se_RevokedAt s' \<noteq> None"
    using revoke_where_member [of s' t "\<lambda>x. se_UserID x = uid" "sessions p"] assms(1) by auto
  then show "se_RevokedAt s' \<noteq> None" using same_id [OF assms(2) _ assms(3)] assms(4) by metis
qed

lemma replay_ends:
  assumes "auth_reach sv y" "fresh sv d y" "token \<noteq> []" "\<not> random_fails env DrawRefresh" "\<forall>c. \<not> store_fails env c"
    "map_of (retired (sy_panel y)) (HashToken (sv_crypto sv) token) = Some i"
    "find (\<lambda>s. se_ID s = i) (sessions (sy_panel y)) = Some s"
  shows "fst (Refresh sv env d token rc (sy_panel y)) = Inl ErrInvalidToken"
    "fst (Authenticate sv env2 token2 (sy_panel (after_call sv env d (Renew token rc) y))) = Inr cl \<Longrightarrow> c_UserID cl \<noteq> se_UserID s"
    "later sv (after_call sv env d (Renew token rc) y) z \<Longrightarrow> fst (Authenticate sv env3 token3 (sy_panel z)) = Inr cl3 \<Longrightarrow>
      x \<in> set (sessions (sy_panel y)) \<Longrightarrow> se_UserID x = se_UserID s \<Longrightarrow> c_SessionID cl3 \<noteq> se_ID x"
proof -
  let ?p = "sy_panel y" and ?y = "after_call sv env d (Renew token rc) y"
  note ok = auth.reach_inv [OF assms(1)] and ok' = after_ok [OF auth.reach_inv [OF assms(1)] assms(2)]
  have rows: "distinct (map se_ID (sessions ?p))" "se_ID ` set (sessions ?p) \<subseteq> sy_ids y"
    "fst ` set (retired ?p) \<inter> se_TokenHash ` set (sessions ?p) = {}"
    using ok by (simp_all add: sessions_ok_def Let_def)
  have "HashToken (sv_crypto sv) token \<in> fst ` set (retired ?p)" using map_of_SomeD [OF assms(6)] by force
  then have "spent (HashToken (sv_crypto sv) token) ?p"
    using rows(3) unfolding spent_def by (metis IntI empty_iff image_eqI)
  note r = replay_revokes [OF this assms(3-7)]
  show "fst (Refresh sv env d token rc ?p) = Inl ErrInvalidToken" by (rule r(1))
  have s: "sessions (sy_panel ?y) = revoke_where (at_time env) (\<lambda>x. se_UserID x = se_UserID s) (sessions ?p)"
    using r(2) by (simp add: after_call_def)
  show "c_SessionID cl3 \<noteq> se_ID x"
    if "later sv ?y z" "fst (Authenticate sv env3 token3 (sy_panel z)) = Inr cl3" "x \<in> set (sessions ?p)" "se_UserID x = se_UserID s"
  proof (rule ended_for_good [OF ok' _ _ that(1,2)])
    show "se_ID x \<in> sy_ids ?y" using that(3) rows(2) by (auto simp: after_call_def)
    show "ended (se_ID x) (sy_panel ?y)" by (rule revoked_ended [OF s rows(1) that(3,4)])
  qed
  show "c_UserID cl \<noteq> se_UserID s" if auth: "fst (Authenticate sv env2 token2 (sy_panel ?y)) = Inr cl"
  proof
    assume user: "c_UserID cl = se_UserID s"
    obtain q where "Authenticate sv env2 token2 (sy_panel ?y) = (Inr cl, q)" using auth by (metis prod.collapse)
    then obtain s' where a: "unexpired (at_time env2) (access_tokens (sy_panel ?y) (access_key (sv_crypto sv) token2)) = Some cl"
      "find (\<lambda>s. se_ID s = c_SessionID cl) (sessions (sy_panel ?y)) = Some s'" "IsUsable s' (at_time env2)"
      by (rule Authenticate_Inr)
    obtain e where e: "access_tokens (sy_panel ?y) (access_key (sv_crypto sv) token2) = Some (cl, e)"
      using a(1) by (auto simp: unexpired_def split: option.splits if_splits)
    have s': "s' \<in> set (sessions (sy_panel ?y))" "se_ID s' = c_SessionID cl" using find_some [OF a(2)] by simp_all
    have "se_UserID s' = se_UserID s" using token_owner [OF ok' e s'] user by simp
    with s'(1)
    show False
      using revoke_where_member [of s' "at_time env" "\<lambda>x. se_UserID x = se_UserID s" "sessions ?p"] a(3) s by (auto simp: IsUsable_def)
  qed
qed

text \<open>C6: a refresh token that was replaced and comes back ends everything its user has: \<open>Refresh\<close>
  refuses it, no access token is accepted with claims of that user right after, and no session the
  user had is accepted in any later state. The stores have to answer during that one call.\<close>

theorem replayed_refresh_ends_all:
  assumes "auth_reach sv y" "fresh sv d y" "token \<noteq> []" "\<not> random_fails env DrawRefresh" "\<forall>c. \<not> store_fails env c"
    "map_of (retired (sy_panel y)) (HashToken (sv_crypto sv) token) = Some i"
    "find (\<lambda>s. se_ID s = i) (sessions (sy_panel y)) = Some s"
  shows "fst (Refresh sv env d token rc (sy_panel y)) = Inl ErrInvalidToken \<and>
    (\<forall>env2 token2 cl. fst (Authenticate sv env2 token2 (sy_panel (after_call sv env d (Renew token rc) y))) = Inr cl \<longrightarrow>
       c_UserID cl \<noteq> se_UserID s) \<and>
    (\<forall>z env3 token3 cl3 x. later sv (after_call sv env d (Renew token rc) y) z \<and>
       fst (Authenticate sv env3 token3 (sy_panel z)) = Inr cl3 \<and> x \<in> set (sessions (sy_panel y)) \<and> se_UserID x = se_UserID s \<longrightarrow>
       c_SessionID cl3 \<noteq> se_ID x)"
  using replay_ends [OF assms] by (intro conjI allI impI; blast)

lemma permissions_of_roles:
  assumes "user_roles q = user_roles p" "role_permissions q = role_permissions p"
  shows "permissions_of q u = permissions_of p u"
  unfolding permissions_of_def assms by (rule refl)

lemma Rotate_roles:
  "Rotate env old_hash hash e p = (r, q) \<Longrightarrow> user_roles q = user_roles p \<and> role_permissions q = role_permissions p"
  by (auto simp: Rotate_def Let_def split: if_splits option.splits)

text \<open>The session \<open>Impersonate\<close> opens is refreshed like any other: the claims of the new access
  token name no impersonator, hold all the permissions of the account, and the session lives for
  the whole refresh lifetime from then on.\<close>

lemma Refresh_drops_impersonation:
  assumes "Refresh sv env d token rc p = (Inr pair, p')" "0 < sv_access_ttl sv"
  shows "\<exists>cl. unexpired (at_time env) (access_tokens p' (access_key (sv_crypto sv) (tp_Access pair))) = Some cl \<and>
      c_ImpersonatorUserID cl = [] \<and> c_Permissions cl = permissions_of p (c_UserID cl)"
proof -
  have "fst (Refresh sv env d token rc p) = Inr pair" using assms(1) by simp
  then obtain s q where r: "Rotate env (HashToken (sv_crypto sv) token) (new_hash sv d) (at_time env + sv_refresh_ttl sv) p = (Inr s, q)"
    by (rule Refresh_rotates)
  have perms: "permissions_of q u = permissions_of p u" for u
    using Rotate_roles [OF r] by (intro permissions_of_roles) simp_all
  obtain u q2 access q3 where "issueAccessToken sv env d u (se_ID s) q2 = (Inr access, q3)" "tp_Access pair = access"
    "access_tokens p' = access_tokens q3" "user_roles q2 = user_roles q" "role_permissions q2 = role_permissions q"
    using assms(1) r
    by (auto simp: Refresh_def Let_def new_hash_def try_then_Inr GetUserByID_Inr RevokeSession_eq dropped_def emit_def
        return_op_def fail_with_def tokenPair_def split: if_splits)
  with issueAccessToken_Inr [of sv env d u "se_ID s" q2 access q3] assms(2) perms show ?thesis
    by (auto simp: issued_def Let_def unexpired_def permissions_of_roles [of q2 q])
qed

section \<open>A session as somebody else\<close>

definition limited_claims :: "go_string \<Rightarrow> go_string \<Rightarrow> claims \<Rightarrow> bool" where
  "limited_claims actor subject cl \<longleftrightarrow>
     c_UserID cl = subject \<and> c_ImpersonatorUserID cl = actor \<and>
     (\<forall>permission \<in> set forbiddenWhileImpersonating. \<not> Has (c_Permissions cl) permission)"

lemma Impersonate_acting:
  assumes "sessions_ok y" "fresh sv d y" "Impersonate sv env d actor subject rc (sy_panel y) = (Inr (pair, sid), p')"
  shows "sid = dr_session d" "HashToken (sv_crypto sv) (tp_Refresh pair) = new_hash sv d"
    "acting sid (new_hash sv d) (at_time env + impersonation_ttl sv) (limited_claims actor (u_ID subject)) p'"
    "\<not> spent (new_hash sv d) p'"
proof -
  obtain s cl where o: "opened sv env subject pair (impersonation_ttl sv) s cl (sy_panel y) p'" "se_ID s = sid"
    "sid = dr_session d" "tp_Refresh pair = refresh_token d" "c_ImpersonatorUserID cl = actor"
    "c_Permissions cl = stripForbidden (permissions_of (sy_panel y) (u_ID subject))"
    using Impersonate_Inr(3) [OF assms(3)] by blast
  show "sid = dr_session d" "HashToken (sv_crypto sv) (tp_Refresh pair) = new_hash sv d"
    using o(3,4) by (simp_all add: new_hash_def)
  have rows: "sessions p' = sessions (sy_panel y) @ [s]"
    and tokens: "access_tokens p' = (access_tokens (sy_panel y))(access_key (sv_crypto sv) (tp_Access pair) \<mapsto> (cl, at_time env + sv_access_ttl sv))"
    and s: "se_TokenHash s = new_hash sv d" "se_ExpiresAt s = at_time env + impersonation_ttl sv" "c_UserID cl = u_ID subject"
      "\<forall>x \<in> set (sessions (sy_panel y)). se_ID x \<noteq> sid"
    using o(1,2,4) by (auto simp: opened_def same_access_def issued_def Let_def new_hash_def)
  have "limited_claims actor (u_ID subject) cl"
    using o(5,6) s(3) by (auto simp: limited_claims_def Has_def list_ex_iff stripForbidden_def)
  moreover have "unnamed d (sy_panel y)" by (rule fresh_draw(1) [OF assms(1,2)])
  ultimately show "acting sid (new_hash sv d) (at_time env + impersonation_ttl sv) (limited_claims actor (u_ID subject)) p'"
    unfolding acting_def rows tokens using s o(3) by (auto simp: unnamed_def split: if_splits)
  show "\<not> spent (new_hash sv d) p'" unfolding spent_def rows using s(1) by auto
qed

text \<open>C9: a session opened for somebody else is for an active account that is not the actor's own, its
  advertised life is an hour at most, and its refresh token is good when it is opened. From then on, in
  every state any sequence of calls leads to, and until that refresh token is redeemed (no session carries
  its hash any more): whatever token is accepted with claims of that session, it is accepted less than an
  hour after the session was opened, and its claims are of that account, name the actor, and hold none of
  the permissions of tenancy and of user management that are forbidden while impersonating. Redeeming
  the refresh token lifts all three limits, see \<open>Refresh_drops_impersonation\<close>.\<close>

theorem impersonation_is_limited:
  assumes "auth_reach sv y" "fresh sv d y"
    "fst (Impersonate sv env d actor subject rc (sy_panel y)) = Inr (pair, sid)"
    "later sv (after_call sv env d (SignInAs actor subject rc) y) z"
    "fst (Authenticate sv env2 token (sy_panel z)) = Inr cl" "c_SessionID cl = sid"
  shows "IsActive subject \<and> actor \<noteq> u_ID subject \<and> tp_ExpiresIn pair \<le> 3600 \<and>
    \<not> spent (HashToken (sv_crypto sv) (tp_Refresh pair)) (sy_panel (after_call sv env d (SignInAs actor subject rc) y)) \<and>
    (spent (HashToken (sv_crypto sv) (tp_Refresh pair)) (sy_panel z) \<or>
       at_time env2 < at_time env + 60 * minute \<and> c_UserID cl = u_ID subject \<and> c_ImpersonatorUserID cl = actor \<and>
       (\<forall>permission \<in> set forbiddenWhileImpersonating. \<not> Has (c_Permissions cl) permission))"
proof -
  let ?y = "after_call sv env d (SignInAs actor subject rc) y" and ?h = "new_hash sv d"
    and ?e = "at_time env + impersonation_ttl sv" and ?P = "limited_claims actor (u_ID subject)"
  note ok = auth.reach_inv [OF assms(1)]
  obtain p' where imp: "Impersonate sv env d actor subject rc (sy_panel y) = (Inr (pair, sid), p')"
    using assms(3) by (metis prod.collapse)
  note start = Impersonate_acting [OF ok assms(2) imp]
  have y: "sy_panel ?y = p'" using imp by (simp add: after_call_def)
  have "sessions_ok ?y" by (rule after_ok [OF ok assms(2)])
  moreover have "sid \<in> sy_ids ?y" "?h \<in> sy_hashes ?y" using start(1) by (simp_all add: after_call_def)
  ultimately have act: "acting sid ?h ?e ?P (sy_panel z)"
    using acts.steps_inv [OF assms(4), of sid ?h ?e ?P] start(3) y by simp
  obtain q where "Authenticate sv env2 token (sy_panel z) = (Inr cl, q)" using assms(5) by (metis prod.collapse)
  then obtain s where a: "unexpired (at_time env2) (access_tokens (sy_panel z) (access_key (sv_crypto sv) token)) = Some cl"
    "find (\<lambda>s. se_ID s = c_SessionID cl) (sessions (sy_panel z)) = Some s" "IsUsable s (at_time env2)"
    by (rule Authenticate_Inr)
  have s: "s \<in> set (sessions (sy_panel z))" "se_ID s = sid" using find_some [OF a(2)] assms(6) by simp_all
  obtain e where "access_tokens (sy_panel z) (access_key (sv_crypto sv) token) = Some (cl, e)"
    using a(1) by (auto simp: unexpired_def split: option.splits if_splits)
  with act s assms(6) have "spent ?h (sy_panel z) \<or> se_ExpiresAt s = ?e \<and> ?P cl" unfolding acting_def by blast
  moreover have "impersonation_ttl sv \<le> 60 * minute" by (simp add: impersonation_ttl_def impersonationTTL_def)
  ultimately show ?thesis
    using impersonation_parts(1-3) [OF imp] start(2,4) y a(3) by (auto simp: limited_claims_def IsUsable_def)
qed


section \<open>Examples\<close>

text \<open>An administrator signs in as \<open>alice\<close>.\<close>

definition demo_start :: auth_system where
  "demo_start = \<lparr>sy_panel = demo_panel [], sy_ids = {}, sy_hashes = {}\<rparr>"

definition demo_used :: auth_system where
  "demo_used = after_call demo_service (calm 0) demo_draw (SignInAs ''admin'' (demo_user []) demo_rc) demo_start"

definition demo_draw2 :: draw where
  "demo_draw2 = \<lparr>dr_refresh = ''q'', dr_access = ''b'', dr_salt = ''s'', dr_session = ''s2''\<rparr>"

definition demo_draw3 :: draw where
  "demo_draw3 = \<lparr>dr_refresh = ''z'', dr_access = ''c'', dr_salt = ''s'', dr_session = ''s3''\<rparr>"

definition demo_renewed :: auth_system where
  "demo_renewed = after_call demo_service (calm 1) demo_draw2 (Renew (NewToken ''r'') demo_rc) demo_used"

definition demo_claims :: claims where
  "demo_claims = \<lparr>c_UserID = ''u1'', c_Username = ''alice'', c_SessionID = ''s1'', c_Permissions = [''website.view''],
     c_Roles = [''reseller''], c_IssuedAt = 0, c_ImpersonatorUserID = ''admin''\<rparr>"

lemma demo_fresh: "fresh demo_service demo_draw demo_start" "fresh demo_service demo_draw2 demo_used" "fresh demo_service demo_draw3 demo_renewed"
  by code_simp+

lemma demo_used_reached: "auth_reach demo_service demo_used"
proof -
  have "no_sessions demo_start" by (simp add: no_sessions_def demo_start_def demo_panel_def empty_panel_def)
  then have "auth_reach demo_service demo_start" by (rule reach_init)
  then show ?thesis unfolding demo_used_def by (rule reach_step) (rule auth_step.call [OF demo_fresh(1)])
qed

lemma demo_renewed_reached: "auth_reach demo_service demo_renewed"
  unfolding demo_renewed_def by (intro reach_step [OF demo_used_reached] auth_step.call demo_fresh)

theorem impersonation_is_limited_witness:
  "fst (Authenticate demo_service (calm 1) (NewToken ''a'') (sy_panel demo_used)) = Inr demo_claims \<and>
   c_ImpersonatorUserID demo_claims = ''admin'' \<and> \<not> Has (c_Permissions demo_claims) ''tenant.view''"
proof -
  have used: "fst (Authenticate demo_service (calm 1) (NewToken ''a'') (sy_panel demo_used)) = Inr demo_claims" by code_simp
  obtain pair where pair: "fst (Impersonate demo_service (calm 0) demo_draw ''admin'' (demo_user []) demo_rc (sy_panel demo_start)) = Inr (pair, ''s1'')"
  proof -
    let ?r = "fst (Impersonate demo_service (calm 0) demo_draw ''admin'' (demo_user []) demo_rc (sy_panel demo_start))"
    have "case ?r of Inl e \<Rightarrow> False | Inr (pair, sid) \<Rightarrow> sid = ''s1'' \<and> tp_Refresh pair = NewToken ''r''" by code_simp
    then show ?thesis using that by (auto split: sum.splits)
  qed
  have "auth_reach demo_service demo_start"
    by (rule reach_init) (simp add: no_sessions_def demo_start_def demo_panel_def empty_panel_def)
  from impersonation_is_limited [OF this demo_fresh(1) pair _ used [unfolded demo_used_def]]
  have "c_ImpersonatorUserID demo_claims = ''admin'' \<and> (\<forall>permission \<in> set forbiddenWhileImpersonating. \<not> Has (c_Permissions demo_claims) permission)"
    by (auto simp: demo_claims_def)
  then show ?thesis using used by (simp add: forbiddenWhileImpersonating_def)
qed

theorem session_stays_ended_witness:
  "fst (Authenticate demo_service (calm 1) (NewToken ''a'') (sy_panel demo_used)) = Inr demo_claims \<and>
   fst (Authenticate demo_service (calm 2) (NewToken ''a'')
     (sy_panel (after_call demo_service (calm 1) demo_draw2 (StopActing ''s1'') demo_used))) \<noteq> Inr demo_claims"
proof
  show used: "fst (Authenticate demo_service (calm 1) (NewToken ''a'') (sy_panel demo_used)) = Inr demo_claims" by code_simp
  have stop: "fst (EndImpersonation (calm 1) (c_SessionID demo_claims) (sy_panel demo_used)) = Inr ()" by code_simp
  have "c_SessionID demo_claims = ''s1''" by (simp add: demo_claims_def)
  then show "fst (Authenticate demo_service (calm 2) (NewToken ''a'')
     (sy_panel (after_call demo_service (calm 1) demo_draw2 (StopActing ''s1'') demo_used))) \<noteq> Inr demo_claims"
    using session_stays_ended [OF demo_used_reached used demo_fresh(2) disjI2, of "StopActing ''s1''" "calm 1" _ "calm 2" "NewToken ''a''" demo_claims] stop
    by auto
qed

theorem refresh_token_works_once_witness:
  "\<exists>pair. fst (Refresh demo_service (calm 1) demo_draw2 (NewToken ''r'') demo_rc (sy_panel demo_used)) = Inr pair \<and>
     isl (fst (Refresh demo_service (calm 2) demo_draw3 (NewToken ''r'') demo_rc (sy_panel demo_renewed)))"
proof -
  have "\<not> isl (fst (Refresh demo_service (calm 1) demo_draw2 (NewToken ''r'') demo_rc (sy_panel demo_used)))" by code_simp
  then obtain pair where pair: "fst (Refresh demo_service (calm 1) demo_draw2 (NewToken ''r'') demo_rc (sy_panel demo_used)) = Inr pair"
    by (cases "fst (Refresh demo_service (calm 1) demo_draw2 (NewToken ''r'') demo_rc (sy_panel demo_used))") auto
  with refresh_token_works_once [OF demo_used_reached demo_fresh(2) pair rtranclp.rtrancl_refl] show ?thesis
    unfolding demo_renewed_def by blast
qed

theorem replayed_refresh_ends_all_witness:
  "(\<exists>s. find (\<lambda>s. se_ID s = ''s1'') (sessions (sy_panel demo_renewed)) = Some s) \<and>
   fst (Refresh demo_service (calm 2) demo_draw3 (NewToken ''r'') demo_rc (sy_panel demo_renewed)) = Inl ErrInvalidToken \<and>
   (\<nexists>cl. fst (Authenticate demo_service (calm 3) (NewToken ''b'')
      (sy_panel (after_call demo_service (calm 2) demo_draw3 (Renew (NewToken ''r'') demo_rc) demo_renewed))) = Inr cl \<and> c_UserID cl = ''u1'')"
proof -
  have calm: "\<not> random_fails (calm 2) DrawRefresh" "\<forall>c. \<not> store_fails (calm 2) c" by (simp_all add: calm_def)
  have token: "NewToken ''r'' \<noteq> []"
    "map_of (retired (sy_panel demo_renewed)) (HashToken (sv_crypto demo_service) (NewToken ''r'')) = Some ''s1''"
    "map_option se_UserID (find (\<lambda>s. se_ID s = ''s1'') (sessions (sy_panel demo_renewed))) = Some ''u1''" by code_simp+
  then obtain s where s: "find (\<lambda>s. se_ID s = ''s1'') (sessions (sy_panel demo_renewed)) = Some s" "se_UserID s = ''u1''" by auto
  note r = replayed_refresh_ends_all [OF demo_renewed_reached demo_fresh(3) token(1) calm token(2) s(1)]
  show ?thesis using s(1) r [of demo_rc, unfolded s(2)] by auto
qed

end
