(* ===== verification/Shared_Seal.thy ===== *)
theory Shared_Seal
  imports Go_Encoding
begin

text \<open>
  Package \<open>shared/seal\<close>: streams encrypted in chunks (\<open>seal.go\<close>), the writer and the reader as
  they keep their buffers, and what they amount to. HKDF and AES-GCM are parameters. A sink may
  refuse any write after any number of bytes, a source may break off with an error.
\<close>

record seal_crypto =
  hkdf :: "go_string \<Rightarrow> go_string \<Rightarrow> go_string \<Rightarrow> go_string"
  aead_seal :: "go_string \<Rightarrow> go_string \<Rightarrow> go_string \<Rightarrow> go_string \<Rightarrow> go_string"
  aead_open :: "go_string \<Rightarrow> go_string \<Rightarrow> go_string \<Rightarrow> go_string \<Rightarrow> go_string option"

section \<open>The format\<close>

definition magic :: go_string where "magic = ''JHSEAL1'' @ [char_of (10 :: nat)]"
definition KeySize :: nat where "KeySize = 32"
definition saltSize :: nat where "saltSize = 32"
definition headerSize :: nat where "headerSize = length magic + saltSize + 4"
definition tagSize :: nat where "tagSize = 16"
definition DefaultChunkSize :: nat where "DefaultChunkSize = 2 ^ 20"
definition maxChunkSize :: nat where "maxChunkSize = 16 * 2 ^ 20"
definition seal_label :: go_string where "seal_label = ''jothost panel backup v1''"
definition panelBackupLabel :: go_string where "panelBackupLabel = ''jothost panel backup master v1''"

datatype seal_err = ErrKey | ErrFormat | ErrOpen | ErrTruncated | ErrTrailing | ErrClosed
  | ErrChunkSize | ErrSalt | ErrWriteHeader | ErrWriteChunk "64 word" | ErrReadChunk "64 word"

definition HasMagic :: "go_string \<Rightarrow> bool" where
  "HasMagic prefix \<longleftrightarrow> length prefix \<ge> length magic \<and> take (length magic) prefix = magic"

definition PanelBackupKey :: "seal_crypto \<Rightarrow> go_string \<Rightarrow> seal_err + go_string" where
  "PanelBackupKey c encryptionKey =
     (if length encryptionKey \<noteq> KeySize then Inl ErrKey else Inr (hkdf c encryptionKey [] panelBackupLabel))"

definition ParseHexKey :: "go_string \<Rightarrow> seal_err + go_string" where
  "ParseHexKey s =
     (case hex_decode s of
        None \<Rightarrow> Inl ErrKey
      | Some key \<Rightarrow> if length key \<noteq> KeySize then Inl ErrKey else Inr key)"

lemma ParseHexKey_reads: "length key = KeySize \<Longrightarrow> ParseHexKey (hex_encode key) = Inr key"
  by (simp add: ParseHexKey_def)

text \<open>\<open>streamAEAD\<close>: the key under which a stream is sealed; with a key of 32 bytes it cannot fail.\<close>

definition streamAEAD :: "seal_crypto \<Rightarrow> go_string \<Rightarrow> go_string \<Rightarrow> go_string" where
  "streamAEAD c masterKey salt = hkdf c masterKey salt seal_label"

definition chunkNonce :: "64 word \<Rightarrow> bool \<Rightarrow> go_string" where
  "chunkNonce counter final = put_uint64 counter @ [char_of (0 :: nat), char_of (0 :: nat), char_of (0 :: nat)] @ [if final then char_of (1 :: nat) else char_of (0 :: nat)]"

definition seal_header :: "go_string \<Rightarrow> nat \<Rightarrow> go_string" where
  "seal_header salt chunkSize = magic @ salt @ put_uint32 (of_nat chunkSize)"

section \<open>The writer\<close>

text \<open>What a sink does with a write, given what it holds already: \<open>None\<close> takes it all, \<open>Some k\<close>
  takes \<open>k\<close> bytes and reports an error.\<close>

type_synonym sink = "go_string \<Rightarrow> go_string \<Rightarrow> nat option"

record writer =
  wr_out :: go_string
  wr_key :: go_string
  wr_header :: go_string
  wr_chunkSize :: nat
  wr_buf :: go_string
  wr_counter :: "64 word"
  wr_closed :: bool
  wr_err :: "seal_err option"

text \<open>\<open>salt\<close> is what the random source gives, if it works.\<close>

definition newWriter :: "seal_crypto \<Rightarrow> sink \<Rightarrow> go_string \<Rightarrow> nat \<Rightarrow> go_string option \<Rightarrow> seal_err + writer" where
  "newWriter c w masterKey chunkSize random =
     (if length masterKey \<noteq> KeySize then Inl ErrKey
      else if chunkSize = 0 \<or> chunkSize > maxChunkSize then Inl ErrChunkSize
      else
        (case random of
           None \<Rightarrow> Inl ErrSalt
         | Some salt \<Rightarrow>
             let header = seal_header salt chunkSize in
               (case w [] header of
                  Some _ \<Rightarrow> Inl ErrWriteHeader
                | None \<Rightarrow>
                    Inr \<lparr>wr_out = header, wr_key = streamAEAD c masterKey salt, wr_header = header, wr_chunkSize = chunkSize,
                         wr_buf = [], wr_counter = 0, wr_closed = False, wr_err = None\<rparr>)))"

definition NewWriter :: "seal_crypto \<Rightarrow> sink \<Rightarrow> go_string \<Rightarrow> go_string option \<Rightarrow> seal_err + writer" where
  "NewWriter c w masterKey random = newWriter c w masterKey DefaultChunkSize random"

definition seal_chunk :: "seal_crypto \<Rightarrow> sink \<Rightarrow> bool \<Rightarrow> writer \<Rightarrow> seal_err option \<times> writer" where
  "seal_chunk c w final s =
     (let sealed = aead_seal c (wr_key s) (chunkNonce (wr_counter s) final) (wr_buf s) (wr_header s) in
        case w (wr_out s) sealed of
          Some k \<Rightarrow>
            let e = Some (ErrWriteChunk (wr_counter s)) in
              (e, s\<lparr>wr_out := wr_out s @ take k sealed, wr_err := e\<rparr>)
        | None \<Rightarrow> (None, s\<lparr>wr_out := wr_out s @ sealed, wr_buf := [], wr_counter := wr_counter s + 1\<rparr>))"

partial_function (option) write_loop ::
    "seal_crypto \<Rightarrow> sink \<Rightarrow> writer \<Rightarrow> go_string \<Rightarrow> nat \<Rightarrow> (nat \<times> seal_err option \<times> writer) option" where
  "write_loop c w s p written =
     (if p = [] then Some (written, None, s)
      else
        (case (if length (wr_buf s) = wr_chunkSize s then seal_chunk c w False s else (None, s)) of
           (Some e, s1) \<Rightarrow> Some (written, Some e, s1)
         | (None, s1) \<Rightarrow>
             let n = min (wr_chunkSize s1 - length (wr_buf s1)) (length p) in
               write_loop c w (s1\<lparr>wr_buf := wr_buf s1 @ take n p\<rparr>) (drop n p) (written + n)))"

definition Write :: "seal_crypto \<Rightarrow> sink \<Rightarrow> go_string \<Rightarrow> writer \<Rightarrow> (nat \<times> seal_err option \<times> writer) option" where
  "Write c w p s =
     (if wr_closed s then Some (0, Some ErrClosed, s)
      else if wr_err s \<noteq> None then Some (0, wr_err s, s)
      else write_loop c w s p 0)"

definition Close :: "seal_crypto \<Rightarrow> sink \<Rightarrow> writer \<Rightarrow> seal_err option \<times> writer" where
  "Close c w s =
     (if wr_closed s then (wr_err s, s)
      else
        let s = s\<lparr>wr_closed := True\<rparr> in
          if wr_err s \<noteq> None then (wr_err s, s) else seal_chunk c w True s)"

section \<open>The reader\<close>

text \<open>A source: the bytes it still gives, and whether it then breaks instead of ending.\<close>

record source =
  src_left :: go_string
  src_broken :: bool

record reader =
  rd_in :: source
  rd_key :: go_string
  rd_header :: go_string
  rd_chunkSize :: nat
  rd_plain :: go_string
  rd_counter :: "64 word"
  rd_done :: bool
  rd_err :: "seal_err option"

definition NewReader :: "seal_crypto \<Rightarrow> source \<Rightarrow> go_string \<Rightarrow> seal_err + reader" where
  "NewReader c r masterKey =
     (if length masterKey \<noteq> KeySize then Inl ErrKey
      else if length (src_left r) < headerSize then Inl ErrFormat
      else
        let header = take headerSize (src_left r) in
          if take (length magic) header \<noteq> magic then Inl ErrFormat
          else
            let chunkSize = unat (big_endian32 (drop (length magic + saltSize) header)) in
              if chunkSize = 0 \<or> chunkSize > maxChunkSize then Inl ErrFormat
              else Inr \<lparr>rd_in = r\<lparr>src_left := drop headerSize (src_left r)\<rparr>,
                        rd_key = streamAEAD c masterKey (take saltSize (drop (length magic) header)), rd_header = header,
                        rd_chunkSize = chunkSize, rd_plain = [], rd_counter = 0, rd_done = False, rd_err = None\<rparr>)"

text \<open>\<open>open\<close>; that data follows the last chunk is asked of the source once more.\<close>

definition open_chunk :: "seal_crypto \<Rightarrow> go_string \<Rightarrow> bool \<Rightarrow> reader \<Rightarrow> seal_err option \<times> reader" where
  "open_chunk c chunk is_last s =
     (case aead_open c (rd_key s) (chunkNonce (rd_counter s) is_last) chunk (rd_header s) of
        None \<Rightarrow>
          (Some (if is_last \<and> aead_open c (rd_key s) (chunkNonce (rd_counter s) False) chunk (rd_header s) \<noteq> None
                 then ErrTruncated else ErrOpen), s)
      | Some plain \<Rightarrow>
          let s = s\<lparr>rd_counter := rd_counter s + 1, rd_plain := plain\<rparr> in
            if is_last then
              (if src_left (rd_in s) \<noteq> [] then (Some ErrTrailing, s) else (None, s\<lparr>rd_done := True\<rparr>))
            else (None, s))"

definition next_chunk :: "seal_crypto \<Rightarrow> reader \<Rightarrow> seal_err option \<times> reader" where
  "next_chunk c s =
     (let left = src_left (rd_in s);
          n = rd_chunkSize s + tagSize;
          rest = (\<lambda>xs. s\<lparr>rd_in := (rd_in s)\<lparr>src_left := xs\<rparr>\<rparr>)
      in if length left < n then
           (if src_broken (rd_in s) then (Some (ErrReadChunk (rd_counter s)), rest [])
            else if left = [] then (Some ErrTruncated, s)
            else open_chunk c left True (rest []))
         else if drop n left \<noteq> [] then open_chunk c (take n left) False (rest (drop n left))
         else if src_broken (rd_in s) then (Some (ErrReadChunk (rd_counter s)), rest [])
         else open_chunk c (take n left) True (rest []))"

datatype read_end = Eof | Failed seal_err

lemma next_chunk_progress:
  assumes "next_chunk c s = (None, s1)" "\<not> rd_done s1"
  shows "length (src_left (rd_in s1)) < length (src_left (rd_in s))"
proof -
  have n: "0 < rd_chunkSize s + tagSize" by (simp add: tagSize_def)
  show ?thesis
    using assms n by (auto simp: next_chunk_def open_chunk_def Let_def split: if_splits option.splits)
qed

function read_loop :: "seal_crypto \<Rightarrow> reader \<Rightarrow> read_end option \<times> reader" where
  "read_loop c s =
     (if rd_plain s \<noteq> [] then (None, s)
      else (case rd_err s of
              Some e \<Rightarrow> (Some (Failed e), s)
            | None \<Rightarrow>
                if rd_done s then (Some Eof, s)
                else let (e, s1) = next_chunk c s in read_loop c (s1\<lparr>rd_err := e\<rparr>)))"
  by pat_completeness auto

termination
  by (relation "measure (\<lambda>(c, s). if rd_err s \<noteq> None \<or> rd_done s then 0 else Suc (length (src_left (rd_in s))))")
    (auto dest: next_chunk_progress [OF sym])

declare read_loop.simps [simp del]

definition Read :: "seal_crypto \<Rightarrow> nat \<Rightarrow> reader \<Rightarrow> (read_end + go_string) \<times> reader" where
  "Read c k s =
     (case read_loop c s of
        (Some stop, s) \<Rightarrow> (Inl stop, s)
      | (None, s) \<Rightarrow> (Inr (take k (rd_plain s)), s\<lparr>rd_plain := drop k (rd_plain s)\<rparr>))"

text \<open>A caller that reads to the end, \<open>k\<close> bytes at a time: what it has read, and the error if there was one.\<close>

partial_function (option) read_all :: "seal_crypto \<Rightarrow> nat \<Rightarrow> reader \<Rightarrow> go_string \<Rightarrow> (seal_err option \<times> go_string) option" where
  "read_all c k s acc =
     (case Read c k s of
        (Inl Eof, s1) \<Rightarrow> Some (None, acc)
      | (Inl (Failed e), s1) \<Rightarrow> Some (Some e, acc)
      | (Inr b, s1) \<Rightarrow> read_all c k s1 (acc @ b))"


section \<open>What a sealed stream is\<close>

fun chunks :: "nat \<Rightarrow> go_string \<Rightarrow> go_string list" where
  "chunks n xs = (if n = 0 \<or> length xs \<le> n then [xs] else take n xs # chunks n (drop n xs))"

declare chunks.simps [simp del]

fun sealed_chunks :: "seal_crypto \<Rightarrow> go_string \<Rightarrow> go_string \<Rightarrow> 64 word \<Rightarrow> go_string list \<Rightarrow> go_string" where
  "sealed_chunks c key header i [] = []"
| "sealed_chunks c key header i [p] = aead_seal c key (chunkNonce i True) p header"
| "sealed_chunks c key header i (p # q # ps) =
     aead_seal c key (chunkNonce i False) p header @ sealed_chunks c key header (i + 1) (q # ps)"

definition sealed_stream :: "seal_crypto \<Rightarrow> go_string \<Rightarrow> go_string \<Rightarrow> nat \<Rightarrow> go_string \<Rightarrow> go_string" where
  "sealed_stream c masterKey salt n plain =
     (let header = seal_header salt n in
        header @ sealed_chunks c (streamAEAD c masterKey salt) header 0 (chunks n plain))"

text \<open>What there is to read in the bytes after a header, from chunk \<open>i\<close> on.\<close>

function open_stream :: "seal_crypto \<Rightarrow> go_string \<Rightarrow> go_string \<Rightarrow> nat \<Rightarrow> bool \<Rightarrow> 64 word \<Rightarrow> go_string \<Rightarrow>
    seal_err option \<times> go_string list" where
  "open_stream c key header n broken i left =
     (if n + tagSize < length left then
        (case aead_open c key (chunkNonce i False) (take (n + tagSize) left) header of
           None \<Rightarrow> (Some ErrOpen, [])
         | Some p \<Rightarrow> map_prod id (Cons p) (open_stream c key header n broken (i + 1) (drop (n + tagSize) left)))
      else if broken then (Some (ErrReadChunk i), [])
      else if left = [] then (Some ErrTruncated, [])
      else
        (case aead_open c key (chunkNonce i True) left header of
           None \<Rightarrow> (Some (if aead_open c key (chunkNonce i False) left header \<noteq> None then ErrTruncated else ErrOpen), [])
         | Some p \<Rightarrow> (None, [p])))"
  by pat_completeness auto
termination
  by (relation "measure (\<lambda>(c, key, header, n, broken, i, left). length left)") (auto simp: tagSize_def)

declare open_stream.simps [simp del]

section \<open>The writer writes it\<close>

fun unfinished :: "seal_crypto \<Rightarrow> go_string \<Rightarrow> go_string \<Rightarrow> 64 word \<Rightarrow> go_string list \<Rightarrow> go_string" where
  "unfinished c key header i [] = []"
| "unfinished c key header i (p # ps) =
     aead_seal c key (chunkNonce i False) p header @ unfinished c key header (i + 1) ps"

lemma unfinished_snoc:
  "unfinished c key header i (ps @ [p]) =
     unfinished c key header i ps @ aead_seal c key (chunkNonce (i + of_nat (length ps)) False) p header"
  by (induction ps arbitrary: i) (simp_all add: add.assoc add.commute)

lemma sealed_chunks_snoc:
  "sealed_chunks c key header i (ps @ [p]) =
     unfinished c key header i ps @ aead_seal c key (chunkNonce (i + of_nat (length ps)) True) p header"
proof (induction ps arbitrary: i)
  case (Cons q ps)
  then show ?case by (cases ps) (simp_all add: algebra_simps)
qed simp

lemma chunks_full:
  assumes "0 < n" "\<forall>p \<in> set fulls. length p = n" "length buf \<le> n" "buf \<noteq> [] \<or> fulls = []"
  shows "chunks n (concat fulls @ buf) = fulls @ [buf]"
  using assms(2,4)
proof (induction fulls)
  case Nil
  then show ?case using assms(1,3) by (simp add: chunks.simps)
next
  case (Cons p fulls)
  then have "0 < length (concat fulls @ buf)" by (cases buf) simp_all
  with Cons assms(1) show ?case by (subst chunks.simps) simp
qed

definition writer_at :: "seal_crypto \<Rightarrow> go_string \<Rightarrow> go_string \<Rightarrow> nat \<Rightarrow> go_string list \<Rightarrow> go_string \<Rightarrow> writer" where
  "writer_at c key header n fulls buf =
     \<lparr>wr_out = header @ unfinished c key header 0 fulls, wr_key = key, wr_header = header, wr_chunkSize = n,
      wr_buf = buf, wr_counter = of_nat (length fulls), wr_closed = False, wr_err = None\<rparr>"

definition holding :: "seal_crypto \<Rightarrow> go_string \<Rightarrow> go_string \<Rightarrow> nat \<Rightarrow> go_string \<Rightarrow> writer \<Rightarrow> bool" where
  "holding c key header n plain s \<longleftrightarrow>
     (\<exists>fulls buf. s = writer_at c key header n fulls buf \<and> plain = concat fulls @ buf \<and>
       (\<forall>p \<in> set fulls. length p = n) \<and> length buf \<le> n \<and> (buf \<noteq> [] \<or> fulls = []))"

definition takes_all :: sink where "takes_all out p = None"

lemma room_made:
  assumes "holding c key header n plain s" "p \<noteq> []" "0 < n"
  obtains s1 m where
    "(if length (wr_buf s) = wr_chunkSize s then seal_chunk c takes_all False s else (None, s)) = (None, s1)"
    "m = min (wr_chunkSize s1 - length (wr_buf s1)) (length p)" "0 < m"
    "holding c key header n (plain @ take m p) (s1\<lparr>wr_buf := wr_buf s1 @ take m p\<rparr>)"
proof -
  obtain fulls buf where f: "s = writer_at c key header n fulls buf" "plain = concat fulls @ buf"
    "\<forall>p \<in> set fulls. length p = n" "length buf \<le> n"
    using assms(1) unfolding holding_def by blast
  define sent where "sent = (if length buf = n then fulls @ [buf] else fulls)"
  define kept where "kept = (if length buf = n then [] else buf)"
  define m where "m = min (n - length kept) (length p)"
  let ?s = "writer_at c key header n sent kept"
  have split: "concat sent @ kept = plain" by (simp add: sent_def kept_def f(2))
  have "(if length (wr_buf s) = wr_chunkSize s then seal_chunk c takes_all False s else (None, s)) = (None, ?s)"
    by (simp add: f(1) writer_at_def seal_chunk_def takes_all_def Let_def sent_def kept_def unfinished_snoc)
  moreover have "m = min (wr_chunkSize ?s - length (wr_buf ?s)) (length p)" by (simp add: writer_at_def m_def)
  moreover have pos: "0 < m" using assms(2,3) f(4) by (auto simp: m_def kept_def)
  moreover have "holding c key header n (plain @ take m p) (?s\<lparr>wr_buf := wr_buf ?s @ take m p\<rparr>)"
    unfolding holding_def
  proof (intro exI conjI)
    show "?s\<lparr>wr_buf := wr_buf ?s @ take m p\<rparr> = writer_at c key header n sent (kept @ take m p)" by (simp add: writer_at_def)
    show "plain @ take m p = concat sent @ kept @ take m p" by (simp add: split [symmetric])
    show "\<forall>p \<in> set sent. length p = n" using f(3) by (auto simp: sent_def)
    show "length (kept @ take m p) \<le> n" using f(4) by (auto simp: m_def kept_def)
    show "kept @ take m p \<noteq> [] \<or> sent = []" using pos assms(2) by simp
  qed
  ultimately show ?thesis by (rule that)
qed

lemma write_loop_holds:
  assumes "holding c key header n plain s" "0 < n"
  shows "\<exists>s'. write_loop c takes_all s p k = Some (k + length p, None, s') \<and> holding c key header n (plain @ p) s'"
  using assms(1)
proof (induction "length p" arbitrary: p s plain k rule: less_induct)
  case less
  show ?case
  proof (cases "p = []")
    case True
    with less.prems show ?thesis by (subst write_loop.simps) simp
  next
    case False
    obtain s1 m where s1:
      "(if length (wr_buf s) = wr_chunkSize s then seal_chunk c takes_all False s else (None, s)) = (None, s1)"
      "m = min (wr_chunkSize s1 - length (wr_buf s1)) (length p)" "0 < m"
      "holding c key header n (plain @ take m p) (s1\<lparr>wr_buf := wr_buf s1 @ take m p\<rparr>)"
      by (rule room_made [OF less.prems False assms(2)])
    have shorter: "length (drop m p) < length p" using s1(3) False by simp
    have all: "k + m + length (drop m p) = k + length p" using s1(2) by simp
    from less.hyps [OF shorter s1(4), of "k + m"] show ?thesis
      using False s1(1) unfolding all by (subst write_loop.simps) (simp add: s1(2) [symmetric])
  qed
qed

fun write_all :: "seal_crypto \<Rightarrow> sink \<Rightarrow> go_string list \<Rightarrow> writer \<Rightarrow> (seal_err option \<times> writer) option" where
  "write_all c w [] s = Some (None, s)"
| "write_all c w (p # ps) s =
     (case Write c w p s of
        None \<Rightarrow> None
      | Some (_, Some e, s1) \<Rightarrow> Some (Some e, s1)
      | Some (_, None, s1) \<Rightarrow> write_all c w ps s1)"

lemma write_all_holds:
  assumes "holding c key header n plain s" "0 < n"
  shows "\<exists>s'. write_all c takes_all parts s = Some (None, s') \<and> holding c key header n (plain @ concat parts) s'"
  using assms(1)
proof (induction parts arbitrary: s plain)
  case (Cons p parts)
  obtain s1 where s1: "write_loop c takes_all s p 0 = Some (0 + length p, None, s1)" "holding c key header n (plain @ p) s1"
    using write_loop_holds [OF Cons.prems assms(2)] by blast
  have "\<not> wr_closed s" "wr_err s = None" using Cons.prems by (auto simp: holding_def writer_at_def)
  then have "Write c takes_all p s = Some (length p, None, s1)" using s1(1) by (simp add: Write_def)
  with Cons.IH [OF s1(2)] show ?case by simp
qed simp

lemma Close_holds:
  assumes "holding c (streamAEAD c masterKey salt) (seal_header salt n) n plain s" "0 < n"
  shows "\<exists>s'. Close c takes_all s = (None, s') \<and> wr_out s' = sealed_stream c masterKey salt n plain"
proof -
  let ?key = "streamAEAD c masterKey salt" and ?header = "seal_header salt n"
  obtain fulls buf where f: "s = writer_at c ?key ?header n fulls buf" "plain = concat fulls @ buf"
    "\<forall>p \<in> set fulls. length p = n" "length buf \<le> n" "buf \<noteq> [] \<or> fulls = []"
    using assms(1) unfolding holding_def by blast
  have "sealed_stream c masterKey salt n plain =
      ?header @ unfinished c ?key ?header 0 fulls @ aead_seal c ?key (chunkNonce (of_nat (length fulls)) True) buf ?header"
    by (simp add: sealed_stream_def Let_def f(2) chunks_full [OF assms(2) f(3,4,5)] sealed_chunks_snoc)
  then show ?thesis
    by (simp add: f(1) writer_at_def Close_def seal_chunk_def takes_all_def Let_def)
qed


section \<open>The reader reads it\<close>

lemma read_all_plain:
  assumes "0 < k"
  shows "read_all c k s acc = read_all c k (s\<lparr>rd_plain := []\<rparr>) (acc @ rd_plain s)"
proof (induction "length (rd_plain s)" arbitrary: s acc rule: less_induct)
  case less
  show ?case
  proof (cases "rd_plain s = []")
    case True
    then have "s\<lparr>rd_plain := []\<rparr> = s" by (cases s) simp
    then show ?thesis by (simp only: True append_Nil2)
  next
    case False
    let ?s = "s\<lparr>rd_plain := drop k (rd_plain s)\<rparr>"
    have "Read c k s = (Inr (take k (rd_plain s)), ?s)" using False by (simp add: Read_def read_loop.simps)
    then have "read_all c k s acc = read_all c k ?s (acc @ take k (rd_plain s))" by (subst read_all.simps) simp
    also have "\<dots> = read_all c k (?s\<lparr>rd_plain := []\<rparr>) ((acc @ take k (rd_plain s)) @ rd_plain ?s)"
      by (rule less) (use False assms in simp)
    finally show ?thesis by simp
  qed
qed

lemma read_all_next:
  assumes "rd_plain s = []" "rd_err s = None" "\<not> rd_done s" "next_chunk c s = (e, s1)"
  shows "read_all c k s acc = read_all c k (s1\<lparr>rd_err := e\<rparr>) acc"
proof -
  have "read_loop c s = read_loop c (s1\<lparr>rd_err := e\<rparr>)" using assms by (subst read_loop.simps) simp
  then have "Read c k s = Read c k (s1\<lparr>rd_err := e\<rparr>)" by (simp add: Read_def)
  then show ?thesis by (subst (1 2) read_all.simps) simp
qed

lemma read_all_stop:
  "rd_plain s = [] \<Longrightarrow> rd_err s = Some e \<Longrightarrow> read_all c k s acc = Some (Some e, acc)"
  "rd_plain s = [] \<Longrightarrow> rd_err s = None \<Longrightarrow> rd_done s \<Longrightarrow> read_all c k s acc = Some (None, acc)"
  by (subst read_all.simps, simp add: Read_def read_loop.simps)+

definition reader_at :: "go_string \<Rightarrow> go_string \<Rightarrow> nat \<Rightarrow> bool \<Rightarrow> 64 word \<Rightarrow> go_string \<Rightarrow> reader" where
  "reader_at key header n broken i left =
     \<lparr>rd_in = \<lparr>src_left = left, src_broken = broken\<rparr>, rd_key = key, rd_header = header, rd_chunkSize = n,
      rd_plain = [], rd_counter = i, rd_done = False, rd_err = None\<rparr>"

lemma reader_steps:
  assumes "next_chunk c (reader_at key header n broken i left) = (e, s1)"
  shows "read_all c k (reader_at key header n broken i left) acc = read_all c k (s1\<lparr>rd_err := e\<rparr>) acc"
  by (rule read_all_next [OF _ _ _ assms]) (simp_all add: reader_at_def)

lemma reader_fails:
  assumes "next_chunk c (reader_at key header n broken i left) = (Some e, s1)" "rd_plain s1 = []"
  shows "read_all c k (reader_at key header n broken i left) acc = Some (Some e, acc)"
  unfolding reader_steps [OF assms(1)] by (rule read_all_stop) (simp_all add: assms(2))

lemma reads_stream:
  assumes "0 < k"
  shows "read_all c k (reader_at key header n broken i left) acc =
    (case open_stream c key header n broken i left of (e, ps) \<Rightarrow> Some (e, acc @ concat ps))"
proof (induction "length left" arbitrary: left i acc rule: less_induct)
  case less
  let ?s = "reader_at key header n broken i left" and ?w = "n + tagSize"
  show ?case
  proof (cases "?w < length left")
    case True
    show ?thesis
    proof (cases "aead_open c key (chunkNonce i False) (take ?w left) header")
      case None
      with True have "\<exists>s1. next_chunk c ?s = (Some ErrOpen, s1) \<and> rd_plain s1 = []"
        by (simp add: next_chunk_def open_chunk_def Let_def reader_at_def)
      with True None show ?thesis
        by (auto simp: reader_fails open_stream.simps [of c key header n broken i left])
    next
      case (Some p)
      let ?s1 = "(reader_at key header n broken (i + 1) (drop ?w left))\<lparr>rd_plain := p\<rparr>"
      have "next_chunk c ?s = (None, ?s1)"
        using True Some by (simp add: next_chunk_def open_chunk_def Let_def reader_at_def)
      from reader_steps [OF this] have "read_all c k ?s acc = read_all c k ?s1 acc" by (simp add: reader_at_def)
      also have "\<dots> = read_all c k (reader_at key header n broken (i + 1) (drop ?w left)) (acc @ p)"
        by (subst read_all_plain [OF assms]) (simp add: reader_at_def)
      also have "\<dots> = (case open_stream c key header n broken (i + 1) (drop ?w left) of (e, ps) \<Rightarrow> Some (e, (acc @ p) @ concat ps))"
        by (rule less) (use True in \<open>simp add: tagSize_def\<close>)
      finally show ?thesis
        using True Some by (simp add: open_stream.simps [of c key header n broken i left] split: prod.splits)
    qed
  next
    case short: False
    show ?thesis
    proof (cases "broken \<or> left = [] \<or> aead_open c key (chunkNonce i True) left header = None")
      case True
      with short have "\<exists>e s1. open_stream c key header n broken i left = (Some e, []) \<and> next_chunk c ?s = (Some e, s1) \<and> rd_plain s1 = []"
        by (auto simp: next_chunk_def open_chunk_def Let_def reader_at_def tagSize_def
            open_stream.simps [of c key header n broken i left] not_less)
      then show ?thesis by (auto simp: reader_fails)
    next
      case False
      then obtain p where p: "aead_open c key (chunkNonce i True) left header = Some p" "\<not> broken" "left \<noteq> []" by auto
      let ?s1 = "(reader_at key header n broken (i + 1) [])\<lparr>rd_plain := p, rd_done := True\<rparr>"
      have "next_chunk c ?s = (None, ?s1)"
        using short p by (auto simp: next_chunk_def open_chunk_def Let_def reader_at_def not_less)
      from reader_steps [OF this] have "read_all c k ?s acc = read_all c k ?s1 acc" by (simp add: reader_at_def)
      also have "\<dots> = Some (None, acc @ p)"
        by (subst read_all_plain [OF assms]) (simp add: reader_at_def read_all_stop)
      finally have "read_all c k ?s acc = Some (None, acc @ p)" .
      moreover have "open_stream c key header n broken i left = (None, [p])"
        using short p by (subst open_stream.simps) simp
      ultimately show ?thesis by simp
    qed
  qed
qed

section \<open>Headers\<close>

lemma length_header: "length salt = saltSize \<Longrightarrow> length (seal_header salt n) = headerSize"
  by (simp add: seal_header_def headerSize_def length_put_uint)

lemma chunkNonce_inject: "chunkNonce i f = chunkNonce j g \<longleftrightarrow> i = j \<and> f = g"
  by (auto simp: chunkNonce_def put_uint64_inject length_put_uint)

lemma header_size: "n \<le> maxChunkSize \<Longrightarrow> unat (of_nat n :: 32 word) = n"
  by (simp add: unat_of_nat maxChunkSize_def)

lemma NewReader_header:
  assumes "length masterKey = KeySize" "length salt = saltSize" "0 < n" "n \<le> maxChunkSize"
  shows "NewReader c \<lparr>src_left = seal_header salt n @ left, src_broken = broken\<rparr> masterKey =
    Inr (reader_at (streamAEAD c masterKey salt) (seal_header salt n) n broken 0 left)"
proof -
  have "take headerSize (seal_header salt n @ left) = seal_header salt n" "drop headerSize (seal_header salt n @ left) = left"
    using length_header [OF assms(2), of n] by simp_all
  moreover have "drop (length magic + saltSize) (seal_header salt n) = put_uint32 (of_nat n)"
    "take (length magic) (seal_header salt n) = magic" "take saltSize (drop (length magic) (seal_header salt n)) = salt"
    using assms(2) by (simp_all add: seal_header_def)
  ultimately show ?thesis
    using assms length_header [OF assms(2), of n]
    by (simp add: NewReader_def Let_def big_endian32_put header_size reader_at_def)
qed

lemma NewReader_Inr:
  assumes "NewReader c \<lparr>src_left = bytes, src_broken = broken\<rparr> masterKey = Inr r"
  obtains header salt n where "bytes = header @ drop headerSize bytes" "length header = headerSize"
    "r = reader_at (streamAEAD c masterKey salt) header n broken 0 (drop headerSize bytes)"
  using assms by (auto simp: NewReader_def Let_def reader_at_def split: if_splits)


section \<open>A round trip\<close>

definition opens_sealed :: "seal_crypto \<Rightarrow> bool" where
  "opens_sealed c \<longleftrightarrow>
     (\<forall>key nonce p a. aead_open c key nonce (aead_seal c key nonce p a) a = Some p \<and>
        length (aead_seal c key nonce p a) = length p + tagSize)"

lemma chunks_lengths:
  assumes "0 < n"
  obtains fulls rest where "chunks n plain = fulls @ [rest]" "concat fulls @ rest = plain"
    "\<forall>p \<in> set fulls. length p = n" "length rest \<le> n" "rest \<noteq> [] \<or> fulls = []"
proof -
  have "\<exists>fulls rest. chunks n plain = fulls @ [rest] \<and> concat fulls @ rest = plain \<and>
      (\<forall>p \<in> set fulls. length p = n) \<and> length rest \<le> n \<and> (rest \<noteq> [] \<or> plain = [])"
  proof (induction "length plain" arbitrary: plain rule: less_induct)
    case less
    show ?case
    proof (cases "length plain \<le> n")
      case True
      then show ?thesis using assms by (auto simp: chunks.simps [of n plain])
    next
      case False
      then have "length (drop n plain) < length plain" using assms by simp
      from less [OF this] obtain fulls rest where f: "chunks n (drop n plain) = fulls @ [rest]" "concat fulls @ rest = drop n plain"
        "\<forall>p \<in> set fulls. length p = n" "length rest \<le> n" "rest \<noteq> [] \<or> drop n plain = []" by blast
      have "chunks n plain = (take n plain # fulls) @ [rest]" using False f(1) assms by (simp add: chunks.simps [of n plain])
      moreover have "concat (take n plain # fulls) @ rest = plain" using f(2) by simp
      moreover have "\<forall>p \<in> set (take n plain # fulls). length p = n" using False f(3) by simp
      moreover have "rest \<noteq> []" using False f(5) by auto
      ultimately show ?thesis using f(4) by blast
    qed
  qed
  then obtain fulls rest where f: "chunks n plain = fulls @ [rest]" "concat fulls @ rest = plain"
    "\<forall>p \<in> set fulls. length p = n" "length rest \<le> n" "rest \<noteq> [] \<or> plain = []" by blast
  then have "rest \<noteq> [] \<or> fulls = []" using assms by (cases fulls) auto
  with f(1-4) show ?thesis by (rule that)
qed

lemma opens_chunks:
  assumes "opens_sealed c" "\<forall>p \<in> set fulls. length p = n" "length rest \<le> n"
  shows "open_stream c key header n False i (sealed_chunks c key header i (fulls @ [rest])) = (None, fulls @ [rest])"
  using assms(2)
proof (induction fulls arbitrary: i)
  case Nil
  have law: "aead_open c key (chunkNonce i True) (aead_seal c key (chunkNonce i True) rest header) header = Some rest"
    "length (aead_seal c key (chunkNonce i True) rest header) = length rest + tagSize"
    using assms(1) by (simp_all add: opens_sealed_def)
  then have "aead_seal c key (chunkNonce i True) rest header \<noteq> []" by (auto simp: tagSize_def)
  with law assms(3) show ?case by (subst open_stream.simps) simp
next
  case (Cons p fulls)
  let ?chunk = "aead_seal c key (chunkNonce i False) p header" and ?rest = "sealed_chunks c key header (i + 1) (fulls @ [rest])"
  have law: "aead_open c key (chunkNonce i False) ?chunk header = Some p" "length ?chunk = n + tagSize"
    using assms(1) Cons.prems by (simp_all add: opens_sealed_def)
  have stream: "sealed_chunks c key header i ((p # fulls) @ [rest]) = ?chunk @ ?rest"
    by (cases fulls) simp_all
  have "0 < length ?rest"
    using assms(1) by (simp add: sealed_chunks_snoc opens_sealed_def tagSize_def)
  with law stream Cons show ?case by (subst open_stream.simps) simp
qed

text \<open>C22: sealing and opening a stream give back what was written, however it was divided into
  writes and whatever the sizes of the reads: every write and the close succeed, the bytes are those
  of the format, the reader accepts them and ends without an error. A cipher that opens what it sealed
  and adds a tag is all that is relied on.\<close>

theorem sealed_stream_opens:
  assumes "opens_sealed c" "length masterKey = KeySize" "length salt = saltSize" "0 < n" "n \<le> maxChunkSize" "0 < k"
  shows "\<exists>s s1 s2 r. newWriter c takes_all masterKey n (Some salt) = Inr s \<and>
    write_all c takes_all parts s = Some (None, s1) \<and> Close c takes_all s1 = (None, s2) \<and>
    wr_out s2 = sealed_stream c masterKey salt n (concat parts) \<and>
    NewReader c \<lparr>src_left = wr_out s2, src_broken = False\<rparr> masterKey = Inr r \<and>
    read_all c k r [] = Some (None, concat parts)"
proof -
  let ?key = "streamAEAD c masterKey salt" and ?header = "seal_header salt n"
  obtain s where s: "newWriter c takes_all masterKey n (Some salt) = Inr s" "s = writer_at c ?key ?header n [] []"
    using assms(2,4,5) by (simp add: newWriter_def takes_all_def Let_def writer_at_def)
  then have "holding c ?key ?header n [] s" by (force simp: holding_def)
  then obtain s1 where s1: "write_all c takes_all parts s = Some (None, s1)" "holding c ?key ?header n (concat parts) s1"
    using write_all_holds [OF _ assms(4)] by fastforce
  obtain s2 where s2: "Close c takes_all s1 = (None, s2)" "wr_out s2 = sealed_stream c masterKey salt n (concat parts)"
    using Close_holds [OF s1(2) assms(4)] by blast
  obtain fulls rest where f: "chunks n (concat parts) = fulls @ [rest]" "concat fulls @ rest = concat parts"
    "\<forall>p \<in> set fulls. length p = n" "length rest \<le> n" by (rule chunks_lengths [OF assms(4)])
  let ?left = "sealed_chunks c ?key ?header 0 (fulls @ [rest])" and ?r = "reader_at ?key ?header n False 0"
  have "NewReader c \<lparr>src_left = wr_out s2, src_broken = False\<rparr> masterKey = Inr (?r ?left)"
    unfolding s2(2) sealed_stream_def Let_def f(1) by (rule NewReader_header [OF assms(2-5)])
  moreover have "read_all c k (?r ?left) [] = Some (None, concat parts)"
    by (simp add: reads_stream [OF assms(6)] opens_chunks [OF assms(1) f(3,4)] f(2))
  ultimately show ?thesis using s(1) s1(1) s2 by blast
qed


section \<open>A stream that was tampered with\<close>

text \<open>The cipher opens nothing under a key of this master key but what the writer of this one stream
  sealed, which is what an attacker without the key is taken not to be able to change.\<close>

definition only_sealed :: "seal_crypto \<Rightarrow> go_string \<Rightarrow> go_string \<Rightarrow> nat \<Rightarrow> go_string \<Rightarrow> bool" where
  "only_sealed c masterKey salt n plain \<longleftrightarrow>
     (\<forall>salt' nonce ct a p. aead_open c (streamAEAD c masterKey salt') nonce ct a = Some p \<longrightarrow>
        a = seal_header salt n \<and>
        (\<exists>i < length (chunks n plain). nonce = chunkNonce (of_nat i) (Suc i = length (chunks n plain)) \<and> p = chunks n plain ! i \<and>
           ct = aead_seal c (streamAEAD c masterKey salt) nonce p a))"

lemma index_of_counter:
  assumes "(of_nat i :: 64 word) = of_nat j" "i < 2 ^ 64" "j < 2 ^ 64"
  shows "i = j"
proof -
  have "unat (of_nat i :: 64 word) = unat (of_nat j :: 64 word)" by (simp only: assms(1))
  with assms(2,3) show ?thesis unfolding unat_of_nat by simp
qed

lemma only_sealedD:
  assumes "only_sealed c masterKey salt n plain" "aead_open c (streamAEAD c masterKey salt') (chunkNonce (of_nat j) f) ct a = Some p"
    "j < length (chunks n plain)" "length (chunks n plain) \<le> 2 ^ 64"
  shows "p = chunks n plain ! j" "f = (Suc j = length (chunks n plain))"
    "ct = aead_seal c (streamAEAD c masterKey salt) (chunkNonce (of_nat j) f) p (seal_header salt n)"
proof -
  obtain i where i: "i < length (chunks n plain)" "chunkNonce (of_nat j) f = chunkNonce (of_nat i) (Suc i = length (chunks n plain))"
    "p = chunks n plain ! i" "ct = aead_seal c (streamAEAD c masterKey salt) (chunkNonce (of_nat j) f) p a" "a = seal_header salt n"
    using assms(1,2) unfolding only_sealed_def by metis
  have "(of_nat j :: 64 word) = of_nat i" "f = (Suc i = length (chunks n plain))"
    using i(2) by (simp_all add: chunkNonce_inject)
  moreover have "i < 2 ^ 64" "j < 2 ^ 64" using i(1) assms(3,4) by linarith+
  ultimately have "j = i" using index_of_counter by blast
  with i \<open>f = _\<close> show "p = chunks n plain ! j" "f = (Suc j = length (chunks n plain))"
    "ct = aead_seal c (streamAEAD c masterKey salt) (chunkNonce (of_nat j) f) p (seal_header salt n)" by simp_all
qed


lemma opened_was_sealed:
  assumes "only_sealed c masterKey salt n plain" "length (chunks n plain) \<le> 2 ^ 64" "j < length (chunks n plain)"
    "open_stream c (streamAEAD c masterKey salt') header m broken (of_nat j) left = (e, got)"
  shows "(\<exists>t. got = take t (drop j (chunks n plain))) \<and>
    (e = None \<longrightarrow> header = seal_header salt n \<and> got = drop j (chunks n plain) \<and>
       left = sealed_chunks c (streamAEAD c masterKey salt) (seal_header salt n) (of_nat j) (drop j (chunks n plain)))"
  using assms(3,4)
proof (induction "length left" arbitrary: left j got rule: less_induct)
  case less
  let ?ps = "chunks n plain" and ?key = "streamAEAD c masterKey salt'" and ?w = "m + tagSize"
  have here: "drop j ?ps = ?ps ! j # drop (Suc j) ?ps" using less.prems(1) by (simp add: Cons_nth_drop_Suc)
  have header: "header = seal_header salt n" if "aead_open c ?key x y header = Some p" for x y p
    using assms(1) that unfolding only_sealed_def by blast
  show ?case
  proof (cases "?w < length left")
    case long: True
    show ?thesis
    proof (cases "aead_open c ?key (chunkNonce (of_nat j) False) (take ?w left) header")
      case None
      with long less.prems(2) show ?thesis by (auto simp: open_stream.simps [of _ _ _ _ _ _ left])
    next
      case (Some p)
      note p = only_sealedD [OF assms(1) Some less.prems(1) assms(2)]
      have j: "Suc j < length ?ps" using p(2) less.prems(1) by simp
      obtain got' where got: "open_stream c ?key header m broken (of_nat (Suc j)) (drop ?w left) = (e, got')" "got = p # got'"
        using long Some less.prems(2)
        by (cases "open_stream c ?key header m broken (of_nat j + 1) (drop ?w left)") (auto simp: open_stream.simps [of _ _ _ _ _ _ left] add.commute)
      have "length (drop ?w left) < length left" using long by (simp add: tagSize_def)
      note ih = less.hyps [OF this j got(1)]
      obtain t where "got' = take t (drop (Suc j) ?ps)" using ih by blast
      then have "\<exists>t. got = take t (drop j ?ps)" by (intro exI [of _ "Suc t"]) (simp add: got(2) here p(1))
      moreover have "got = drop j ?ps" if "e = None" using ih that by (simp add: got(2) here p(1))
      moreover have "left = sealed_chunks c (streamAEAD c masterKey salt) (seal_header salt n) (of_nat j) (drop j ?ps)" if "e = None"
      proof -
        have rest: "drop ?w left = sealed_chunks c (streamAEAD c masterKey salt) (seal_header salt n) (of_nat (Suc j)) (drop (Suc j) ?ps)"
          using ih that by blast
        obtain q qs where q: "drop (Suc j) ?ps = q # qs" using j by (cases "drop (Suc j) ?ps") auto
        have "sealed_chunks c (streamAEAD c masterKey salt) (seal_header salt n) (of_nat j) (drop j ?ps) = take ?w left @ drop ?w left"
          unfolding rest p(3) by (simp add: here q p(1) add.commute)
        then show ?thesis by simp
      qed
      ultimately show ?thesis using header [OF Some] by blast
    qed
  next
    case short: False
    show ?thesis
    proof (cases "e")
      case (Some err)
      with short less.prems(2) have "got = []" by (auto simp: open_stream.simps [of _ _ _ _ _ _ left] split: if_splits option.splits)
      with Some show ?thesis by auto
    next
      case None
      with short less.prems(2) obtain p where p: "aead_open c ?key (chunkNonce (of_nat j) True) left header = Some p" "got = [p]"
        by (auto simp: open_stream.simps [of _ _ _ _ _ _ left] split: if_splits option.splits)
      note s = only_sealedD [OF assms(1) p(1) less.prems(1) assms(2)]
      have "drop j ?ps = [p]" using here s(1,2) by simp
      with p(2) s(3) header [OF p(1)] show ?thesis by (auto intro: exI [of _ 1])
    qed
  qed
qed

lemma concat_chunks: "concat (chunks n plain) = plain"
  by (induction n plain rule: chunks.induct) (subst chunks.simps, simp)

text \<open>C21: nobody without the key can pass off anything else as a sealed stream: whatever bytes a reader is
  given, reading ends, everything it hands out is a beginning of the plaintext that was sealed, and it
  ends without an error only on exactly the bytes the writer wrote. A stream that is cut short,
  extended, reordered or altered is refused.\<close>

theorem altered_stream_refused:
  assumes "only_sealed c masterKey salt n plain" "length (chunks n plain) \<le> 2 ^ 64" "0 < k"
    "NewReader c \<lparr>src_left = bytes, src_broken = broken\<rparr> masterKey = Inr r"
  shows "\<exists>e got more. read_all c k r [] = Some (e, got) \<and> plain = got @ more \<and>
    (e = None \<longrightarrow> bytes = sealed_stream c masterKey salt n plain \<and> got = plain)"
proof -
  obtain header salt' m where r: "bytes = header @ drop headerSize bytes"
    "r = reader_at (streamAEAD c masterKey salt') header m broken 0 (drop headerSize bytes)"
    by (rule NewReader_Inr [OF assms(4)])
  obtain e got where got: "open_stream c (streamAEAD c masterKey salt') header m broken (of_nat 0) (drop headerSize bytes) = (e, got)"
    by (cases "open_stream c (streamAEAD c masterKey salt') header m broken (of_nat 0) (drop headerSize bytes)")
  have "0 < length (chunks n plain)" by (simp add: chunks.simps)
  note o = opened_was_sealed [OF assms(1,2) this got]
  obtain t where t: "got = take t (chunks n plain)" using o by auto
  have "plain = concat got @ concat (drop t (chunks n plain))"
    unfolding t concat_append [symmetric] append_take_drop_id concat_chunks by (rule refl)
  moreover have "read_all c k r [] = Some (e, concat got)" using got by (simp add: r(2) reads_stream [OF assms(3)])
  moreover have "bytes = sealed_stream c masterKey salt n plain \<and> concat got = plain" if "e = None"
    using o that r(1) by (simp add: sealed_stream_def Let_def concat_chunks)
  ultimately show ?thesis by blast
qed


section \<open>Examples\<close>

text \<open>Ciphers that only append a tag: one opens anything, one just the chunks of one stream.\<close>

definition plain_cipher :: seal_crypto where
  "plain_cipher = \<lparr>hkdf = (\<lambda>key salt label. salt), aead_seal = (\<lambda>key nonce p a. p @ replicate tagSize CHR ''t''),
     aead_open = (\<lambda>key nonce ct a. Some (take (length ct - tagSize) ct))\<rparr>"

definition demo_key :: go_string where "demo_key = replicate 32 CHR ''k''"
definition demo_salt :: go_string where "demo_salt = replicate 32 CHR ''s''"

theorem sealed_stream_opens_witness:
  "\<exists>s s1 s2 r. newWriter plain_cipher takes_all demo_key 4 (Some demo_salt) = Inr s \<and>
    write_all plain_cipher takes_all [''hel'', [], ''lo world''] s = Some (None, s1) \<and> Close plain_cipher takes_all s1 = (None, s2) \<and>
    NewReader plain_cipher \<lparr>src_left = wr_out s2, src_broken = False\<rparr> demo_key = Inr r \<and>
    read_all plain_cipher 7 r [] = Some (None, ''hello world'')"
proof -
  have "opens_sealed plain_cipher" by (simp add: opens_sealed_def plain_cipher_def)
  moreover have "length demo_key = KeySize" "length demo_salt = saltSize" "(4 :: nat) \<le> maxChunkSize"
    by (simp_all add: demo_key_def demo_salt_def KeySize_def saltSize_def maxChunkSize_def)
  ultimately show ?thesis
    using sealed_stream_opens [of plain_cipher demo_key demo_salt 4 7 "[''hel'', [], ''lo world'']"] by auto
qed

definition one_stream :: "go_string \<Rightarrow> nat \<Rightarrow> go_string \<Rightarrow> seal_crypto" where
  "one_stream salt n plain =
     plain_cipher\<lparr>aead_open := (\<lambda>key nonce ct a.
       if a = seal_header salt n then
         map_option (\<lambda>i. chunks n plain ! i)
           (find (\<lambda>i. nonce = chunkNonce (of_nat i) (Suc i = length (chunks n plain)) \<and> ct = chunks n plain ! i @ replicate tagSize CHR ''t'')
              [0..<length (chunks n plain)])
       else None)\<rparr>"

lemma one_stream_only_sealed: "only_sealed (one_stream salt n plain) masterKey salt n plain"
  unfolding only_sealed_def
proof (intro allI impI)
  fix salt' nonce ct a p
  assume "aead_open (one_stream salt n plain) (streamAEAD (one_stream salt n plain) masterKey salt') nonce ct a = Some p"
  then obtain i where "a = seal_header salt n" "p = chunks n plain ! i" "i < length (chunks n plain)"
    "nonce = chunkNonce (of_nat i) (Suc i = length (chunks n plain))" "ct = chunks n plain ! i @ replicate tagSize CHR ''t''"
    by (auto simp: one_stream_def find_Some_iff split: if_splits)
  then show "a = seal_header salt n \<and>
        (\<exists>i < length (chunks n plain). nonce = chunkNonce (of_nat i) (Suc i = length (chunks n plain)) \<and> p = chunks n plain ! i \<and>
           ct = aead_seal (one_stream salt n plain) (streamAEAD (one_stream salt n plain) masterKey salt) nonce p a)"
    by (auto simp: one_stream_def plain_cipher_def)
qed

theorem altered_stream_refused_witness:
  "\<exists>r e got. NewReader (one_stream demo_salt 4 ''hello world'')
      \<lparr>src_left = take 84 (sealed_stream (one_stream demo_salt 4 ''hello world'') demo_key demo_salt 4 ''hello world''), src_broken = False\<rparr>
      demo_key = Inr r \<and>
    read_all (one_stream demo_salt 4 ''hello world'') 7 r [] = Some (Some e, got)"
proof -
  let ?c = "one_stream demo_salt 4 ''hello world''"
  let ?stream = "sealed_stream ?c demo_key demo_salt 4 ''hello world''"
  have parts: "chunks 4 ''hello world'' = [''hell'', ''o wo'', ''rld'']" by code_simp
  have size: "length (seal_header demo_salt 4) = 44"
    using length_header [of demo_salt 4] by (simp add: demo_salt_def saltSize_def headerSize_def magic_def)
  obtain left where left: "?stream = seal_header demo_salt 4 @ left" "length left = 59"
    by (simp add: sealed_stream_def Let_def parts one_stream_def plain_cipher_def tagSize_def)
  then have "take 84 ?stream = seal_header demo_salt 4 @ take 40 left" using size by simp
  then obtain r where r: "NewReader ?c \<lparr>src_left = take 84 ?stream, src_broken = False\<rparr> demo_key = Inr r"
    using NewReader_header [of demo_key demo_salt 4 ?c] by (auto simp: demo_key_def demo_salt_def KeySize_def saltSize_def maxChunkSize_def)
  obtain e got where "read_all ?c 7 r [] = Some (e, got)" "e = None \<longrightarrow> take 84 ?stream = ?stream"
    using altered_stream_refused [OF one_stream_only_sealed _ _ r, of 7] by (auto simp: parts)
  moreover have "take 84 ?stream \<noteq> ?stream" using left size by simp
  ultimately show ?thesis using r by (cases e) auto
qed

end
