(* ===== verification/Validate_Tenancy.thy ===== *)
theory Validate_Tenancy
  imports Go_Prelude
begin

text \<open>
  The vocabulary of tenancy, \<open>shared/validate/tenancy.go\<close>: tiers of accounts, kinds of plans, quota
  dimensions, names, limits and the names of systemd slices. A nil limit is \<open>None\<close>. Control
  characters are bytes below 128, so the loops over runes are loops over bytes here.
\<close>

datatype tenancy_invalid = ErrInvalidTier | ErrInvalidPlanName | ErrInvalidLimit | ErrInvalidEnforcement
  | ErrInvalidDimension | ErrInvalidSlice

section \<open>Closed sets\<close>

definition TierAdmin :: go_string where "TierAdmin = ''admin''"
definition TierReseller :: go_string where "TierReseller = ''reseller''"
definition TierCustomer :: go_string where "TierCustomer = ''customer''"

definition PlanKindPlan :: go_string where "PlanKindPlan = ''plan''"
definition PlanKindAddon :: go_string where "PlanKindAddon = ''addon''"

definition EnforcementHard :: go_string where "EnforcementHard = ''hard''"
definition EnforcementSoft :: go_string where "EnforcementSoft = ''soft''"

definition DimensionWebsites :: go_string where "DimensionWebsites = ''websites''"
definition DimensionDatabases :: go_string where "DimensionDatabases = ''databases''"
definition DimensionMailboxes :: go_string where "DimensionMailboxes = ''mailboxes''"
definition DimensionFTPUsers :: go_string where "DimensionFTPUsers = ''ftp_users''"
definition DimensionCronJobs :: go_string where "DimensionCronJobs = ''cron_jobs''"
definition DimensionSubdomains :: go_string where "DimensionSubdomains = ''subdomains''"
definition DimensionDisk :: go_string where "DimensionDisk = ''disk''"
definition DimensionBandwidth :: go_string where "DimensionBandwidth = ''bandwidth''"

lemmas tier_names = TierAdmin_def TierReseller_def TierCustomer_def
lemmas kind_names = PlanKindPlan_def PlanKindAddon_def
lemmas enforcement_names = EnforcementHard_def EnforcementSoft_def
lemmas dimension_names = DimensionWebsites_def DimensionDatabases_def DimensionMailboxes_def DimensionFTPUsers_def
  DimensionCronJobs_def DimensionSubdomains_def DimensionDisk_def DimensionBandwidth_def

definition AccountTier :: "go_string \<Rightarrow> tenancy_invalid option" where
  "AccountTier tier = (if tier \<in> {TierAdmin, TierReseller, TierCustomer} then None else Some ErrInvalidTier)"

definition TierRank :: "go_string \<Rightarrow> nat" where
  "TierRank tier =
     (if tier = TierAdmin then 0 else if tier = TierReseller then 1 else if tier = TierCustomer then 2 else 99)"

definition TierMayOwn :: "go_string \<Rightarrow> go_string \<Rightarrow> bool" where
  "TierMayOwn parent child =
     (if AccountTier parent \<noteq> None \<or> AccountTier child \<noteq> None then False else TierRank parent < TierRank child)"

definition PlanKind :: "go_string \<Rightarrow> tenancy_invalid option" where
  "PlanKind kind = (if kind \<in> {PlanKindPlan, PlanKindAddon} then None else Some ErrInvalidDimension)"

definition Enforcement :: "go_string \<Rightarrow> tenancy_invalid option" where
  "Enforcement policy = (if policy \<in> {EnforcementHard, EnforcementSoft} then None else Some ErrInvalidEnforcement)"

definition QuotaDimension :: "go_string \<Rightarrow> tenancy_invalid option" where
  "QuotaDimension dimension =
     (if dimension \<in> {DimensionWebsites, DimensionDatabases, DimensionMailboxes, DimensionFTPUsers, DimensionCronJobs,
                      DimensionSubdomains, DimensionDisk, DimensionBandwidth}
      then None else Some ErrInvalidDimension)"

section \<open>Names and reasons\<close>

definition MaxPlanNameLength :: nat where "MaxPlanNameLength = 120"
definition MaxSubscriptionNameLength :: nat where "MaxSubscriptionNameLength = 255"
definition MaxPersonNameLength :: nat where "MaxPersonNameLength = 255"
definition MaxReasonLength :: nat where "MaxReasonLength = 500"

definition boundedName :: "go_string \<Rightarrow> nat \<Rightarrow> tenancy_invalid option" where
  "boundedName name most =
     (let trimmed = trim_space name in
        if trimmed = [] then Some ErrInvalidPlanName
        else if length trimmed > most then Some ErrInvalidPlanName
        else if list_ex (\<lambda>r. code_of r < 32 \<or> code_of r = 127) trimmed then Some ErrInvalidPlanName
        else None)"

definition PlanName :: "go_string \<Rightarrow> tenancy_invalid option" where
  "PlanName name = boundedName name MaxPlanNameLength"

definition SubscriptionName :: "go_string \<Rightarrow> tenancy_invalid option" where
  "SubscriptionName name = boundedName name MaxSubscriptionNameLength"

definition PersonName :: "go_string \<Rightarrow> tenancy_invalid option" where
  "PersonName name = (if trim_space name = [] then None else boundedName name MaxPersonNameLength)"

definition Reason :: "go_string \<Rightarrow> tenancy_invalid option" where
  "Reason reason =
     (if length reason > MaxReasonLength then Some ErrInvalidPlanName
      else if list_ex (\<lambda>r. code_of r < 32 \<and> code_of r \<noteq> 10 \<and> code_of r \<noteq> 9) reason then Some ErrInvalidPlanName
      else None)"

section \<open>Limits\<close>

definition MaxAddonQuantity :: int where "MaxAddonQuantity = 1000"
definition MaxLimitValue :: int where "MaxLimitValue = 10000000"
definition MinMemoryMB :: int where "MinMemoryMB = 16"
definition MaxCPUPercent :: int where "MaxCPUPercent = 10000"
definition MinIOWeight :: int where "MinIOWeight = 1"
definition MaxIOWeight :: int where "MaxIOWeight = 10000"

definition QuotaLimit :: "go_string \<Rightarrow> int option \<Rightarrow> tenancy_invalid option" where
  "QuotaLimit dimension value =
     or_else (QuotaDimension dimension)
       (case value of
          None \<Rightarrow> None
        | Some v \<Rightarrow> if v < 0 then Some ErrInvalidLimit else if v > MaxLimitValue then Some ErrInvalidLimit else None)"

definition AddonQuantity :: "int \<Rightarrow> tenancy_invalid option" where
  "AddonQuantity quantity = (if quantity < 1 \<or> quantity > MaxAddonQuantity then Some ErrInvalidLimit else None)"

definition Isolation :: "int option \<Rightarrow> int option \<Rightarrow> int option \<Rightarrow> tenancy_invalid option" where
  "Isolation cpuPercent memoryMB ioWeight =
     (if (case cpuPercent of None \<Rightarrow> False | Some c \<Rightarrow> c < 1 \<or> c > MaxCPUPercent) then Some ErrInvalidLimit
      else if (case memoryMB of None \<Rightarrow> False | Some m \<Rightarrow> m < MinMemoryMB) then Some ErrInvalidLimit
      else if (case memoryMB of None \<Rightarrow> False | Some m \<Rightarrow> m > MaxLimitValue) then Some ErrInvalidLimit
      else if (case ioWeight of None \<Rightarrow> False | Some w \<Rightarrow> w < MinIOWeight \<or> w > MaxIOWeight) then Some ErrInvalidLimit
      else None)"

definition within_limit :: "int option \<Rightarrow> bool" where
  "within_limit value \<longleftrightarrow> (case value of None \<Rightarrow> True | Some v \<Rightarrow> 0 \<le> v \<and> v \<le> MaxLimitValue)"

lemma QuotaLimit_None:
  "QuotaLimit dimension value = None \<longleftrightarrow> QuotaDimension dimension = None \<and> within_limit value"
  by (auto simp: QuotaLimit_def within_limit_def split: option.splits if_splits)

section \<open>Slices\<close>

definition SliceName :: "go_string \<Rightarrow> tenancy_invalid option" where
  "SliceName name =
     (let suffix = ''.slice''; stem = trim_suffix name suffix in
        if \<not> has_suffix name suffix then Some ErrInvalidSlice
        else if stem = [] \<or> length name > 120 then Some ErrInvalidSlice
        else if hd stem = CHR ''-'' \<or> last stem = CHR ''-'' then Some ErrInvalidSlice
        else if list_all (\<lambda>c. is_lower c \<or> is_digit c \<or> c = CHR ''-'') stem then None
        else Some ErrInvalidSlice)"

lemma SliceName_accepted:
  assumes "SliceName name = None"
  shows "\<exists>stem. name = stem @ ''.slice'' \<and> stem \<noteq> [] \<and> hd stem \<noteq> CHR ''-'' \<and>
    (\<forall>c \<in> set stem. is_lower c \<or> is_digit c \<or> c = CHR ''-'')"
  using assms by (force simp: SliceName_def Let_def has_suffix_iff list_all_iff split: if_splits)

section \<open>The order of tiers\<close>

text \<open>Owning is a strict order on the three tiers, so no chain of owners comes back to where it began.\<close>

lemma TierMayOwn_iff:
  "TierMayOwn parent child \<longleftrightarrow> AccountTier parent = None \<and> AccountTier child = None \<and> TierRank parent < TierRank child"
  by (simp add: TierMayOwn_def)

lemma TierMayOwn_irrefl: "\<not> TierMayOwn tier tier"
  by (simp add: TierMayOwn_iff)

lemma TierMayOwn_not_admin: "TierMayOwn parent child \<Longrightarrow> child \<noteq> TierAdmin"
  by (auto simp: TierMayOwn_iff TierRank_def)

lemma TierRank_bound: "AccountTier tier = None \<Longrightarrow> TierRank tier \<le> 2"
  by (auto simp: AccountTier_def TierRank_def split: if_splits)

end
