(* ===== verification/Api_Tenancy_Store.thy ===== *)
theory Api_Tenancy_Store
  imports Api_Auth Validate_Tenancy
begin

text \<open>
  The tables of tenancy and the statements on them (\<open>api/internal/tenancy/repository.go\<close> and the
  types of \<open>tenancy.go\<close>), over the tables of sign-in. A table is the list of its rows; a statement is
  the change it stands for, with the unique indexes, checks and references of migration 0023.

  The row of an account is the row of \<open>users\<close> that sign-in knows, and the columns added for
  tenancy, kept by identifier. Every statement may fail, decided by the number of statements run
  before it. \<open>$1::uuid\<close> is the reading of an identifier by PostgreSQL, a parameter: it may refuse a
  text, and accepts several spellings of one identifier. Length limits of columns, display names
  joined into a result, and \<open>created_at\<close> and \<open>updated_at\<close> where nothing reads them are left out.
\<close>

section \<open>Rows\<close>

record account_cols =
  ac_Email :: "go_string option"
  ac_Tier :: go_string
  ac_ParentID :: "go_string option"
  ac_FullName :: "go_string option"
  ac_Company :: "go_string option"

record account =
  a_ID :: go_string
  a_Username :: go_string
  a_Email :: "go_string option"
  a_Tier :: go_string
  a_ParentID :: "go_string option"
  a_ParentUsername :: "go_string option"
  a_FullName :: "go_string option"
  a_Company :: "go_string option"
  a_Status :: go_string
  a_Roles :: "go_string list"
  a_Subscriptions :: nat

record limits =
  DiskMB :: "int option"
  BandwidthMB :: "int option"
  MaxWebsites :: "int option"
  MaxDatabases :: "int option"
  MaxMailboxes :: "int option"
  MaxFTPUsers :: "int option"
  MaxCronJobs :: "int option"
  MaxSubdomains :: "int option"

record isolation =
  CPUPercent :: "int option"
  MemoryMB :: "int option"
  IOWeight :: "int option"

record plan =
  pl_ID :: go_string
  pl_OwnerUserID :: "go_string option"
  pl_Name :: go_string
  pl_Description :: go_string
  pl_Kind :: go_string
  pl_Limits :: limits
  pl_Enforcement :: go_string
  pl_Isolation :: isolation

record addon =
  ad_PlanID :: go_string
  ad_Name :: go_string
  ad_Quantity :: int
  ad_Limits :: limits

record addon_row =
  ar_SubscriptionID :: go_string
  ar_PlanID :: go_string
  ar_Quantity :: int

record subscription =
  sb_ID :: go_string
  sb_OwnerUserID :: go_string
  sb_PlanID :: go_string
  sb_Name :: go_string
  sb_Status :: go_string
  sb_SuspendedReason :: go_string
  sb_SuspendedAt :: "int option"
  sb_SliceName :: go_string
  sb_IsolationState :: go_string
  sb_IsolationDetail :: go_string
  sb_IsolationAppliedAt :: "int option"
  sb_CreatedAt :: int

record website =
  ws_ID :: go_string
  ws_PrimaryDomain :: go_string
  ws_Status :: go_string
  ws_DocumentRoot :: go_string
  ws_ParentID :: "go_string option"
  ws_SubscriptionID :: "go_string option"

record usage =
  Websites :: nat
  Databases :: nat
  Mailboxes :: nat
  FTPUsers :: nat
  CronJobs :: nat
  Subdomains :: nat
  DiskBytes :: "int option"
  BandwidthBytes :: "int option"
  us_PeriodStart :: "int option"
  us_MeasuredAt :: "int option"
  us_MeasureError :: go_string

record usage_row =
  ur_SubscriptionID :: go_string
  ur_PeriodStart :: int
  ur_DiskBytes :: "int option"
  ur_Bandwidth :: "int option"
  ur_RawBandwidth :: "int option"
  ur_MeasuredAt :: int
  ur_Error :: go_string

record impersonation_row =
  im_ActorUserID :: go_string
  im_SubjectUserID :: go_string
  im_SessionID :: "go_string option"
  im_Reason :: go_string
  im_StartedAt :: int
  im_EndedAt :: "int option"

record tenancy =
  tn_panel :: panel
  tn_cols :: "go_string \<Rightarrow> account_cols"
  tn_roles :: "go_string list"
  tn_plans :: "plan list"
  tn_subs :: "subscription list"
  tn_addons :: "addon_row list"
  tn_websites :: "website list"
  tn_databases :: "go_string option list"
  tn_cron_jobs :: "go_string list"
  tn_ftp_users :: "go_string list"
  tn_mail_domains :: "(go_string \<times> go_string option) list"
  tn_mailboxes :: "go_string list"
  tn_usage :: "usage_row list"
  tn_impersonations :: "impersonation_row list"

section \<open>Statements\<close>

datatype tenancy_err = ErrNotFound | ErrForbidden | ErrNameTaken | ErrPlanInUse | ErrSubscriptionInUse | ErrHasChildren
  | ErrSuspended | ErrNotAnAddon | ErrNotAPlan | ErrMayNotImpersonate | ErrAlreadyImpersonating | ErrRoleNotFound
  | ErrInvalidUsername | ErrInvalidEmail | ErrInvalidUserState | ErrInvalidStatus | ErrMeasured | ErrUnknownSubject
  | Invalid tenancy_invalid | Secret secrets_err | SignIn auth_err | StoreError

datatype isolation_reply = Refused go_string | Reported go_string go_string go_string

record tenancy_env =
  te_auth :: auth_env
  te_fails :: "nat \<Rightarrow> bool"
  te_uuid :: "go_string \<Rightarrow> go_string option"
  te_agent :: bool
  te_isolate :: "go_string \<Rightarrow> go_string \<Rightarrow> isolation \<Rightarrow> isolation_reply"
  te_measure :: "go_string list \<Rightarrow> go_string + (int option \<times> int option \<times> bool)"

text \<open>How many statements were run, the tables, and what the Agent was asked to do.\<close>

datatype host_call = IsolationApply go_string go_string isolation | IsolationRemove go_string | UsageOf "go_string list"

record store =
  ran :: nat
  db :: tenancy
  asked :: "host_call list"

type_synonym 'a tenancy_op = "(store, tenancy_err, 'a) op"

definition stmt :: "tenancy_env \<Rightarrow> (tenancy \<Rightarrow> (tenancy_err + 'a) \<times> tenancy) \<Rightarrow> 'a tenancy_op" where
  "stmt env f s =
     (let s' = s\<lparr>ran := Suc (ran s)\<rparr> in
        if te_fails env (ran s) then (Inl StoreError, s')
        else case f (db s) of (r, d) \<Rightarrow> (r, s'\<lparr>db := d\<rparr>))"

definition query :: "tenancy_env \<Rightarrow> (tenancy \<Rightarrow> tenancy_err + 'a) \<Rightarrow> 'a tenancy_op" where
  "query env f = stmt env (\<lambda>d. (f d, d))"

definition uuid_then :: "tenancy_env \<Rightarrow> go_string \<Rightarrow> (go_string \<Rightarrow> tenancy_err + 'a) \<Rightarrow> tenancy_err + 'a" where
  "uuid_then env x f = (case te_uuid env x of None \<Rightarrow> Inl StoreError | Some i \<Rightarrow> f i)"

definition change_rows :: "tenancy_env \<Rightarrow> go_string \<Rightarrow> (go_string \<Rightarrow> tenancy \<Rightarrow> tenancy_err + tenancy) \<Rightarrow> unit tenancy_op" where
  "change_rows env x f =
     stmt env (\<lambda>d. case te_uuid env x of
                      None \<Rightarrow> (Inl StoreError, d)
                    | Some i \<Rightarrow> (case f i d of Inl e \<Rightarrow> (Inl e, d) | Inr d' \<Rightarrow> (Inr (), d')))"

definition found :: "'a option \<Rightarrow> tenancy_err + 'a" where
  "found r = (case r of None \<Rightarrow> Inl ErrNotFound | Some a \<Rightarrow> Inr a)"

text \<open>An operation of sign-in; its own failures are decided by its own environment.\<close>

definition on_panel :: "'a panel_op \<Rightarrow> 'a tenancy_op" where
  "on_panel m s =
     (case m (tn_panel (db s)) of
        (r, p) \<Rightarrow> ((case r of Inl e \<Rightarrow> Inl (SignIn e) | Inr a \<Rightarrow> Inr a), s\<lparr>db := (db s)\<lparr>tn_panel := p\<rparr>\<rparr>))"

section \<open>Accounts\<close>

definition accounts_of :: "tenancy \<Rightarrow> user list" where
  "accounts_of d = users (tn_panel d)"

definition account_row :: "tenancy \<Rightarrow> go_string \<Rightarrow> user option" where
  "account_row d i = find (\<lambda>u. u_ID u = i) (accounts_of d)"

definition tier_of :: "tenancy \<Rightarrow> go_string \<Rightarrow> go_string" where
  "tier_of d i = ac_Tier (tn_cols d i)"

definition parent_of :: "tenancy \<Rightarrow> go_string \<Rightarrow> go_string option" where
  "parent_of d i = ac_ParentID (tn_cols d i)"

definition scanAccount :: "tenancy \<Rightarrow> user \<Rightarrow> account" where
  "scanAccount d u =
     (let c = tn_cols d (u_ID u) in
        \<lparr>a_ID = u_ID u, a_Username = u_Username u, a_Email = ac_Email c, a_Tier = ac_Tier c, a_ParentID = ac_ParentID c,
         a_ParentUsername = Option.bind (ac_ParentID c) (\<lambda>p. map_option u_Username (account_row d p)),
         a_FullName = ac_FullName c, a_Company = ac_Company c, a_Status = u_Status u, a_Roles = [],
         a_Subscriptions = length (filter (\<lambda>b. sb_OwnerUserID b = u_ID u) (tn_subs d))\<rparr>)"

text \<open>The recursive query: the rows of one round are joined with their children for the next.\<close>

definition children_of :: "tenancy \<Rightarrow> go_string list \<Rightarrow> go_string list" where
  "children_of d working = [u_ID u. p \<leftarrow> working, u \<leftarrow> accounts_of d, parent_of d (u_ID u) = Some p]"

partial_function (option) rounds :: "tenancy \<Rightarrow> go_string list \<Rightarrow> go_string list option" where
  "rounds d working =
     (if working = [] then Some []
      else Option.bind (rounds d (children_of d working)) (\<lambda>rest. Some (working @ rest)))"

definition descendants :: "tenancy \<Rightarrow> go_string \<Rightarrow> go_string list option" where
  "descendants d i = rounds d [u_ID u. u \<leftarrow> accounts_of d, u_ID u = i]"

text \<open>A query that would never end is an error to whoever waits for it.\<close>

definition within :: "tenancy \<Rightarrow> go_string \<Rightarrow> (go_string list \<Rightarrow> tenancy_err + 'a) \<Rightarrow> tenancy_err + 'a" where
  "within d i f = (case descendants d i of None \<Rightarrow> Inl StoreError | Some ds \<Rightarrow> f ds)"

definition ListAccounts :: "tenancy_env \<Rightarrow> go_string \<Rightarrow> bool \<Rightarrow> account list tenancy_op" where
  "ListAccounts env actorID seeAll =
     query env (\<lambda>d. uuid_then env actorID (\<lambda>i.
       let show = (\<lambda>us. sort_key a_Tier (sort_key a_Username (map (scanAccount d) us))) in
         if seeAll then Inr (show (accounts_of d))
         else within d i (\<lambda>ds. Inr (show (filter (\<lambda>u. u_ID u \<in> set ds) (accounts_of d))))))"

definition GetAccount :: "tenancy_env \<Rightarrow> go_string \<Rightarrow> account tenancy_op" where
  "GetAccount env x = query env (\<lambda>d. uuid_then env x (\<lambda>i. found (map_option (scanAccount d) (account_row d i))))"

definition IsDescendant :: "tenancy_env \<Rightarrow> go_string \<Rightarrow> go_string \<Rightarrow> bool tenancy_op" where
  "IsDescendant env actorID subjectID =
     query env (\<lambda>d. uuid_then env actorID (\<lambda>i. uuid_then env subjectID (\<lambda>j. within d i (\<lambda>ds. Inr (j \<in> set ds)))))"

definition TierOf :: "tenancy_env \<Rightarrow> go_string \<Rightarrow> go_string tenancy_op" where
  "TierOf env x =
     query env (\<lambda>d. uuid_then env x (\<lambda>i.
       case account_row d i of
         None \<Rightarrow> Inl ErrNotFound
       | Some u \<Rightarrow> (case AccountTier (tier_of d i) of Some e \<Rightarrow> Inl (Invalid e) | None \<Rightarrow> Inr (tier_of d i))))"

definition nullable :: "go_string \<Rightarrow> go_string option" where
  "nullable value = (let trimmed = trim_space value in if trimmed = [] then None else Some trimmed)"

record account_params =
  cp_Username :: go_string
  cp_Email :: go_string
  cp_PasswordHash :: go_string
  cp_Tier :: go_string
  cp_ParentID :: go_string
  cp_FullName :: go_string
  cp_Company :: go_string

text \<open>\<open>new\<close> is what \<open>gen_random_uuid\<close> gives.\<close>

definition insert_account :: "go_string \<Rightarrow> account_params \<Rightarrow> go_string \<Rightarrow> tenancy \<Rightarrow> tenancy_err + tenancy" where
  "insert_account new params parent d =
     (if cp_Tier params \<notin> {TierReseller, TierCustomer} \<or> parent = new \<or> account_row d new \<noteq> None then Inl StoreError
      else if \<exists>u \<in> set (accounts_of d). u_Username u = cp_Username params then Inl ErrNameTaken
      else if nullable (cp_Email params) \<noteq> None \<and>
              (\<exists>u \<in> set (accounts_of d). ac_Email (tn_cols d (u_ID u)) = nullable (cp_Email params)) then Inl ErrNameTaken
      else if account_row d parent = None then Inl StoreError
      else
        Inr (d\<lparr>tn_panel := (tn_panel d)\<lparr>users := users (tn_panel d) @
                 [\<lparr>u_ID = new, u_Username = cp_Username params, u_PasswordHash = cp_PasswordHash params,
                   u_Status = ''active'', u_LastLoginAt = None\<rparr>]\<rparr>,
               tn_cols := (tn_cols d)(new :=
                 \<lparr>ac_Email = nullable (cp_Email params), ac_Tier = cp_Tier params, ac_ParentID = Some parent,
                  ac_FullName = nullable (cp_FullName params), ac_Company = nullable (cp_Company params)\<rparr>)\<rparr>))"

definition RepoCreateAccount :: "tenancy_env \<Rightarrow> go_string \<Rightarrow> account_params \<Rightarrow> account tenancy_op" where
  "RepoCreateAccount env new params =
     try_then (change_rows env (cp_ParentID params) (insert_account new params)) (\<lambda>_. GetAccount env new)"

record account_update =
  up_FullName :: "go_string option"
  up_Company :: "go_string option"
  up_Status :: "go_string option"

definition coalesce :: "'a option \<Rightarrow> 'a \<Rightarrow> 'a" where
  "coalesce new old = (case new of None \<Rightarrow> old | Some v \<Rightarrow> v)"

definition update_account :: "account_update \<Rightarrow> go_string \<Rightarrow> tenancy \<Rightarrow> tenancy_err + tenancy" where
  "update_account params i d =
     (if account_row d i = None then Inl ErrNotFound
      else
        Inr (d\<lparr>tn_panel := (tn_panel d)\<lparr>users :=
                 map (\<lambda>u. if u_ID u = i then u\<lparr>u_Status := coalesce (up_Status params) (u_Status u)\<rparr> else u) (users (tn_panel d))\<rparr>,
               tn_cols := (tn_cols d)(i := (tn_cols d i)
                 \<lparr>ac_FullName := (if up_FullName params = None then ac_FullName (tn_cols d i) else up_FullName params),
                  ac_Company := (if up_Company params = None then ac_Company (tn_cols d i) else up_Company params)\<rparr>)\<rparr>))"

definition RepoUpdateAccount :: "tenancy_env \<Rightarrow> go_string \<Rightarrow> account_update \<Rightarrow> account tenancy_op" where
  "RepoUpdateAccount env x params = try_then (change_rows env x (update_account params)) (\<lambda>_. GetAccount env x)"

text \<open>\<open>DELETE FROM users\<close>: children and subscriptions restrict it, and so do subscriptions and add-ons on a
  plan of the account, which would go with it; sessions, roles, second factor and records of
  impersonation go with it too.\<close>

definition drop_user :: "go_string \<Rightarrow> panel \<Rightarrow> panel" where
  "drop_user i p =
     (let gone = [se_ID s. s \<leftarrow> sessions p, se_UserID s = i] in
        p\<lparr>users := filter (\<lambda>u. u_ID u \<noteq> i) (users p),
          sessions := filter (\<lambda>s. se_UserID s \<noteq> i) (sessions p),
          retired := filter (\<lambda>r. snd r \<notin> set gone) (retired p),
          user_roles := filter (\<lambda>r. fst r \<noteq> i) (user_roles p),
          enrolments := filter (\<lambda>e. en_UserID e \<noteq> i) (enrolments p),
          recovery_codes := filter (\<lambda>r. rr_UserID r \<noteq> i) (recovery_codes p)\<rparr>)"

definition plan_in_use :: "tenancy \<Rightarrow> go_string \<Rightarrow> bool" where
  "plan_in_use d i \<longleftrightarrow> list_ex (\<lambda>b. sb_PlanID b = i) (tn_subs d) \<or> list_ex (\<lambda>a. ar_PlanID a = i) (tn_addons d)"

definition delete_account :: "go_string \<Rightarrow> tenancy \<Rightarrow> tenancy_err + tenancy" where
  "delete_account i d =
     (if account_row d i = None then Inl ErrNotFound
      else if list_ex (\<lambda>u. parent_of d (u_ID u) = Some i) (accounts_of d) \<or> list_ex (\<lambda>b. sb_OwnerUserID b = i) (tn_subs d) \<or>
              list_ex (\<lambda>q. pl_OwnerUserID q = Some i \<and> plan_in_use d (pl_ID q)) (tn_plans d)
      then Inl StoreError
      else
        let gone = [se_ID s. s \<leftarrow> sessions (tn_panel d), se_UserID s = i] in
          Inr (d\<lparr>tn_panel := drop_user i (tn_panel d),
                 tn_plans := filter (\<lambda>q. pl_OwnerUserID q \<noteq> Some i) (tn_plans d),
                 tn_impersonations :=
                   map (\<lambda>r. case im_SessionID r of
                              None \<Rightarrow> r
                            | Some x \<Rightarrow> if x \<in> set gone then r\<lparr>im_SessionID := None\<rparr> else r)
                     (filter (\<lambda>r. im_ActorUserID r \<noteq> i \<and> im_SubjectUserID r \<noteq> i) (tn_impersonations d))\<rparr>))"

definition RepoDeleteAccount :: "tenancy_env \<Rightarrow> go_string \<Rightarrow> unit tenancy_op" where
  "RepoDeleteAccount env x =
     try_then (query env (\<lambda>d. uuid_then env x (\<lambda>i.
         Inr (length (filter (\<lambda>u. parent_of d (u_ID u) = Some i) (accounts_of d)),
              length (filter (\<lambda>b. sb_OwnerUserID b = i) (tn_subs d))))))
       (\<lambda>(children, subscriptions).
          if children > 0 then fail_with ErrHasChildren
          else if subscriptions > 0 then fail_with ErrForbidden
          else change_rows env x delete_account)"

section \<open>Plans\<close>

definition plan_row :: "tenancy \<Rightarrow> go_string \<Rightarrow> plan option" where
  "plan_row d i = find (\<lambda>q. pl_ID q = i) (tn_plans d)"

definition ListPlans :: "tenancy_env \<Rightarrow> go_string \<Rightarrow> bool \<Rightarrow> plan list tenancy_op" where
  "ListPlans env actorID seeAll =
     query env (\<lambda>d. uuid_then env actorID (\<lambda>i.
       Inr (sort_key pl_Kind (sort_key (\<lambda>q. to_lower (pl_Name q))
         (filter (\<lambda>q. seeAll \<or> pl_OwnerUserID q = None \<or> pl_OwnerUserID q = Some i) (tn_plans d))))))"

definition GetPlan :: "tenancy_env \<Rightarrow> go_string \<Rightarrow> plan tenancy_op" where
  "GetPlan env x = query env (\<lambda>d. uuid_then env x (\<lambda>i. found (plan_row d i)))"

record plan_input =
  pi_OwnerUserID :: "go_string option"
  pi_Name :: go_string
  pi_Description :: go_string
  pi_Kind :: go_string
  pi_Limits :: limits
  pi_Enforcement :: go_string
  pi_Isolation :: isolation

definition plan_name_taken :: "tenancy \<Rightarrow> go_string \<Rightarrow> go_string option \<Rightarrow> go_string \<Rightarrow> bool" where
  "plan_name_taken d i owner name \<longleftrightarrow>
     list_ex (\<lambda>q. pl_ID q \<noteq> i \<and> pl_OwnerUserID q = owner \<and> to_lower (pl_Name q) = to_lower name) (tn_plans d)"

definition insert_plan :: "go_string \<Rightarrow> plan_input \<Rightarrow> go_string option \<Rightarrow> tenancy \<Rightarrow> tenancy_err + tenancy" where
  "insert_plan new input owner d =
     (let name = trim_space (pi_Name input) in
        if plan_row d new \<noteq> None then Inl StoreError
        else if plan_name_taken d new owner name then Inl ErrNameTaken
        else if (case owner of None \<Rightarrow> False | Some i \<Rightarrow> account_row d i = None) then Inl StoreError
        else
          Inr (d\<lparr>tn_plans := tn_plans d @
                   [\<lparr>pl_ID = new, pl_OwnerUserID = owner, pl_Name = name, pl_Description = pi_Description input,
                     pl_Kind = pi_Kind input, pl_Limits = pi_Limits input, pl_Enforcement = pi_Enforcement input,
                     pl_Isolation = pi_Isolation input\<rparr>]\<rparr>))"

definition RepoCreatePlan :: "tenancy_env \<Rightarrow> go_string \<Rightarrow> plan_input \<Rightarrow> plan tenancy_op" where
  "RepoCreatePlan env new input =
     try_then
       (stmt env (\<lambda>d.
          case (case pi_OwnerUserID input of
                  None \<Rightarrow> insert_plan new input None d
                | Some x \<Rightarrow> (case te_uuid env x of None \<Rightarrow> Inl StoreError | Some i \<Rightarrow> insert_plan new input (Some i) d)) of
            Inl e \<Rightarrow> (Inl e, d) | Inr d' \<Rightarrow> (Inr (), d')))
       (\<lambda>_. GetPlan env new)"

definition update_plan :: "plan_input \<Rightarrow> go_string \<Rightarrow> tenancy \<Rightarrow> tenancy_err + tenancy" where
  "update_plan input i d =
     (case plan_row d i of
        None \<Rightarrow> Inl ErrNotFound
      | Some q \<Rightarrow>
          let name = trim_space (pi_Name input) in
            if plan_name_taken d i (pl_OwnerUserID q) name then Inl ErrNameTaken
            else
              Inr (d\<lparr>tn_plans := map (\<lambda>q. if pl_ID q = i
                         then q\<lparr>pl_Name := name, pl_Description := pi_Description input, pl_Limits := pi_Limits input,
                                pl_Enforcement := pi_Enforcement input, pl_Isolation := pi_Isolation input\<rparr>
                         else q) (tn_plans d)\<rparr>))"

definition RepoUpdatePlan :: "tenancy_env \<Rightarrow> go_string \<Rightarrow> plan_input \<Rightarrow> plan tenancy_op" where
  "RepoUpdatePlan env x input = try_then (change_rows env x (update_plan input)) (\<lambda>_. GetPlan env x)"

definition delete_plan :: "go_string \<Rightarrow> tenancy \<Rightarrow> tenancy_err + tenancy" where
  "delete_plan i d =
     (if plan_row d i = None then Inl ErrNotFound
      else if plan_in_use d i then Inl StoreError
      else Inr (d\<lparr>tn_plans := filter (\<lambda>q. pl_ID q \<noteq> i) (tn_plans d)\<rparr>))"

definition RepoDeletePlan :: "tenancy_env \<Rightarrow> go_string \<Rightarrow> unit tenancy_op" where
  "RepoDeletePlan env x =
     try_then (query env (\<lambda>d. uuid_then env x (\<lambda>i.
         Inr (length (filter (\<lambda>b. sb_PlanID b = i) (tn_subs d)) + length (filter (\<lambda>a. ar_PlanID a = i) (tn_addons d))))))
       (\<lambda>inUse. if inUse > 0 then fail_with ErrPlanInUse else change_rows env x delete_plan)"

section \<open>Subscriptions\<close>

definition StatusSuspended :: go_string where "StatusSuspended = ''suspended''"
definition IsolationNone :: go_string where "IsolationNone = ''none''"
definition IsolationApplied :: go_string where "IsolationApplied = ''applied''"
definition IsolationDeclared :: go_string where "IsolationDeclared = ''declared''"
definition IsolationFailed :: go_string where "IsolationFailed = ''failed''"

definition sub_row :: "tenancy \<Rightarrow> go_string \<Rightarrow> subscription option" where
  "sub_row d i =
     find (\<lambda>b. sb_ID b = i \<and> account_row d (sb_OwnerUserID b) \<noteq> None \<and> plan_row d (sb_PlanID b) \<noteq> None) (tn_subs d)"

definition owner_name :: "tenancy \<Rightarrow> subscription \<Rightarrow> go_string" where
  "owner_name d b = (case account_row d (sb_OwnerUserID b) of None \<Rightarrow> [] | Some u \<Rightarrow> u_Username u)"

definition ListSubscriptions :: "tenancy_env \<Rightarrow> go_string \<Rightarrow> bool \<Rightarrow> subscription list tenancy_op" where
  "ListSubscriptions env actorID seeAll =
     query env (\<lambda>d. uuid_then env actorID (\<lambda>i.
       let joined = filter (\<lambda>b. account_row d (sb_OwnerUserID b) \<noteq> None \<and> plan_row d (sb_PlanID b) \<noteq> None) (tn_subs d);
           show = (\<lambda>bs. sort_key (owner_name d) (sort_key (\<lambda>b. to_lower (sb_Name b)) bs))
       in if seeAll then Inr (show joined)
          else within d i (\<lambda>ds. Inr (show (filter (\<lambda>b. sb_OwnerUserID b \<in> set ds) joined)))))"

definition GetSubscription :: "tenancy_env \<Rightarrow> go_string \<Rightarrow> subscription tenancy_op" where
  "GetSubscription env x = query env (\<lambda>d. uuid_then env x (\<lambda>i. found (sub_row d i)))"

definition SliceNameFor :: "go_string \<Rightarrow> go_string" where
  "SliceNameFor subscriptionID = ''jothost-sub-'' @ filter (\<lambda>c. c \<noteq> CHR ''-'') subscriptionID @ ''.slice''"

definition sub_name_taken :: "tenancy \<Rightarrow> go_string \<Rightarrow> go_string \<Rightarrow> go_string \<Rightarrow> bool" where
  "sub_name_taken d i owner name \<longleftrightarrow>
     list_ex (\<lambda>b. sb_ID b \<noteq> i \<and> sb_OwnerUserID b = owner \<and> to_lower (sb_Name b) = to_lower name) (tn_subs d)"

definition insert_sub :: "tenancy_env \<Rightarrow> go_string \<Rightarrow> go_string \<Rightarrow> go_string \<Rightarrow> go_string \<Rightarrow> tenancy \<Rightarrow> tenancy_err + tenancy" where
  "insert_sub env new planID name owner d =
     uuid_then env planID (\<lambda>plan.
       if list_ex (\<lambda>b. sb_ID b = new) (tn_subs d) then Inl StoreError
       else if sub_name_taken d new owner (trim_space name) then Inl ErrNameTaken
       else if account_row d owner = None \<or> plan_row d plan = None then Inl StoreError
       else
         Inr (d\<lparr>tn_subs := tn_subs d @
                  [\<lparr>sb_ID = new, sb_OwnerUserID = owner, sb_PlanID = plan, sb_Name = trim_space name,
                    sb_Status = StatusActive, sb_SuspendedReason = [], sb_SuspendedAt = None, sb_SliceName = [],
                    sb_IsolationState = IsolationNone, sb_IsolationDetail = [], sb_IsolationAppliedAt = None,
                    sb_CreatedAt = at_time (te_auth env)\<rparr>]\<rparr>))"

text \<open>\<open>UPDATE subscriptions SET ... WHERE id = $1\<close>; the flag says whether no row is an error.\<close>

definition map_subs :: "go_string \<Rightarrow> (subscription \<Rightarrow> subscription) \<Rightarrow> tenancy \<Rightarrow> tenancy" where
  "map_subs i f d = d\<lparr>tn_subs := map (\<lambda>b. if sb_ID b = i then f b else b) (tn_subs d)\<rparr>"

definition update_sub :: "bool \<Rightarrow> (subscription \<Rightarrow> subscription) \<Rightarrow> go_string \<Rightarrow> tenancy \<Rightarrow> tenancy_err + tenancy" where
  "update_sub needed f i d =
     (if needed \<and> \<not> list_ex (\<lambda>b. sb_ID b = i) (tn_subs d) then Inl ErrNotFound else Inr (map_subs i f d))"

definition RepoCreateSubscription :: "tenancy_env \<Rightarrow> go_string \<Rightarrow> go_string \<Rightarrow> go_string \<Rightarrow> go_string \<Rightarrow> subscription tenancy_op" where
  "RepoCreateSubscription env new ownerID planID name =
     try_then (change_rows env ownerID (insert_sub env new planID name)) (\<lambda>_.
     try_then (change_rows env new (update_sub False (\<lambda>b. b\<lparr>sb_SliceName := SliceNameFor new\<rparr>))) (\<lambda>_.
       GetSubscription env new))"

definition SetSubscriptionPlan :: "tenancy_env \<Rightarrow> go_string \<Rightarrow> go_string \<Rightarrow> unit tenancy_op" where
  "SetSubscriptionPlan env x planID =
     change_rows env x (\<lambda>i d. uuid_then env planID (\<lambda>plan.
       if list_ex (\<lambda>b. sb_ID b = i) (tn_subs d) \<and> plan_row d plan = None then Inl StoreError
       else update_sub True (\<lambda>b. b\<lparr>sb_PlanID := plan\<rparr>) i d))"

definition rename_sub :: "go_string \<Rightarrow> go_string \<Rightarrow> tenancy \<Rightarrow> tenancy_err + tenancy" where
  "rename_sub name i d =
     (if list_ex (\<lambda>b. sb_ID b = i \<and> sub_name_taken d i (sb_OwnerUserID b) name) (tn_subs d) then Inl ErrNameTaken
      else update_sub True (\<lambda>b. b\<lparr>sb_Name := name\<rparr>) i d)"

definition RenameSubscription :: "tenancy_env \<Rightarrow> go_string \<Rightarrow> go_string \<Rightarrow> unit tenancy_op" where
  "RenameSubscription env x name = change_rows env x (rename_sub (trim_space name))"

definition RepoSetSubscriptionStatus :: "tenancy_env \<Rightarrow> go_string \<Rightarrow> go_string \<Rightarrow> go_string \<Rightarrow> unit tenancy_op" where
  "RepoSetSubscriptionStatus env x status reason =
     (let (at, why) = (if status = StatusSuspended then (Some (at_time (te_auth env)), reason) else (None, [])) in
        change_rows env x (update_sub True (\<lambda>b. b\<lparr>sb_Status := status, sb_SuspendedReason := why, sb_SuspendedAt := at\<rparr>)))"

definition SetIsolationState :: "tenancy_env \<Rightarrow> go_string \<Rightarrow> go_string \<Rightarrow> go_string \<Rightarrow> unit tenancy_op" where
  "SetIsolationState env x state detail =
     (let at = (if state = IsolationApplied then Some (at_time (te_auth env)) else None) in
        change_rows env x (\<lambda>i d.
          if list_ex (\<lambda>b. sb_ID b = i) (tn_subs d) \<and> state \<notin> {IsolationNone, IsolationApplied, IsolationDeclared, IsolationFailed}
          then Inl StoreError
          else update_sub False (\<lambda>b. b\<lparr>sb_IsolationState := state, sb_IsolationDetail := detail, sb_IsolationAppliedAt := at\<rparr>) i d))"

definition delete_sub :: "go_string \<Rightarrow> tenancy \<Rightarrow> tenancy_err + tenancy" where
  "delete_sub i d =
     (if \<not> list_ex (\<lambda>b. sb_ID b = i) (tn_subs d) then Inl ErrNotFound
      else if list_ex (\<lambda>w. ws_SubscriptionID w = Some i) (tn_websites d) then Inl StoreError
      else
        Inr (d\<lparr>tn_subs := filter (\<lambda>b. sb_ID b \<noteq> i) (tn_subs d),
               tn_addons := filter (\<lambda>a. ar_SubscriptionID a \<noteq> i) (tn_addons d),
               tn_usage := filter (\<lambda>u. ur_SubscriptionID u \<noteq> i) (tn_usage d)\<rparr>))"

definition RepoDeleteSubscription :: "tenancy_env \<Rightarrow> go_string \<Rightarrow> unit tenancy_op" where
  "RepoDeleteSubscription env x =
     try_then (query env (\<lambda>d. uuid_then env x (\<lambda>i. Inr (length (filter (\<lambda>w. ws_SubscriptionID w = Some i) (tn_websites d))))))
       (\<lambda>websites. if websites > 0 then fail_with ErrSubscriptionInUse else change_rows env x delete_sub)"

section \<open>Add-ons\<close>

definition ListAddons :: "tenancy_env \<Rightarrow> go_string \<Rightarrow> addon list tenancy_op" where
  "ListAddons env x =
     query env (\<lambda>d. uuid_then env x (\<lambda>i.
       Inr (sort_key (\<lambda>a. to_lower (ad_Name a))
         [\<lparr>ad_PlanID = ar_PlanID a, ad_Name = pl_Name q, ad_Quantity = ar_Quantity a, ad_Limits = pl_Limits q\<rparr>.
            a \<leftarrow> tn_addons d, ar_SubscriptionID a = i, q \<leftarrow> tn_plans d, pl_ID q = ar_PlanID a])))"

definition set_addon :: "go_string \<Rightarrow> int \<Rightarrow> go_string \<Rightarrow> tenancy \<Rightarrow> tenancy_err + tenancy" where
  "set_addon plan quantity i d =
     (if quantity < 1 \<or> quantity > 1000 \<or> \<not> list_ex (\<lambda>b. sb_ID b = i) (tn_subs d) \<or> plan_row d plan = None then Inl StoreError
      else if list_ex (\<lambda>a. ar_SubscriptionID a = i \<and> ar_PlanID a = plan) (tn_addons d)
      then Inr (d\<lparr>tn_addons :=
             map (\<lambda>a. if ar_SubscriptionID a = i \<and> ar_PlanID a = plan then a\<lparr>ar_Quantity := quantity\<rparr> else a) (tn_addons d)\<rparr>)
      else Inr (d\<lparr>tn_addons := tn_addons d @ [\<lparr>ar_SubscriptionID = i, ar_PlanID = plan, ar_Quantity = quantity\<rparr>]\<rparr>))"

definition SetAddon :: "tenancy_env \<Rightarrow> go_string \<Rightarrow> go_string \<Rightarrow> int \<Rightarrow> unit tenancy_op" where
  "SetAddon env x planID quantity = change_rows env x (\<lambda>i d. uuid_then env planID (\<lambda>plan. set_addon plan quantity i d))"

definition remove_addon :: "go_string \<Rightarrow> go_string \<Rightarrow> tenancy \<Rightarrow> tenancy_err + tenancy" where
  "remove_addon plan i d =
     (if \<not> list_ex (\<lambda>a. ar_SubscriptionID a = i \<and> ar_PlanID a = plan) (tn_addons d) then Inl ErrNotFound
      else Inr (d\<lparr>tn_addons := filter (\<lambda>a. \<not> (ar_SubscriptionID a = i \<and> ar_PlanID a = plan)) (tn_addons d)\<rparr>))"

definition RepoRemoveAddon :: "tenancy_env \<Rightarrow> go_string \<Rightarrow> go_string \<Rightarrow> unit tenancy_op" where
  "RepoRemoveAddon env x planID = change_rows env x (\<lambda>i d. uuid_then env planID (\<lambda>plan. remove_addon plan i d))"

section \<open>Usage\<close>

definition count_usage :: "tenancy \<Rightarrow> go_string \<Rightarrow> usage" where
  "count_usage d i =
     (let owned = filter (\<lambda>w. ws_SubscriptionID w = Some i) (tn_websites d); ids = map ws_ID owned in
        \<lparr>Websites = length (filter (\<lambda>w. ws_ParentID w = None) owned),
         Databases = length (filter (\<lambda>x. case x of None \<Rightarrow> False | Some w \<Rightarrow> w \<in> set ids) (tn_databases d)),
         Mailboxes = length [m. m \<leftarrow> tn_mailboxes d, (md, w) \<leftarrow> tn_mail_domains d, md = m,
                               case w of None \<Rightarrow> False | Some w \<Rightarrow> w \<in> set ids],
         FTPUsers = length (filter (\<lambda>w. w \<in> set ids) (tn_ftp_users d)),
         CronJobs = length (filter (\<lambda>w. w \<in> set ids) (tn_cron_jobs d)),
         Subdomains = length (filter (\<lambda>w. ws_ParentID w \<noteq> None) owned),
         DiskBytes = None, BandwidthBytes = None, us_PeriodStart = None, us_MeasuredAt = None, us_MeasureError = []\<rparr>)"

definition readMeasuredUsage :: "tenancy_env \<Rightarrow> go_string \<Rightarrow> usage_row option tenancy_op" where
  "readMeasuredUsage env x =
     query env (\<lambda>d. uuid_then env x (\<lambda>i. Inr (find (\<lambda>u. ur_SubscriptionID u = i) (tn_usage d))))"

definition CountUsage :: "tenancy_env \<Rightarrow> go_string \<Rightarrow> usage tenancy_op" where
  "CountUsage env x =
     try_then (query env (\<lambda>d. uuid_then env x (\<lambda>i. Inr (count_usage d i)))) (\<lambda>usage.
     try_then (readMeasuredUsage env x) (\<lambda>measured.
       return_op (case measured of
                    None \<Rightarrow> usage
                  | Some m \<Rightarrow> usage\<lparr>DiskBytes := ur_DiskBytes m, BandwidthBytes := ur_Bandwidth m,
                                us_PeriodStart := Some (ur_PeriodStart m), us_MeasuredAt := Some (ur_MeasuredAt m),
                                us_MeasureError := ur_Error m\<rparr>)))"

record measurement =
  ms_SubscriptionID :: go_string
  ms_PeriodStart :: int
  ms_DiskBytes :: "int option"
  ms_RawBandwidth :: "int option"
  ms_Error :: go_string

definition accumulate :: "usage_row \<Rightarrow> int \<Rightarrow> int option \<Rightarrow> int option" where
  "accumulate row period raw =
     (if period > ur_PeriodStart row then Some (case raw of None \<Rightarrow> 0 | Some n \<Rightarrow> n)
      else (case raw of
              None \<Rightarrow> ur_Bandwidth row
            | Some n \<Rightarrow>
                (case ur_RawBandwidth row of
                   None \<Rightarrow> Some n
                 | Some prev \<Rightarrow>
                     let total = (case ur_Bandwidth row of None \<Rightarrow> 0 | Some b \<Rightarrow> b) in
                       Some (if n \<ge> prev then total + n - prev else total + n))))"

definition record_usage :: "int \<Rightarrow> measurement \<Rightarrow> go_string \<Rightarrow> tenancy \<Rightarrow> tenancy_err + tenancy" where
  "record_usage now ms i d =
     (if \<not> list_ex (\<lambda>b. sb_ID b = i) (tn_subs d) \<or> list_ex (\<lambda>v. v \<noteq> None \<and> the v < 0) [ms_DiskBytes ms, ms_RawBandwidth ms]
      then Inl StoreError
      else if list_ex (\<lambda>u. ur_SubscriptionID u = i) (tn_usage d)
      then Inr (d\<lparr>tn_usage := map (\<lambda>u. if ur_SubscriptionID u \<noteq> i then u
             else \<lparr>ur_SubscriptionID = i, ur_PeriodStart = ms_PeriodStart ms, ur_DiskBytes = ms_DiskBytes ms,
                   ur_Bandwidth = accumulate u (ms_PeriodStart ms) (ms_RawBandwidth ms),
                   ur_RawBandwidth = (if ms_RawBandwidth ms = None then ur_RawBandwidth u else ms_RawBandwidth ms),
                   ur_MeasuredAt = now, ur_Error = ms_Error ms\<rparr>) (tn_usage d)\<rparr>)
      else Inr (d\<lparr>tn_usage := tn_usage d @
             [\<lparr>ur_SubscriptionID = i, ur_PeriodStart = ms_PeriodStart ms, ur_DiskBytes = ms_DiskBytes ms,
               ur_Bandwidth = Some (case ms_RawBandwidth ms of None \<Rightarrow> 0 | Some n \<Rightarrow> n),
               ur_RawBandwidth = ms_RawBandwidth ms, ur_MeasuredAt = now, ur_Error = ms_Error ms\<rparr>]\<rparr>))"

definition RecordUsage :: "tenancy_env \<Rightarrow> measurement \<Rightarrow> unit tenancy_op" where
  "RecordUsage env ms = change_rows env (ms_SubscriptionID ms) (record_usage (at_time (te_auth env)) ms)"

section \<open>Websites\<close>

definition ListWebsites :: "tenancy_env \<Rightarrow> go_string \<Rightarrow> website list tenancy_op" where
  "ListWebsites env x =
     query env (\<lambda>d. uuid_then env x (\<lambda>i.
       Inr (sort_key ws_PrimaryDomain (filter (\<lambda>w. ws_SubscriptionID w = Some i) (tn_websites d)))))"

definition assign_website :: "go_string option \<Rightarrow> go_string \<Rightarrow> tenancy \<Rightarrow> tenancy_err + tenancy" where
  "assign_website sub i d =
     (if \<not> list_ex (\<lambda>w. ws_ID w = i) (tn_websites d) then Inl ErrNotFound
      else if (case sub of None \<Rightarrow> False | Some b \<Rightarrow> \<not> list_ex (\<lambda>x. sb_ID x = b) (tn_subs d)) then Inl StoreError
      else Inr (d\<lparr>tn_websites := map (\<lambda>w. if ws_ID w = i then w\<lparr>ws_SubscriptionID := sub\<rparr> else w) (tn_websites d)\<rparr>))"

definition RepoAssignWebsite :: "tenancy_env \<Rightarrow> go_string \<Rightarrow> go_string option \<Rightarrow> unit tenancy_op" where
  "RepoAssignWebsite env websiteID subscriptionID =
     change_rows env websiteID (\<lambda>i d.
       case subscriptionID of
         None \<Rightarrow> assign_website None i d
       | Some x \<Rightarrow> uuid_then env x (\<lambda>b. assign_website (Some b) i d))"

definition SubscriptionForWebsite :: "tenancy_env \<Rightarrow> go_string \<Rightarrow> go_string tenancy_op" where
  "SubscriptionForWebsite env websiteID =
     (if trim_space websiteID = [] then fail_with ErrNotFound
      else query env (\<lambda>d. uuid_then env websiteID (\<lambda>i.
        found (Option.bind (find (\<lambda>w. ws_ID w = i) (tn_websites d)) ws_SubscriptionID))))"

definition WebsiteForMailDomain :: "tenancy_env \<Rightarrow> go_string \<Rightarrow> go_string tenancy_op" where
  "WebsiteForMailDomain env domainID =
     (if trim_space domainID = [] then fail_with ErrNotFound
      else query env (\<lambda>d. uuid_then env domainID (\<lambda>i.
        found (Option.bind (find (\<lambda>m. fst m = i) (tn_mail_domains d)) snd))))"

definition SubscriptionsForOwner :: "tenancy_env \<Rightarrow> go_string \<Rightarrow> go_string list tenancy_op" where
  "SubscriptionsForOwner env ownerID =
     query env (\<lambda>d. uuid_then env ownerID (\<lambda>i.
       Inr (map sb_ID (sort_key sb_CreatedAt (filter (\<lambda>b. sb_OwnerUserID b = i) (tn_subs d))))))"

definition ListAllForMeasurement :: "tenancy_env \<Rightarrow> (go_string \<times> go_string list) list tenancy_op" where
  "ListAllForMeasurement env =
     query env (\<lambda>d. Inr [(sb_ID b, [ws_DocumentRoot w. w \<leftarrow> tn_websites d, ws_SubscriptionID w = Some (sb_ID b) \<and> ws_DocumentRoot w \<noteq> []]).
                          b \<leftarrow> sort_key sb_ID (tn_subs d)])"

end
