(* ===== verification/Api_Tenancy.thy ===== *)
theory Api_Tenancy
  imports Api_Tenancy_Store Go_Regexp
begin

text \<open>
  The service of tenancy (\<open>api/internal/tenancy/service.go\<close>, \<open>sampler.go\<close> and \<open>impersonation.go\<close>), with what it
  uses of \<open>users\<close> and \<open>rbac\<close>: accounts below one another, plans, subscriptions and their add-ons,
  websites in a subscription, resource limits sent to the host, measurements, and opening a session as
  somebody else. \<open>tenancy_perform\<close> is one call of it.
\<close>

section \<open>Actors\<close>

record actor =
  ta_UserID :: go_string
  ta_Username :: go_string
  ta_IPAddress :: go_string
  ta_UserAgent :: go_string
  ta_Tier :: go_string
  ta_Permissions :: "go_string list"
  ta_ImpersonatorUserID :: go_string

definition seesEverything :: "actor \<Rightarrow> bool" where
  "seesEverything actor \<longleftrightarrow> ta_Tier actor = TierAdmin"

definition valid_or :: "tenancy_invalid option \<Rightarrow> unit tenancy_op" where
  "valid_or e = (case e of None \<Rightarrow> return_op () | Some e \<Rightarrow> fail_with (Invalid e))"

text \<open>An operation whose error is log_error and ends what was to follow it.\<close>

definition or_stop :: "'a tenancy_op \<Rightarrow> ('a \<Rightarrow> unit tenancy_op) \<Rightarrow> unit tenancy_op" where
  "or_stop m f s = (case m s of (Inl _, s) \<Rightarrow> (Inr (), s) | (Inr a, s) \<Rightarrow> f a s)"

definition log_error :: "'a tenancy_op \<Rightarrow> unit tenancy_op" where
  "log_error m s = (Inr (), snd (m s))"

definition ask_host :: "host_call \<Rightarrow> unit tenancy_op" where
  "ask_host c s = (Inr (), s\<lparr>asked := asked s @ [c]\<rparr>)"

definition audit_note :: "actor \<Rightarrow> go_string \<Rightarrow> go_string \<Rightarrow> (go_string \<times> go_string) list \<Rightarrow> unit tenancy_op" where
  "audit_note actor action resource metadata =
     on_panel (emit (ta_UserID actor) action resource \<lparr>rq_IPAddress = ta_IPAddress actor, rq_UserAgent = ta_UserAgent actor\<rparr> ''SUCCESS''
       (if ta_ImpersonatorUserID actor \<noteq> [] then metadata @ [(''impersonated_by'', ta_ImpersonatorUserID actor)] else metadata))"

definition requireDescendant :: "tenancy_env \<Rightarrow> actor \<Rightarrow> go_string \<Rightarrow> unit tenancy_op" where
  "requireDescendant env actor subjectID =
     (if seesEverything actor then try_then (GetAccount env subjectID) (\<lambda>_. return_op ())
      else try_then (IsDescendant env (ta_UserID actor) subjectID) (\<lambda>ok. if ok then return_op () else fail_with ErrNotFound))"

definition ActorFor :: "tenancy_env \<Rightarrow> go_string \<Rightarrow> go_string \<Rightarrow> go_string list \<Rightarrow> go_string \<Rightarrow> go_string \<Rightarrow> actor tenancy_op" where
  "ActorFor env userID username permissions ip agent s =
     (case TierOf env userID s of
        (Inl e, s) \<Rightarrow> (Inl (if e = ErrNotFound then ErrForbidden else e), s)
      | (Inr tier, s) \<Rightarrow>
          (Inr \<lparr>ta_UserID = userID, ta_Username = username, ta_IPAddress = ip, ta_UserAgent = agent, ta_Tier = tier,
                ta_Permissions = permissions, ta_ImpersonatorUserID = []\<rparr>, s))"

text \<open>\<open>Handler.actor\<close>: who asks, from the claims of an authenticated request.\<close>

definition request_actor :: "tenancy_env \<Rightarrow> claims \<Rightarrow> go_string \<Rightarrow> go_string \<Rightarrow> actor tenancy_op" where
  "request_actor env cl ip agent s =
     (case ActorFor env (c_UserID cl) (c_Username cl) (c_Permissions cl) ip agent s of
        (Inl e, s) \<Rightarrow> (Inl e, s)
      | (Inr actor, s) \<Rightarrow> (Inr (actor\<lparr>ta_ImpersonatorUserID := c_ImpersonatorUserID cl\<rparr>), s))"

section \<open>Users and roles\<close>

definition usernamePattern :: rx where
  "usernamePattern =
     (let first = (\<lambda>c. is_lower c \<or> is_digit c); rest = (\<lambda>c. is_lower c \<or> is_digit c \<or> c \<in> {CHR ''_'', CHR ''.'', CHR ''-''}) in
        Cat (Cls first) (Cat (Cls rest) (Cat (Cls rest) (UpTo 97 (Cls rest)))))"

definition ValidateUsername :: "go_string \<Rightarrow> tenancy_err option" where
  "ValidateUsername name = (if matches_rx usernamePattern name then None else Some ErrInvalidUsername)"

definition regexp_space :: "char \<Rightarrow> bool" where
  "regexp_space c \<longleftrightarrow> code_of c \<in> {9, 10, 12, 13, 32}"

definition emailPattern :: rx where
  "emailPattern =
     (let part = (\<lambda>c. c \<noteq> CHR ''@'' \<and> \<not> regexp_space c); label = (\<lambda>c. c \<noteq> CHR ''@'' \<and> \<not> regexp_space c \<and> c \<noteq> CHR ''.'') in
        Cat (Many1 (Cls part)) (Cat (Lit CHR ''@'') (Cat (Many1 (Cls label)) (Cat (Lit CHR ''.'') (Many1 (Cls part))))))"

definition ValidateEmail :: "go_string \<Rightarrow> tenancy_err option" where
  "ValidateEmail email =
     (if email = [] then None
      else if length email > 255 \<or> \<not> matches_rx emailPattern email then Some ErrInvalidEmail else None)"

definition check_or :: "tenancy_err option \<Rightarrow> unit tenancy_op" where
  "check_or e = (case e of None \<Rightarrow> return_op () | Some e \<Rightarrow> fail_with e)"

definition add_role :: "go_string \<Rightarrow> go_string \<Rightarrow> tenancy \<Rightarrow> tenancy_err + nat \<times> tenancy" where
  "add_role role i d =
     (if role \<notin> set (tn_roles d) \<or> (i, role) \<in> set (user_roles (tn_panel d)) then Inr (0, d)
      else if account_row d i = None then Inl StoreError
      else Inr (1, d\<lparr>tn_panel := (tn_panel d)\<lparr>user_roles := user_roles (tn_panel d) @ [(i, role)]\<rparr>\<rparr>))"

definition AssignRole :: "tenancy_env \<Rightarrow> go_string \<Rightarrow> go_string \<Rightarrow> unit tenancy_op" where
  "AssignRole env x role =
     try_then (stmt env (\<lambda>d. case uuid_then env x (\<lambda>i. add_role role i d) of Inl e \<Rightarrow> (Inl e, d) | Inr (n, d') \<Rightarrow> (Inr n, d')))
       (\<lambda>affected.
          if affected = 0
          then try_then (query env (\<lambda>d. Inr (role \<in> set (tn_roles d)))) (\<lambda>exists. if exists then return_op () else fail_with ErrRoleNotFound)
          else return_op ())"

definition RoleReseller :: go_string where "RoleReseller = ''reseller''"
definition StatusDisabled :: go_string where "StatusDisabled = ''disabled''"
definition StatusLocked :: go_string where "StatusLocked = ''locked''"

section \<open>Accounts\<close>

record account_request =
  rq_Username :: go_string
  rq_Email :: go_string
  rq_Password :: go_string
  rq_Tier :: go_string
  rq_FullName :: go_string
  rq_Company :: go_string
  rq_ParentID :: go_string

text \<open>\<open>Accounts\<close>: the list, then the roles of each.\<close>

fun with_roles :: "tenancy_env \<Rightarrow> account list \<Rightarrow> account list tenancy_op" where
  "with_roles env [] = return_op []"
| "with_roles env (a # as) =
     try_then (on_panel (RolesForUser (te_auth env) (a_ID a))) (\<lambda>roles.
     try_then (with_roles env as) (\<lambda>rest. return_op (a\<lparr>a_Roles := roles\<rparr> # rest)))"

definition Accounts :: "tenancy_env \<Rightarrow> actor \<Rightarrow> account list tenancy_op" where
  "Accounts env actor = try_then (ListAccounts env (ta_UserID actor) (seesEverything actor)) (with_roles env)"

definition CreateAccount :: "service \<Rightarrow> tenancy_env \<Rightarrow> go_string \<Rightarrow> go_string \<Rightarrow> actor \<Rightarrow> account_request \<Rightarrow> account tenancy_op" where
  "CreateAccount sv env new salt actor req =
     try_then (valid_or (AccountTier (rq_Tier req))) (\<lambda>_.
     try_then (check_or (ValidateUsername (NormalizeUsername (rq_Username req)))) (\<lambda>_.
     try_then (check_or (ValidateEmail (rq_Email req))) (\<lambda>_.
     try_then (valid_or (PersonName (rq_FullName req))) (\<lambda>_.
     try_then (valid_or (PersonName (rq_Company req))) (\<lambda>_.
       let parentID = (if rq_ParentID req = [] then ta_UserID actor else rq_ParentID req) in
         try_then (if parentID \<noteq> ta_UserID actor then requireDescendant env actor parentID else return_op ()) (\<lambda>_.
         try_then (TierOf env parentID) (\<lambda>parentTier.
           if \<not> TierMayOwn parentTier (rq_Tier req) then fail_with ErrForbidden
           else (case HashPassword (sv_crypto sv) salt (rq_Password req) of
                   Inl e \<Rightarrow> fail_with (Secret e)
                 | Inr hash \<Rightarrow>
                     if random_fails (te_auth env) DrawSalt then fail_with StoreError
                     else
                       try_then (RepoCreateAccount env new
                         \<lparr>cp_Username = NormalizeUsername (rq_Username req), cp_Email = rq_Email req, cp_PasswordHash = hash,
                          cp_Tier = rq_Tier req, cp_ParentID = parentID, cp_FullName = rq_FullName req, cp_Company = rq_Company req\<rparr>)
                         (\<lambda>account.
                            try_then (if rq_Tier req = TierReseller
                                      then try_then (AssignRole env (a_ID account) RoleReseller) (\<lambda>_. return_op [RoleReseller])
                                      else return_op []) (\<lambda>roles.
                            try_then (audit_note actor ''tenant.account.create'' (a_ID account)
                              [(''username'', a_Username account), (''tier'', a_Tier account), (''parent'', parentID)]) (\<lambda>_.
                              return_op (account\<lparr>a_Roles := roles\<rparr>))))))))))))"

definition UpdateAccount :: "tenancy_env \<Rightarrow> actor \<Rightarrow> go_string \<Rightarrow> account_update \<Rightarrow> account tenancy_op" where
  "UpdateAccount env actor x params =
     try_then (requireDescendant env actor x) (\<lambda>_.
       if x = ta_UserID actor \<and> (case up_Status params of None \<Rightarrow> False | Some st \<Rightarrow> st \<noteq> StatusActive) then fail_with ErrForbidden
       else if (case up_Status params of None \<Rightarrow> False | Some st \<Rightarrow> st \<notin> {StatusActive, StatusDisabled, StatusLocked})
       then fail_with ErrInvalidUserState
       else
         try_then (valid_or (case up_FullName params of None \<Rightarrow> None | Some n \<Rightarrow> PersonName n)) (\<lambda>_.
         try_then (valid_or (case up_Company params of None \<Rightarrow> None | Some n \<Rightarrow> PersonName n)) (\<lambda>_.
         try_then (RepoUpdateAccount env x params) (\<lambda>account.
         try_then (audit_note actor ''tenant.account.update'' x [(''username'', a_Username account)]) (\<lambda>_.
           return_op account)))))"

definition DeleteAccount :: "tenancy_env \<Rightarrow> actor \<Rightarrow> go_string \<Rightarrow> unit tenancy_op" where
  "DeleteAccount env actor x =
     (if x = ta_UserID actor then fail_with ErrForbidden
      else
        try_then (requireDescendant env actor x) (\<lambda>_.
        try_then (GetAccount env x) (\<lambda>account.
        try_then (RepoDeleteAccount env x) (\<lambda>_.
          audit_note actor ''tenant.account.delete'' x [(''username'', a_Username account)]))))"

section \<open>Plans\<close>

definition Plans :: "tenancy_env \<Rightarrow> actor \<Rightarrow> plan list tenancy_op" where
  "Plans env actor = ListPlans env (ta_UserID actor) (seesEverything actor)"

definition mayUsePlan :: "actor \<Rightarrow> plan \<Rightarrow> bool" where
  "mayUsePlan actor q =
     (if seesEverything actor then True
      else case pl_OwnerUserID q of None \<Rightarrow> True | Some owner \<Rightarrow> owner = ta_UserID actor)"

definition mayEditPlan :: "actor \<Rightarrow> plan \<Rightarrow> bool" where
  "mayEditPlan actor q = (if seesEverything actor then True else pl_OwnerUserID q = Some (ta_UserID actor))"

definition Plan :: "tenancy_env \<Rightarrow> actor \<Rightarrow> go_string \<Rightarrow> plan tenancy_op" where
  "Plan env actor x = try_then (GetPlan env x) (\<lambda>q. if mayUsePlan actor q then return_op q else fail_with ErrNotFound)"

record plan_request =
  pr_Name :: go_string
  pr_Description :: go_string
  pr_Kind :: go_string
  pr_Limits :: limits
  pr_Enforcement :: go_string
  pr_Isolation :: isolation

definition quota_limits :: "limits \<Rightarrow> (go_string \<times> int option) list" where
  "quota_limits l =
     [(DimensionDisk, DiskMB l), (DimensionBandwidth, BandwidthMB l), (DimensionWebsites, MaxWebsites l),
      (DimensionDatabases, MaxDatabases l), (DimensionMailboxes, MaxMailboxes l), (DimensionFTPUsers, MaxFTPUsers l),
      (DimensionCronJobs, MaxCronJobs l), (DimensionSubdomains, MaxSubdomains l)]"

text \<open>\<open>validatePlan\<close> fills in the kind and the policy; all the errors of limits are alike, so the order of
  the dimensions does not show.\<close>

definition validatePlan :: "plan_request \<Rightarrow> tenancy_invalid + plan_request" where
  "validatePlan req =
     (let req = (if pr_Kind req = [] then req\<lparr>pr_Kind := PlanKindPlan\<rparr> else req);
          req = (if pr_Enforcement req = [] then req\<lparr>pr_Enforcement := EnforcementHard\<rparr> else req)
      in case first_error [PlanKind (pr_Kind req), PlanName (pr_Name req), Enforcement (pr_Enforcement req),
                           check_each (\<lambda>(dimension, value). QuotaLimit dimension value) (quota_limits (pr_Limits req)),
                           Isolation (CPUPercent (pr_Isolation req)) (MemoryMB (pr_Isolation req)) (IOWeight (pr_Isolation req))] of
           Some e \<Rightarrow> Inl e
         | None \<Rightarrow> Inr req)"

definition input_of :: "go_string option \<Rightarrow> plan_request \<Rightarrow> plan_input" where
  "input_of owner req =
     \<lparr>pi_OwnerUserID = owner, pi_Name = pr_Name req, pi_Description = pr_Description req, pi_Kind = pr_Kind req,
      pi_Limits = pr_Limits req, pi_Enforcement = pr_Enforcement req, pi_Isolation = pr_Isolation req\<rparr>"

definition CreatePlan :: "tenancy_env \<Rightarrow> go_string \<Rightarrow> actor \<Rightarrow> plan_request \<Rightarrow> plan tenancy_op" where
  "CreatePlan env new actor req =
     (case validatePlan req of
        Inl e \<Rightarrow> fail_with (Invalid e)
      | Inr req \<Rightarrow>
          try_then (RepoCreatePlan env new (input_of (if seesEverything actor then None else Some (ta_UserID actor)) req)) (\<lambda>q.
          try_then (audit_note actor ''tenant.plan.create'' (pl_ID q) [(''name'', pl_Name q), (''kind'', pl_Kind q)]) (\<lambda>_.
            return_op q)))"

definition applyIsolation :: "tenancy_env \<Rightarrow> actor \<Rightarrow> go_string \<Rightarrow> unit tenancy_op" where
  "applyIsolation env actor x =
     (if \<not> te_agent env then return_op ()
      else
        or_stop (GetSubscription env x) (\<lambda>b.
        or_stop (GetPlan env (sb_PlanID b)) (\<lambda>q.
          let slice = (if sb_SliceName b = [] then SliceNameFor x else sb_SliceName b) in
            try_then (ask_host (IsolationApply slice (sb_Name b) (pl_Isolation q))) (\<lambda>_.
              case te_isolate env slice (sb_Name b) (pl_Isolation q) of
                Refused why \<Rightarrow> log_error (SetIsolationState env x IsolationFailed why)
              | Reported state on detail \<Rightarrow>
                  try_then (log_error (SetIsolationState env x state detail)) (\<lambda>_.
                    audit_note actor ''tenant.isolation.apply'' x [(''state'', state), (''slice'', on)])))))"

fun apply_each :: "tenancy_env \<Rightarrow> actor \<Rightarrow> go_string list \<Rightarrow> unit tenancy_op" where
  "apply_each env actor [] = return_op ()"
| "apply_each env actor (x # xs) = try_then (applyIsolation env actor x) (\<lambda>_. apply_each env actor xs)"

definition reapplyIsolationForPlan :: "tenancy_env \<Rightarrow> actor \<Rightarrow> go_string \<Rightarrow> unit tenancy_op" where
  "reapplyIsolationForPlan env actor planID =
     (if \<not> te_agent env then return_op ()
      else or_stop (ListSubscriptions env (ta_UserID actor) True) (\<lambda>subscriptions.
             apply_each env actor [sb_ID b. b \<leftarrow> subscriptions, sb_PlanID b = planID]))"

definition UpdatePlan :: "tenancy_env \<Rightarrow> actor \<Rightarrow> go_string \<Rightarrow> plan_request \<Rightarrow> plan tenancy_op" where
  "UpdatePlan env actor x req =
     try_then (GetPlan env x) (\<lambda>existing.
       if \<not> mayEditPlan actor existing then fail_with (if mayUsePlan actor existing then ErrForbidden else ErrNotFound)
       else (case validatePlan (req\<lparr>pr_Kind := pl_Kind existing\<rparr>) of
               Inl e \<Rightarrow> fail_with (Invalid e)
             | Inr req \<Rightarrow>
                 try_then (RepoUpdatePlan env x (input_of None req)) (\<lambda>q.
                 try_then (audit_note actor ''tenant.plan.update'' x [(''name'', pl_Name q)]) (\<lambda>_.
                 try_then (reapplyIsolationForPlan env actor x) (\<lambda>_. return_op q)))))"

definition DeletePlan :: "tenancy_env \<Rightarrow> actor \<Rightarrow> go_string \<Rightarrow> unit tenancy_op" where
  "DeletePlan env actor x =
     try_then (GetPlan env x) (\<lambda>q.
       if \<not> mayEditPlan actor q then fail_with ErrNotFound
       else try_then (RepoDeletePlan env x) (\<lambda>_. audit_note actor ''tenant.plan.delete'' x [(''name'', pl_Name q)]))"

section \<open>Subscriptions\<close>

definition addLimit :: "int option \<Rightarrow> int option \<Rightarrow> int \<Rightarrow> int option" where
  "addLimit base increment quantity =
     (case (base, increment) of
        (Some b, Some n) \<Rightarrow>
          if quantity \<le> 0 then base
          else let total = b + n * quantity in Some (if total > MaxLimitValue then MaxLimitValue else total)
      | _ \<Rightarrow> base)"

definition add_limits :: "limits \<Rightarrow> addon \<Rightarrow> limits" where
  "add_limits out addon =
     (let more = ad_Limits addon; n = ad_Quantity addon in
        \<lparr>DiskMB = addLimit (DiskMB out) (DiskMB more) n, BandwidthMB = addLimit (BandwidthMB out) (BandwidthMB more) n,
         MaxWebsites = addLimit (MaxWebsites out) (MaxWebsites more) n, MaxDatabases = addLimit (MaxDatabases out) (MaxDatabases more) n,
         MaxMailboxes = addLimit (MaxMailboxes out) (MaxMailboxes more) n, MaxFTPUsers = addLimit (MaxFTPUsers out) (MaxFTPUsers more) n,
         MaxCronJobs = addLimit (MaxCronJobs out) (MaxCronJobs more) n, MaxSubdomains = addLimit (MaxSubdomains out) (MaxSubdomains more) n\<rparr>)"

definition EffectiveLimits :: "limits \<Rightarrow> addon list \<Rightarrow> limits" where
  "EffectiveLimits plan addons = foldl add_limits plan addons"

record subscription_view =
  vw_Row :: subscription
  vw_Enforcement :: go_string
  vw_Limits :: limits
  vw_Isolation :: isolation
  vw_Addons :: "addon list"
  vw_Usage :: usage
  vw_Websites :: "website list"

definition decorate :: "tenancy_env \<Rightarrow> subscription \<Rightarrow> subscription_view tenancy_op" where
  "decorate env b =
     try_then (GetPlan env (sb_PlanID b)) (\<lambda>q.
     try_then (ListAddons env (sb_ID b)) (\<lambda>addons.
     try_then (CountUsage env (sb_ID b)) (\<lambda>usage.
       return_op \<lparr>vw_Row = b, vw_Enforcement = pl_Enforcement q, vw_Limits = EffectiveLimits (pl_Limits q) addons,
                  vw_Isolation = pl_Isolation q, vw_Addons = addons, vw_Usage = usage, vw_Websites = []\<rparr>)))"

fun decorate_each :: "tenancy_env \<Rightarrow> subscription list \<Rightarrow> subscription_view list tenancy_op" where
  "decorate_each env [] = return_op []"
| "decorate_each env (b # bs) =
     try_then (decorate env b) (\<lambda>v. try_then (decorate_each env bs) (\<lambda>vs. return_op (v # vs)))"

definition Subscriptions :: "tenancy_env \<Rightarrow> actor \<Rightarrow> subscription_view list tenancy_op" where
  "Subscriptions env actor = try_then (ListSubscriptions env (ta_UserID actor) (seesEverything actor)) (decorate_each env)"

text \<open>A subscription of an account the actor may manage, the beginning of most calls.\<close>

definition managed_subscription :: "tenancy_env \<Rightarrow> actor \<Rightarrow> go_string \<Rightarrow> subscription tenancy_op" where
  "managed_subscription env actor x =
     try_then (GetSubscription env x) (\<lambda>b.
     try_then (requireDescendant env actor (sb_OwnerUserID b)) (\<lambda>_. return_op b))"

definition Subscription :: "tenancy_env \<Rightarrow> actor \<Rightarrow> go_string \<Rightarrow> subscription_view tenancy_op" where
  "Subscription env actor x =
     try_then (managed_subscription env actor x) (\<lambda>b.
     try_then (decorate env b) (\<lambda>v.
     try_then (ListWebsites env x) (\<lambda>websites. return_op (v\<lparr>vw_Websites := websites\<rparr>))))"

text \<open>A plan the actor may put a subscription on, or add to one.\<close>

definition plan_for :: "tenancy_env \<Rightarrow> actor \<Rightarrow> go_string \<Rightarrow> tenancy_err \<Rightarrow> go_string \<Rightarrow> plan tenancy_op" where
  "plan_for env actor kind wrong x =
     try_then (GetPlan env x) (\<lambda>q.
       if \<not> mayUsePlan actor q then fail_with ErrNotFound
       else if pl_Kind q \<noteq> kind then fail_with wrong
       else return_op q)"

definition CreateSubscription :: "tenancy_env \<Rightarrow> go_string \<Rightarrow> actor \<Rightarrow> go_string \<Rightarrow> go_string \<Rightarrow> go_string \<Rightarrow> subscription_view tenancy_op" where
  "CreateSubscription env new actor ownerUserID planID name =
     try_then (valid_or (SubscriptionName name)) (\<lambda>_.
     try_then (requireDescendant env actor ownerUserID) (\<lambda>_.
     try_then (plan_for env actor PlanKindPlan ErrNotAPlan planID) (\<lambda>q.
     try_then (RepoCreateSubscription env new ownerUserID planID name) (\<lambda>b.
     try_then (audit_note actor ''tenant.subscription.create'' (sb_ID b)
                 [(''name'', sb_Name b), (''plan'', pl_Name q), (''owner'', ownerUserID)]) (\<lambda>_.
     try_then (applyIsolation env actor (sb_ID b)) (\<lambda>_. Subscription env actor (sb_ID b)))))))"

definition UpdateSubscription :: "tenancy_env \<Rightarrow> actor \<Rightarrow> go_string \<Rightarrow> go_string option \<Rightarrow> go_string option \<Rightarrow> subscription_view tenancy_op" where
  "UpdateSubscription env actor x name planID =
     try_then (managed_subscription env actor x) (\<lambda>_.
     try_then (case name of
                 None \<Rightarrow> return_op ()
               | Some n \<Rightarrow> try_then (valid_or (SubscriptionName n)) (\<lambda>_. RenameSubscription env x n)) (\<lambda>_.
     try_then (case planID of
                 None \<Rightarrow> return_op ()
               | Some y \<Rightarrow> try_then (plan_for env actor PlanKindPlan ErrNotAPlan y) (\<lambda>_. SetSubscriptionPlan env x y)) (\<lambda>_.
     try_then (audit_note actor ''tenant.subscription.update'' x []) (\<lambda>_.
     try_then (applyIsolation env actor x) (\<lambda>_. Subscription env actor x)))))"

definition SetSubscriptionStatus :: "tenancy_env \<Rightarrow> actor \<Rightarrow> go_string \<Rightarrow> go_string \<Rightarrow> go_string \<Rightarrow> subscription_view tenancy_op" where
  "SetSubscriptionStatus env actor x status reason =
     (if status \<notin> {StatusActive, StatusSuspended} then fail_with ErrInvalidStatus
      else
        try_then (valid_or (Reason reason)) (\<lambda>_.
        try_then (managed_subscription env actor x) (\<lambda>_.
        try_then (RepoSetSubscriptionStatus env x status reason) (\<lambda>_.
        try_then (audit_note actor (if status = StatusSuspended then ''tenant.subscription.suspend'' else ''tenant.subscription.resume'') x
                    [(''reason'', reason)]) (\<lambda>_.
          Subscription env actor x)))))"

definition DeleteSubscription :: "tenancy_env \<Rightarrow> actor \<Rightarrow> go_string \<Rightarrow> unit tenancy_op" where
  "DeleteSubscription env actor x =
     try_then (managed_subscription env actor x) (\<lambda>b.
     try_then (RepoDeleteSubscription env x) (\<lambda>_.
     try_then (if sb_SliceName b \<noteq> [] \<and> te_agent env then ask_host (IsolationRemove (sb_SliceName b)) else return_op ()) (\<lambda>_.
       audit_note actor ''tenant.subscription.delete'' x [(''name'', sb_Name b)])))"

definition AddAddon :: "tenancy_env \<Rightarrow> actor \<Rightarrow> go_string \<Rightarrow> go_string \<Rightarrow> int \<Rightarrow> subscription_view tenancy_op" where
  "AddAddon env actor x planID quantity =
     try_then (valid_or (AddonQuantity quantity)) (\<lambda>_.
     try_then (managed_subscription env actor x) (\<lambda>_.
     try_then (plan_for env actor PlanKindAddon ErrNotAnAddon planID) (\<lambda>q.
     try_then (SetAddon env x planID quantity) (\<lambda>_.
     try_then (audit_note actor ''tenant.addon.add'' x [(''addon'', pl_Name q), (''quantity'', itoa quantity)]) (\<lambda>_.
       Subscription env actor x)))))"

definition RemoveAddon :: "tenancy_env \<Rightarrow> actor \<Rightarrow> go_string \<Rightarrow> go_string \<Rightarrow> subscription_view tenancy_op" where
  "RemoveAddon env actor x planID =
     try_then (managed_subscription env actor x) (\<lambda>_.
     try_then (RepoRemoveAddon env x planID) (\<lambda>_.
     try_then (audit_note actor ''tenant.addon.remove'' x [(''addon'', planID)]) (\<lambda>_. Subscription env actor x)))"

section \<open>Websites\<close>

definition AssignWebsite :: "tenancy_env \<Rightarrow> actor \<Rightarrow> go_string \<Rightarrow> go_string \<Rightarrow> subscription_view tenancy_op" where
  "AssignWebsite env actor x websiteID =
     try_then (managed_subscription env actor x) (\<lambda>_.
     try_then (RepoAssignWebsite env websiteID (Some x)) (\<lambda>_.
     try_then (audit_note actor ''tenant.subscription.update'' x [(''website_assigned'', websiteID)]) (\<lambda>_. Subscription env actor x)))"

definition ReleaseWebsite :: "tenancy_env \<Rightarrow> actor \<Rightarrow> go_string \<Rightarrow> go_string \<Rightarrow> subscription_view tenancy_op" where
  "ReleaseWebsite env actor x websiteID =
     try_then (managed_subscription env actor x) (\<lambda>_ s.
       case SubscriptionForWebsite env websiteID s of
         (Inl _, s) \<Rightarrow> (Inl ErrNotFound, s)
       | (Inr owner, s) \<Rightarrow>
           if owner \<noteq> x then (Inl ErrNotFound, s)
           else
             try_then (RepoAssignWebsite env websiteID None) (\<lambda>_.
             try_then (audit_note actor ''tenant.subscription.update'' x [(''website_released'', websiteID)]) (\<lambda>_.
               Subscription env actor x)) s)"

definition AssignNewWebsite :: "tenancy_env \<Rightarrow> go_string \<Rightarrow> go_string \<Rightarrow> go_string \<Rightarrow> unit tenancy_op" where
  "AssignNewWebsite env ownerUserID subscriptionID websiteID =
     (if subscriptionID \<noteq> [] then
        try_then (GetSubscription env subscriptionID) (\<lambda>_. RepoAssignWebsite env websiteID (Some subscriptionID))
      else
        try_then (SubscriptionsForOwner env ownerUserID) (\<lambda>ids.
          if ids = [] then return_op () else RepoAssignWebsite env websiteID (Some (hd ids))))"

definition ApplyIsolation :: "tenancy_env \<Rightarrow> actor \<Rightarrow> go_string \<Rightarrow> subscription_view tenancy_op" where
  "ApplyIsolation env actor x =
     try_then (managed_subscription env actor x) (\<lambda>_.
     try_then (applyIsolation env actor x) (\<lambda>_. Subscription env actor x))"

section \<open>Measurements\<close>

definition periodStart :: "int \<Rightarrow> int" where
  "periodStart now =
     (let c = date_of (now div 1000000000) in 1000000000 * (86400 * days_of_civil (cyear c) (cmonth c) 1))"

definition partly_measured :: go_string where
  "partly_measured = ''some of this subscription's websites could not be measured, so these figures are a floor''"

definition sampleOne :: "tenancy_env \<Rightarrow> go_string \<Rightarrow> go_string list \<Rightarrow> int \<Rightarrow> unit tenancy_op" where
  "sampleOne env x documentRoots period =
     (let ms = (\<lambda>disk raw why. \<lparr>ms_SubscriptionID = x, ms_PeriodStart = period, ms_DiskBytes = disk, ms_RawBandwidth = raw, ms_Error = why\<rparr>) in
        if documentRoots = [] then log_error (RecordUsage env (ms (Some 0) (Some 0) []))
        else
          try_then (ask_host (UsageOf documentRoots)) (\<lambda>_.
            case te_measure env documentRoots of
              Inl why \<Rightarrow> log_error (RecordUsage env (ms None None why))
            | Inr (disk, bandwidth, partial) \<Rightarrow>
                log_error (RecordUsage env (ms disk bandwidth (if partial then partly_measured else [])))))"

fun sample_each :: "tenancy_env \<Rightarrow> int \<Rightarrow> (go_string \<times> go_string list) list \<Rightarrow> unit tenancy_op" where
  "sample_each env period [] = return_op ()"
| "sample_each env period ((x, roots) # rest) = try_then (sampleOne env x roots period) (\<lambda>_. sample_each env period rest)"

text \<open>\<open>SampleAll\<close> iterates over a map, in an order of its own.\<close>

definition SampleAll :: "tenancy_env \<Rightarrow> ((go_string \<times> go_string list) list \<Rightarrow> (go_string \<times> go_string list) list) \<Rightarrow> unit tenancy_op" where
  "SampleAll env order =
     (if \<not> te_agent env then return_op ()
      else try_then (ListAllForMeasurement env) (\<lambda>roots.
             sample_each env (periodStart (at_time (te_auth env))) (order roots)))"

definition MeasureOne :: "tenancy_env \<Rightarrow> actor \<Rightarrow> go_string \<Rightarrow> subscription_view tenancy_op" where
  "MeasureOne env actor x =
     try_then (managed_subscription env actor x) (\<lambda>_.
     try_then (ListWebsites env x) (\<lambda>websites.
     try_then (sampleOne env x (map ws_DocumentRoot websites) (periodStart (at_time (te_auth env)))) (\<lambda>_.
       Subscription env actor x)))"

section \<open>Opening a session as somebody else\<close>

definition insert_impersonation :: "impersonation_row \<Rightarrow> tenancy \<Rightarrow> tenancy_err + tenancy" where
  "insert_impersonation row d =
     (if account_row d (im_ActorUserID row) = None \<or> account_row d (im_SubjectUserID row) = None \<or>
         im_ActorUserID row = im_SubjectUserID row \<or>
         (case im_SessionID row of None \<Rightarrow> False | Some x \<Rightarrow> \<not> list_ex (\<lambda>s. se_ID s = x) (sessions (tn_panel d)))
      then Inl StoreError
      else Inr (d\<lparr>tn_impersonations := tn_impersonations d @ [row]\<rparr>))"

definition recordImpersonation :: "tenancy_env \<Rightarrow> actor \<Rightarrow> go_string \<Rightarrow> go_string \<Rightarrow> go_string \<Rightarrow> unit tenancy_op" where
  "recordImpersonation env actor subjectID sessionID reason =
     change_rows env (ta_UserID actor) (\<lambda>i d.
       insert_impersonation \<lparr>im_ActorUserID = i, im_SubjectUserID = subjectID, im_SessionID = Some sessionID, im_Reason = reason,
                             im_StartedAt = at_time (te_auth env), im_EndedAt = None\<rparr> d)"

definition get_subject :: "tenancy_env \<Rightarrow> go_string \<Rightarrow> user tenancy_op" where
  "get_subject env x s =
     (case te_uuid env x of
        None \<Rightarrow> (Inl StoreError, s)
      | Some i \<Rightarrow>
          (case on_panel (GetUserByID (te_auth env) i) s of
             (Inl e, s) \<Rightarrow> (Inl (if e = SignIn ErrUserNotFound then ErrNotFound else e), s)
           | (Inr u, s) \<Rightarrow> (Inr u, s)))"

definition StartImpersonation :: "service \<Rightarrow> tenancy_env \<Rightarrow> draw \<Rightarrow> actor \<Rightarrow> go_string \<Rightarrow> go_string \<Rightarrow> (token_pair \<times> go_string) tenancy_op" where
  "StartImpersonation sv env dr actor x reason =
     (let rc = \<lparr>rq_IPAddress = ta_IPAddress actor, rq_UserAgent = ta_UserAgent actor\<rparr> in
        if ta_ImpersonatorUserID actor \<noteq> [] then fail_with ErrAlreadyImpersonating
        else if \<not> Has (ta_Permissions actor) ''tenant.impersonate'' then fail_with ErrForbidden
        else
          try_then (valid_or (Reason reason)) (\<lambda>_.
            if x = ta_UserID actor then fail_with ErrMayNotImpersonate
            else
              try_then (requireDescendant env actor x) (\<lambda>_.
              try_then (TierOf env x) (\<lambda>subjectTier.
                if \<not> TierMayOwn (ta_Tier actor) subjectTier then fail_with ErrMayNotImpersonate
                else
                  try_then (get_subject env x) (\<lambda>subject.
                  try_then (on_panel (Impersonate sv (te_auth env) dr (ta_UserID actor) subject rc)) (\<lambda>(pair, sid) s.
                    case recordImpersonation env actor (u_ID subject) sid reason s of
                      (Inl e, s) \<Rightarrow> try_then (log_error (on_panel (EndImpersonation (te_auth env) sid))) (\<lambda>_. fail_with e) s
                    | (Inr _, s) \<Rightarrow>
                        try_then (audit_note actor ''tenant.impersonate.start'' (u_ID subject)
                          [(''subject'', u_Username subject), (''reason'', reason), (''session_id'', sid)]) (\<lambda>_.
                          return_op (pair, sid)) s))))))"

definition close_records :: "int \<Rightarrow> (impersonation_row \<Rightarrow> bool) \<Rightarrow> tenancy \<Rightarrow> tenancy" where
  "close_records now P d =
     d\<lparr>tn_impersonations := map (\<lambda>r. if P r \<and> im_EndedAt r = None then r\<lparr>im_EndedAt := Some now\<rparr> else r) (tn_impersonations d)\<rparr>"

definition TenancyEndImpersonation :: "tenancy_env \<Rightarrow> claims \<Rightarrow> go_string \<Rightarrow> unit tenancy_op" where
  "TenancyEndImpersonation env cl ip =
     (if c_ImpersonatorUserID cl = [] then fail_with ErrNotFound
      else
        try_then (on_panel (EndImpersonation (te_auth env) (c_SessionID cl))) (\<lambda>_.
        try_then (change_rows env (c_SessionID cl) (\<lambda>i d. Inr (close_records (at_time (te_auth env)) (\<lambda>r. im_SessionID r = Some i) d))) (\<lambda>_.
          on_panel (emit (c_ImpersonatorUserID cl) ''tenant.impersonate.end'' (c_UserID cl) \<lparr>rq_IPAddress = ip, rq_UserAgent = []\<rparr> ''SUCCESS''
            [(''subject'', c_Username cl), (''session_id'', c_SessionID cl)]))))"

definition CloseStaleImpersonations :: "tenancy_env \<Rightarrow> unit tenancy_op" where
  "CloseStaleImpersonations env =
     stmt env (\<lambda>d.
       (Inr (), close_records (at_time (te_auth env))
          (\<lambda>r. case im_SessionID r of
                 None \<Rightarrow> True
               | Some x \<Rightarrow> \<not> list_ex (\<lambda>s. se_ID s = x \<and> se_RevokedAt s = None \<and> se_ExpiresAt s > at_time (te_auth env)) (sessions (tn_panel d))) d))"

section \<open>Calls\<close>

datatype tenancy_call =
    CallCreateAccount go_string go_string account_request
  | CallUpdateAccount go_string account_update
  | CallDeleteAccount go_string
  | CallCreatePlan go_string plan_request
  | CallUpdatePlan go_string plan_request
  | CallDeletePlan go_string
  | CallCreateSubscription go_string go_string go_string go_string
  | CallUpdateSubscription go_string "go_string option" "go_string option"
  | CallSetStatus go_string go_string go_string
  | CallDeleteSubscription go_string
  | CallAddAddon go_string go_string int
  | CallRemoveAddon go_string go_string
  | CallAssignWebsite go_string go_string
  | CallReleaseWebsite go_string go_string
  | CallApplyIsolation go_string
  | CallMeasure go_string
  | CallImpersonate draw go_string go_string

definition void :: "'a tenancy_op \<Rightarrow> unit tenancy_op" where
  "void m = try_then m (\<lambda>_. return_op ())"

fun tenancy_perform :: "service \<Rightarrow> tenancy_env \<Rightarrow> actor \<Rightarrow> tenancy_call \<Rightarrow> unit tenancy_op" where
  "tenancy_perform sv env actor (CallCreateAccount new salt req) = void (CreateAccount sv env new salt actor req)"
| "tenancy_perform sv env actor (CallUpdateAccount x params) = void (UpdateAccount env actor x params)"
| "tenancy_perform sv env actor (CallDeleteAccount x) = DeleteAccount env actor x"
| "tenancy_perform sv env actor (CallCreatePlan new req) = void (CreatePlan env new actor req)"
| "tenancy_perform sv env actor (CallUpdatePlan x req) = void (UpdatePlan env actor x req)"
| "tenancy_perform sv env actor (CallDeletePlan x) = DeletePlan env actor x"
| "tenancy_perform sv env actor (CallCreateSubscription new owner planID name) = void (CreateSubscription env new actor owner planID name)"
| "tenancy_perform sv env actor (CallUpdateSubscription x name planID) = void (UpdateSubscription env actor x name planID)"
| "tenancy_perform sv env actor (CallSetStatus x status reason) = void (SetSubscriptionStatus env actor x status reason)"
| "tenancy_perform sv env actor (CallDeleteSubscription x) = DeleteSubscription env actor x"
| "tenancy_perform sv env actor (CallAddAddon x planID quantity) = void (AddAddon env actor x planID quantity)"
| "tenancy_perform sv env actor (CallRemoveAddon x planID) = void (RemoveAddon env actor x planID)"
| "tenancy_perform sv env actor (CallAssignWebsite x websiteID) = void (AssignWebsite env actor x websiteID)"
| "tenancy_perform sv env actor (CallReleaseWebsite x websiteID) = void (ReleaseWebsite env actor x websiteID)"
| "tenancy_perform sv env actor (CallApplyIsolation x) = void (ApplyIsolation env actor x)"
| "tenancy_perform sv env actor (CallMeasure x) = void (MeasureOne env actor x)"
| "tenancy_perform sv env actor (CallImpersonate dr x reason) = void (StartImpersonation sv env dr actor x reason)"

text \<open>A request: who asks is looked up first, then the call is made.\<close>

definition tenancy_request :: "service \<Rightarrow> tenancy_env \<Rightarrow> claims \<Rightarrow> go_string \<Rightarrow> go_string \<Rightarrow> tenancy_call \<Rightarrow> unit tenancy_op" where
  "tenancy_request sv env cl ip agent call = try_then (request_actor env cl ip agent) (\<lambda>actor. tenancy_perform sv env actor call)"

end
