(* ===== verification/Api_Tenancy_Rules.thy ===== *)
theory Api_Tenancy_Rules
  imports Api_Tenancy
begin

text \<open>
  How a property of the tables is read off the text of an operation: a relation between the
  tables before and after that is reflexive and transitive, as a locale over \<open>kept_relation\<close>; the
  rules for statements and for the ways operations are put together, from every state and from
  one state whose rows are known; and which operations only read.
\<close>

section \<open>Relations between tables\<close>

definition over_tables :: "(tenancy \<Rightarrow> tenancy \<Rightarrow> bool) \<Rightarrow> store \<Rightarrow> store \<Rightarrow> bool" where
  "over_tables Q s t \<longleftrightarrow> Q (db s) (db t)"

definition from_tables :: "(tenancy \<Rightarrow> tenancy \<Rightarrow> bool) \<Rightarrow> tenancy \<Rightarrow> 'a tenancy_op \<Rightarrow> bool" where
  "from_tables Q d m \<longleftrightarrow> (\<forall>s r t. db s = d \<longrightarrow> m s = (r, t) \<longrightarrow> Q d (db t))"

definition same_tables :: "tenancy \<Rightarrow> tenancy \<Rightarrow> bool" where
  "same_tables d d' \<longleftrightarrow> d' = d"

abbreviation reads :: "'a tenancy_op \<Rightarrow> bool" where
  "reads m \<equiv> keeps (over_tables same_tables) m"

lemma from_tablesD: "from_tables Q d m \<Longrightarrow> db s = d \<Longrightarrow> m s = (r, t) \<Longrightarrow> Q d (db t)"
  by (auto simp: from_tables_def)

lemma readsD: "reads m \<Longrightarrow> m s = (r, t) \<Longrightarrow> db t = db s"
  by (auto simp: keeps_def over_tables_def same_tables_def)

locale table_relation =
  fixes Q :: "tenancy \<Rightarrow> tenancy \<Rightarrow> bool"
  assumes Q_refl: "Q d d"
    and Q_trans: "Q a b \<Longrightarrow> Q b c \<Longrightarrow> Q a c"
begin

lemma tables_kept: "kept_relation (over_tables Q)"
  by (unfold_locales; unfold over_tables_def) (blast intro: Q_refl Q_trans)+

lemmas kr_rules = kept_relation.keeps_rules [OF tables_kept]

lemma keeps_stmt: "(\<And>d r d'. f d = (r, d') \<Longrightarrow> Q d d') \<Longrightarrow> keeps (over_tables Q) (stmt env f)"
  by (auto simp: keeps_def over_tables_def stmt_def Let_def Q_refl split: if_splits prod.splits)

lemma keeps_query: "keeps (over_tables Q) (query env f)"
  unfolding query_def by (rule keeps_stmt) (simp add: Q_refl)

lemma keeps_change:
  "(\<And>i d d'. te_uuid env x = Some i \<Longrightarrow> f i d = Inr d' \<Longrightarrow> Q d d') \<Longrightarrow> keeps (over_tables Q) (change_rows env x f)"
  unfolding change_rows_def by (rule keeps_stmt) (auto simp: Q_refl split: option.splits sum.splits)

lemma keeps_panel:
  "(\<And>d r p. m (tn_panel d) = (r, p) \<Longrightarrow> Q d (d\<lparr>tn_panel := p\<rparr>)) \<Longrightarrow> keeps (over_tables Q) (on_panel m)"
  by (auto simp: keeps_def over_tables_def on_panel_def split: prod.splits)

lemma keeps_reads: "reads m \<Longrightarrow> keeps (over_tables Q) m"
  by (auto simp: keeps_def over_tables_def same_tables_def Q_refl)

lemma keeps_stop: "keeps (over_tables Q) m \<Longrightarrow> (\<And>a. keeps (over_tables Q) (f a)) \<Longrightarrow> keeps (over_tables Q) (or_stop m f)"
  unfolding keeps_def over_tables_def or_stop_def by (fastforce split: prod.splits sum.splits intro: Q_trans)

lemma keeps_case:
  assumes "keeps (over_tables Q) m" "\<And>e. keeps (over_tables Q) (\<lambda>s. u e s)" "\<And>a. keeps (over_tables Q) (\<lambda>s. n a s)"
  shows "keeps (over_tables Q) (\<lambda>s. case m s of (Inl e, s) \<Rightarrow> u e s | (Inr a, s) \<Rightarrow> n a s)"
  using assms unfolding keeps_def over_tables_def by (fastforce split: prod.splits sum.splits intro: Q_trans)

lemma keeps_log: "keeps (over_tables Q) m \<Longrightarrow> keeps (over_tables Q) (log_error m)"
  by (auto simp: keeps_def log_error_def) (metis prod.collapse)

lemma keeps_ask: "keeps (over_tables Q) (ask_host c)"
  by (auto simp: keeps_def ask_host_def over_tables_def Q_refl)

lemma keeps_valid: "keeps (over_tables Q) (valid_or e)" "keeps (over_tables Q) (check_or e')"
  by (simp_all add: valid_or_def check_or_def kr_rules split: option.split)

lemma keeps_void: "keeps (over_tables Q) m \<Longrightarrow> keeps (over_tables Q) (void m)"
  unfolding void_def by (intro kr_rules)

lemmas tr_rules = kr_rules keeps_stop keeps_log keeps_ask keeps_valid keeps_void keeps_query

text \<open>From one state.\<close>

lemma from_keeps: "keeps (over_tables Q) m \<Longrightarrow> from_tables Q d m"
  by (auto simp: keeps_def over_tables_def from_tables_def)

lemma from_simple: "from_tables Q d (return_op a)" "from_tables Q d (fail_with e)"
  by (rule from_keeps, rule kr_rules)+

lemma from_if: "(b \<Longrightarrow> from_tables Q d m) \<Longrightarrow> (\<not> b \<Longrightarrow> from_tables Q d n) \<Longrightarrow> from_tables Q d (if b then m else n)"
  by simp

lemma from_change_rows: "(\<And>i d'. te_uuid env x = Some i \<Longrightarrow> f i d = Inr d' \<Longrightarrow> Q d d') \<Longrightarrow> from_tables Q d (change_rows env x f)"
  by (auto simp: from_tables_def change_rows_def stmt_def Let_def Q_refl split: if_splits prod.splits option.splits sum.splits)

lemma from_read:
  assumes "reads m" "\<And>a s t. db s = d \<Longrightarrow> m s = (Inr a, t) \<Longrightarrow> from_tables Q d (f a)"
  shows "from_tables Q d (try_then m f)"
  unfolding from_tables_def
proof (intro allI impI)
  fix s r t
  assume s: "db s = d" and run: "try_then m f s = (r, t)"
  obtain x q where x: "m s = (x, q)" by (cases "m s")
  have q: "db q = d" using readsD [OF assms(1) x] s by simp
  show "Q d (db t)"
  proof (cases x)
    case (Inr a)
    then have "f a q = (r, t)" using run x by (simp add: try_then_def)
    then show ?thesis using from_tablesD [OF assms(2) [OF s, of a q] q] x Inr by simp
  qed (use run x q in \<open>simp add: try_then_def Q_refl\<close>)
qed

lemma from_then:
  assumes "from_tables Q d m" "\<And>a. keeps (over_tables Q) (f a)"
  shows "from_tables Q d (try_then m f)"
  unfolding from_tables_def
proof (intro allI impI)
  fix s r t
  assume s: "db s = d" and run: "try_then m f s = (r, t)"
  obtain x q where x: "m s = (x, q)" by (cases "m s")
  have q: "Q d (db q)" using from_tablesD [OF assms(1) s x] .
  show "Q d (db t)"
  proof (cases x)
    case (Inr a)
    then have "f a q = (r, t)" using run x by (simp add: try_then_def)
    then show ?thesis using keepsD [OF assms(2)] q by (auto simp: over_tables_def intro: Q_trans)
  qed (use run x q in \<open>simp add: try_then_def\<close>)
qed

lemma keeps_from: "(\<And>d. from_tables Q d m) \<Longrightarrow> keeps (over_tables Q) m"
  by (auto simp: keeps_def over_tables_def from_tables_def)

lemma from_void: "from_tables Q d m \<Longrightarrow> from_tables Q d (void m)"
  unfolding void_def by (rule from_then) (auto intro: kr_rules)

end

interpretation rd: table_relation same_tables
  by unfold_locales (auto simp: same_tables_def)

section \<open>Operations that only read\<close>

lemma store_reads:
  "reads (GetAccount env x)" "reads (IsDescendant env x y)" "reads (TierOf env x)" "reads (GetPlan env x)"
  "reads (GetSubscription env x)" "reads (ListAddons env x)" "reads (ListWebsites env x)" "reads (ListSubscriptions env x b)"
  "reads (ListPlans env x b)" "reads (ListAccounts env x b)" "reads (SubscriptionsForOwner env x)" "reads (readMeasuredUsage env x)"
  "reads (ListAllForMeasurement env)"
  unfolding GetAccount_def IsDescendant_def TierOf_def GetPlan_def GetSubscription_def ListAddons_def ListWebsites_def
    ListSubscriptions_def ListPlans_def ListAccounts_def SubscriptionsForOwner_def readMeasuredUsage_def ListAllForMeasurement_def
  by (rule rd.keeps_query)+

lemma lookup_reads: "reads (SubscriptionForWebsite env x)" "reads (WebsiteForMailDomain env x)"
  unfolding SubscriptionForWebsite_def WebsiteForMailDomain_def by (intro rd.tr_rules)+

lemma CountUsage_reads: "reads (CountUsage env x)"
  unfolding CountUsage_def by (intro rd.tr_rules store_reads)

lemma requireDescendant_reads: "reads (requireDescendant env actor x)"
  unfolding requireDescendant_def by (intro rd.tr_rules store_reads)

lemma managed_reads: "reads (managed_subscription env actor x)"
  unfolding managed_subscription_def by (intro rd.tr_rules store_reads requireDescendant_reads)

lemma plan_for_reads: "reads (plan_for env actor kind e x)"
  unfolding plan_for_def by (intro rd.tr_rules store_reads)

lemma decorate_reads: "reads (decorate env b)"
  unfolding decorate_def by (intro rd.tr_rules store_reads CountUsage_reads)

lemma Subscription_reads: "reads (Subscription env actor x)"
  unfolding Subscription_def by (intro rd.tr_rules store_reads managed_reads decorate_reads)

lemma request_actor_reads: "reads (request_actor env cl ip agent)"
  using store_reads(3) [of env "c_UserID cl"]
  by (auto simp: keeps_def over_tables_def same_tables_def request_actor_def ActorFor_def split: prod.splits sum.splits)

lemma get_subject_reads: "reads (get_subject env x)"
  by (auto simp: keeps_def over_tables_def same_tables_def get_subject_def on_panel_def GetUserByID_def store_op_def
      split: option.splits prod.splits sum.splits if_splits)

lemmas all_reads = store_reads lookup_reads CountUsage_reads requireDescendant_reads managed_reads plan_for_reads decorate_reads
  Subscription_reads request_actor_reads get_subject_reads rd.keeps_valid

section \<open>What a reading found\<close>

lemma query_Inr: "query env f s = (Inr a, t) \<Longrightarrow> f (db s) = Inr a"
  by (auto simp: query_def stmt_def Let_def split: if_splits)

lemma uuid_then_Inr: "uuid_then env x f = Inr a \<longleftrightarrow> (\<exists>i. te_uuid env x = Some i \<and> f i = Inr a)"
  by (auto simp: uuid_then_def split: option.splits)

lemma found_Inr: "found r = Inr a \<longleftrightarrow> r = Some a"
  by (auto simp: found_def split: option.splits)

lemma account_row_Some: "account_row d i = Some u \<Longrightarrow> u \<in> set (accounts_of d) \<and> u_ID u = i"
  by (auto simp: account_row_def find_Some_iff)

lemma plan_row_Some: "plan_row d i = Some q \<Longrightarrow> q \<in> set (tn_plans d) \<and> pl_ID q = i"
  by (auto simp: plan_row_def find_Some_iff)

lemma sub_row_Some: "sub_row d i = Some b \<Longrightarrow> b \<in> set (tn_subs d) \<and> sb_ID b = i"
  by (auto simp: sub_row_def find_Some_iff)

lemma account_row_None: "account_row d i = None \<longleftrightarrow> (\<forall>u \<in> set (accounts_of d). u_ID u \<noteq> i)"
  by (auto simp: account_row_def find_None_iff)

lemma plan_row_None: "plan_row d i = None \<longleftrightarrow> (\<forall>q \<in> set (tn_plans d). pl_ID q \<noteq> i)"
  by (auto simp: plan_row_def find_None_iff)

lemma GetPlan_Inr: "GetPlan env x s = (Inr q, t) \<Longrightarrow> \<exists>i. te_uuid env x = Some i \<and> plan_row (db s) i = Some q"
  unfolding GetPlan_def by (drule query_Inr) (simp add: uuid_then_Inr found_Inr)

lemma GetSubscription_Inr: "GetSubscription env x s = (Inr b, t) \<Longrightarrow> \<exists>i. te_uuid env x = Some i \<and> sub_row (db s) i = Some b"
  unfolding GetSubscription_def by (drule query_Inr) (simp add: uuid_then_Inr found_Inr)

lemma GetAccount_Inr:
  "GetAccount env x s = (Inr a, t) \<Longrightarrow> \<exists>i u. te_uuid env x = Some i \<and> account_row (db s) i = Some u \<and> a = scanAccount (db s) u"
  unfolding GetAccount_def by (drule query_Inr) (auto simp: uuid_then_Inr found_Inr)

lemma TierOf_Inr:
  "TierOf env x s = (Inr tier, t) \<Longrightarrow> \<exists>i u. te_uuid env x = Some i \<and> account_row (db s) i = Some u \<and> tier = tier_of (db s) i"
  unfolding TierOf_def by (drule query_Inr) (auto simp: uuid_then_Inr split: option.splits)

lemma IsDescendant_Inr:
  "IsDescendant env a x s = (Inr b, t) \<Longrightarrow>
     \<exists>i j ds. te_uuid env a = Some i \<and> te_uuid env x = Some j \<and> descendants (db s) i = Some ds \<and> b = (j \<in> set ds)"
  unfolding IsDescendant_def by (drule query_Inr) (auto simp: uuid_then_Inr within_def split: option.splits)

lemma requireDescendant_Inr:
  assumes "requireDescendant env actor x s = (Inr u, t)" "\<not> seesEverything actor"
  shows "\<exists>i j ds. te_uuid env (ta_UserID actor) = Some i \<and> te_uuid env x = Some j \<and> descendants (db s) i = Some ds \<and> j \<in> set ds"
  using assms by (auto simp: requireDescendant_def try_then_Inr op_simps dest!: IsDescendant_Inr split: if_splits)

lemma managed_Inr:
  assumes "managed_subscription env actor x s = (Inr b, t)"
  shows "\<exists>i. te_uuid env x = Some i \<and> sub_row (db s) i = Some b \<and>
    (\<exists>s1 t1. db s1 = db s \<and> requireDescendant env actor (sb_OwnerUserID b) s1 = (Inr (), t1))"
proof -
  obtain s1 t1 where g: "GetSubscription env x s = (Inr b, s1)" "requireDescendant env actor (sb_OwnerUserID b) s1 = (Inr (), t1)"
    using assms by (auto simp: managed_subscription_def try_then_Inr op_simps)
  then show ?thesis using GetSubscription_Inr [OF g(1)] readsD [OF store_reads(5) g(1)] by blast
qed

lemma plan_for_Inr:
  assumes "plan_for env actor kind e x s = (Inr q, t)"
  shows "\<exists>i. te_uuid env x = Some i \<and> plan_row (db s) i = Some q \<and> pl_Kind q = kind \<and> mayUsePlan actor q"
  using assms by (auto simp: plan_for_def try_then_Inr op_simps dest!: GetPlan_Inr split: if_splits)

end
