(* ===== verification/Api_Tenancy_Tables.thy ===== *)
theory Api_Tenancy_Tables
  imports Api_Tenancy_Rules
begin

text \<open>
  What the tables of tenancy keep through every call: the accounts are a forest in which every
  account stands strictly below its parent, and subscriptions, add-ons and websites refer to rows of
  the right kind.
\<close>

section \<open>The tables in order\<close>

definition account_ids :: "tenancy \<Rightarrow> go_string list" where
  "account_ids d = map u_ID (accounts_of d)"

definition tree_ok :: "tenancy \<Rightarrow> bool" where
  "tree_ok d \<longleftrightarrow>
     distinct (account_ids d) \<and>
     (\<forall>i \<in> set (account_ids d). AccountTier (tier_of d i) = None \<and>
        (case parent_of d i of
           None \<Rightarrow> tier_of d i = TierAdmin
         | Some p \<Rightarrow> p \<in> set (account_ids d) \<and> TierMayOwn (tier_of d p) (tier_of d i)))"

definition limits_ok :: "limits \<Rightarrow> bool" where
  "limits_ok l \<longleftrightarrow> (\<forall>(dimension, value) \<in> set (quota_limits l). within_limit value)"

definition plans_ok :: "tenancy \<Rightarrow> bool" where
  "plans_ok d \<longleftrightarrow>
     distinct (map pl_ID (tn_plans d)) \<and>
     (\<forall>q \<in> set (tn_plans d). PlanKind (pl_Kind q) = None \<and> Enforcement (pl_Enforcement q) = None \<and> limits_ok (pl_Limits q) \<and>
        (\<forall>i. pl_OwnerUserID q = Some i \<longrightarrow> i \<in> set (account_ids d)))"

definition has_plan :: "tenancy \<Rightarrow> go_string \<Rightarrow> go_string \<Rightarrow> bool" where
  "has_plan d i kind \<longleftrightarrow> (\<exists>q \<in> set (tn_plans d). pl_ID q = i \<and> pl_Kind q = kind)"

definition status_ok :: "subscription \<Rightarrow> bool" where
  "status_ok b \<longleftrightarrow> sb_Status b = StatusActive \<or> sb_Status b = StatusSuspended \<and> sb_SuspendedAt b \<noteq> None"

definition subs_ok :: "tenancy \<Rightarrow> bool" where
  "subs_ok d \<longleftrightarrow>
     distinct (map sb_ID (tn_subs d)) \<and>
     (\<forall>b \<in> set (tn_subs d). sb_OwnerUserID b \<in> set (account_ids d) \<and> has_plan d (sb_PlanID b) PlanKindPlan \<and> status_ok b)"

definition addons_ok :: "tenancy \<Rightarrow> bool" where
  "addons_ok d \<longleftrightarrow>
     (\<forall>a \<in> set (tn_addons d). ar_SubscriptionID a \<in> sb_ID ` set (tn_subs d) \<and> has_plan d (ar_PlanID a) PlanKindAddon \<and>
        1 \<le> ar_Quantity a \<and> ar_Quantity a \<le> MaxAddonQuantity)"

definition websites_ok :: "tenancy \<Rightarrow> bool" where
  "websites_ok d \<longleftrightarrow> (\<forall>w \<in> set (tn_websites d). \<forall>i. ws_SubscriptionID w = Some i \<longrightarrow> i \<in> sb_ID ` set (tn_subs d))"

definition tables_ok :: "tenancy \<Rightarrow> bool" where
  "tables_ok d \<longleftrightarrow> tree_ok d \<and> plans_ok d \<and> subs_ok d \<and> addons_ok d \<and> websites_ok d"

definition stay_ok :: "tenancy \<Rightarrow> tenancy \<Rightarrow> bool" where
  "stay_ok d d' \<longleftrightarrow> (tables_ok d \<longrightarrow> tables_ok d')"

interpretation ok: table_relation stay_ok
  by unfold_locales (auto simp: stay_ok_def)

lemma account_row_ids: "account_row d i = None \<longleftrightarrow> i \<notin> set (account_ids d)"
  using account_row_None [of d i] by (auto simp: account_ids_def)

lemmas ids_defs = account_ids_def accounts_of_def tier_of_def parent_of_def

lemma map_if_same: "(\<And>x. P x \<Longrightarrow> g (f x) = g x) \<Longrightarrow> map g (map (\<lambda>x. if P x then f x else x) xs) = map g xs"
  by (induction xs) auto

lemma ids_same [simp]:
  "account_ids (d\<lparr>tn_plans := ps\<rparr>) = account_ids d" "account_ids (d\<lparr>tn_subs := bs\<rparr>) = account_ids d"
  "account_ids (d\<lparr>tn_addons := as\<rparr>) = account_ids d" "account_ids (d\<lparr>tn_websites := ws\<rparr>) = account_ids d"
  "account_ids (d\<lparr>tn_usage := us\<rparr>) = account_ids d" "account_ids (d\<lparr>tn_impersonations := is\<rparr>) = account_ids d"
  by (simp_all add: ids_defs)

lemma tree_same [simp]:
  "tree_ok (d\<lparr>tn_plans := ps\<rparr>) = tree_ok d" "tree_ok (d\<lparr>tn_subs := bs\<rparr>) = tree_ok d" "tree_ok (d\<lparr>tn_addons := as\<rparr>) = tree_ok d"
  "tree_ok (d\<lparr>tn_websites := ws\<rparr>) = tree_ok d" "tree_ok (d\<lparr>tn_usage := us\<rparr>) = tree_ok d"
  "tree_ok (d\<lparr>tn_impersonations := is\<rparr>) = tree_ok d"
  by (simp_all add: tree_ok_def tier_of_def parent_of_def cong: option.case_cong)

lemma stay_okI:
  assumes "tree_ok d \<Longrightarrow> tree_ok d'" "plans_ok d \<Longrightarrow> plans_ok d'" "plans_ok d \<Longrightarrow> subs_ok d \<Longrightarrow> subs_ok d'"
    "plans_ok d \<Longrightarrow> subs_ok d \<Longrightarrow> addons_ok d \<Longrightarrow> addons_ok d'" "subs_ok d \<Longrightarrow> websites_ok d \<Longrightarrow> websites_ok d'"
  shows "stay_ok d d'"
  using assms by (auto simp: stay_ok_def tables_ok_def)

lemma ok_simple:
  assumes "account_ids d' = account_ids d" "\<forall>i \<in> set (account_ids d). tier_of d' i = tier_of d i \<and> parent_of d' i = parent_of d i"
    "tn_plans d' = tn_plans d" "tn_subs d' = tn_subs d" "tn_addons d' = tn_addons d" "tn_websites d' = tn_websites d"
  shows "stay_ok d d'"
proof -
  have "tree_ok d \<Longrightarrow> tree_ok d'"
    using assms(1,2) by (force simp: tree_ok_def split: option.splits)
  then show ?thesis using assms by (simp add: stay_ok_def tables_ok_def plans_ok_def subs_ok_def addons_ok_def websites_ok_def has_plan_def)
qed

section \<open>Statements keep them\<close>

lemma panel_ok:
  assumes "map u_ID (users p) = map u_ID (users (tn_panel d))"
  shows "stay_ok d (d\<lparr>tn_panel := p\<rparr>)"
  by (rule ok_simple) (use assms in \<open>simp_all add: account_ids_def accounts_of_def tier_of_def parent_of_def\<close>)

lemma insert_account_ok:
  assumes "insert_account new params parent d = Inr d'" "TierMayOwn (tier_of d parent) (cp_Tier params)"
  shows "stay_ok d d'"
proof -
  have new: "new \<notin> set (account_ids d)" "parent \<in> set (account_ids d)"
    and d': "account_ids d' = account_ids d @ [new]"
      "tier_of d' = (tier_of d)(new := cp_Tier params)" "parent_of d' = (parent_of d)(new := Some parent)"
      "tn_plans d' = tn_plans d" "tn_subs d' = tn_subs d" "tn_addons d' = tn_addons d" "tn_websites d' = tn_websites d"
    using assms(1) account_row_ids [of d new] account_row_ids [of d parent]
    by (auto simp: insert_account_def account_ids_def accounts_of_def tier_of_def parent_of_def fun_eq_iff split: if_splits)
  have "tree_ok d \<Longrightarrow> tree_ok d'"
    using new assms(2) by (auto simp: tree_ok_def d' TierMayOwn_iff split: option.splits if_splits)
  then show ?thesis
    by (auto simp: stay_ok_def tables_ok_def plans_ok_def subs_ok_def addons_ok_def websites_ok_def has_plan_def d')
qed

lemma update_account_ok: "update_account params i d = Inr d' \<Longrightarrow> stay_ok d d'"
  by (rule ok_simple) (auto simp: update_account_def ids_defs map_if_same simp del: map_map split: if_splits)

lemma delete_account_ok:
  assumes "delete_account i d = Inr d'"
  shows "stay_ok d d'"
proof -
  have no: "i \<in> set (account_ids d)" "\<forall>j \<in> set (account_ids d). parent_of d j \<noteq> Some i"
      "\<forall>b \<in> set (tn_subs d). sb_OwnerUserID b \<noteq> i" "\<forall>q \<in> set (tn_plans d). pl_OwnerUserID q = Some i \<longrightarrow> \<not> plan_in_use d (pl_ID q)"
    and d': "account_ids d' = filter (\<lambda>j. j \<noteq> i) (account_ids d)" "tier_of d' = tier_of d" "parent_of d' = parent_of d"
      "tn_plans d' = filter (\<lambda>q. pl_OwnerUserID q \<noteq> Some i) (tn_plans d)" "tn_subs d' = tn_subs d" "tn_addons d' = tn_addons d"
      "tn_websites d' = tn_websites d"
    using assms account_row_ids [of d i]
    by (auto simp: delete_account_def drop_user_def account_ids_def accounts_of_def tier_of_def parent_of_def fun_eq_iff list_ex_iff
        filter_map comp_def Let_def split: if_splits)
  have "tree_ok d'" if "tree_ok d"
    using that no(2) by (auto simp: tree_ok_def d' split: option.splits)
  moreover have "plans_ok d'" if "plans_ok d"
    using that by (auto simp: plans_ok_def d' distinct_map intro: inj_on_subset)
  moreover have "subs_ok d'" if "subs_ok d"
    using that no(3,4) by (fastforce simp: subs_ok_def has_plan_def d' plan_in_use_def list_ex_iff)
  moreover have "addons_ok d'" if "addons_ok d"
    using that no(4) by (fastforce simp: addons_ok_def has_plan_def d' plan_in_use_def list_ex_iff)
  ultimately show ?thesis by (auto simp: stay_ok_def tables_ok_def websites_ok_def d')
qed

lemma insert_plan_ok:
  assumes "insert_plan new input owner d = Inr d'" "PlanKind (pi_Kind input) = None" "Enforcement (pi_Enforcement input) = None"
    "limits_ok (pi_Limits input)"
  shows "stay_ok d d'"
proof -
  obtain q where q: "d' = d\<lparr>tn_plans := tn_plans d @ [q]\<rparr>" "pl_ID q = new" "pl_Kind q = pi_Kind input" "pl_Enforcement q = pi_Enforcement input"
    "pl_Limits q = pi_Limits input" "pl_OwnerUserID q = owner"
    and new: "plan_row d new = None" "\<And>i. owner = Some i \<Longrightarrow> i \<in> set (account_ids d)"
    using assms(1) account_row_ids [of d] by (fastforce simp: insert_plan_def Let_def split: if_splits option.splits)
  have plans: "plans_ok d \<Longrightarrow> plans_ok d'"
    using assms(2-4) q(2-6) new plan_row_None [of d new] by (auto simp: q(1) plans_ok_def)
  show ?thesis by (rule stay_okI [OF _ plans]) (auto simp: q(1) subs_ok_def addons_ok_def websites_ok_def has_plan_def)
qed

lemma update_plan_ok:
  assumes "update_plan input i d = Inr d'" "Enforcement (pi_Enforcement input) = None" "limits_ok (pi_Limits input)"
  shows "stay_ok d d'"
proof -
  let ?f = "\<lambda>q. q\<lparr>pl_Name := trim_space (pi_Name input), pl_Description := pi_Description input,
    pl_Limits := pi_Limits input, pl_Enforcement := pi_Enforcement input, pl_Isolation := pi_Isolation input\<rparr>"
  have d': "d' = d\<lparr>tn_plans := map (\<lambda>q. if pl_ID q = i then ?f q else q) (tn_plans d)\<rparr>"
    using assms(1) by (auto simp: update_plan_def Let_def split: if_splits option.splits)
  have kinds: "has_plan d' j k" if plan: "has_plan d j k" for j k
  proof -
    obtain q where "q \<in> set (tn_plans d)" "pl_ID q = j" "pl_Kind q = k" using plan by (auto simp: has_plan_def)
    then have "(if pl_ID q = i then ?f q else q) \<in> set (tn_plans d')" "pl_ID (if pl_ID q = i then ?f q else q) = j"
      "pl_Kind (if pl_ID q = i then ?f q else q) = k" by (auto simp: d')
    then show ?thesis unfolding has_plan_def by blast
  qed
  have plans: "plans_ok d'" if "plans_ok d"
  proof -
    have "map pl_ID (tn_plans d') = map pl_ID (tn_plans d)" by (simp add: d' map_if_same del: map_map)
    then show ?thesis using that assms(2,3) by (auto simp: plans_ok_def d' simp del: map_map)
  qed
  show ?thesis
    by (rule stay_okI [OF _ plans]) (use kinds in \<open>auto simp: d' subs_ok_def addons_ok_def websites_ok_def\<close>)
qed

lemma delete_plan_ok:
  assumes "delete_plan i d = Inr d'"
  shows "stay_ok d d'"
proof -
  have d': "d' = d\<lparr>tn_plans := filter (\<lambda>q. pl_ID q \<noteq> i) (tn_plans d)\<rparr>" "\<not> plan_in_use d i"
    using assms by (auto simp: delete_plan_def split: if_splits)
  have kinds: "has_plan d j k \<Longrightarrow> j \<noteq> i \<Longrightarrow> has_plan d' j k" for j k by (auto simp: has_plan_def d'(1))
  show ?thesis
    by (rule stay_okI) (use kinds d'(2) in \<open>auto simp: plan_in_use_def list_ex_iff d'(1) plans_ok_def subs_ok_def addons_ok_def
        websites_ok_def distinct_map_filter\<close>)
qed

lemma insert_sub_ok:
  assumes "insert_sub env new planID name owner d = Inr d'" "\<And>i. te_uuid env planID = Some i \<Longrightarrow> has_plan d i PlanKindPlan"
  shows "stay_ok d d'"
proof -
  obtain plan where plan: "te_uuid env planID = Some plan" using assms(1) by (auto simp: insert_sub_def uuid_then_Inr)
  define b where "b = last (tn_subs d')"
  have b: "d' = d\<lparr>tn_subs := tn_subs d @ [b]\<rparr>" "sb_ID b = new" "sb_OwnerUserID b = owner" "sb_Status b = StatusActive" "sb_PlanID b = plan"
    and d: "\<forall>b \<in> set (tn_subs d). sb_ID b \<noteq> new" "account_row d owner \<noteq> None"
    using assms(1) plan by (auto simp: b_def insert_sub_def uuid_then_def list_ex_iff split: if_splits)
  have kinds: "has_plan d' j k = has_plan d j k" for j k by (simp add: has_plan_def b(1))
  have "subs_ok d'" if "subs_ok d"
    using that d b(2-5) assms(2) [OF plan] kinds account_row_ids [of d owner]
    by (auto simp: subs_ok_def b(1) status_ok_def image_iff)
  moreover have "addons_ok d \<Longrightarrow> addons_ok d'" "websites_ok d \<Longrightarrow> websites_ok d'"
    using kinds by (auto simp: addons_ok_def websites_ok_def b(1))
  ultimately show ?thesis by (intro stay_okI) (auto simp: plans_ok_def b(1))
qed

lemma map_subs_ok:
  assumes "\<And>b. sb_ID (f b) = sb_ID b" "\<And>b. sb_OwnerUserID (f b) = sb_OwnerUserID b" "\<And>b. status_ok b \<Longrightarrow> status_ok (f b)"
    "\<And>b. sb_PlanID (f b) = sb_PlanID b \<or> has_plan d (sb_PlanID (f b)) PlanKindPlan"
  shows "stay_ok d (map_subs i f d)"
proof -
  have ids: "map sb_ID (tn_subs (map_subs i f d)) = map sb_ID (tn_subs d)"
    by (simp add: map_subs_def map_if_same assms(1) del: map_map)
  then have set: "sb_ID ` set (tn_subs (map_subs i f d)) = sb_ID ` set (tn_subs d)" by (metis list.set_map)
  have kinds: "has_plan (map_subs i f d) = has_plan d" by (intro ext) (simp add: has_plan_def map_subs_def)
  have "subs_ok (map_subs i f d)" if "subs_ok d"
  proof -
    have "\<forall>b \<in> set (tn_subs d). sb_OwnerUserID (f b) \<in> set (account_ids d) \<and> has_plan d (sb_PlanID (f b)) PlanKindPlan \<and> status_ok (f b)"
      using that assms(2-4) unfolding subs_ok_def by metis
    then show ?thesis using that unfolding subs_ok_def kinds ids by (auto simp: map_subs_def)
  qed
  moreover have "tree_ok (map_subs i f d) = tree_ok d" "plans_ok (map_subs i f d) = plans_ok d"
    by (simp_all add: map_subs_def plans_ok_def)
  moreover have "addons_ok (map_subs i f d) = addons_ok d" "websites_ok (map_subs i f d) = websites_ok d"
    unfolding addons_ok_def websites_ok_def set kinds by (simp_all add: map_subs_def)
  ultimately show ?thesis by (auto simp: stay_ok_def tables_ok_def)
qed

lemma update_sub_ok:
  assumes "update_sub needed f i d = Inr d'" "\<And>b. sb_ID (f b) = sb_ID b" "\<And>b. sb_OwnerUserID (f b) = sb_OwnerUserID b"
    "\<And>b. status_ok b \<Longrightarrow> status_ok (f b)" "\<And>b. sb_PlanID (f b) = sb_PlanID b \<or> has_plan d (sb_PlanID (f b)) PlanKindPlan"
  shows "stay_ok d d'"
  using assms map_subs_ok [of f d i] by (auto simp: update_sub_def split: if_splits)

lemma delete_sub_ok:
  assumes "delete_sub i d = Inr d'"
  shows "stay_ok d d'"
proof -
  have d': "d' = d\<lparr>tn_subs := filter (\<lambda>b. sb_ID b \<noteq> i) (tn_subs d), tn_addons := filter (\<lambda>a. ar_SubscriptionID a \<noteq> i) (tn_addons d),
      tn_usage := filter (\<lambda>u. ur_SubscriptionID u \<noteq> i) (tn_usage d)\<rparr>" "\<forall>w \<in> set (tn_websites d). ws_SubscriptionID w \<noteq> Some i"
    using assms by (auto simp: delete_sub_def list_ex_iff split: if_splits)
  have kinds: "has_plan d' j k = has_plan d j k" for j k by (simp add: has_plan_def d'(1))
  have "websites_ok d \<Longrightarrow> websites_ok d'" using d'(2) by (fastforce simp: websites_ok_def d'(1))
  moreover have "addons_ok d \<Longrightarrow> addons_ok d'" using kinds by (auto simp: addons_ok_def d'(1))
  moreover have "subs_ok d \<Longrightarrow> subs_ok d'" using kinds by (auto simp: subs_ok_def d'(1) distinct_map_filter)
  ultimately show ?thesis by (intro stay_okI) (auto simp: d'(1) plans_ok_def)
qed

lemma set_addon_ok:
  assumes "set_addon plan quantity i d = Inr d'" "has_plan d plan PlanKindAddon"
  shows "stay_ok d d'"
proof -
  have q: "1 \<le> quantity" "quantity \<le> MaxAddonQuantity" "i \<in> sb_ID ` set (tn_subs d)"
    using assms(1) by (auto simp: set_addon_def list_ex_iff MaxAddonQuantity_def split: if_splits)
  have "d' = d\<lparr>tn_addons := tn_addons d'\<rparr>"
    "\<forall>a \<in> set (tn_addons d'). a \<in> set (tn_addons d) \<or> ar_SubscriptionID a = i \<and> ar_PlanID a = plan \<and> ar_Quantity a = quantity"
    using assms(1) by (auto simp: set_addon_def split: if_splits)
  then obtain as where as: "d' = d\<lparr>tn_addons := as\<rparr>"
    "\<forall>a \<in> set as. a \<in> set (tn_addons d) \<or> ar_SubscriptionID a = i \<and> ar_PlanID a = plan \<and> ar_Quantity a = quantity" by blast
  have "has_plan d' j k = has_plan d j k" for j k by (simp add: has_plan_def as(1))
  then show ?thesis
    by (intro stay_okI) (use as(2) q assms(2) in \<open>auto simp: as(1) plans_ok_def subs_ok_def addons_ok_def websites_ok_def\<close>)
qed

lemma remove_addon_ok: "remove_addon plan i d = Inr d' \<Longrightarrow> stay_ok d d'"
  by (rule stay_okI) (auto simp: remove_addon_def plans_ok_def subs_ok_def addons_ok_def websites_ok_def has_plan_def split: if_splits)

lemma assign_website_ok:
  assumes "assign_website sub i d = Inr d'"
  shows "stay_ok d d'"
  by (rule stay_okI) (use assms in \<open>auto simp: assign_website_def plans_ok_def subs_ok_def addons_ok_def websites_ok_def has_plan_def list_ex_iff
      split: if_splits option.splits\<close>)

lemma other_ok:
  "record_usage now ms i d = Inr d' \<Longrightarrow> stay_ok d d'" "insert_impersonation row d = Inr d' \<Longrightarrow> stay_ok d d'"
  "stay_ok d (close_records now P d)"
  by (rule ok_simple; auto simp: record_usage_def insert_impersonation_def close_records_def ids_defs split: if_splits)+

section \<open>Calls keep them\<close>

definition same_users :: "panel \<Rightarrow> panel \<Rightarrow> bool" where
  "same_users p q \<longleftrightarrow> users q = users p"

interpretation su: kept_relation same_users
  by unfold_locales (auto simp: same_users_def)

lemma panel_users:
  "keeps same_users (emit u act i rc st m)" "keeps same_users (CreateSession env new uid hash ip agent e)"
  "keeps same_users (PermissionsForUser env i)" "keeps same_users (RolesForUser env i)" "keeps same_users (Issue c env ttl bytes cl)"
  "keeps same_users (Revoke env i)" "keeps same_users (RevokeSession env i)"
  by (auto simp: keeps_def same_users_def emit_def CreateSession_def PermissionsForUser_def RolesForUser_def Issue_def Revoke_def
      RevokeSession_def store_op_def Let_def split: if_splits)

lemma Impersonate_users: "keeps same_users (Impersonate sv env dr a u rc)"
  unfolding Impersonate_def issueImpersonatedAccessToken_def by (intro su.keeps_rules panel_users)

lemma EndImpersonation_users: "keeps same_users (EndImpersonation env i)"
  unfolding EndImpersonation_def end_session_def by (intro su.keeps_rules panel_users)

lemma on_panel_ok: "keeps same_users m \<Longrightarrow> keeps (over_tables stay_ok) (on_panel m)"
  by (rule ok.keeps_panel, drule (1) keepsD, rule panel_ok) (simp add: same_users_def)

lemma audit_note_ok: "keeps (over_tables stay_ok) (audit_note actor act i m)"
  unfolding audit_note_def by (intro on_panel_ok panel_users)

lemmas ok_reads = all_reads [THEN ok.keeps_reads]

lemma SetIsolationState_ok: "keeps (over_tables stay_ok) (SetIsolationState env x st det)"
  unfolding SetIsolationState_def Let_def
  by (rule ok.keeps_change) (auto elim!: update_sub_ok simp: status_ok_def split: if_splits)

lemma applyIsolation_ok: "keeps (over_tables stay_ok) (applyIsolation env actor x)"
  unfolding applyIsolation_def Let_def
  by (intro ok.tr_rules ok_reads)
    (auto split: isolation_reply.split intro!: ok.tr_rules SetIsolationState_ok audit_note_ok)

lemma apply_each_ok: "keeps (over_tables stay_ok) (apply_each env actor xs)"
  by (induction xs) (auto intro!: ok.tr_rules applyIsolation_ok)

lemma reapply_ok: "keeps (over_tables stay_ok) (reapplyIsolationForPlan env actor x)"
  unfolding reapplyIsolationForPlan_def by (intro ok.tr_rules ok_reads apply_each_ok)

lemma AssignRole_ok: "keeps (over_tables stay_ok) (AssignRole env x role)"
  unfolding AssignRole_def
  by (intro ok.kr_rules ok.keeps_query ok.keeps_stmt)
    (auto simp: uuid_then_def add_role_def split: option.splits if_splits intro!: ok.Q_refl panel_ok)

lemma RepoCreateAccount_ok:
  assumes "TierOf env parent s = (Inr tier, t)" "TierMayOwn tier below" "cp_ParentID params = parent" "cp_Tier params = below" "db s = d"
  shows "from_tables stay_ok d (RepoCreateAccount env new params)"
  unfolding RepoCreateAccount_def
  using TierOf_Inr [OF assms(1)] assms(2-)
  by (intro ok.from_then ok.from_change_rows ok_reads) (auto intro: insert_account_ok)

lemma CreateAccount_ok: "from_tables stay_ok d (CreateAccount sv env new salt actor req)"
  unfolding CreateAccount_def Let_def
  by (intro ok.from_read ok.from_if ok.from_simple all_reads rd.kr_rules)
    (auto split: sum.split intro!: ok.from_simple ok.from_then ok.tr_rules AssignRole_ok audit_note_ok intro: RepoCreateAccount_ok)

lemma UpdateAccount_ok: "keeps (over_tables stay_ok) (UpdateAccount env actor x params)"
  unfolding UpdateAccount_def RepoUpdateAccount_def
  by (intro ok.tr_rules ok.keeps_change ok_reads audit_note_ok update_account_ok)

lemma DeleteAccount_ok: "keeps (over_tables stay_ok) (DeleteAccount env actor x)"
  unfolding DeleteAccount_def RepoDeleteAccount_def
  by (intro ok.tr_rules ok_reads audit_note_ok)
    (auto split: prod.split intro!: ok.tr_rules ok.keeps_change delete_account_ok)

lemma validatePlan_Inr:
  assumes "validatePlan req = Inr req'"
  shows "PlanKind (pr_Kind req') = None \<and> Enforcement (pr_Enforcement req') = None \<and> limits_ok (pr_Limits req')"
proof -
  have "PlanKind (pr_Kind req') = None" "Enforcement (pr_Enforcement req') = None"
    "check_each (\<lambda>(dimension, value). QuotaLimit dimension value) (quota_limits (pr_Limits req')) = None"
    using assms by (auto simp: validatePlan_def Let_def split: option.splits)
  then show ?thesis by (auto simp: limits_ok_def check_each_None QuotaLimit_None)
qed

lemma CreatePlan_ok: "keeps (over_tables stay_ok) (CreatePlan env new actor req)"
proof (cases "validatePlan req")
  case (Inr req')
  note v = validatePlan_Inr [OF Inr]
  have "stay_ok d d'"
    if "(case (case pi_OwnerUserID (input_of owner req') of None \<Rightarrow> insert_plan new (input_of owner req') None d
          | Some x \<Rightarrow> (case te_uuid env x of None \<Rightarrow> Inl StoreError | Some i \<Rightarrow> insert_plan new (input_of owner req') (Some i) d)) of
        Inl e \<Rightarrow> (Inl e, d) | Inr d' \<Rightarrow> (Inr (), d')) = (r, d')" for owner d r d'
    using that v by (auto split: sum.splits option.splits intro: ok.Q_refl elim!: insert_plan_ok simp: input_of_def)
  then show ?thesis
    unfolding CreatePlan_def RepoCreatePlan_def Inr
    by (auto intro!: ok.kr_rules ok.keeps_stmt ok_reads audit_note_ok)
qed (simp add: CreatePlan_def ok.kr_rules)

lemma UpdatePlan_ok: "keeps (over_tables stay_ok) (UpdatePlan env actor x req)"
proof -
  have "keeps (over_tables stay_ok) (case validatePlan req' of Inl e \<Rightarrow> fail_with (Invalid e)
      | Inr req \<Rightarrow> try_then (RepoUpdatePlan env x (input_of None req)) (\<lambda>q.
          try_then (audit_note actor ''tenant.plan.update'' x [(''name'', pl_Name q)]) (\<lambda>_.
          try_then (reapplyIsolationForPlan env actor x) (\<lambda>_. return_op q))))" for req'
  proof (cases "validatePlan req'")
    case (Inr req)
    note v = validatePlan_Inr [OF Inr]
    show ?thesis unfolding Inr RepoUpdatePlan_def
      by (auto intro!: ok.kr_rules ok.keeps_change ok_reads audit_note_ok reapply_ok elim!: update_plan_ok)
        (use v in \<open>simp_all add: input_of_def\<close>)
  qed (simp add: ok.kr_rules)
  then show ?thesis unfolding UpdatePlan_def by (intro ok.kr_rules ok_reads) auto
qed

lemma DeletePlan_ok: "keeps (over_tables stay_ok) (DeletePlan env actor x)"
  unfolding DeletePlan_def RepoDeletePlan_def
  by (intro ok.tr_rules ok_reads audit_note_ok ok.keeps_change delete_plan_ok)

lemma plan_for_has_plan:
  "plan_for env actor kind e x s = (Inr q, t) \<Longrightarrow> te_uuid env x = Some i \<Longrightarrow> has_plan (db s) i kind"
  by (auto dest!: plan_for_Inr plan_row_Some simp: has_plan_def)

lemma CreateSubscription_ok: "from_tables stay_ok d (CreateSubscription env new actor owner planID name)"
  unfolding CreateSubscription_def RepoCreateSubscription_def
  by (intro ok.from_read ok.from_then all_reads ok.from_change_rows)
    (auto intro!: ok.kr_rules ok.keeps_change ok_reads audit_note_ok applyIsolation_ok
      elim!: insert_sub_ok update_sub_ok dest: plan_for_has_plan simp: status_ok_def)

lemma UpdateSubscription_ok: "keeps (over_tables stay_ok) (UpdateSubscription env actor x name planID)"
proof -
  have rename: "keeps (over_tables stay_ok) (RenameSubscription env x n)" for n
    unfolding RenameSubscription_def
    by (rule ok.keeps_change) (auto simp: rename_sub_def status_ok_def elim!: update_sub_ok split: if_splits)
  have "from_tables stay_ok d (try_then (plan_for env actor PlanKindPlan ErrNotAPlan y) (\<lambda>_. SetSubscriptionPlan env x y))" for d y
    unfolding SetSubscriptionPlan_def
    by (intro ok.from_read plan_for_reads ok.from_change_rows)
      (auto simp: uuid_then_def status_ok_def elim!: update_sub_ok dest: plan_for_has_plan split: option.splits if_splits)
  then have move: "keeps (over_tables stay_ok) (try_then (plan_for env actor PlanKindPlan ErrNotAPlan y) (\<lambda>_. SetSubscriptionPlan env x y))" for y
    by (rule ok.keeps_from)
  show ?thesis
    unfolding UpdateSubscription_def
    by (cases name; cases planID; simp only: option.case) (intro ok.kr_rules ok_reads audit_note_ok applyIsolation_ok rename move)+
qed

lemma SetSubscriptionStatus_ok: "keeps (over_tables stay_ok) (SetSubscriptionStatus env actor x status reason)"
proof (cases "status \<in> {StatusActive, StatusSuspended}")
  case True
  have "keeps (over_tables stay_ok) (RepoSetSubscriptionStatus env x status reason)"
    unfolding RepoSetSubscriptionStatus_def Let_def
    using True by (auto intro!: ok.keeps_change elim!: update_sub_ok simp: status_ok_def split: prod.split)
  then show ?thesis unfolding SetSubscriptionStatus_def by (intro ok.tr_rules ok_reads audit_note_ok)
qed (simp add: SetSubscriptionStatus_def ok.kr_rules)

lemma DeleteSubscription_ok: "keeps (over_tables stay_ok) (DeleteSubscription env actor x)"
  unfolding DeleteSubscription_def RepoDeleteSubscription_def
  by (intro ok.tr_rules ok_reads audit_note_ok ok.keeps_change delete_sub_ok)

lemma AddAddon_ok: "from_tables stay_ok d (AddAddon env actor x planID quantity)"
  unfolding AddAddon_def SetAddon_def
  by (intro ok.from_read ok.from_then all_reads ok.from_change_rows)
    (auto simp: uuid_then_Inr intro!: ok.kr_rules ok_reads audit_note_ok elim!: set_addon_ok dest: plan_for_has_plan)

lemma RemoveAddon_ok: "keeps (over_tables stay_ok) (RemoveAddon env actor x planID)"
  unfolding RemoveAddon_def RepoRemoveAddon_def
  by (intro ok.tr_rules ok_reads audit_note_ok ok.keeps_change) (auto simp: uuid_then_Inr intro: remove_addon_ok)

lemma RepoAssignWebsite_ok: "keeps (over_tables stay_ok) (RepoAssignWebsite env w x)"
  unfolding RepoAssignWebsite_def
  by (intro ok.keeps_change) (auto simp: uuid_then_Inr intro: assign_website_ok split: option.splits)

lemma AssignWebsite_ok: "keeps (over_tables stay_ok) (AssignWebsite env actor x w)"
  unfolding AssignWebsite_def by (intro ok.tr_rules ok_reads audit_note_ok RepoAssignWebsite_ok)

lemma AssignNewWebsite_ok: "keeps (over_tables stay_ok) (AssignNewWebsite env owner x w)"
  unfolding AssignNewWebsite_def by (intro ok.tr_rules ok_reads RepoAssignWebsite_ok)

lemma ReleaseWebsite_ok: "keeps (over_tables stay_ok) (ReleaseWebsite env actor x w)"
proof -
  have fail: "keeps (over_tables stay_ok) (\<lambda>s. (Inl ErrNotFound, s) :: (tenancy_err + subscription_view) \<times> store)"
    by (simp add: keeps_def over_tables_def ok.Q_refl)
  have go: "keeps (over_tables stay_ok) (\<lambda>s. if b then (Inl ErrNotFound, s) else
      try_then (RepoAssignWebsite env w None) (\<lambda>_. try_then (audit_note actor act x m) (\<lambda>_. Subscription env actor x)) s)" for b act m
    by (cases b) (simp_all add: fail ok.kr_rules ok_reads audit_note_ok RepoAssignWebsite_ok)
  show ?thesis unfolding ReleaseWebsite_def by (intro ok.kr_rules ok_reads ok.keeps_case fail go)
qed

lemma ApplyIsolation_ok: "keeps (over_tables stay_ok) (ApplyIsolation env actor x)"
  unfolding ApplyIsolation_def by (intro ok.tr_rules ok_reads applyIsolation_ok)

lemma RecordUsage_ok: "keeps (over_tables stay_ok) (RecordUsage env ms)"
  unfolding RecordUsage_def by (intro ok.keeps_change other_ok)

lemma sampleOne_ok: "keeps (over_tables stay_ok) (sampleOne env x roots period)"
  unfolding sampleOne_def Let_def
  by (auto split: sum.split prod.split intro!: ok.kr_rules ok.keeps_log ok.keeps_ask RecordUsage_ok)

lemma MeasureOne_ok: "keeps (over_tables stay_ok) (MeasureOne env actor x)"
  unfolding MeasureOne_def by (intro ok.kr_rules ok_reads sampleOne_ok)

lemma sample_each_ok: "keeps (over_tables stay_ok) (sample_each env period xs)"
  by (induction env period xs rule: sample_each.induct) (auto intro!: ok.kr_rules sampleOne_ok)

lemma SampleAll_ok: "keeps (over_tables stay_ok) (SampleAll env order)"
  unfolding SampleAll_def by (intro ok.kr_rules ok_reads sample_each_ok)

lemma recordImpersonation_ok: "keeps (over_tables stay_ok) (recordImpersonation env actor i sid reason)"
  unfolding recordImpersonation_def by (intro ok.keeps_change other_ok)

lemma StartImpersonation_ok: "keeps (over_tables stay_ok) (StartImpersonation sv env dr actor x reason)"
  unfolding StartImpersonation_def Let_def
  by (intro ok.kr_rules ok_reads on_panel_ok Impersonate_users)
    (auto intro!: ok.keeps_case ok.kr_rules ok.keeps_log recordImpersonation_ok on_panel_ok EndImpersonation_users audit_note_ok)

lemma TenancyEndImpersonation_ok: "keeps (over_tables stay_ok) (TenancyEndImpersonation env cl ip)"
  unfolding TenancyEndImpersonation_def
  by (intro ok.kr_rules on_panel_ok EndImpersonation_users panel_users ok.keeps_change) (auto intro: other_ok)

lemma CloseStale_ok: "keeps (over_tables stay_ok) (CloseStaleImpersonations env)"
  unfolding CloseStaleImpersonations_def by (rule ok.keeps_stmt) (auto intro: other_ok)

lemma perform_ok: "keeps (over_tables stay_ok) (tenancy_perform sv env actor call)"
  by (cases call)
    (simp_all add: ok.keeps_void UpdateAccount_ok DeleteAccount_ok CreatePlan_ok UpdatePlan_ok DeletePlan_ok UpdateSubscription_ok
      SetSubscriptionStatus_ok DeleteSubscription_ok RemoveAddon_ok AssignWebsite_ok ReleaseWebsite_ok ApplyIsolation_ok MeasureOne_ok
      StartImpersonation_ok ok.keeps_from [OF CreateAccount_ok] ok.keeps_from [OF CreateSubscription_ok] ok.keeps_from [OF AddAddon_ok])

lemma tenancy_request_ok: "keeps (over_tables stay_ok) (tenancy_request sv env cl ip agent call)"
  unfolding tenancy_request_def by (intro ok.kr_rules ok_reads perform_ok)

end
