(* ===== verification/Api_Quota.thy ===== *)
theory Api_Quota
  imports Api_Tenancy_Tables
begin

text \<open>
  Quotas (\<open>api/internal/tenancy/quota.go\<close>, and the table of guarded routes in \<open>api/internal/server/server.go\<close>):
  the limits of a plan with its add-ons, the decision whether a subscription may have one more of
  something, and the guard around the router. An answer of the guard is the request let through, with
  the warning of a soft limit, or a refusal. The routing of \<open>http.ServeMux\<close> is the matching of a method
  and segments; the table has no two patterns for one request. What \<open>json.Unmarshal\<close> makes of a body is a
  parameter. An amount is at most ten million and a quantity at most a thousand, so their sums stay
  far below the 64 bits of an \<open>int\<close>.
\<close>

section \<open>Limits and decisions\<close>

definition Used :: "usage \<Rightarrow> go_string \<Rightarrow> int" where
  "Used u dimension =
     int (if dimension = DimensionWebsites then Websites u
          else if dimension = DimensionDatabases then Databases u
          else if dimension = DimensionMailboxes then Mailboxes u
          else if dimension = DimensionFTPUsers then FTPUsers u
          else if dimension = DimensionCronJobs then CronJobs u
          else if dimension = DimensionSubdomains then Subdomains u
          else 0)"

definition Limit :: "limits \<Rightarrow> go_string \<Rightarrow> int option" where
  "Limit l dimension =
     (if dimension = DimensionWebsites then MaxWebsites l
      else if dimension = DimensionDatabases then MaxDatabases l
      else if dimension = DimensionMailboxes then MaxMailboxes l
      else if dimension = DimensionFTPUsers then MaxFTPUsers l
      else if dimension = DimensionCronJobs then MaxCronJobs l
      else if dimension = DimensionSubdomains then MaxSubdomains l
      else if dimension = DimensionDisk then DiskMB l
      else if dimension = DimensionBandwidth then BandwidthMB l
      else None)"

record decision =
  dc_Allowed :: bool
  dc_Dimension :: go_string
  dc_Used :: int
  dc_Limit :: "int option"
  dc_OverSoftLimit :: bool
  dc_Reason :: go_string

definition spaced :: "go_string \<Rightarrow> go_string" where
  "spaced s = map (\<lambda>c. if c = CHR ''_'' then CHR '' '' else c) s"

text \<open>What \<open>CheckQuota\<close> answers once the rows are read.\<close>

definition decide :: "subscription \<Rightarrow> plan \<Rightarrow> addon list \<Rightarrow> usage \<Rightarrow> go_string \<Rightarrow> decision" where
  "decide b q addons usage dimension =
     (let used = Used usage dimension; limit = Limit (EffectiveLimits (pl_Limits q) addons) dimension;
          answer = \<lparr>dc_Allowed = False, dc_Dimension = dimension, dc_Used = used, dc_Limit = limit, dc_OverSoftLimit = False, dc_Reason = []\<rparr>
      in if sb_Status b = StatusSuspended then answer\<lparr>dc_Reason := ''this subscription is suspended: '' @ sb_SuspendedReason b\<rparr>
         else (case limit of
                 None \<Rightarrow> answer\<lparr>dc_Allowed := True\<rparr>
               | Some most \<Rightarrow>
                   if used < most then answer\<lparr>dc_Allowed := True\<rparr>
                   else if pl_Enforcement q = EnforcementSoft
                   then answer\<lparr>dc_Allowed := True, dc_OverSoftLimit := True,
                          dc_Reason := ''this subscription is over its '' @ dimension @ '' limit ('' @ itoa used @ '' of '' @ itoa most @
                            '') and its plan allows it''\<rparr>
                   else answer\<lparr>dc_Reason := ''this subscription's plan allows '' @ itoa most @ '' '' @ spaced dimension @ '' and '' @
                            itoa used @ '' are in use''\<rparr>))"

definition CheckQuota :: "tenancy_env \<Rightarrow> go_string \<Rightarrow> go_string \<Rightarrow> decision tenancy_op" where
  "CheckQuota env subscriptionID dimension =
     try_then (valid_or (QuotaDimension dimension)) (\<lambda>_.
       if dimension \<in> {DimensionDisk, DimensionBandwidth} then fail_with ErrMeasured
       else
         try_then (GetSubscription env subscriptionID) (\<lambda>b.
         try_then (GetPlan env (sb_PlanID b)) (\<lambda>q.
         try_then (ListAddons env subscriptionID) (\<lambda>addons.
         try_then (CountUsage env subscriptionID) (\<lambda>usage.
           return_op (decide b q addons usage dimension))))))"

section \<open>The guard\<close>

definition SubjectCaller :: go_string where "SubjectCaller = ''caller''"
definition SubjectBodySubscription :: go_string where "SubjectBodySubscription = ''body.subscription_id''"
definition SubjectPathWebsite :: go_string where "SubjectPathWebsite = ''path.website''"
definition SubjectBodyWebsite :: go_string where "SubjectBodyWebsite = ''body.website_id''"
definition SubjectPathMailDomain :: go_string where "SubjectPathMailDomain = ''path.mail_domain''"

lemmas subject_names = SubjectCaller_def SubjectBodySubscription_def SubjectPathWebsite_def SubjectBodyWebsite_def
  SubjectPathMailDomain_def

record quota_rule =
  ru_Dimension :: go_string
  ru_Subject :: go_string

datatype segment = Seg go_string | IdSegment

record route =
  ro_Method :: go_string
  ro_Segments :: "segment list"

datatype json_field = TextField go_string | OtherField

text \<open>\<open>gq_Segments\<close> are the segments of the path as routing unescapes them, none when the path is not
  clean and the router answers with a redirection.\<close>

record guard_request =
  gq_Method :: go_string
  gq_Segments :: "go_string list option"
  gq_URLPath :: go_string
  gq_Authorization :: go_string
  gq_Body :: "go_string option"
  gq_IPAddress :: go_string
  gq_UserAgent :: go_string

type_synonym json_object = "go_string \<Rightarrow> json_field option"

definition known_subject :: "go_string \<Rightarrow> bool" where
  "known_subject x \<longleftrightarrow> x \<in> {SubjectCaller, SubjectBodySubscription, SubjectPathWebsite, SubjectBodyWebsite, SubjectPathMailDomain}"

fun NewGuard :: "(route \<times> quota_rule) list \<Rightarrow> tenancy_err + (route \<times> quota_rule) list" where
  "NewGuard [] = Inr []"
| "NewGuard ((pattern, rule) # rules) =
     (case QuotaDimension (ru_Dimension rule) of
        Some e \<Rightarrow> Inl (Invalid e)
      | None \<Rightarrow>
          if ru_Dimension rule \<in> {DimensionDisk, DimensionBandwidth} then Inl ErrMeasured
          else if \<not> known_subject (ru_Subject rule) then Inl ErrUnknownSubject
          else (case NewGuard rules of Inl e \<Rightarrow> Inl e | Inr known \<Rightarrow> Inr ((pattern, rule) # known)))"

text \<open>The table of \<open>server.go\<close>.\<close>

definition post :: "segment list \<Rightarrow> route" where
  "post rest = \<lparr>ro_Method = ''POST'', ro_Segments = [Seg ''api'', Seg ''v1''] @ rest\<rparr>"

definition quota_table :: "(route \<times> quota_rule) list" where
  "quota_table =
     [(post [Seg ''websites''], \<lparr>ru_Dimension = DimensionWebsites, ru_Subject = SubjectBodySubscription\<rparr>),
      (post [Seg ''websites'', IdSegment, Seg ''subdomains''], \<lparr>ru_Dimension = DimensionSubdomains, ru_Subject = SubjectPathWebsite\<rparr>),
      (post [Seg ''databases''], \<lparr>ru_Dimension = DimensionDatabases, ru_Subject = SubjectBodyWebsite\<rparr>),
      (post [Seg ''mail'', Seg ''domains'', IdSegment, Seg ''mailboxes''],
         \<lparr>ru_Dimension = DimensionMailboxes, ru_Subject = SubjectPathMailDomain\<rparr>),
      (post [Seg ''ftp'', Seg ''users''], \<lparr>ru_Dimension = DimensionFTPUsers, ru_Subject = SubjectBodyWebsite\<rparr>),
      (post [Seg ''cron''], \<lparr>ru_Dimension = DimensionCronJobs, ru_Subject = SubjectBodyWebsite\<rparr>)]"

fun segments_match :: "segment list \<Rightarrow> go_string list \<Rightarrow> bool" where
  "segments_match [] [] \<longleftrightarrow> True"
| "segments_match (Seg x # ps) (y # ys) \<longleftrightarrow> x = y \<and> segments_match ps ys"
| "segments_match (IdSegment # ps) (y # ys) \<longleftrightarrow> y \<noteq> [] \<and> segments_match ps ys"
| "segments_match _ _ \<longleftrightarrow> False"

fun path_value :: "segment list \<Rightarrow> go_string list \<Rightarrow> go_string" where
  "path_value (IdSegment # ps) (y # ys) = y"
| "path_value (Seg _ # ps) (_ # ys) = path_value ps ys"
| "path_value _ _ = []"

text \<open>The rule for a request and its path value \<open>id\<close>.\<close>

definition guard_resolve :: "(route \<times> quota_rule) list \<Rightarrow> guard_request \<Rightarrow> (quota_rule \<times> go_string) option" where
  "guard_resolve rules r =
     (case gq_Segments r of
        None \<Rightarrow> None
      | Some segments \<Rightarrow>
          map_option (\<lambda>(pattern, rule). (rule, path_value (ro_Segments pattern) segments))
            (find (\<lambda>(pattern, rule). ro_Method pattern = gq_Method r \<and> segments_match (ro_Segments pattern) segments) rules))"

definition maxGuardBody :: nat where "maxGuardBody = 65536"

text \<open>The fields read, and the body the handler will read after.\<close>

definition readBody :: "(go_string \<Rightarrow> json_object option) \<Rightarrow> go_string option \<Rightarrow> json_object option \<times> go_string option" where
  "readBody decode body =
     (case body of
        None \<Rightarrow> (None, None)
      | Some bytes \<Rightarrow>
          let buffered = take (maxGuardBody + 1) bytes; rest = drop (maxGuardBody + 1) bytes in
            if length buffered > maxGuardBody then (None, Some (buffered @ rest))
            else (decode buffered, Some buffered))"

definition stringField :: "json_object option \<Rightarrow> go_string \<Rightarrow> go_string" where
  "stringField body name =
     (case body of
        None \<Rightarrow> []
      | Some obj \<Rightarrow> trim_space (case obj name of Some (TextField value) \<Rightarrow> value | _ \<Rightarrow> []))"

definition guard_authenticate :: "service \<Rightarrow> tenancy_env \<Rightarrow> guard_request \<Rightarrow> claims tenancy_op" where
  "guard_authenticate sv env r =
     (let (scheme, token, present) = cut CHR '' '' (gq_Authorization r) in
        if \<not> present \<or> \<not> equal_fold scheme ''Bearer'' then fail_with (SignIn ErrInvalidToken)
        else on_panel (Authenticate sv (te_auth env) (trim_space token)))"

definition callerSubscription :: "tenancy_env \<Rightarrow> go_string \<Rightarrow> go_string tenancy_op" where
  "callerSubscription env callerID =
     try_then (SubscriptionsForOwner env callerID) (\<lambda>ids. return_op (if ids = [] then [] else hd ids))"

text \<open>A lookup whose miss means that nobody is charged.\<close>

definition or_nobody :: "'a tenancy_op \<Rightarrow> ('a \<Rightarrow> go_string tenancy_op) \<Rightarrow> go_string tenancy_op" where
  "or_nobody m f s =
     (case m s of
        (Inl e, s) \<Rightarrow> (if e = ErrNotFound then Inr [] else Inl e, s)
      | (Inr a, s) \<Rightarrow> f a s)"

definition fromWebsite :: "tenancy_env \<Rightarrow> go_string \<Rightarrow> go_string \<Rightarrow> go_string tenancy_op" where
  "fromWebsite env callerID websiteID =
     (if websiteID = [] then callerSubscription env callerID
      else or_nobody (SubscriptionForWebsite env websiteID) return_op)"

definition subjectFor :: "tenancy_env \<Rightarrow> quota_rule \<Rightarrow> go_string \<Rightarrow> json_object option \<Rightarrow> go_string \<Rightarrow> go_string tenancy_op" where
  "subjectFor env rule pathID body callerID =
     (if ru_Subject rule = SubjectCaller then callerSubscription env callerID
      else if ru_Subject rule = SubjectBodySubscription then
        (let x = stringField body ''subscription_id'' in if x \<noteq> [] then return_op x else callerSubscription env callerID)
      else if ru_Subject rule = SubjectPathWebsite then fromWebsite env callerID pathID
      else if ru_Subject rule = SubjectBodyWebsite then fromWebsite env callerID (stringField body ''website_id'')
      else if ru_Subject rule = SubjectPathMailDomain then or_nobody (WebsiteForMailDomain env pathID) (fromWebsite env callerID)
      else fail_with ErrUnknownSubject)"

definition recordRefusal :: "go_string \<Rightarrow> go_string \<Rightarrow> decision \<Rightarrow> guard_request \<Rightarrow> unit tenancy_op" where
  "recordRefusal userID subscriptionID d r =
     on_panel (emit userID ''tenant.quota.refused'' subscriptionID
       \<lparr>rq_IPAddress = gq_IPAddress r, rq_UserAgent = gq_UserAgent r\<rparr> ''FAILURE''
       [(''dimension'', dc_Dimension d), (''used'', itoa (dc_Used d)),
        (''limit'', case dc_Limit d of None \<Rightarrow> ''null'' | Some n \<Rightarrow> itoa n), (''path'', gq_URLPath r)])"

datatype guard_reply = Passed "go_string option" | Failed tenancy_err | Conflict go_string

definition Middleware ::
  "service \<Rightarrow> tenancy_env \<Rightarrow> (go_string \<Rightarrow> json_object option) \<Rightarrow> (route \<times> quota_rule) list \<Rightarrow> guard_request \<Rightarrow> store \<Rightarrow> guard_reply \<times> store" where
  "Middleware sv env decode rules r s =
     (case guard_resolve rules r of
        None \<Rightarrow> (Passed None, s)
      | Some (rule, pathID) \<Rightarrow>
          (case guard_authenticate sv env r s of
             (Inl e, s) \<Rightarrow> (Passed None, s)
           | (Inr cl, s) \<Rightarrow>
               (case subjectFor env rule pathID (fst (readBody decode (gq_Body r))) (c_UserID cl) s of
                  (Inl e, s) \<Rightarrow> (Failed e, s)
                | (Inr x, s) \<Rightarrow>
                    if x = [] then (Passed None, s)
                    else (case CheckQuota env x (ru_Dimension rule) s of
                            (Inl e, s) \<Rightarrow> (if e = ErrNotFound then Passed None else Failed e, s)
                          | (Inr d, s) \<Rightarrow>
                              if \<not> dc_Allowed d then (Conflict (dc_Reason d), snd (recordRefusal (c_UserID cl) x d r s))
                              else (Passed (if dc_OverSoftLimit d then Some (dc_Reason d) else None), s)))))"

section \<open>Limits add up\<close>

lemma addLimit_min:
  assumes "within_limit increment" "1 \<le> quantity" "t \<ge> 0"
  shows "addLimit (Some (min MaxLimitValue t)) increment quantity =
    Some (min MaxLimitValue (t + quantity * (case increment of None \<Rightarrow> 0 | Some n \<Rightarrow> n)))"
proof (cases increment)
  case (Some n)
  then have n: "0 \<le> n" using assms(1) by (simp add: within_limit_def)
  then have "0 \<le> n * quantity" using assms(2) by simp
  then show ?thesis using Some assms(2) by (auto simp: addLimit_def Let_def min_def mult.commute)
qed (simp add: addLimit_def)

lemma if_cases: "a = addLimit b c n \<Longrightarrow> a' = addLimit b' c' n \<Longrightarrow> (if p then a else a') = addLimit (if p then b else b') (if p then c else c') n"
  by simp

lemma Limit_add_limits: "Limit (add_limits l a) dimension = addLimit (Limit l dimension) (Limit (ad_Limits a) dimension) (ad_Quantity a)"
proof -
  have none: "addLimit None None (ad_Quantity a) = None" by (simp add: addLimit_def)
  show ?thesis
    unfolding Limit_def by (intro if_cases none [symmetric]) (simp_all add: add_limits_def Let_def)
qed

lemma limits_ok_Limit: "limits_ok l \<Longrightarrow> within_limit (Limit l dimension)"
  by (simp add: limits_ok_def quota_limits_def Limit_def within_limit_def)

definition addon_ok :: "addon \<Rightarrow> bool" where
  "addon_ok a \<longleftrightarrow> limits_ok (ad_Limits a) \<and> 1 \<le> ad_Quantity a"

definition sold_on_top :: "addon list \<Rightarrow> go_string \<Rightarrow> int" where
  "sold_on_top addons dimension =
     (\<Sum>a \<leftarrow> addons. ad_Quantity a * (case Limit (ad_Limits a) dimension of None \<Rightarrow> 0 | Some n \<Rightarrow> n))"

lemma sold_on_top_nonneg: "\<forall>a \<in> set addons. addon_ok a \<Longrightarrow> 0 \<le> sold_on_top addons dimension"
  using limits_ok_Limit unfolding sold_on_top_def addon_ok_def
  by (intro sum_list_nonneg) (fastforce simp: within_limit_def split: option.splits)

lemma EffectiveLimits_None: "Limit l dimension = None \<Longrightarrow> Limit (EffectiveLimits l addons) dimension = None"
  unfolding EffectiveLimits_def by (induction addons arbitrary: l) (simp_all add: Limit_add_limits addLimit_def)

lemma EffectiveLimits_Some:
  assumes "\<forall>a \<in> set addons. addon_ok a" "Limit l dimension = Some (min MaxLimitValue t)" "0 \<le> t"
  shows "Limit (EffectiveLimits l addons) dimension = Some (min MaxLimitValue (t + sold_on_top addons dimension))"
  using assms unfolding EffectiveLimits_def
proof (induction addons arbitrary: l t)
  case (Cons a addons)
  let ?n = "case Limit (ad_Limits a) dimension of None \<Rightarrow> 0 | Some n \<Rightarrow> n"
  have a: "within_limit (Limit (ad_Limits a) dimension)" "1 \<le> ad_Quantity a"
    using Cons.prems(1) limits_ok_Limit by (auto simp: addon_ok_def)
  then have n: "0 \<le> ?n" by (simp add: within_limit_def split: option.splits)
  have "Limit (add_limits l a) dimension = Some (min MaxLimitValue (t + ad_Quantity a * ?n))"
    using addLimit_min [OF a Cons.prems(3)] Cons.prems(2) by (simp add: Limit_add_limits)
  then show ?case
    using Cons.IH [of "add_limits l a" "t + ad_Quantity a * ?n"] Cons.prems(1,3) a n by (simp add: sold_on_top_def add.assoc)
qed (simp add: sold_on_top_def)

lemma Limit_sum:
  assumes "limits_ok l" "\<forall>a \<in> set addons. addon_ok a"
  shows "Limit (EffectiveLimits l addons) dimension =
    map_option (\<lambda>base. min MaxLimitValue (base + sold_on_top addons dimension)) (Limit l dimension)"
proof (cases "Limit l dimension")
  case (Some base)
  then have "0 \<le> base" "base \<le> MaxLimitValue" using limits_ok_Limit [OF assms(1), of dimension] by (simp_all add: within_limit_def)
  then show ?thesis using EffectiveLimits_Some [OF assms(2), of l dimension base] Some by simp
qed (simp add: EffectiveLimits_None)

section \<open>Rows behind a decision\<close>

definition addons_of :: "tenancy \<Rightarrow> go_string \<Rightarrow> addon list" where
  "addons_of d i =
     sort_key (\<lambda>a. to_lower (ad_Name a))
       [\<lparr>ad_PlanID = ar_PlanID a, ad_Name = pl_Name q, ad_Quantity = ar_Quantity a, ad_Limits = pl_Limits q\<rparr>.
          a \<leftarrow> tn_addons d, ar_SubscriptionID a = i, q \<leftarrow> tn_plans d, pl_ID q = ar_PlanID a]"

lemma addons_of_ok: "plans_ok d \<Longrightarrow> addons_ok d \<Longrightarrow> a \<in> set (addons_of d i) \<Longrightarrow> addon_ok a"
  by (auto simp: addons_of_def addon_ok_def plans_ok_def addons_ok_def)

lemma ListAddons_Inr: "ListAddons env x s = (Inr as, t) \<Longrightarrow> \<exists>i. te_uuid env x = Some i \<and> as = addons_of (db s) i"
  unfolding ListAddons_def addons_of_def by (drule query_Inr) (auto simp: uuid_then_Inr)

lemma Used_measured [simp]:
  "Used (u\<lparr>DiskBytes := a, BandwidthBytes := b, us_PeriodStart := c, us_MeasuredAt := e, us_MeasureError := f\<rparr>) dimension = Used u dimension"
  by (simp add: Used_def)

lemma CountUsage_Inr:
  assumes "CountUsage env x s = (Inr u, t)"
  shows "\<exists>i. te_uuid env x = Some i \<and> Used u dimension = Used (count_usage (db s) i) dimension"
proof -
  obtain c q where c: "query env (\<lambda>d. uuid_then env x (\<lambda>i. Inr (count_usage d i))) s = (Inr c, q)"
      "Used u dimension = Used c dimension"
    using assms by (auto simp: CountUsage_def try_then_Inr op_simps split: option.splits)
  then show ?thesis using query_Inr [OF c(1)] by (auto simp: uuid_then_Inr)
qed

lemma decide_usage: "Used u dimension = Used v dimension \<Longrightarrow> decide b q as u dimension = decide b q as v dimension"
  by (simp add: decide_def)

lemma CheckQuota_Inr:
  assumes "CheckQuota env x dimension s = (Inr v, t)" "te_uuid env x = Some i" "sub_row (db s) i = Some b"
    "te_uuid env (sb_PlanID b) = Some (sb_PlanID b)" "plan_row (db s) (sb_PlanID b) = Some q"
  shows "v = decide b q (addons_of (db s) i) (count_usage (db s) i) dimension \<and> db t = db s"
proof -
  obtain b' s1 q' s2 as s3 u where r:
      "GetSubscription env x s = (Inr b', s1)" "GetPlan env (sb_PlanID b') s1 = (Inr q', s2)"
      "ListAddons env x s2 = (Inr as, s3)" "CountUsage env x s3 = (Inr u, t)" "v = decide b' q' as u dimension"
    using assms(1) by (auto simp: CheckQuota_def try_then_Inr op_simps valid_or_def split: if_splits option.splits)
  have d: "db s1 = db s" "db s2 = db s" "db s3 = db s" "db t = db s"
    using readsD [OF store_reads(5) r(1)] readsD [OF store_reads(4) r(2)] readsD [OF store_reads(6) r(3)] readsD [OF CountUsage_reads r(4)]
    by simp_all
  have "b' = b" using GetSubscription_Inr [OF r(1)] assms(2,3) by simp
  moreover have "q' = q" using GetPlan_Inr [OF r(2)] assms(4,5) d calculation by simp
  moreover have "as = addons_of (db s) i" using ListAddons_Inr [OF r(3)] assms(2) d by simp
  moreover have "Used u dimension = Used (count_usage (db s) i) dimension"
    using CountUsage_Inr [OF r(4), of dimension] assms(2) d by auto
  ultimately show ?thesis using r(5) d decide_usage by metis
qed

text \<open>With the rows there, only a failing store keeps the question from being answered.\<close>

lemma CheckQuota_Inl:
  assumes "CheckQuota env x dimension s = (Inl e, t)" "te_uuid env x = Some i" "sub_row (db s) i = Some b"
    "te_uuid env (sb_PlanID b) = Some (sb_PlanID b)" "plan_row (db s) (sb_PlanID b) = Some q"
    "QuotaDimension dimension = None" "dimension \<notin> {DimensionDisk, DimensionBandwidth}"
  shows "e = StoreError \<and> (\<exists>n. te_fails env n)"
  using assms
  by (auto simp: CheckQuota_def CountUsage_def readMeasuredUsage_def GetSubscription_def GetPlan_def ListAddons_def query_def stmt_def
      try_then_def op_simps valid_or_def uuid_then_def found_def Let_def split: if_splits option.splits sum.splits prod.splits)

lemma fromWebsite_reads: "reads (fromWebsite env callerID x)"
  unfolding fromWebsite_def callerSubscription_def or_nobody_def
  by (intro rd.tr_rules all_reads rd.keeps_case)
    (auto simp: keeps_def over_tables_def same_tables_def)

lemma subjectFor_reads: "reads (subjectFor env rule pathID body callerID)"
  unfolding subjectFor_def Let_def callerSubscription_def or_nobody_def
  by (intro rd.tr_rules all_reads rd.keeps_case fromWebsite_reads)
    (auto simp: keeps_def over_tables_def same_tables_def dest: readsD [OF fromWebsite_reads])

lemma NewGuard_Inr: "NewGuard table = Inr rules \<Longrightarrow> rules = table \<and> (\<forall>(pattern, rule) \<in> set table.
    QuotaDimension (ru_Dimension rule) = None \<and> ru_Dimension rule \<notin> {DimensionDisk, DimensionBandwidth} \<and> known_subject (ru_Subject rule))"
  by (induction table arbitrary: rules rule: NewGuard.induct) (auto split: option.splits if_splits sum.splits)

lemma readBody_keeps_body: "snd (readBody decode body) = body"
  by (simp add: readBody_def Let_def split: option.splits)


section \<open>The table of routes\<close>

lemma quota_table_accepted: "NewGuard quota_table = Inr quota_table"
  by (simp add: quota_table_def QuotaDimension_def known_subject_def dimension_names subject_names)

text \<open>No request segments_match two patterns of the table, so the order in which they are tried does not show.\<close>

fun apart :: "segment list \<Rightarrow> segment list \<Rightarrow> bool" where
  "apart [] [] \<longleftrightarrow> False"
| "apart (Seg x # ps) (Seg y # qs) \<longleftrightarrow> x \<noteq> y \<or> apart ps qs"
| "apart (p # ps) (q # qs) \<longleftrightarrow> apart ps qs"
| "apart _ _ \<longleftrightarrow> True"

lemma segments_match_Cons: "segments_match (p # ps) ys \<longleftrightarrow> (\<exists>y zs. ys = y # zs \<and> (case p of Seg x \<Rightarrow> x = y | IdSegment \<Rightarrow> y \<noteq> []) \<and> segments_match ps zs)"
  by (cases ys; cases p) auto

lemma segments_match_Nil: "segments_match [] ys \<longleftrightarrow> ys = []"
  by (cases ys) auto

lemma apart_fits: "apart ps qs \<Longrightarrow> segments_match ps ys \<Longrightarrow> segments_match qs ys \<Longrightarrow> False"
  by (induction ps qs arbitrary: ys rule: apart.induct) (auto simp: segments_match_Cons segments_match_Nil)

lemma quota_table_apart: "sorted_wrt (\<lambda>x y. apart (ro_Segments (fst x)) (ro_Segments (fst y))) quota_table"
  by (simp add: quota_table_def post_def)

lemma quota_table_exclusive:
  assumes "x \<in> set quota_table" "y \<in> set quota_table" "segments_match (ro_Segments (fst x)) ys" "segments_match (ro_Segments (fst y)) ys"
  shows "x = y"
proof -
  obtain i j where "i < length quota_table" "x = quota_table ! i" "j < length quota_table" "y = quota_table ! j"
    using assms(1,2) by (auto simp: in_set_conv_nth)
  then show ?thesis
    using sorted_wrt_nth_less [OF quota_table_apart, of i j] sorted_wrt_nth_less [OF quota_table_apart, of j i] assms(3,4) apart_fits
    by (cases i j rule: linorder_cases) metis+
qed

lemma resolve_rule:
  assumes "guard_resolve quota_table r = Some (rule, pathID)"
  shows "QuotaDimension (ru_Dimension rule) = None" "ru_Dimension rule \<notin> {DimensionDisk, DimensionBandwidth}"
proof -
  obtain pattern where "(pattern, rule) \<in> set quota_table"
    using assms by (auto simp: guard_resolve_def find_Some_iff split: option.splits) (metis nth_mem)
  then show "QuotaDimension (ru_Dimension rule) = None" "ru_Dimension rule \<notin> {DimensionDisk, DimensionBandwidth}"
    using NewGuard_Inr [OF quota_table_accepted] by fastforce+
qed

section \<open>The guard holds\<close>

text \<open>What a subscription may have of a dimension, from its rows.\<close>

definition allowance :: "tenancy \<Rightarrow> go_string \<Rightarrow> plan \<Rightarrow> go_string \<Rightarrow> int option" where
  "allowance d i q dimension =
     map_option (\<lambda>base. min MaxLimitValue (base + sold_on_top (addons_of d i) dimension)) (Limit (pl_Limits q) dimension)"

lemma allowance_eq:
  assumes "tables_ok d" "plan_row d p = Some q"
  shows "Limit (EffectiveLimits (pl_Limits q) (addons_of d i)) dimension = allowance d i q dimension"
proof -
  have "limits_ok (pl_Limits q)" using assms plan_row_Some by (fastforce simp: tables_ok_def plans_ok_def)
  moreover have "\<forall>a \<in> set (addons_of d i). addon_ok a" using assms(1) addons_of_ok by (auto simp: tables_ok_def)
  ultimately show ?thesis unfolding allowance_def by (rule Limit_sum)
qed

definition refusal_noted :: "tenancy \<Rightarrow> go_string \<Rightarrow> go_string \<Rightarrow> bool" where
  "refusal_noted d userID x \<longleftrightarrow>
     (let trail = audit_trail (tn_panel d) in
        trail \<noteq> [] \<and> ev_UserID (last trail) = userID \<and> ev_Action (last trail) = ''tenant.quota.refused'' \<and>
        ev_ResourceID (last trail) = x \<and> ev_Status (last trail) = ''FAILURE'')"

lemma recordRefusal_noted: "refusal_noted (db (snd (recordRefusal userID x d r s))) userID x"
  by (simp add: recordRefusal_def on_panel_def emit_def refusal_noted_def Let_def)

lemma decide_cases:
  fixes b q as u dimension
  defines "limit \<equiv> Limit (EffectiveLimits (pl_Limits q) as) dimension"
  shows "dc_Allowed (decide b q as u dimension) \<longleftrightarrow> sb_Status b \<noteq> StatusSuspended \<and>
      (case limit of None \<Rightarrow> True | Some most \<Rightarrow> Used u dimension < most \<or> pl_Enforcement q = EnforcementSoft)"
    and "dc_OverSoftLimit (decide b q as u dimension) \<longleftrightarrow> sb_Status b \<noteq> StatusSuspended \<and> pl_Enforcement q = EnforcementSoft \<and>
      (case limit of None \<Rightarrow> False | Some most \<Rightarrow> most \<le> Used u dimension)"
  by (auto simp: decide_def Let_def limit_def split: option.splits)

end
