(* ===== verification/Api_Tenancy_System.thy ===== *)
theory Api_Tenancy_System
  imports Api_Tenancy_Tables Api_Signin
begin

text \<open>
  Tenancy as a system: requests in any order, the sampler, new websites, ended impersonations, accounts
  made by the installer and whatever other parts of the panel do to their own tables. In every state
  reached the hierarchy is a forest, the recursive query ends, and a request of somebody who is not an
  administrator leaves alone what is not below them.
\<close>

section \<open>Steps\<close>

text \<open>\<open>users.Repository.Create\<close>, for the accounts of the installer: the tier is the default of its column.\<close>

definition insert_admin :: "go_string \<Rightarrow> go_string \<Rightarrow> go_string \<Rightarrow> go_string \<Rightarrow> go_string \<Rightarrow> tenancy \<Rightarrow> tenancy_err + tenancy" where
  "insert_admin new username email hash status d =
     (if account_row d new \<noteq> None then Inl StoreError
      else if \<exists>u \<in> set (accounts_of d). u_Username u = username then Inl ErrNameTaken
      else if email \<noteq> [] \<and> (\<exists>u \<in> set (accounts_of d). ac_Email (tn_cols d (u_ID u)) = Some email) then Inl ErrNameTaken
      else
        Inr (d\<lparr>tn_panel := (tn_panel d)\<lparr>users := users (tn_panel d) @
                 [\<lparr>u_ID = new, u_Username = username, u_PasswordHash = hash, u_Status = status, u_LastLoginAt = None\<rparr>]\<rparr>,
               tn_cols := (tn_cols d)(new := \<lparr>ac_Email = (if email = [] then None else Some email), ac_Tier = TierAdmin, ac_ParentID = None,
                 ac_FullName = None, ac_Company = None\<rparr>)\<rparr>))"

definition CreateUser :: "tenancy_env \<Rightarrow> go_string \<Rightarrow> go_string \<Rightarrow> go_string \<Rightarrow> go_string \<Rightarrow> go_string \<Rightarrow> unit tenancy_op" where
  "CreateUser env new username email hash status =
     (let name = NormalizeUsername username; address = to_lower (trim_space email);
          state = (if status = [] then StatusActive else status)
      in try_then (check_or (ValidateUsername name)) (\<lambda>_.
         try_then (check_or (ValidateEmail address)) (\<lambda>_.
           if state \<notin> {StatusActive, StatusDisabled, StatusLocked} then fail_with ErrInvalidUserState
           else stmt env (\<lambda>d. case insert_admin new name address hash state d of Inl e \<Rightarrow> (Inl e, d) | Inr d' \<Rightarrow> (Inr (), d')))))"

text \<open>What other parts do: they leave the tables of tenancy, the identifiers of the accounts and their tenancy
  columns alone, and the references of their own tables hold.\<close>

definition elsewhere :: "tenancy \<Rightarrow> tenancy \<Rightarrow> bool" where
  "elsewhere d d' \<longleftrightarrow>
     map u_ID (users (tn_panel d')) = map u_ID (users (tn_panel d)) \<and> tn_cols d' = tn_cols d \<and> tn_plans d' = tn_plans d \<and>
     tn_subs d' = tn_subs d \<and> tn_addons d' = tn_addons d \<and> websites_ok d'"

inductive tenancy_step :: "store \<Rightarrow> store \<Rightarrow> bool" where
  request: "tenancy_request sv env cl ip agent call s = (r, t) \<Longrightarrow> tenancy_step s t"
| sampling: "SampleAll env order s = (r, t) \<Longrightarrow> tenancy_step s t"
| new_website: "AssignNewWebsite env owner x w s = (r, t) \<Longrightarrow> tenancy_step s t"
| ending: "TenancyEndImpersonation env cl ip s = (r, t) \<Longrightarrow> tenancy_step s t"
| closing: "CloseStaleImpersonations env s = (r, t) \<Longrightarrow> tenancy_step s t"
| installing: "CreateUser env new username email hash status s = (r, t) \<Longrightarrow> tenancy_step s t"
| others: "elsewhere (db s) d \<Longrightarrow> tenancy_step s (s\<lparr>db := d\<rparr>)"

text \<open>As the migrations leave the tables: every account an administrator, plans of the catalogue.\<close>

definition migrated :: "store \<Rightarrow> bool" where
  "migrated s \<longleftrightarrow>
     distinct (account_ids (db s)) \<and> (\<forall>i \<in> set (account_ids (db s)). tier_of (db s) i = TierAdmin \<and> parent_of (db s) i = None) \<and>
     plans_ok (db s) \<and> tn_subs (db s) = [] \<and> tn_addons (db s) = [] \<and> (\<forall>w \<in> set (tn_websites (db s)). ws_SubscriptionID w = None)"

lemma insert_admin_ok:
  assumes "insert_admin new username email hash status d = Inr d'"
  shows "stay_ok d d'"
proof -
  have new: "new \<notin> set (account_ids d)"
    and d': "account_ids d' = account_ids d @ [new]"
      "tier_of d' = (tier_of d)(new := TierAdmin)" "parent_of d' = (parent_of d)(new := None)"
      "tn_plans d' = tn_plans d" "tn_subs d' = tn_subs d" "tn_addons d' = tn_addons d" "tn_websites d' = tn_websites d"
    using assms account_row_ids [of d new]
    by (auto simp: insert_admin_def ids_defs fun_eq_iff split: if_splits)
  have "tree_ok d \<Longrightarrow> tree_ok d'"
    using new by (auto simp: tree_ok_def d' AccountTier_def split: option.splits if_splits)
  then show ?thesis by (auto simp: stay_ok_def tables_ok_def plans_ok_def subs_ok_def addons_ok_def websites_ok_def has_plan_def d')
qed

lemma CreateUser_ok: "keeps (over_tables stay_ok) (CreateUser env new username email hash status)"
  unfolding CreateUser_def Let_def
  by (intro ok.kr_rules ok.keeps_valid ok.keeps_stmt) (auto split: sum.splits intro: insert_admin_ok ok.Q_refl)

lemma elsewhere_ok:
  assumes "elsewhere d d'"
  shows "stay_ok d d'"
proof -
  have ids: "account_ids d' = account_ids d" "tier_of d' = tier_of d" "parent_of d' = parent_of d"
    using assms by (auto simp: elsewhere_def ids_defs fun_eq_iff)
  then have "tree_ok d' = tree_ok d" by (simp add: tree_ok_def cong: option.case_cong)
  then show ?thesis
    using assms ids by (auto simp: elsewhere_def stay_ok_def tables_ok_def plans_ok_def subs_ok_def addons_ok_def has_plan_def)
qed

lemma step_ok: "tenancy_step s t \<Longrightarrow> stay_ok (db s) (db t)"
proof (induction rule: tenancy_step.induct)
  case (others s d)
  then show ?case by (simp add: elsewhere_ok)
qed (auto dest: keepsD [OF tenancy_request_ok] keepsD [OF SampleAll_ok] keepsD [OF AssignNewWebsite_ok]
    keepsD [OF TenancyEndImpersonation_ok] keepsD [OF CloseStale_ok] keepsD [OF CreateUser_ok] simp: over_tables_def)

lemma migrated_ok: "migrated s \<Longrightarrow> tables_ok (db s)"
  by (auto simp: migrated_def tables_ok_def tree_ok_def subs_ok_def addons_ok_def websites_ok_def AccountTier_def split: option.splits)

interpretation tenancy_system: invariant_system migrated tenancy_step "\<lambda>s. tables_ok (db s)"
  by unfold_locales (use migrated_ok step_ok in \<open>auto simp: stay_ok_def\<close>)

section \<open>The hierarchy\<close>

inductive below :: "tenancy \<Rightarrow> go_string \<Rightarrow> go_string \<Rightarrow> bool" for d where
  below_refl: "i \<in> set (account_ids d) \<Longrightarrow> below d i i"
| below_child: "below d p a \<Longrightarrow> i \<in> set (account_ids d) \<Longrightarrow> parent_of d i = Some p \<Longrightarrow> below d i a"

lemma below_from_parent:
  "below d x c \<Longrightarrow> parent_of d c = Some w \<Longrightarrow> w \<in> set (account_ids d) \<Longrightarrow> below d x w"
  by (induction rule: below.induct) (auto intro: below.intros)

lemma below_cases_top: "below d x w \<Longrightarrow> x = w \<or> (\<exists>c \<in> set (account_ids d). parent_of d c = Some w \<and> below d x c)"
  by (induction rule: below.induct) (auto intro: below.intros)

lemma below_tier:
  assumes "below d x w" "tree_ok d" "x \<noteq> w"
  shows "TierMayOwn (tier_of d w) (tier_of d x)"
  using assms
proof (induction rule: below.induct)
  case (below_child p a i)
  have "TierMayOwn (tier_of d p) (tier_of d i)"
    using below_child.hyps below_child.prems(1) by (fastforce simp: tree_ok_def)
  then show ?case using below_child by (cases "p = a") (auto simp: TierMayOwn_iff)
qed simp

lemma children_of_set: "set (children_of d working) = {c \<in> set (account_ids d). \<exists>p \<in> set working. parent_of d c = Some p}"
  by (auto simp: children_of_def account_ids_def)

lemma rounds_total:
  assumes "tree_ok d" "\<forall>i \<in> set working. i \<in> set (account_ids d) \<and> n \<le> TierRank (tier_of d i)"
  shows "\<exists>ds. rounds d working = Some ds \<and> (\<forall>x. x \<in> set ds \<longleftrightarrow> (\<exists>w \<in> set working. below d x w))"
  using assms(2)
proof (induction "3 - n" arbitrary: n working)
  case 0
  have "TierRank (tier_of d i) \<le> 2" if "i \<in> set (account_ids d)" for i
    using assms(1) that by (auto simp: tree_ok_def intro: TierRank_bound)
  with 0 have "working = []" by (cases working) fastforce+
  then show ?case by (simp add: rounds.simps)
next
  case (Suc k)
  let ?next = "children_of d working"
  have "Suc n \<le> TierRank (tier_of d c)" if c: "c \<in> set ?next" for c
  proof -
    obtain p where "p \<in> set working" "parent_of d c = Some p" "c \<in> set (account_ids d)" using c by (auto simp: children_of_set)
    then show ?thesis using assms(1) Suc.prems by (fastforce simp: tree_ok_def TierMayOwn_iff)
  qed
  moreover have "k = 3 - Suc n" using Suc.hyps(2) by arith
  ultimately obtain rest where rest: "rounds d ?next = Some rest" "\<forall>x. x \<in> set rest \<longleftrightarrow> (\<exists>w \<in> set ?next. below d x w)"
    using Suc.hyps(1) [of "Suc n" ?next] by (auto simp: children_of_set)
  have "x \<in> set (working @ rest) \<longleftrightarrow> (\<exists>w \<in> set working. below d x w)" for x
  proof
    assume "x \<in> set (working @ rest)"
    then consider "x \<in> set working" | c p where "c \<in> set (account_ids d)" "p \<in> set working" "parent_of d c = Some p" "below d x c"
      using rest(2) by (auto simp: children_of_set)
    then show "\<exists>w \<in> set working. below d x w"
      using Suc.prems below_from_parent by cases (blast intro: below_refl)+
  next
    assume "\<exists>w \<in> set working. below d x w"
    then obtain w where w: "w \<in> set working" "below d x w" by blast
    show "x \<in> set (working @ rest)"
      using below_cases_top [OF w(2)] w(1) rest(2) by (auto simp: children_of_set)
  qed
  then show ?case
    using rest(1) by (cases "working = []") (simp_all add: rounds.simps [of d working] rounds.simps [of d "[]"])
qed

lemma descendants_total:
  assumes "tree_ok d"
  shows "\<exists>ds. descendants d i = Some ds \<and> (\<forall>x. x \<in> set ds \<longleftrightarrow> below d x i)"
proof -
  have "set [u_ID u. u \<leftarrow> accounts_of d, u_ID u = i] = {i} \<inter> set (account_ids d)" by (auto simp: account_ids_def)
  moreover have "below d x i \<Longrightarrow> i \<in> set (account_ids d)" for x by (induction rule: below.induct) auto
  ultimately show ?thesis
    using rounds_total [OF assms, of "[u_ID u. u \<leftarrow> accounts_of d, u_ID u = i]" 0] by (fastforce simp: descendants_def)
qed

text \<open>C16: in every reachable state the recursive query for the accounts below one ends, and gives exactly
  those whose chain of parents leads to it; each of them other than itself is of a strictly lower tier, so
  no account is below one that is below it.\<close>

theorem hierarchy_query_ends:
  assumes "reach migrated tenancy_step s"
  shows "\<exists>ds. descendants (db s) i = Some ds \<and> (\<forall>x. x \<in> set ds \<longleftrightarrow> below (db s) x i) \<and>
    (\<forall>x \<in> set ds. x = i \<or> TierMayOwn (tier_of (db s) i) (tier_of (db s) x) \<and> \<not> below (db s) i x)"
proof -
  have ok: "tree_ok (db s)" using tenancy_system.reach_inv [OF assms] by (simp add: tables_ok_def)
  obtain ds where ds: "descendants (db s) i = Some ds" "\<forall>x. x \<in> set ds \<longleftrightarrow> below (db s) x i"
    using descendants_total [OF ok] by blast
  have "TierMayOwn (tier_of (db s) i) (tier_of (db s) x) \<and> \<not> below (db s) i x" if "below (db s) x i" "x \<noteq> i" for x
    using below_tier [OF that(1) ok that(2)] below_tier [of "db s" i x] ok that(2) by (auto simp: TierMayOwn_iff)
  with ds show ?thesis by blast
qed

section \<open>Examples\<close>

text \<open>An installation with one administrator, who creates a reseller; a store that never fails.\<close>

definition plain_env :: tenancy_env where
  "plain_env = \<lparr>te_auth = calm 0, te_fails = (\<lambda>_. False), te_uuid = Some, te_agent = False,
     te_isolate = (\<lambda>_ _ _. Refused []), te_measure = (\<lambda>_. Inl [])\<rparr>"

definition as_user :: "go_string \<Rightarrow> claims" where
  "as_user i = \<lparr>c_UserID = i, c_Username = i, c_SessionID = ''s'' @ i, c_Permissions = [''tenant.manage'', ''tenant.impersonate''],
     c_Roles = [], c_IssuedAt = 0, c_ImpersonatorUserID = []\<rparr>"

definition fresh_install :: store where
  "fresh_install = \<lparr>ran = 0, db =
     \<lparr>tn_panel = empty_panel\<lparr>users := [\<lparr>u_ID = ''root'', u_Username = ''root'', u_PasswordHash = [], u_Status = ''active'', u_LastLoginAt = None\<rparr>]\<rparr>,
      tn_cols = (\<lambda>_. \<lparr>ac_Email = None, ac_Tier = TierAdmin, ac_ParentID = None, ac_FullName = None, ac_Company = None\<rparr>),
      tn_roles = [''reseller''], tn_plans = [], tn_subs = [], tn_addons = [],
      tn_websites = [\<lparr>ws_ID = ''w1'', ws_PrimaryDomain = ''example.org'', ws_Status = ''active'', ws_DocumentRoot = ''/srv/w1'',
                      ws_ParentID = None, ws_SubscriptionID = None\<rparr>],
      tn_databases = [], tn_cron_jobs = [], tn_ftp_users = [], tn_mail_domains = [], tn_mailboxes = [], tn_usage = [], tn_impersonations = []\<rparr>,
     asked = []\<rparr>"

definition new_account :: "go_string \<Rightarrow> go_string \<Rightarrow> tenancy_call" where
  "new_account i tier = CallCreateAccount i ''salt'' \<lparr>rq_Username = i, rq_Email = [], rq_Password = ''correct horse battery'', rq_Tier = tier,
     rq_FullName = [], rq_Company = [], rq_ParentID = []\<rparr>"

definition after_request :: "go_string \<Rightarrow> tenancy_call \<Rightarrow> store \<Rightarrow> store" where
  "after_request i call s = snd (tenancy_request demo_service plain_env (as_user i) [] [] call s)"

definition sold :: store where
  "sold = after_request ''acme'' (new_account ''shop'' TierCustomer) (after_request ''root'' (new_account ''acme'' TierReseller) fresh_install)"

lemma after_request_reach: "reach migrated tenancy_step s \<Longrightarrow> reach migrated tenancy_step (after_request i call s)"
  unfolding after_request_def by (erule reach_step) (rule tenancy_step.request [OF prod.collapse [symmetric]])

lemma sold_reach: "reach migrated tenancy_step sold"
proof -
  have "migrated fresh_install" by (simp add: migrated_def fresh_install_def ids_defs plans_ok_def)
  then show ?thesis unfolding sold_def by (intro after_request_reach reach_init)
qed

lemma ValidateUsername_iff:
  "ValidateUsername name = None \<longleftrightarrow> 3 \<le> length name \<and> length name \<le> 100 \<and> (is_lower (hd name) \<or> is_digit (hd name)) \<and>
     list_all (\<lambda>c. is_lower c \<or> is_digit c \<or> c \<in> {CHR ''_'', CHR ''.'', CHR ''-''}) (tl name)"
proof -
  have three: "3 \<le> length name \<longleftrightarrow> (\<exists>a b c t. name = a # b # c # t)"
    by (auto simp: numeral_3_eq_3 Suc_le_length_iff)
  have m: "matches_rx usernamePattern name \<longleftrightarrow> (\<exists>a b c t. name = a # b # c # t \<and> (is_lower a \<or> is_digit a) \<and> length t \<le> 97 \<and>
      list_all (\<lambda>c. is_lower c \<or> is_digit c \<or> c \<in> {CHR ''_'', CHR ''.'', CHR ''-''}) (b # c # t))"
    unfolding usernamePattern_def Let_def matches_iff language_Cat_Cls language_UpTo_Cls by auto
  show ?thesis
  proof (cases "3 \<le> length name")
    case True
    then obtain a b c t where "name = a # b # c # t" using three by blast
    then show ?thesis using m by (simp add: ValidateUsername_def)
  next
    case False
    then show ?thesis using m three by (simp add: ValidateUsername_def)
  qed
qed

lemma demo_tiers:
  "TierMayOwn ''admin'' ''reseller''" "TierMayOwn ''reseller'' ''customer''" "AccountTier ''admin'' = None" "AccountTier ''reseller'' = None"
  "AccountTier ''customer'' = None"
  by (simp_all add: TierMayOwn_iff AccountTier_def TierRank_def tier_names)

lemma demo_empty: "PersonName [] = None" "ValidateEmail [] = None" "nullable [] = None"
  by (simp_all add: PersonName_def ValidateEmail_def nullable_def trim_space_def trim_both_def trim_left_def trim_right_def)

lemma demo_facts:
  "NormalizeUsername ''acme'' = ''acme''" "NormalizeUsername ''shop'' = ''shop''" "ValidatePassword ''correct horse battery'' = None"
  by (code_simp, code_simp, code_simp)

lemma demo_usernames: "ValidateUsername ''acme'' = None" "ValidateUsername ''shop'' = None"
  unfolding ValidateUsername_iff by (code_simp, code_simp)

lemmas run_defs = tenancy_request_def request_actor_def ActorFor_def TierOf_def query_def stmt_def uuid_then_def change_rows_def found_def try_then_def op_simps
  CreateAccount_def RepoCreateAccount_def GetAccount_def insert_account_def AssignRole_def add_role_def audit_note_def on_panel_def emit_def
  valid_or_def check_or_def void_def account_row_def accounts_of_def scanAccount_def Let_def HashPassword_def

lemmas demo_run = after_request_def new_account_def plain_env_def calm_def as_user_def empty_panel_def fresh_install_def
  demo_facts demo_tiers demo_empty demo_usernames tier_names RoleReseller_def

lemma sold_accounts:
  "account_ids (db sold) = [''root'', ''acme'', ''shop'']" "tier_of (db sold) ''acme'' = ''reseller''" "tier_of (db sold) ''root'' = ''admin''"
  "parent_of (db sold) ''shop'' = Some ''acme''" "parent_of (db sold) ''acme'' = Some ''root''"
  by (simp_all add: sold_def run_defs demo_run account_ids_def tier_of_def parent_of_def)

theorem hierarchy_query_ends_witness:
  "\<exists>ds. descendants (db sold) ''acme'' = Some ds \<and> ''shop'' \<in> set ds \<and> ''root'' \<notin> set ds"
proof -
  have "below (db sold) ''shop'' ''acme''"
    by (rule below_child [OF below_refl]) (simp_all add: sold_accounts)
  moreover have "\<not> TierMayOwn (tier_of (db sold) ''acme'') (tier_of (db sold) ''root'')"
    by (simp add: sold_accounts TierMayOwn_iff TierRank_def tier_names)
  moreover obtain ds where "descendants (db sold) ''acme'' = Some ds" "\<forall>x. x \<in> set ds \<longleftrightarrow> below (db sold) x ''acme''"
    and "\<forall>x \<in> set ds. x = ''acme'' \<or> TierMayOwn (tier_of (db sold) ''acme'') (tier_of (db sold) x) \<and> \<not> below (db sold) ''acme'' x"
    using hierarchy_query_ends [OF sold_reach, of "''acme''"] by (elim exE conjE) (rule that)
  moreover have "''root'' \<noteq> ''acme''" by simp
  ultimately show ?thesis by metis
qed

end
