(* ===== verification/Api_Tenancy_Confined.thy ===== *)
theory Api_Tenancy_Confined
  imports Api_Tenancy_System
begin

text \<open>
  Who can change what: a request of an account that is not an administrator's leaves alone the accounts,
  plans, subscriptions and add-ons of everybody who is not below it.
\<close>

section \<open>What is left alone\<close>

text \<open>What a subscription promises, apart from how the host enforces it.\<close>

definition promise :: "subscription \<Rightarrow> subscription" where
  "promise b = b\<lparr>sb_SliceName := [], sb_IsolationState := [], sb_IsolationDetail := [], sb_IsolationAppliedAt := None\<rparr>"

definition addons_on :: "tenancy \<Rightarrow> go_string \<Rightarrow> addon_row list" where
  "addons_on d i = filter (\<lambda>a. ar_SubscriptionID a = i) (tn_addons d)"

definition accounts_kept :: "go_string set \<Rightarrow> tenancy \<Rightarrow> tenancy \<Rightarrow> bool" where
  "accounts_kept W d d' \<longleftrightarrow>
     (\<forall>u \<in> set (accounts_of d). u_ID u \<notin> W \<longrightarrow> u \<in> set (accounts_of d') \<and> tn_cols d' (u_ID u) = tn_cols d (u_ID u))"

definition plans_kept :: "go_string set \<Rightarrow> tenancy \<Rightarrow> tenancy \<Rightarrow> bool" where
  "plans_kept W d d' \<longleftrightarrow>
     (\<forall>q \<in> set (tn_plans d). (case pl_OwnerUserID q of None \<Rightarrow> True | Some i \<Rightarrow> i \<notin> W) \<longrightarrow> q \<in> set (tn_plans d'))"

definition subs_kept :: "go_string set \<Rightarrow> tenancy \<Rightarrow> tenancy \<Rightarrow> bool" where
  "subs_kept W d d' \<longleftrightarrow>
     (\<forall>b \<in> set (tn_subs d). sb_OwnerUserID b \<notin> W \<longrightarrow>
        (\<exists>b' \<in> set (tn_subs d'). promise b' = promise b) \<and> addons_on d' (sb_ID b) = addons_on d (sb_ID b))"

definition confined :: "go_string set \<Rightarrow> tenancy \<Rightarrow> tenancy \<Rightarrow> bool" where
  "confined W d d' \<longleftrightarrow> accounts_kept W d d' \<and> plans_kept W d d' \<and> subs_kept W d d'"

lemma promise_fields: "promise b = promise b' \<Longrightarrow> sb_ID b = sb_ID b' \<and> sb_OwnerUserID b = sb_OwnerUserID b'"
  by (cases b; cases b') (simp add: promise_def)

lemma kept_refl: "accounts_kept W d d" "plans_kept W d d" "subs_kept W d d"
  by (auto simp: accounts_kept_def plans_kept_def subs_kept_def)

lemma subs_kept_trans:
  assumes "subs_kept W a b" "subs_kept W b c"
  shows "subs_kept W a c"
  unfolding subs_kept_def
proof (intro ballI impI)
  fix x assume x: "x \<in> set (tn_subs a)" "sb_OwnerUserID x \<notin> W"
  then obtain y where y: "y \<in> set (tn_subs b)" "promise y = promise x" "addons_on b (sb_ID x) = addons_on a (sb_ID x)"
    using assms(1) unfolding subs_kept_def by blast
  then have "sb_OwnerUserID y \<notin> W" "sb_ID y = sb_ID x" using x(2) promise_fields [OF y(2)] by simp_all
  then show "(\<exists>b' \<in> set (tn_subs c). promise b' = promise x) \<and> addons_on c (sb_ID x) = addons_on a (sb_ID x)"
    using assms(2) y unfolding subs_kept_def by fastforce
qed

interpretation cf: table_relation "confined W" for W
proof
  show "confined W d d" for d by (simp add: confined_def kept_refl)
  show "confined W a c" if "confined W a b" "confined W b c" for a b c
  proof -
    have "accounts_kept W a c" "plans_kept W a c" using that by (auto simp: confined_def accounts_kept_def plans_kept_def)
    then show ?thesis using that subs_kept_trans by (auto simp: confined_def)
  qed
qed

text \<open>The same for calls on one subscription, once its owner is known to be below.\<close>

definition owned_within :: "go_string set \<Rightarrow> go_string \<Rightarrow> tenancy \<Rightarrow> bool" where
  "owned_within W i d \<longleftrightarrow> (\<forall>b \<in> set (tn_subs d). sb_ID b = i \<longrightarrow> sb_OwnerUserID b \<in> W)"

definition confined_on :: "go_string set \<Rightarrow> go_string \<Rightarrow> tenancy \<Rightarrow> tenancy \<Rightarrow> bool" where
  "confined_on W i d d' \<longleftrightarrow> (owned_within W i d \<longrightarrow> confined W d d' \<and> owned_within W i d')"

interpretation co: table_relation "confined_on W i" for W i
  by unfold_locales (auto simp: confined_on_def cf.Q_refl intro: cf.Q_trans)

section \<open>Statements\<close>

lemma confinedI:
  assumes "accounts_kept W d d'" "plans_kept W d d'" "subs_kept W d d'"
  shows "confined W d d'"
  using assms by (simp add: confined_def)

lemma accounts_kept_same: "accounts_of d' = accounts_of d \<Longrightarrow> tn_cols d' = tn_cols d \<Longrightarrow> accounts_kept W d d'"
  by (simp add: accounts_kept_def)

lemma plans_kept_same: "tn_plans d' = tn_plans d \<Longrightarrow> plans_kept W d d'"
  by (simp add: plans_kept_def)

lemma subs_kept_same: "tn_subs d' = tn_subs d \<Longrightarrow> tn_addons d' = tn_addons d \<Longrightarrow> subs_kept W d d'"
  by (auto simp: subs_kept_def addons_on_def)

lemma confined_other:
  assumes "accounts_of d' = accounts_of d" "tn_cols d' = tn_cols d" "tn_plans d' = tn_plans d" "tn_subs d' = tn_subs d" "tn_addons d' = tn_addons d"
  shows "confined W d d'" "confined_on W i d d'"
  using assms by (auto intro!: confinedI accounts_kept_same plans_kept_same subs_kept_same simp: confined_on_def owned_within_def)

lemma users_confined: "same_users (tn_panel d) p \<Longrightarrow> confined W d (d\<lparr>tn_panel := p\<rparr>)" "same_users (tn_panel d) p \<Longrightarrow> confined_on W i d (d\<lparr>tn_panel := p\<rparr>)"
  by (rule confined_other; simp add: same_users_def accounts_of_def)+

lemma insert_account_confined:
  assumes "insert_account new params parent d = Inr d'"
  shows "confined W d d'"
proof (rule confinedI)
  show "accounts_kept W d d'"
    using assms account_row_None [of d new] by (auto simp: insert_account_def accounts_kept_def accounts_of_def split: if_splits)
  show "plans_kept W d d'" "subs_kept W d d'"
    using assms by (auto simp: insert_account_def intro!: plans_kept_same subs_kept_same split: if_splits)
qed

lemma update_account_confined:
  assumes "update_account params i d = Inr d'" "i \<in> W"
  shows "confined W d d'"
proof (rule confinedI)
  show "accounts_kept W d d'"
    using assms by (auto simp: update_account_def accounts_kept_def accounts_of_def image_iff split: if_splits)
  show "plans_kept W d d'" "subs_kept W d d'"
    using assms by (auto simp: update_account_def intro!: plans_kept_same subs_kept_same split: if_splits)
qed

lemma delete_account_confined:
  assumes "delete_account i d = Inr d'" "i \<in> W"
  shows "confined W d d'"
proof (rule confinedI)
  show "accounts_kept W d d'" "plans_kept W d d'"
    using assms by (auto simp: delete_account_def drop_user_def accounts_kept_def plans_kept_def accounts_of_def Let_def split: if_splits option.splits)
  show "subs_kept W d d'"
    using assms by (auto simp: delete_account_def Let_def intro!: subs_kept_same split: if_splits)
qed

lemma insert_plan_confined: "insert_plan new input owner d = Inr d' \<Longrightarrow> confined W d d'"
  by (rule confinedI)
    (auto simp: insert_plan_def Let_def plans_kept_def accounts_of_def intro!: accounts_kept_same subs_kept_same split: if_splits option.splits)

text \<open>A plan that may be edited is one of the actor's own.\<close>

definition plan_within :: "go_string set \<Rightarrow> go_string \<Rightarrow> tenancy \<Rightarrow> bool" where
  "plan_within W i d \<longleftrightarrow> (\<forall>q \<in> set (tn_plans d). pl_ID q = i \<longrightarrow> (\<exists>o' \<in> W. pl_OwnerUserID q = Some o'))"

lemma update_plan_confined:
  assumes "update_plan input i d = Inr d'" "plan_within W i d"
  shows "confined W d d'"
proof (rule confinedI)
  show "accounts_kept W d d'" "subs_kept W d d'"
    using assms(1) by (auto simp: update_plan_def Let_def accounts_of_def intro!: accounts_kept_same subs_kept_same split: if_splits option.splits)
  show "plans_kept W d d'"
    unfolding plans_kept_def
  proof (intro ballI impI)
    fix q assume q: "q \<in> set (tn_plans d)" "case pl_OwnerUserID q of None \<Rightarrow> True | Some i \<Rightarrow> i \<notin> W"
    then have "pl_ID q \<noteq> i" using assms(2) by (auto simp: plan_within_def)
    then show "q \<in> set (tn_plans d')"
      using assms(1) q(1) by (auto simp: update_plan_def Let_def image_iff split: if_splits option.splits)
  qed
qed

lemma delete_plan_confined: "delete_plan i d = Inr d' \<Longrightarrow> plan_within W i d \<Longrightarrow> confined W d d'"
  by (rule confinedI)
    (auto simp: delete_plan_def plans_kept_def plan_within_def accounts_of_def intro!: accounts_kept_same subs_kept_same split: if_splits option.splits)

lemma insert_sub_confined: "insert_sub env new planID name owner d = Inr d' \<Longrightarrow> confined W d d'"
  by (rule confinedI)
    (auto simp: insert_sub_def uuid_then_def subs_kept_def addons_on_def accounts_of_def intro!: accounts_kept_same plans_kept_same split: if_splits option.splits)

lemma map_subs_confined:
  assumes "\<And>b. b \<in> set (tn_subs d) \<Longrightarrow> sb_ID b = i \<Longrightarrow> sb_OwnerUserID b \<in> W \<or> promise (f b) = promise b"
  shows "confined W d (map_subs i f d)"
proof (rule confinedI)
  show "subs_kept W d (map_subs i f d)"
    unfolding subs_kept_def
  proof (intro ballI impI)
    fix b assume b: "b \<in> set (tn_subs d)" "sb_OwnerUserID b \<notin> W"
    let ?b = "if sb_ID b = i then f b else b"
    have "?b \<in> set (tn_subs (map_subs i f d))" "promise ?b = promise b" using b assms by (auto simp: map_subs_def)
    then show "(\<exists>b' \<in> set (tn_subs (map_subs i f d)). promise b' = promise b) \<and> addons_on (map_subs i f d) (sb_ID b) = addons_on d (sb_ID b)"
      by (auto simp: addons_on_def map_subs_def)
  qed
qed (auto simp: map_subs_def accounts_of_def intro!: accounts_kept_same plans_kept_same)

lemma update_sub_confined: "update_sub needed f i d = Inr d' \<Longrightarrow> (\<And>b. promise (f b) = promise b) \<Longrightarrow> confined W d d'"
  using map_subs_confined [of d i W f] by (auto simp: update_sub_def split: if_splits)

lemma update_sub_on:
  assumes "update_sub needed f i d = Inr d'" "\<And>b. sb_ID (f b) = sb_ID b" "\<And>b. sb_OwnerUserID (f b) = sb_OwnerUserID b"
  shows "confined_on W i d d'"
  unfolding confined_on_def
proof
  assume w: "owned_within W i d"
  have d': "d' = map_subs i f d" using assms(1) by (auto simp: update_sub_def split: if_splits)
  have "confined W d d'" unfolding d' by (rule map_subs_confined) (use w in \<open>auto simp: owned_within_def\<close>)
  moreover have "\<forall>b \<in> set (tn_subs d). sb_ID b = i \<longrightarrow> sb_OwnerUserID (f b) \<in> W"
    using w assms(3) by (simp add: owned_within_def)
  then have "owned_within W i d'" by (auto simp: owned_within_def d' map_subs_def)
  ultimately show "confined W d d' \<and> owned_within W i d'" by blast
qed

lemma filter_other: "(\<And>a. R a \<Longrightarrow> P a) \<Longrightarrow> filter R (filter P as) = filter R as"
  by (induction as) auto

lemma delete_sub_on:
  assumes "delete_sub i d = Inr d'"
  shows "confined_on W i d d'"
proof -
  have d': "d' = d\<lparr>tn_subs := filter (\<lambda>b. sb_ID b \<noteq> i) (tn_subs d), tn_addons := filter (\<lambda>a. ar_SubscriptionID a \<noteq> i) (tn_addons d),
      tn_usage := filter (\<lambda>u. ur_SubscriptionID u \<noteq> i) (tn_usage d)\<rparr>"
    using assms by (auto simp: delete_sub_def split: if_splits)
  have "addons_on d' j = addons_on d j" if "j \<noteq> i" for j using that by (auto simp: addons_on_def d' simp del: filter_filter intro: filter_other)
  moreover have "accounts_kept W d d'" "plans_kept W d d'" by (auto simp: d' accounts_of_def intro!: accounts_kept_same plans_kept_same)
  ultimately show ?thesis by (auto simp: confined_on_def owned_within_def confined_def subs_kept_def d')
qed

lemma addons_on_change:
  assumes "d' = d\<lparr>tn_addons := as\<rparr>" "\<And>j. j \<noteq> i \<Longrightarrow> addons_on d' j = addons_on d j"
  shows "confined_on W i d d'"
proof -
  have "accounts_kept W d d'" "plans_kept W d d'" by (auto simp: assms(1) accounts_of_def intro!: accounts_kept_same plans_kept_same)
  moreover have "tn_subs d' = tn_subs d" by (simp add: assms(1))
  ultimately show ?thesis using assms(2) by (auto simp: confined_on_def owned_within_def confined_def subs_kept_def)
qed

lemma filter_map_other: "(\<And>a. P a \<Longrightarrow> \<not> R a \<and> \<not> R (f a)) \<Longrightarrow> filter R (map (\<lambda>a. if P a then f a else a) as) = filter R as"
  by (induction as) auto

lemma set_addon_on:
  assumes "set_addon plan quantity i d = Inr d'"
  shows "confined_on W i d d'"
proof (rule addons_on_change)
  show "d' = d\<lparr>tn_addons := tn_addons d'\<rparr>" using assms by (auto simp: set_addon_def split: if_splits)
  show "addons_on d' j = addons_on d j" if "j \<noteq> i" for j
    using assms that by (auto simp: set_addon_def addons_on_def split: if_splits) (rule filter_map_other, auto)
qed

lemma remove_addon_on:
  assumes "remove_addon plan i d = Inr d'"
  shows "confined_on W i d d'"
proof (rule addons_on_change)
  show "d' = d\<lparr>tn_addons := tn_addons d'\<rparr>" using assms by (auto simp: remove_addon_def split: if_splits)
  show "addons_on d' j = addons_on d j" if "j \<noteq> i" for j
    using assms that by (auto simp: remove_addon_def addons_on_def simp del: filter_filter split: if_splits) (rule filter_other, auto)
qed

lemma quiet_confined:
  "assign_website sub j d = Inr d' \<Longrightarrow> confined_on W i d d'" "record_usage now ms j d = Inr d' \<Longrightarrow> confined_on W i d d'"
  "insert_impersonation row d = Inr d' \<Longrightarrow> confined W d d'"
  by (rule confined_other; auto simp: assign_website_def record_usage_def insert_impersonation_def accounts_of_def split: if_splits)+

section \<open>Calls\<close>

lemmas cf_reads = all_reads [THEN cf.keeps_reads]
lemmas co_reads = all_reads [THEN co.keeps_reads]

lemma panel_confined:
  assumes "keeps same_users m"
  shows "keeps (over_tables (confined W)) (on_panel m)" "keeps (over_tables (confined_on W i)) (on_panel m)"
  by (rule cf.keeps_panel co.keeps_panel, drule keepsD [OF assms], erule users_confined)+

lemma note_confined:
  "keeps (over_tables (confined W)) (audit_note actor act x m)" "keeps (over_tables (confined_on W i)) (audit_note actor act x m)"
  unfolding audit_note_def by (intro panel_confined panel_users)+

lemma isolation_confined: "keeps (over_tables (confined W)) (SetIsolationState env x st det)"
  unfolding SetIsolationState_def Let_def
  by (rule cf.keeps_change) (auto elim!: update_sub_confined simp: promise_def split: if_splits)

lemma applyIsolation_confined: "keeps (over_tables (confined W)) (applyIsolation env actor x)"
  unfolding applyIsolation_def Let_def
  by (intro cf.tr_rules cf_reads)
    (auto split: isolation_reply.split intro!: cf.tr_rules isolation_confined note_confined)

text \<open>What the host reports changes no owner.\<close>

lemma same_promise_on:
  assumes "update_sub needed f j d = Inr d'" "\<And>b. promise (f b) = promise b"
  shows "confined_on W i d d'"
  unfolding confined_on_def
proof (intro impI conjI)
  assume w: "owned_within W i d"
  show "confined W d d'" using update_sub_confined [OF assms] .
  have f: "sb_ID (f b) = sb_ID b" "sb_OwnerUserID (f b) = sb_OwnerUserID b" for b using promise_fields [OF assms(2)] by simp_all
  have "d' = map_subs j f d" using assms(1) by (auto simp: update_sub_def split: if_splits)
  then show "owned_within W i d'" using w f by (auto simp: owned_within_def map_subs_def)
qed

lemma isolation_on: "keeps (over_tables (confined_on W i)) (SetIsolationState env x st det)"
  unfolding SetIsolationState_def Let_def
  by (rule co.keeps_change) (auto elim!: same_promise_on simp: promise_def split: if_splits)

lemma applyIsolation_on: "keeps (over_tables (confined_on W i)) (applyIsolation env actor x)"
  unfolding applyIsolation_def Let_def
  by (intro co.tr_rules co_reads)
    (auto split: isolation_reply.split intro!: co.tr_rules isolation_on note_confined)

lemma reapply_confined: "keeps (over_tables (confined W)) (reapplyIsolationForPlan env actor x)"
proof -
  have "keeps (over_tables (confined W)) (apply_each env actor xs)" for xs
    by (induction xs) (auto intro!: cf.tr_rules applyIsolation_confined)
  then show ?thesis unfolding reapplyIsolationForPlan_def by (intro cf.tr_rules cf_reads)
qed

lemma AssignRole_confined: "keeps (over_tables (confined W)) (AssignRole env x role)"
  unfolding AssignRole_def
  by (intro cf.kr_rules cf.keeps_query cf.keeps_stmt)
    (auto simp: uuid_then_def add_role_def same_users_def split: option.splits if_splits intro!: cf.Q_refl users_confined)

lemma CreateAccount_confined: "keeps (over_tables (confined W)) (CreateAccount sv env new salt actor req)"
proof -
  have "keeps (over_tables (confined W)) (RepoCreateAccount env new params)" for params
    unfolding RepoCreateAccount_def by (intro cf.kr_rules cf_reads cf.keeps_change insert_account_confined)
  then show ?thesis
    unfolding CreateAccount_def Let_def
    by (intro cf.kr_rules cf.keeps_valid cf_reads)
      (auto split: sum.split intro!: cf.kr_rules AssignRole_confined note_confined)
qed

lemma CreatePlan_confined: "keeps (over_tables (confined W)) (CreatePlan env new actor req)"
proof -
  have "keeps (over_tables (confined W)) (RepoCreatePlan env new input)" for input
    unfolding RepoCreatePlan_def
    by (intro cf.kr_rules cf_reads cf.keeps_stmt)
      (auto split: option.splits sum.splits intro: cf.Q_refl insert_plan_confined)
  then show ?thesis unfolding CreatePlan_def by (auto split: sum.split intro!: cf.kr_rules note_confined)
qed

lemma CreateSubscription_confined: "keeps (over_tables (confined W)) (CreateSubscription env new actor owner planID name)"
  unfolding CreateSubscription_def RepoCreateSubscription_def
  by (intro cf.kr_rules cf.keeps_valid cf_reads cf.keeps_change note_confined applyIsolation_confined)
    (auto elim!: insert_sub_confined update_sub_confined simp: promise_def)

lemma StartImpersonation_confined: "keeps (over_tables (confined W)) (StartImpersonation sv env dr actor x reason)"
proof -
  have "keeps (over_tables (confined W)) (recordImpersonation env actor i sid why)" for i sid why
    unfolding recordImpersonation_def by (intro cf.keeps_change quiet_confined)
  then show ?thesis
    unfolding StartImpersonation_def Let_def
    by (intro cf.kr_rules cf_reads panel_confined Impersonate_users)
      (auto intro!: cf.keeps_case cf.kr_rules cf.keeps_log panel_confined EndImpersonation_users note_confined)
qed

lemma website_on: "keeps (over_tables (confined_on W i)) (RepoAssignWebsite env w x)"
  unfolding RepoAssignWebsite_def
  by (intro co.keeps_change) (auto simp: uuid_then_Inr intro: quiet_confined split: option.splits)

lemma sampleOne_on: "keeps (over_tables (confined_on W i)) (sampleOne env x roots period)"
proof -
  have "keeps (over_tables (confined_on W i)) (RecordUsage env ms)" for ms
    unfolding RecordUsage_def by (intro co.keeps_change quiet_confined)
  then show ?thesis unfolding sampleOne_def Let_def
    by (auto split: sum.split prod.split intro!: co.kr_rules co.keeps_log co.keeps_ask)
qed

section \<open>Who may do what\<close>

text \<open>PostgreSQL reads an identifier it has written as that identifier.\<close>

definition reads_back :: "tenancy_env \<Rightarrow> tenancy \<Rightarrow> bool" where
  "reads_back env d \<longleftrightarrow> (\<forall>i \<in> set (account_ids d). te_uuid env i = Some i)"

definition part_of :: "tenancy \<Rightarrow> go_string \<Rightarrow> go_string set" where
  "part_of d a = {x. below d x a}"

definition plain_actor :: "tenancy_env \<Rightarrow> actor \<Rightarrow> tenancy \<Rightarrow> bool" where
  "plain_actor env actor d \<longleftrightarrow> tables_ok d \<and> reads_back env d \<and> ta_UserID actor \<in> set (account_ids d) \<and> \<not> seesEverything actor"

lemma require_within:
  assumes "plain_actor env actor d" "db s = d" "requireDescendant env actor x s = (Inr u, t)" "te_uuid env x = Some j"
  shows "j \<in> part_of d (ta_UserID actor)"
proof -
  have p: "\<not> seesEverything actor" "te_uuid env (ta_UserID actor) = Some (ta_UserID actor)" "tree_ok d"
    using assms(1) by (auto simp: plain_actor_def reads_back_def tables_ok_def)
  obtain ds where "descendants d (ta_UserID actor) = Some ds" "j \<in> set ds"
    using requireDescendant_Inr [OF assms(3) p(1)] p(2) assms(2,4) by auto
  then show ?thesis using descendants_total [OF p(3), of "ta_UserID actor"] by (auto simp: part_of_def)
qed

lemma managed_within:
  assumes "plain_actor env actor d" "db s = d" "managed_subscription env actor x s = (Inr b, t)"
  shows "\<exists>i. te_uuid env x = Some i \<and> owned_within (part_of d (ta_UserID actor)) i d"
proof -
  obtain i s1 t1 where i: "te_uuid env x = Some i" "sub_row d i = Some b" "db s1 = d"
    "requireDescendant env actor (sb_OwnerUserID b) s1 = (Inr (), t1)"
    using managed_Inr [OF assms(3)] assms(2) by auto
  have b: "b \<in> set (tn_subs d)" "sb_ID b = i" using sub_row_Some [OF i(2)] by auto
  have ok: "distinct (map sb_ID (tn_subs d))" "sb_OwnerUserID b \<in> set (account_ids d)"
    using assms(1) b(1) by (auto simp: plain_actor_def tables_ok_def subs_ok_def)
  then have "te_uuid env (sb_OwnerUserID b) = Some (sb_OwnerUserID b)" using assms(1) by (auto simp: plain_actor_def reads_back_def)
  then have "sb_OwnerUserID b \<in> part_of d (ta_UserID actor)" using require_within [OF assms(1) i(3,4)] by blast
  moreover have "b' = b" if "b' \<in> set (tn_subs d)" "sb_ID b' = i" for b'
    using ok(1) b that by (auto simp: distinct_map inj_on_def)
  ultimately show ?thesis using i(1) by (auto simp: owned_within_def)
qed

lemma on_managed:
  assumes "plain_actor env actor d" "\<And>b i. te_uuid env x = Some i \<Longrightarrow> keeps (over_tables (confined_on (part_of d (ta_UserID actor)) i)) (f b)"
  shows "from_tables (confined (part_of d (ta_UserID actor))) d (try_then (managed_subscription env actor x) f)"
proof (rule cf.from_read [OF managed_reads])
  fix b s t
  assume s: "db s = d" and m: "managed_subscription env actor x s = (Inr b, t)"
  obtain i where i: "te_uuid env x = Some i" "owned_within (part_of d (ta_UserID actor)) i d"
    using managed_within [OF assms(1) s m] by blast
  show "from_tables (confined (part_of d (ta_UserID actor))) d (f b)"
    using assms(2) [OF i(1), of b] i(2) by (auto simp: from_tables_def keeps_def over_tables_def confined_on_def)
qed

lemma RepoUpdateAccount_confined:
  "(\<And>j. te_uuid env x = Some j \<Longrightarrow> j \<in> W) \<Longrightarrow> keeps (over_tables (confined W)) (RepoUpdateAccount env x params)"
  unfolding RepoUpdateAccount_def by (intro cf.kr_rules cf_reads cf.keeps_change) (auto intro: update_account_confined)

lemma RepoDeleteAccount_confined:
  "(\<And>j. te_uuid env x = Some j \<Longrightarrow> j \<in> W) \<Longrightarrow> keeps (over_tables (confined W)) (RepoDeleteAccount env x)"
  unfolding RepoDeleteAccount_def
  by (intro cf.kr_rules cf.keeps_query) (auto split: prod.split intro!: cf.kr_rules cf.keeps_change intro: delete_account_confined)

lemma UpdateAccount_confined:
  assumes "plain_actor env actor d"
  shows "from_tables (confined (part_of d (ta_UserID actor))) d (UpdateAccount env actor x params)"
  unfolding UpdateAccount_def
proof (rule cf.from_read [OF requireDescendant_reads])
  fix u s t
  assume "db s = d" "requireDescendant env actor x s = (Inr u, t)"
  note w = require_within [OF assms this]
  show "from_tables (confined (part_of d (ta_UserID actor))) d
     (if x = ta_UserID actor \<and> (case up_Status params of None \<Rightarrow> False | Some st \<Rightarrow> st \<noteq> StatusActive) then fail_with ErrForbidden
      else if (case up_Status params of None \<Rightarrow> False | Some st \<Rightarrow> st \<notin> {StatusActive, StatusDisabled, StatusLocked})
      then fail_with ErrInvalidUserState
      else try_then (valid_or (case up_FullName params of None \<Rightarrow> None | Some n \<Rightarrow> PersonName n)) (\<lambda>_.
        try_then (valid_or (case up_Company params of None \<Rightarrow> None | Some n \<Rightarrow> PersonName n)) (\<lambda>_.
        try_then (RepoUpdateAccount env x params) (\<lambda>account.
        try_then (audit_note actor ''tenant.account.update'' x [(''username'', a_Username account)]) (\<lambda>_. return_op account)))))"
    by (intro cf.from_keeps cf.kr_rules cf.keeps_valid note_confined RepoUpdateAccount_confined w)
qed

lemma DeleteAccount_confined:
  assumes "plain_actor env actor d"
  shows "from_tables (confined (part_of d (ta_UserID actor))) d (DeleteAccount env actor x)"
proof -
  have "from_tables (confined (part_of d (ta_UserID actor))) d (try_then (requireDescendant env actor x) (\<lambda>_.
      try_then (GetAccount env x) (\<lambda>account. try_then (RepoDeleteAccount env x) (\<lambda>_. audit_note actor act x [(n, a_Username account)]))))" for act n
  proof (rule cf.from_read [OF requireDescendant_reads])
    fix u s t
    assume "db s = d" "requireDescendant env actor x s = (Inr u, t)"
    note w = require_within [OF assms this]
    show "from_tables (confined (part_of d (ta_UserID actor))) d (try_then (GetAccount env x) (\<lambda>account.
        try_then (RepoDeleteAccount env x) (\<lambda>_. audit_note actor act x [(n, a_Username account)])))"
      by (intro cf.from_keeps cf.kr_rules cf_reads note_confined RepoDeleteAccount_confined w)
  qed
  then show ?thesis unfolding DeleteAccount_def by (intro cf.from_if cf.from_simple)
qed

lemma editable_within:
  assumes "plain_actor env actor d" "db s = d" "GetPlan env x s = (Inr q, t)" "mayEditPlan actor q" "te_uuid env x = Some i"
  shows "plan_within (part_of d (ta_UserID actor)) i d"
proof -
  have "q \<in> set (tn_plans d)" "pl_ID q = i" "pl_OwnerUserID q = Some (ta_UserID actor)" "distinct (map pl_ID (tn_plans d))"
    using GetPlan_Inr [OF assms(3)] assms by (auto dest: plan_row_Some simp: mayEditPlan_def plain_actor_def tables_ok_def plans_ok_def)
  moreover have "ta_UserID actor \<in> part_of d (ta_UserID actor)"
    using assms(1) by (auto simp: plain_actor_def part_of_def intro: below_refl)
  ultimately show ?thesis by (auto simp: plan_within_def distinct_map inj_on_def)
qed

lemma UpdatePlan_confined:
  assumes "plain_actor env actor d"
  shows "from_tables (confined (part_of d (ta_UserID actor))) d (UpdatePlan env actor x req)"
proof -
  have "from_tables (confined (part_of d (ta_UserID actor))) d (RepoUpdatePlan env x input)"
    if "db s = d" "GetPlan env x s = (Inr q, t)" "mayEditPlan actor q" for input s q t
    unfolding RepoUpdatePlan_def
    by (intro cf.from_then cf.from_change_rows cf_reads) (auto intro: update_plan_confined editable_within [OF assms that])
  then show ?thesis
    unfolding UpdatePlan_def
    by (intro cf.from_read store_reads cf.from_if cf.from_simple)
      (auto split: sum.split intro!: cf.from_simple cf.from_then cf.kr_rules note_confined reapply_confined)
qed

lemma DeletePlan_confined:
  assumes "plain_actor env actor d"
  shows "from_tables (confined (part_of d (ta_UserID actor))) d (DeletePlan env actor x)"
proof -
  have "from_tables (confined (part_of d (ta_UserID actor))) d (RepoDeletePlan env x)"
    if "db s = d" "GetPlan env x s = (Inr q, t)" "mayEditPlan actor q" for s q t
    unfolding RepoDeletePlan_def
    by (intro cf.from_read rd.keeps_query cf.from_if cf.from_simple cf.from_change_rows delete_plan_confined editable_within [OF assms that])
  note del = this
  show ?thesis
    unfolding DeletePlan_def
  proof (rule cf.from_read [OF store_reads(4)])
    fix q s t
    assume q: "db s = d" "GetPlan env x s = (Inr q, t)"
    show "from_tables (confined (part_of d (ta_UserID actor))) d (if \<not> mayEditPlan actor q then fail_with ErrNotFound
        else try_then (RepoDeletePlan env x) (\<lambda>_. audit_note actor ''tenant.plan.delete'' x [(''name'', pl_Name q)]))"
      by (rule cf.from_if, rule cf.from_simple, rule cf.from_then [OF del [OF q] note_confined(1)]) simp
  qed
qed

lemma change_on:
  assumes "te_uuid env x = Some i" "\<And>d d'. f i d = Inr d' \<Longrightarrow> confined_on W i d d'"
  shows "keeps (over_tables (confined_on W i)) (change_rows env x f)"
  by (rule co.keeps_change) (use assms in simp)

lemma subscription_calls_confined:
  assumes "plain_actor env actor d"
  shows "from_tables (confined (part_of d (ta_UserID actor))) d (UpdateSubscription env actor x name planID)"
    "from_tables (confined (part_of d (ta_UserID actor))) d (SetSubscriptionStatus env actor x status reason)"
    "from_tables (confined (part_of d (ta_UserID actor))) d (DeleteSubscription env actor x)"
    "from_tables (confined (part_of d (ta_UserID actor))) d (AddAddon env actor x planID' quantity)"
    "from_tables (confined (part_of d (ta_UserID actor))) d (RemoveAddon env actor x planID')"
    "from_tables (confined (part_of d (ta_UserID actor))) d (AssignWebsite env actor x w)"
    "from_tables (confined (part_of d (ta_UserID actor))) d (ReleaseWebsite env actor x w)"
    "from_tables (confined (part_of d (ta_UserID actor))) d (ApplyIsolation env actor x)"
    "from_tables (confined (part_of d (ta_UserID actor))) d (MeasureOne env actor x)"
proof -
  note managed = on_managed [OF assms]
  have rename: "keeps (over_tables (confined_on W i)) (RenameSubscription env x n)" if "te_uuid env x = Some i" for W i n
    unfolding RenameSubscription_def
    by (rule change_on [OF that]) (auto simp: rename_sub_def elim!: update_sub_on split: if_splits)
  have move: "keeps (over_tables (confined_on W i)) (SetSubscriptionPlan env x y)" if "te_uuid env x = Some i" for W i y
    unfolding SetSubscriptionPlan_def
    by (rule change_on [OF that]) (auto simp: uuid_then_Inr elim!: update_sub_on split: if_splits)
  have status: "keeps (over_tables (confined_on W i)) (RepoSetSubscriptionStatus env x status reason)" if "te_uuid env x = Some i" for W i
    unfolding RepoSetSubscriptionStatus_def
    by (auto simp: Let_def split: prod.split intro!: change_on [OF that] elim!: update_sub_on)
  have del: "keeps (over_tables (confined_on W i)) (RepoDeleteSubscription env x)" if "te_uuid env x = Some i" for W i
    unfolding RepoDeleteSubscription_def by (intro co.tr_rules change_on [OF that] delete_sub_on)
  have set: "keeps (over_tables (confined_on W i)) (SetAddon env x y quantity)" if "te_uuid env x = Some i" for W i y
    unfolding SetAddon_def by (rule change_on [OF that]) (auto simp: uuid_then_Inr intro: set_addon_on)
  have remove: "keeps (over_tables (confined_on W i)) (RepoRemoveAddon env x y)" if "te_uuid env x = Some i" for W i y
    unfolding RepoRemoveAddon_def by (rule change_on [OF that]) (auto simp: uuid_then_Inr intro: remove_addon_on)
  show "from_tables (confined (part_of d (ta_UserID actor))) d (UpdateSubscription env actor x name planID)"
    unfolding UpdateSubscription_def
    by (rule managed; cases name; cases planID; simp only: option.case)
      (intro co.kr_rules co.keeps_valid co_reads note_confined applyIsolation_on rename move; assumption)+
  show "from_tables (confined (part_of d (ta_UserID actor))) d (SetSubscriptionStatus env actor x status reason)"
    unfolding SetSubscriptionStatus_def
    by (intro cf.from_if cf.from_simple cf.from_read rd.keeps_valid managed co.kr_rules co_reads note_confined status)
  show "from_tables (confined (part_of d (ta_UserID actor))) d (DeleteSubscription env actor x)"
    unfolding DeleteSubscription_def by (rule managed) (intro co.tr_rules note_confined del)
  show "from_tables (confined (part_of d (ta_UserID actor))) d (AddAddon env actor x planID' quantity)"
    unfolding AddAddon_def by (intro cf.from_read rd.keeps_valid managed co.kr_rules co_reads note_confined set)
  show "from_tables (confined (part_of d (ta_UserID actor))) d (RemoveAddon env actor x planID')"
    unfolding RemoveAddon_def by (rule managed) (intro co.kr_rules co_reads note_confined remove)
  show "from_tables (confined (part_of d (ta_UserID actor))) d (AssignWebsite env actor x w)"
    unfolding AssignWebsite_def by (rule managed) (intro co.kr_rules co_reads note_confined website_on)
  show "from_tables (confined (part_of d (ta_UserID actor))) d (ApplyIsolation env actor x)"
    unfolding ApplyIsolation_def by (rule managed) (intro co.kr_rules co_reads applyIsolation_on)
  show "from_tables (confined (part_of d (ta_UserID actor))) d (MeasureOne env actor x)"
    unfolding MeasureOne_def by (rule managed) (intro co.kr_rules co_reads sampleOne_on)
  have fail: "keeps (over_tables (confined_on W i)) (\<lambda>s. (Inl ErrNotFound, s) :: (tenancy_err + subscription_view) \<times> store)" for W i
    by (simp add: keeps_def over_tables_def co.Q_refl)
  have go: "keeps (over_tables (confined_on W i)) (\<lambda>s. if b then (Inl ErrNotFound, s) else
      try_then (RepoAssignWebsite env w None) (\<lambda>_. try_then (audit_note actor act x m) (\<lambda>_. Subscription env actor x)) s)" for W i b act m
    by (cases b) (simp_all add: fail co.kr_rules co_reads note_confined website_on)
  show "from_tables (confined (part_of d (ta_UserID actor))) d (ReleaseWebsite env actor x w)"
    unfolding ReleaseWebsite_def by (rule managed) (intro co.keeps_case co_reads fail go)
qed

lemma perform_confined:
  assumes "plain_actor env actor d"
  shows "from_tables (confined (part_of d (ta_UserID actor))) d (tenancy_perform sv env actor call)"
  by (cases call)
    (simp_all add: cf.from_void UpdateAccount_confined [OF assms] DeleteAccount_confined [OF assms] UpdatePlan_confined [OF assms]
      DeletePlan_confined [OF assms] subscription_calls_confined [OF assms] cf.from_keeps [OF CreateAccount_confined]
      cf.from_keeps [OF CreatePlan_confined] cf.from_keeps [OF CreateSubscription_confined] cf.from_keeps [OF StartImpersonation_confined])

text \<open>C11: whatever an account that is not an administrator's asks of tenancy, and whatever fails on the way,
  nothing changes for those who are not at or below it: their accounts, their plans and the plans of the
  catalogue, what their subscriptions promise and their add-ons.\<close>

theorem reseller_confined:
  assumes "reach migrated tenancy_step s" "reads_back env (db s)" "c_UserID cl \<in> set (account_ids (db s))"
    "tier_of (db s) (c_UserID cl) \<noteq> TierAdmin" "tenancy_request sv env cl ip agent call s = (r, t)"
  shows "confined (part_of (db s) (c_UserID cl)) (db s) (db t)"
proof -
  have ok: "tables_ok (db s)" using tenancy_system.reach_inv [OF assms(1)] .
  have "from_tables (confined (part_of (db s) (c_UserID cl))) (db s) (tenancy_request sv env cl ip agent call)"
    unfolding tenancy_request_def
  proof (rule cf.from_read [OF request_actor_reads])
    fix actor q u
    assume q: "db q = db s" "request_actor env cl ip agent q = (Inr actor, u)"
    then obtain tier where "TierOf env (c_UserID cl) q = (Inr tier, u)" "ta_UserID actor = c_UserID cl" "ta_Tier actor = tier"
      by (auto simp: request_actor_def ActorFor_def split: prod.splits sum.splits)
    then have "ta_UserID actor = c_UserID cl" "\<not> seesEverything actor"
      using TierOf_Inr [of env "c_UserID cl" q tier u] assms(2-4) q(1) by (auto simp: seesEverything_def reads_back_def)
    then have "plain_actor env actor (db s)" using ok assms(2,3) by (simp add: plain_actor_def)
    then show "from_tables (confined (part_of (db s) (c_UserID cl))) (db s) (tenancy_perform sv env actor call)"
      using perform_confined [of env actor "db s"] \<open>ta_UserID actor = c_UserID cl\<close> by simp
  qed
  then show ?thesis using assms(5) by (auto simp: from_tables_def)
qed

theorem reseller_confined_witness:
  "confined (part_of (db sold) ''acme'') (db sold) (db (after_request ''acme'' (CallDeleteAccount ''shop'') sold)) \<and>
   tier_of (db sold) ''acme'' = TierReseller"
proof -
  have "reads_back plain_env (db sold)" by (simp add: reads_back_def plain_env_def)
  moreover have "c_UserID (as_user ''acme'') = ''acme''" by (simp add: as_user_def)
  moreover obtain r t where "tenancy_request demo_service plain_env (as_user ''acme'') [] [] (CallDeleteAccount ''shop'') sold = (r, t)"
    by (cases "tenancy_request demo_service plain_env (as_user ''acme'') [] [] (CallDeleteAccount ''shop'') sold")
  ultimately show ?thesis
    using reseller_confined [OF sold_reach, of plain_env "as_user ''acme''" demo_service "[]" "[]" "CallDeleteAccount ''shop''" r t]
    by (simp add: after_request_def sold_accounts tier_names)
qed

end
