(* ===== verification/Agent_Usage.thy ===== *)
theory Agent_Usage
  imports Main
begin

text \<open>
  The totals of \<open>agent/internal/tenancy/usage.go\<close>: what a set of websites uses, from what \<open>measureSite\<close>
  returned for each. A website that could not be measured does not fail the rest; it makes the result
  partial, and the totals are of the others. Reading the disk and the access logs is not modelled.
\<close>

record site_usage =
  su_DiskBytes :: "int option"
  su_BandwidthBytes :: "int option"
  su_Error :: string

record usage_result =
  us_DiskBytes :: "int option"
  us_BandwidthBytes :: "int option"
  us_Partial :: bool

definition add_measured :: "int option \<Rightarrow> int option \<Rightarrow> int option" where
  "add_measured acc site =
     (case site of None \<Rightarrow> acc | Some n \<Rightarrow> Some ((case acc of None \<Rightarrow> 0 | Some m \<Rightarrow> m) + n))"

definition Usage :: "site_usage list \<Rightarrow> usage_result" where
  "Usage sites =
     \<lparr>us_DiskBytes = fold (\<lambda>u acc. add_measured acc (su_DiskBytes u)) sites None,
      us_BandwidthBytes = fold (\<lambda>u acc. add_measured acc (su_BandwidthBytes u)) sites None,
      us_Partial = list_ex (\<lambda>u. su_Error u \<noteq> [] \<or> su_DiskBytes u = None \<or> su_BandwidthBytes u = None) sites\<rparr>"

lemma fold_add_measured:
  "(\<forall>u \<in> set us. f u = Some (g u)) \<Longrightarrow>
     fold (\<lambda>u acc. add_measured acc (f u)) us acc =
       (if us = [] then acc else Some ((case acc of None \<Rightarrow> 0 | Some m \<Rightarrow> m) + sum_list (map g us)))"
  by (induction us arbitrary: acc) (auto simp: add_measured_def split: option.splits)

text \<open>When every site's log was read, the bandwidth is the sum of the logs.\<close>

lemma Usage_bandwidth:
  assumes "us \<noteq> []" "\<forall>u \<in> set us. su_BandwidthBytes u = Some (g u)"
  shows "us_BandwidthBytes (Usage us) = Some (sum_list (map g us))"
  using fold_add_measured [OF assms(2)] assms(1) by (simp add: Usage_def)

end
