(* ===== verification/Api_Tenancy_Properties.thy ===== *)
theory Api_Tenancy_Properties
  imports Api_Quota Api_Tenancy_Confined Agent_Usage
begin

text \<open>
  What tenancy sells and what it holds to: the tables stay in order, limits add up, the guard lets a
  subscription have no more than its limits, bandwidth is counted across the rotation of logs, and
  a session as somebody else is opened downwards only and leaves a record.
\<close>

section \<open>The tables\<close>

text \<open>C15: whatever is asked of tenancy, in any order and with any statement failing, the accounts stay a
  forest of strictly falling tiers, every plan has a known kind, a known policy and limits in range, every
  subscription belongs to an account and stands on a plan, every add-on belongs to a subscription, is an
  add-on plan and has a quantity from one to a thousand, and every website's subscription exists.\<close>

theorem tenancy_tables_sound:
  assumes "reach migrated tenancy_step s"
  shows "tables_ok (db s)"
  using tenancy_system.reach_inv [OF assms] .

theorem tenancy_tables_sound_witness:
  "tables_ok (db sold) \<and> account_ids (db sold) = [''root'', ''acme'', ''shop'']"
  using tenancy_tables_sound [OF sold_reach] sold_accounts(1) by simp

section \<open>Quotas\<close>

text \<open>C18: the effective limit of a subscription is the limit of its plan plus, for every add-on, its
  increment times its quantity, cut off at the largest limit there is; a plan without a limit stays
  without one whatever is added, and an add-on without an increment adds nothing.\<close>

theorem EffectiveLimits_sum:
  assumes "limits_ok l" "\<forall>a \<in> set addons. addon_ok a"
  shows "Limit (EffectiveLimits l addons) dimension =
    map_option (\<lambda>base. min MaxLimitValue (base + sold_on_top addons dimension)) (Limit l dimension)"
  using assms by (rule Limit_sum)

definition no_limits :: limits where
  "no_limits = \<lparr>DiskMB = None, BandwidthMB = None, MaxWebsites = None, MaxDatabases = None, MaxMailboxes = None, MaxFTPUsers = None,
     MaxCronJobs = None, MaxSubdomains = None\<rparr>"

theorem EffectiveLimits_sum_witness:
  "Limit (EffectiveLimits (no_limits\<lparr>MaxWebsites := Some 5\<rparr>)
     [\<lparr>ad_PlanID = ''a'', ad_Name = ''more'', ad_Quantity = 3, ad_Limits = no_limits\<lparr>MaxWebsites := Some 2\<rparr>\<rparr>]) ''websites'' = Some 11"
  using EffectiveLimits_sum [of "no_limits\<lparr>MaxWebsites := Some 5\<rparr>"
      "[\<lparr>ad_PlanID = ''a'', ad_Name = ''more'', ad_Quantity = 3, ad_Limits = no_limits\<lparr>MaxWebsites := Some 2\<rparr>\<rparr>]" "''websites''"]
  by (simp add: no_limits_def limits_ok_def quota_limits_def within_limit_def addon_ok_def MaxLimitValue_def sold_on_top_def Limit_def
      dimension_names)

text \<open>C12: a guarded request charged to a subscription is let through only if the subscription is not suspended
  and has room under its limit, or the plan is soft, which the answer then warns of; it is refused only if
  the subscription is suspended or full under a hard plan, and the refusal is in the audit trail. It ends in
  an error only when the store fails.\<close>

theorem quota_holds:
  assumes "tables_ok (db s1)" "guard_resolve quota_table r = Some (rule, pathID)" "guard_authenticate sv env r s = (Inr cl, s1)"
    "subjectFor env rule pathID (fst (readBody decode (gq_Body r))) (c_UserID cl) s1 = (Inr x, s2)" "x \<noteq> []"
    "te_uuid env x = Some i" "sub_row (db s1) i = Some b" "plan_row (db s1) (sb_PlanID b) = Some q"
    "te_uuid env (sb_PlanID b) = Some (sb_PlanID b)" "Middleware sv env decode quota_table r s = (reply, t)"
  shows "let used = Used (count_usage (db s1) i) (ru_Dimension rule); most = allowance (db s1) i q (ru_Dimension rule);
             full = (case most of None \<Rightarrow> False | Some n \<Rightarrow> n \<le> used) in
    case reply of
      Passed warning \<Rightarrow> sb_Status b \<noteq> StatusSuspended \<and> (full \<longrightarrow> pl_Enforcement q = EnforcementSoft) \<and> (full \<longleftrightarrow> warning \<noteq> None)
    | Conflict why \<Rightarrow> (sb_Status b = StatusSuspended \<or> full \<and> pl_Enforcement q \<noteq> EnforcementSoft) \<and> refusal_noted (db t) (c_UserID cl) x
    | Failed e \<Rightarrow> \<exists>n. te_fails env n"
proof -
  let ?d = "decide b q (addons_of (db s1) i) (count_usage (db s1) i) (ru_Dimension rule)"
  have db: "db s2 = db s1" using readsD [OF subjectFor_reads assms(4)] .
  obtain c s3 where c: "CheckQuota env x (ru_Dimension rule) s2 = (c, s3)" by (cases "CheckQuota env x (ru_Dimension rule) s2")
  have run: "(reply, t) = (case c of
      Inl e \<Rightarrow> (if e = ErrNotFound then Passed None else Failed e, s3)
    | Inr v \<Rightarrow> if \<not> dc_Allowed v then (Conflict (dc_Reason v), snd (recordRefusal (c_UserID cl) x v r s3))
        else (Passed (if dc_OverSoftLimit v then Some (dc_Reason v) else None), s3))"
    using assms(2-5,10) c by (simp add: Middleware_def)
  show ?thesis
  proof (cases c)
    case (Inl e)
    then have "e = StoreError" "\<exists>n. te_fails env n"
      using CheckQuota_Inl [of env x _ s2 e s3 i b q] c assms(6-9) db resolve_rule [OF assms(2)] by simp_all
    then show ?thesis using run Inl by (simp add: Let_def)
  next
    case (Inr v)
    then have "v = ?d" using CheckQuota_Inr [of env x _ s2 v s3 i b q] c assms(6-9) db by simp
    then show ?thesis
      using run Inr recordRefusal_noted decide_cases [of b q "addons_of (db s1) i" "count_usage (db s1) i" "ru_Dimension rule"]
        allowance_eq [OF assms(1,8)]
      by (auto simp: Let_def split: if_splits option.splits)
  qed
qed

text \<open>A subscription of one website, and no more; its owner asks for a second one.\<close>

definition one_site_plan :: plan where
  "one_site_plan = \<lparr>pl_ID = ''p1'', pl_OwnerUserID = None, pl_Name = ''One site'', pl_Description = [], pl_Kind = PlanKindPlan,
     pl_Limits = no_limits\<lparr>MaxWebsites := Some 1\<rparr>, pl_Enforcement = EnforcementHard,
     pl_Isolation = \<lparr>CPUPercent = None, MemoryMB = None, IOWeight = None\<rparr>\<rparr>"

definition one_site_sub :: subscription where
  "one_site_sub = \<lparr>sb_ID = ''b1'', sb_OwnerUserID = ''root'', sb_PlanID = ''p1'', sb_Name = ''Mine'', sb_Status = StatusActive,
     sb_SuspendedReason = [], sb_SuspendedAt = None, sb_SliceName = [], sb_IsolationState = IsolationNone, sb_IsolationDetail = [],
     sb_IsolationAppliedAt = None, sb_CreatedAt = 0\<rparr>"

definition rented :: store where
  "rented = fresh_install\<lparr>db := (db fresh_install)
     \<lparr>tn_plans := [one_site_plan], tn_subs := [one_site_sub],
      tn_websites := map (\<lambda>w. w\<lparr>ws_SubscriptionID := Some ''b1''\<rparr>) (tn_websites (db fresh_install)),
      tn_panel := (tn_panel (db fresh_install))
        \<lparr>sessions := [\<lparr>se_ID = ''sroot'', se_UserID = ''root'', se_TokenHash = ''h'', se_IPAddress = None, se_UserAgent = None,
                       se_ExpiresAt = 10, se_CreatedAt = 0, se_RevokedAt = None\<rparr>],
         access_tokens := (\<lambda>_. Some (as_user ''root'', 10))\<rparr>\<rparr>\<rparr>"

definition second_site :: guard_request where
  "second_site = \<lparr>gq_Method = ''POST'', gq_Segments = Some [''api'', ''v1'', ''websites''], gq_URLPath = ''/api/v1/websites'',
     gq_Authorization = ''Bearer t'', gq_Body = Some ''{}'', gq_IPAddress = ''192.0.2.1'', gq_UserAgent = []\<rparr>"

lemmas rented_defs = rented_def fresh_install_def one_site_plan_def one_site_sub_def

lemma rented_ok: "tables_ok (db rented)"
  by (simp add: tables_ok_def tree_ok_def plans_ok_def subs_ok_def addons_ok_def websites_ok_def status_ok_def has_plan_def ids_defs
      rented_defs limits_ok_def quota_limits_def no_limits_def within_limit_def MaxLimitValue_def AccountTier_def PlanKind_def Enforcement_def)

lemma rented_authenticated: "guard_authenticate demo_service plain_env second_site rented = (Inr (as_user ''root''), rented)"
proof -
  have "cut CHR '' '' ''Bearer t'' = (''Bearer'', ''t'', True)" "equal_fold ''Bearer'' ''Bearer''" "trim_space ''t'' = ''t''"
    by (code_simp, code_simp, code_simp)
  then show ?thesis
    by (simp add: guard_authenticate_def second_site_def on_panel_def Authenticate_def Lookup_def GetSessionByID_def store_op_def
        plain_env_def calm_def as_user_def rented_defs unexpired_def IsUsable_def)
qed

lemma rented_rows:
  "guard_resolve quota_table second_site = Some (\<lparr>ru_Dimension = DimensionWebsites, ru_Subject = SubjectBodySubscription\<rparr>, [])"
  "subjectFor plain_env \<lparr>ru_Dimension = DimensionWebsites, ru_Subject = SubjectBodySubscription\<rparr> []
     (fst (readBody (\<lambda>_. None) (gq_Body second_site))) ''root'' rented = (Inr ''b1'', rented\<lparr>ran := 1\<rparr>)"
  "sub_row (db rented) ''b1'' = Some one_site_sub" "plan_row (db rented) ''p1'' = Some one_site_plan"
  by (simp_all add: guard_resolve_def quota_table_def post_def second_site_def subjectFor_def subject_names stringField_def readBody_def
      callerSubscription_def SubscriptionsForOwner_def query_def stmt_def uuid_then_def try_then_def op_simps plain_env_def
      maxGuardBody_def sub_row_def plan_row_def account_row_def accounts_of_def rented_defs Let_def)

theorem quota_holds_witness:
  "\<exists>why t. Middleware demo_service plain_env (\<lambda>_. None) quota_table second_site rented = (Conflict why, t) \<and>
     refusal_noted (db t) ''root'' ''b1''"
proof -
  obtain reply t where run: "Middleware demo_service plain_env (\<lambda>_. None) quota_table second_site rented = (reply, t)"
    by (cases "Middleware demo_service plain_env (\<lambda>_. None) quota_table second_site rented")
  have user: "c_UserID (as_user ''root'') = ''root''" by (simp add: as_user_def)
  have uuid: "te_uuid plain_env x = Some x" "\<not> Ex (te_fails plain_env)" for x by (simp_all add: plain_env_def)
  have full: "Used (count_usage (db rented) ''b1'') DimensionWebsites = 1" "allowance (db rented) ''b1'' one_site_plan DimensionWebsites = Some 1"
    by (simp_all add: Used_def count_usage_def allowance_def addons_of_def sold_on_top_def Limit_def rented_defs no_limits_def
        MaxLimitValue_def Let_def)
  have plan: "sb_PlanID one_site_sub = ''p1''" "sb_Status one_site_sub \<noteq> StatusSuspended" "pl_Enforcement one_site_plan \<noteq> EnforcementSoft"
    by (simp_all add: one_site_sub_def one_site_plan_def StatusSuspended_def StatusActive_def enforcement_names)
  show ?thesis
    using quota_holds [of rented second_site _ "[]" demo_service plain_env rented "as_user ''root''" "\<lambda>_. None" "''b1''" _ "''b1''"
        one_site_sub one_site_plan reply t, OF rented_ok rented_rows(1) rented_authenticated] rented_rows(2-4) run full plan user uuid
    by (cases reply) (simp_all add: Let_def)
qed

section \<open>Bandwidth\<close>

text \<open>The access logs of a subscription's sites over one period, site by site: requests served make a
  log grow, the logs of some sites are rotated away, and the subscription is sampled by \<open>sampleOne\<close>, with
  what the Agent totals over all the logs, or the measurement fails. Kept beside the tables are the size
  of each log and the bytes the subscription's sites served.\<close>

datatype log_event = Serve go_string nat | Rotate "go_string list" | Sample "go_string \<Rightarrow> int option" | Missed go_string

definition read_logs :: "(go_string \<Rightarrow> nat) \<Rightarrow> (go_string \<Rightarrow> int option) \<Rightarrow> go_string list \<Rightarrow> site_usage list" where
  "read_logs logs disk roots =
     map (\<lambda>w. \<lparr>su_DiskBytes = disk w, su_BandwidthBytes = Some (int (logs w)), su_Error = []\<rparr>) roots"

fun log_step :: "tenancy_env \<Rightarrow> go_string \<Rightarrow> go_string list \<Rightarrow> int \<Rightarrow> log_event \<Rightarrow>
    store \<times> (go_string \<Rightarrow> nat) \<times> nat \<Rightarrow> store \<times> (go_string \<Rightarrow> nat) \<times> nat" where
  "log_step env x roots period (Serve w n) (s, logs, served) =
     (s, logs(w := logs w + n), if w \<in> set roots then served + n else served)"
| "log_step env x roots period (Rotate ws) (s, logs, served) = (s, (\<lambda>w. if w \<in> set ws then 0 else logs w), served)"
| "log_step env x roots period (Sample disk) (s, logs, served) =
     (let answer = (\<lambda>rs. let u = Usage (read_logs logs disk rs) in Inr (us_DiskBytes u, us_BandwidthBytes u, us_Partial u))
      in (snd (sampleOne (env\<lparr>te_measure := answer\<rparr>) x roots period s), logs, served))"
| "log_step env x roots period (Missed why) (s, logs, served) =
     (snd (sampleOne (env\<lparr>te_measure := \<lambda>_. Inl why\<rparr>) x roots period s), logs, served)"

definition log_run :: "tenancy_env \<Rightarrow> go_string \<Rightarrow> go_string list \<Rightarrow> int \<Rightarrow> log_event list \<Rightarrow> (go_string \<Rightarrow> nat) \<Rightarrow> store \<Rightarrow>
    store \<times> (go_string \<Rightarrow> nat) \<times> nat" where
  "log_run env x roots period events logs s = fold (log_step env x roots period) events (s, logs, 0)"




definition measured_row :: "tenancy \<Rightarrow> go_string \<Rightarrow> usage_row option" where
  "measured_row d i = find (\<lambda>u. ur_SubscriptionID u = i) (tn_usage d)"

definition charged :: "usage_row \<Rightarrow> int" where
  "charged u = (case ur_Bandwidth u of None \<Rightarrow> 0 | Some n \<Rightarrow> n)"


lemma find_map_same: "(\<And>x. P (f x) = P x) \<Longrightarrow> find P (map f xs) = map_option f (find P xs)"
  by (induction xs) auto

lemma find_append_one: "find P (xs @ [y]) = (case find P xs of Some x \<Rightarrow> Some x | None \<Rightarrow> if P y then Some y else None)"
  by (induction xs) auto

lemma list_ex_find: "list_ex P xs \<longleftrightarrow> find P xs \<noteq> None"
  by (induction xs) auto

text \<open>A recorded measurement either changes nothing or leaves the row that \<open>record_usage\<close> writes.\<close>

lemma record_usage_row:
  assumes "record_usage now ms i d = Inr d'"
  shows "measured_row d' i = Some
    (case measured_row d i of
       None \<Rightarrow> \<lparr>ur_SubscriptionID = i, ur_PeriodStart = ms_PeriodStart ms, ur_DiskBytes = ms_DiskBytes ms,
                ur_Bandwidth = Some (case ms_RawBandwidth ms of None \<Rightarrow> 0 | Some n \<Rightarrow> n), ur_RawBandwidth = ms_RawBandwidth ms,
                ur_MeasuredAt = now, ur_Error = ms_Error ms\<rparr>
     | Some u \<Rightarrow> \<lparr>ur_SubscriptionID = i, ur_PeriodStart = ms_PeriodStart ms, ur_DiskBytes = ms_DiskBytes ms,
                ur_Bandwidth = accumulate u (ms_PeriodStart ms) (ms_RawBandwidth ms),
                ur_RawBandwidth = (if ms_RawBandwidth ms = None then ur_RawBandwidth u else ms_RawBandwidth ms),
                ur_MeasuredAt = now, ur_Error = ms_Error ms\<rparr>)"
proof (cases "measured_row d i")
  case None
  then show ?thesis
    using assms by (auto simp: record_usage_def measured_row_def list_ex_find find_append_one split: if_splits)
next
  case (Some u)
  then have "ur_SubscriptionID u = i" by (auto simp: measured_row_def find_Some_iff)
  with Some assms show ?thesis
    by (auto simp: record_usage_def measured_row_def list_ex_find find_map_same split: if_splits)
qed

text \<open>What was measured of the disk before does not outlive a measurement that failed.\<close>

lemma failed_measurement_forgets_disk:
  assumes "record_usage now ms i d = Inr d'" "ms_DiskBytes ms = None"
  shows "\<exists>u. measured_row d' i = Some u \<and> ur_DiskBytes u = None \<and> ur_MeasuredAt u = now"
  unfolding record_usage_row [OF assms(1)] using assms(2) by (simp split: option.split)












text \<open>Ten bytes of one site, four of another, a reading, a rotation of both logs, four more bytes and a reading.\<close>

definition two_sites :: "go_string list" where
  "two_sites = [''/srv/a'', ''/srv/b'']"

definition busy_day :: "go_string list \<Rightarrow> log_event list" where
  "busy_day rotated = [Serve ''/srv/a'' 10, Serve ''/srv/b'' 10, Sample (\<lambda>_. None), Rotate rotated, Sample (\<lambda>_. None)]"

lemmas bandwidth_run = log_run_def busy_day_def two_sites_def sampleOne_def log_error_def try_then_def ask_host_def
  Usage_def read_logs_def add_measured_def RecordUsage_def change_rows_def stmt_def record_usage_def measured_row_def plain_env_def
  rented_defs accumulate_def charged_def Let_def


text \<open>The totals hide which log was rotated: of two sites that served ten bytes each, one log is rotated
  away, the total falls from twenty to ten, and the ten bytes of the other site are charged again.\<close>

lemma rotating_one_log_overcharges:
  "\<exists>t logs' u. log_run plain_env ''b1'' two_sites 0 (busy_day [''/srv/a'']) (\<lambda>_. 0) rented = (t, logs', 20) \<and>
     measured_row (db t) ''b1'' = Some u \<and> charged u = 30"
proof -
  let ?run = "log_run plain_env ''b1'' two_sites 0 (busy_day [''/srv/a'']) (\<lambda>_. 0) rented"
  have "snd (snd ?run) = 20" by (simp add: log_run_def busy_day_def two_sites_def Let_def)
  then obtain t logs' where t: "?run = (t, logs', 20)" by (metis prod.collapse)
  have "\<exists>u. measured_row (db (fst ?run)) ''b1'' = Some u \<and> charged u = 30" by (simp add: bandwidth_run)
  then show ?thesis using t by auto
qed

text \<open>Across periods this is lost: the first reading of a new period is charged whole, though the log it
  measures began before the period did.\<close>

lemma new_period_charges_whole_log:
  assumes "ur_PeriodStart row < period" "ur_RawBandwidth row = Some n"
  shows "accumulate row period (Some n) = Some n"
  using assms by (simp add: accumulate_def)

section \<open>Impersonation\<close>

lemma get_subject_Inr:
  assumes "get_subject env x s = (Inr u, t)"
  shows "te_uuid env x = Some (u_ID u)"
  using assms
  by (auto simp: get_subject_def on_panel_def GetUserByID_def store_op_def find_Some_iff split: option.splits sum.splits prod.splits if_splits)

lemma on_panel_Inr: "on_panel m s = (Inr a, t) \<Longrightarrow> \<exists>p. m (tn_panel (db s)) = (Inr a, p) \<and> db t = (db s)\<lparr>tn_panel := p\<rparr>"
  by (auto simp: on_panel_def split: prod.splits sum.splits)

lemma recordImpersonation_Inr:
  assumes "recordImpersonation env actor subject sid reason s = (Inr w, t)" "te_uuid env (ta_UserID actor) = Some i"
  shows "db t = (db s)\<lparr>tn_impersonations := tn_impersonations (db s) @
    [\<lparr>im_ActorUserID = i, im_SubjectUserID = subject, im_SessionID = Some sid, im_Reason = reason,
      im_StartedAt = at_time (te_auth env), im_EndedAt = None\<rparr>]\<rparr>"
  using assms
  by (auto simp: recordImpersonation_def change_rows_def stmt_def insert_impersonation_def Let_def split: if_splits sum.splits)

lemma audit_note_db: "audit_note actor action resource meta s = (r, t) \<Longrightarrow>
    tn_impersonations (db t) = tn_impersonations (db s) \<and> sessions (tn_panel (db t)) = sessions (tn_panel (db s))"
  by (auto simp: audit_note_def on_panel_def emit_def)

lemma or_undo_Inr:
  "(case y of (Inl e, s) \<Rightarrow> try_then (log_error m) (\<lambda>_. fail_with e) s | (Inr _, s) \<Rightarrow> try_then n (\<lambda>_. return_op a) s) = (Inr b, t) \<longleftrightarrow>
     b = a \<and> (\<exists>w q v. y = (Inr w, q) \<and> n q = (Inr v, t))"
proof (cases y)
  case (Pair r q)
  then show ?thesis by (cases r) (auto simp: try_then_Inr log_error_def op_simps)
qed

text \<open>The run of a call that succeeds.\<close>

lemma StartImpersonation_Inr:
  assumes "StartImpersonation sv env dr actor x reason s = (Inr (pair, sid), t)"
  obtains u s1 lower s2 subject s3 s4 w s5 v where
    "ta_ImpersonatorUserID actor = []" "Has (ta_Permissions actor) ''tenant.impersonate''"
    "requireDescendant env actor x s = (Inr u, s1)" "TierOf env x s1 = (Inr lower, s2)" "TierMayOwn (ta_Tier actor) lower"
    "get_subject env x s2 = (Inr subject, s3)"
    "on_panel (Impersonate sv (te_auth env) dr (ta_UserID actor) subject
       \<lparr>rq_IPAddress = ta_IPAddress actor, rq_UserAgent = ta_UserAgent actor\<rparr>) s3 = (Inr (pair, sid), s4)"
    "recordImpersonation env actor (u_ID subject) sid reason s4 = (Inr w, s5)"
    "audit_note actor ''tenant.impersonate.start'' (u_ID subject)
       [(''subject'', u_Username subject), (''reason'', reason), (''session_id'', sid)] s5 = (Inr v, t)"
proof -
  have may: "ta_ImpersonatorUserID actor = []" "Has (ta_Permissions actor) ''tenant.impersonate''"
    using assms by (auto simp: StartImpersonation_def Let_def op_simps split: if_splits)
  obtain y p where valid: "valid_or (Reason reason) s = (Inr y, p)"
    using assms may by (auto simp: StartImpersonation_def Let_def try_then_Inr)
  then have "p = s" by (auto simp: valid_or_def op_simps split: option.splits)
  note start = assms [unfolded StartImpersonation_def Let_def]
  have other: "x \<noteq> ta_UserID actor" using start may valid by (auto simp: try_then_Inr op_simps)
  obtain u s1 lower s2 where top: "requireDescendant env actor x s = (Inr u, s1)" "TierOf env x s1 = (Inr lower, s2)"
    using start may valid other \<open>p = s\<close> by (simp add: try_then_Inr) blast
  have own: "TierMayOwn (ta_Tier actor) lower"
    using start may valid other \<open>p = s\<close> top by (auto simp: try_then_Inr op_simps split: if_splits)
  obtain subject s3 pair' sid' s4 where mid: "get_subject env x s2 = (Inr subject, s3)"
      "on_panel (Impersonate sv (te_auth env) dr (ta_UserID actor) subject
         \<lparr>rq_IPAddress = ta_IPAddress actor, rq_UserAgent = ta_UserAgent actor\<rparr>) s3 = (Inr (pair', sid'), s4)"
    using start may valid other \<open>p = s\<close> top own by (simp add: try_then_Inr) blast
  have "(pair, sid) = (pair', sid') \<and> (\<exists>w q v. recordImpersonation env actor (u_ID subject) sid' reason s4 = (Inr w, q) \<and>
      audit_note actor ''tenant.impersonate.start'' (u_ID subject)
        [(''subject'', u_Username subject), (''reason'', reason), (''session_id'', sid')] q = (Inr v, t))"
    using start may valid other \<open>p = s\<close> top own mid by (simp add: try_then_def or_undo_Inr)
  then show thesis using that may top own mid by auto
qed

text \<open>C13: a session opened as somebody else is opened by an account that was not itself impersonated and holds the
  permission, and downwards only: for an account of a strictly lower tier; an account that is not an
  administrator moreover opens it only for an account below itself, while an administrator may open it for any
  account of a lower tier, wherever it stands; and there is an open record of who asked, for whom and why, naming the session.\<close>

theorem impersonation_goes_down:
  assumes "reach migrated tenancy_step s" "te_uuid env (c_UserID cl) = Some i" "request_actor env cl ip agent s = (Inr actor, s1)"
    "StartImpersonation sv env dr actor x reason s1 = (Inr (pair, sid), t)"
  shows "c_ImpersonatorUserID cl = [] \<and> Has (c_Permissions cl) ''tenant.impersonate'' \<and>
    (\<exists>j. te_uuid env x = Some j \<and> TierMayOwn (tier_of (db s) i) (tier_of (db s) j) \<and>
       (tier_of (db s) i = TierAdmin \<or> below (db s) j i) \<and>
       (\<exists>r \<in> set (tn_impersonations (db t)). im_SessionID r = Some sid \<and> im_ActorUserID r = i \<and> im_SubjectUserID r = j \<and>
          im_Reason r = reason \<and> im_EndedAt r = None) \<and>
       (\<exists>z \<in> set (sessions (tn_panel (db t))). se_ID z = sid \<and> se_UserID z = j))"
proof -
  have tree: "tree_ok (db s)" using tenancy_system.reach_inv [OF assms(1)] by (simp add: tables_ok_def)
  obtain tier where actor: "TierOf env (c_UserID cl) s = (Inr tier, s1)" "ta_UserID actor = c_UserID cl" "ta_Tier actor = tier"
      "ta_Permissions actor = c_Permissions cl" "ta_ImpersonatorUserID actor = c_ImpersonatorUserID cl"
    using assms(3) by (auto simp: request_actor_def ActorFor_def split: prod.splits sum.splits)
  then have tier: "tier = tier_of (db s) i" using TierOf_Inr [OF actor(1)] assms(2) by auto
  obtain u1 s2 lower s3 subject s4 s5 s6 w v where run:
      "requireDescendant env actor x s1 = (Inr u1, s2)" "TierOf env x s2 = (Inr lower, s3)" "TierMayOwn (ta_Tier actor) lower"
      "get_subject env x s3 = (Inr subject, s4)"
      "on_panel (Impersonate sv (te_auth env) dr (ta_UserID actor) subject
         \<lparr>rq_IPAddress = ta_IPAddress actor, rq_UserAgent = ta_UserAgent actor\<rparr>) s4 = (Inr (pair, sid), s5)"
      "recordImpersonation env actor (u_ID subject) sid reason s5 = (Inr w, s6)"
      "audit_note actor ''tenant.impersonate.start'' (u_ID subject)
         [(''subject'', u_Username subject), (''reason'', reason), (''session_id'', sid)] s6 = (Inr v, t)"
    and may: "ta_ImpersonatorUserID actor = []" "Has (ta_Permissions actor) ''tenant.impersonate''"
    by (rule StartImpersonation_Inr [OF assms(4)])
  have db: "db s1 = db s" "db s2 = db s"
    using readsD [OF request_actor_reads assms(3)] readsD [OF requireDescendant_reads run(1)] by simp_all
  let ?j = "u_ID subject"
  have j: "te_uuid env x = Some ?j" using get_subject_Inr [OF run(4)] .
  have "lower = tier_of (db s) ?j" using TierOf_Inr [OF run(2)] db j by auto
  then have down: "TierMayOwn (tier_of (db s) i) (tier_of (db s) ?j)" using run(3) actor(3) tier by simp
  have under: "tier_of (db s) i = TierAdmin \<or> below (db s) ?j i"
  proof (cases "seesEverything actor")
    case False
    then show ?thesis
      using requireDescendant_Inr [OF run(1) False] descendants_total [OF tree, of i] actor(2) assms(2) j db by auto
  qed (use actor(3) tier in \<open>simp add: seesEverything_def\<close>)
  obtain p where p: "Impersonate sv (te_auth env) dr (ta_UserID actor) subject
      \<lparr>rq_IPAddress = ta_IPAddress actor, rq_UserAgent = ta_UserAgent actor\<rparr> (tn_panel (db s4)) = (Inr (pair, sid), p)"
      "db s5 = (db s4)\<lparr>tn_panel := p\<rparr>"
    using on_panel_Inr [OF run(5)] by blast
  then have session: "\<exists>z \<in> set (sessions p). se_ID z = sid \<and> se_UserID z = ?j"
    using Impersonate_Inr(3) [OF p(1)] by (auto simp: opened_def same_access_def issued_def Let_def)
  have rows: "tn_impersonations (db t) = tn_impersonations (db s6)" "sessions (tn_panel (db t)) = sessions (tn_panel (db s6))"
    using audit_note_db [OF run(7)] by simp_all
  have "te_uuid env (ta_UserID actor) = Some i" using actor(2) assms(2) by simp
  from recordImpersonation_Inr [OF run(6) this] session p(2) rows
  have "\<exists>r \<in> set (tn_impersonations (db t)). im_SessionID r = Some sid \<and> im_ActorUserID r = i \<and> im_SubjectUserID r = ?j \<and>
      im_Reason r = reason \<and> im_EndedAt r = None"
    and "\<exists>z \<in> set (sessions (tn_panel (db t))). se_ID z = sid \<and> se_UserID z = ?j"
    by simp_all
  then show ?thesis using may actor(4,5) j down under by auto
qed

theorem impersonation_goes_down_witness:
  "\<exists>actor s1 pair sid t. request_actor plain_env (as_user ''acme'') [] [] sold = (Inr actor, s1) \<and>
     StartImpersonation demo_service plain_env demo_draw actor ''shop'' ''help'' s1 = (Inr (pair, sid), t) \<and>
     below (db sold) ''shop'' ''acme'' \<and> tn_impersonations (db t) \<noteq> []"
proof -
  obtain ds where ds: "descendants (db sold) ''acme'' = Some ds" "''shop'' \<in> set ds"
    using hierarchy_query_ends_witness by blast
  have reason: "Reason ''help'' = None" by code_simp
  have "\<exists>a b c. users (tn_panel (db sold)) = [a, b, c] \<and> u_ID a = ''root'' \<and> u_ID b = ''acme'' \<and> u_ID c = ''shop'' \<and> u_Status c = ''active''"
    by (simp add: sold_def run_defs demo_run tier_of_def)
  then obtain a b c where us: "users (tn_panel (db sold)) = [a, b, c]" "u_ID a = ''root''" "u_ID b = ''acme''" "u_ID c = ''shop''" "u_Status c = ''active''"
    by blast
  have tables: "sessions (tn_panel (db sold)) = []" "tier_of (db sold) ''shop'' = ''customer''"
    by (simp_all add: sold_def run_defs demo_run tier_of_def)
  have "\<exists>actor s1 pair sid t. request_actor plain_env (as_user ''acme'') [] [] sold = (Inr actor, s1) \<and>
      StartImpersonation demo_service plain_env demo_draw actor ''shop'' ''help'' s1 = (Inr (pair, sid), t)"
    using us tables ds reason sold_accounts(2)
    by (simp add: request_actor_def ActorFor_def TierOf_def query_def stmt_def uuid_then_def change_rows_def try_then_def op_simps StartImpersonation_def Let_def
        requireDescendant_def IsDescendant_def within_def get_subject_def on_panel_def GetUserByID_def Impersonate_def CreateSession_def
        issueImpersonatedAccessToken_def PermissionsForUser_def RolesForUser_def Issue_def emit_def IsActive_def StatusActive_def store_op_def
        recordImpersonation_def insert_impersonation_def audit_note_def valid_or_def account_row_def accounts_of_def as_user_def Has_def
        demo_tiers seesEverything_def tier_names plain_env_def calm_def demo_service_def demo_draw_def)
  then obtain actor s1 pair sid t where run: "request_actor plain_env (as_user ''acme'') [] [] sold = (Inr actor, s1)"
      "StartImpersonation demo_service plain_env demo_draw actor ''shop'' ''help'' s1 = (Inr (pair, sid), t)" by blast
  have uuid: "te_uuid plain_env (c_UserID (as_user ''acme'')) = Some ''acme''" "te_uuid plain_env ''shop'' = Some ''shop''"
    by (simp_all add: plain_env_def as_user_def)
  show ?thesis
    using impersonation_goes_down [OF sold_reach uuid(1) run] run uuid(2) sold_accounts(2) by (fastforce simp: tier_names)
qed

end
