(* ===== verification/Api_Tenancy_Http.thy ===== *)
theory Api_Tenancy_Http
  imports Api_Tenancy_Properties
begin

text \<open>
  The routes of tenancy (\<open>api/internal/tenancy/handlers.go\<close>): the permission each call needs, the status an error
  becomes, a request from its header to its reply, and the readings of records of impersonation. The body of
  a request is taken as decoded. What somebody may not see is answered like what is not there.
\<close>

section \<open>Replies\<close>

datatype tenancy_reply = Replied | UnauthorizedReply | MissingReply | ForbiddenReply | ConflictReply | RejectedReply | FaultReply

definition translate :: "tenancy_err \<Rightarrow> tenancy_reply" where
  "translate e =
     (if e = ErrNotFound then MissingReply
      else if e \<in> {ErrForbidden, ErrMayNotImpersonate, ErrAlreadyImpersonating} then ForbiddenReply
      else if e \<in> {ErrNameTaken, ErrPlanInUse, ErrSubscriptionInUse, ErrHasChildren, ErrSuspended} then ConflictReply
      else if e \<in> {ErrNotAnAddon, ErrNotAPlan} \<or> (case e of Invalid _ \<Rightarrow> True | _ \<Rightarrow> False) then RejectedReply
      else if e = SignIn ErrAccountInactive then ConflictReply
      else FaultReply)"

definition PermTenantManage :: go_string where "PermTenantManage = ''tenant.manage''"
definition PermTenantImpersonate :: go_string where "PermTenantImpersonate = ''tenant.impersonate''"

definition required_permission :: "tenancy_call \<Rightarrow> go_string" where
  "required_permission call = (case call of CallImpersonate _ _ _ \<Rightarrow> PermTenantImpersonate | _ \<Rightarrow> PermTenantManage)"

text \<open>\<open>RequireAuth\<close> and \<open>RequirePermission\<close> around the handler, which looks up the actor and makes the call.\<close>

definition serve_tenancy ::
  "service \<Rightarrow> tenancy_env \<Rightarrow> go_string \<Rightarrow> go_string \<Rightarrow> go_string \<Rightarrow> tenancy_call \<Rightarrow> store \<Rightarrow> tenancy_reply \<times> store" where
  "serve_tenancy sv env header ip agent call s =
     (case guarded_route sv (te_auth env) (required_permission call) header (tn_panel (db s)) of
        (r, p) \<Rightarrow>
          let s = s\<lparr>db := (db s)\<lparr>tn_panel := p\<rparr>\<rparr> in
            (case r of
               Unauthorized \<Rightarrow> (UnauthorizedReply, s)
             | InternalError \<Rightarrow> (FaultReply, s)
             | Forbidden \<Rightarrow> (ForbiddenReply, s)
             | Served cl \<Rightarrow>
                 (case tenancy_request sv env cl ip agent call s of
                    (Inl e, s) \<Rightarrow> (translate e, s)
                  | (Inr _, s) \<Rightarrow> (Replied, s))))"

section \<open>Records of impersonation\<close>

definition named :: "tenancy \<Rightarrow> impersonation_row \<Rightarrow> bool" where
  "named d r \<longleftrightarrow> account_row d (im_ActorUserID r) \<noteq> None \<and> account_row d (im_SubjectUserID r) \<noteq> None"

definition CurrentImpersonation :: "tenancy_env \<Rightarrow> claims \<Rightarrow> impersonation_row option tenancy_op" where
  "CurrentImpersonation env cl =
     (if c_ImpersonatorUserID cl = [] then return_op None
      else query env (\<lambda>d. uuid_then env (c_SessionID cl) (\<lambda>i.
        Inr (Some (case sort_key (\<lambda>r. - im_StartedAt r)
                          (filter (\<lambda>r. named d r \<and> im_SessionID r = Some i \<and> im_EndedAt r = None) (tn_impersonations d)) of
                     r # _ \<Rightarrow> r
                   | [] \<Rightarrow> \<lparr>im_ActorUserID = c_ImpersonatorUserID cl, im_SubjectUserID = c_UserID cl, im_SessionID = Some (c_SessionID cl),
                           im_Reason = [], im_StartedAt = c_IssuedAt cl, im_EndedAt = None\<rparr>)))))"

definition ImpersonationHistory :: "tenancy_env \<Rightarrow> actor \<Rightarrow> int \<Rightarrow> impersonation_row list tenancy_op" where
  "ImpersonationHistory env actor limit =
     (let limit = (if limit \<le> 0 \<or> limit > 200 then 50 else limit);
          show = (\<lambda>d P. take (nat limit) (sort_key (\<lambda>r. - im_StartedAt r) (filter (\<lambda>r. named d r \<and> P r) (tn_impersonations d))))
      in query env (\<lambda>d. uuid_then env (ta_UserID actor) (\<lambda>i.
           if seesEverything actor then Inr (show d (\<lambda>_. True))
           else within d i (\<lambda>ds. Inr (show d (\<lambda>r. im_SubjectUserID r \<in> set ds))))))"

section \<open>What is not theirs is not there\<close>

text \<open>Whether a call is about an account, plan or subscription that is missing or somebody else's.\<close>

definition hidden_account :: "tenancy_env \<Rightarrow> actor \<Rightarrow> tenancy \<Rightarrow> go_string \<Rightarrow> bool" where
  "hidden_account env actor d x \<longleftrightarrow> (\<exists>j. te_uuid env x = Some j \<and> \<not> below d j (ta_UserID actor))"

definition hidden_plan :: "tenancy_env \<Rightarrow> actor \<Rightarrow> tenancy \<Rightarrow> go_string \<Rightarrow> bool" where
  "hidden_plan env actor d x \<longleftrightarrow>
     (\<exists>i. te_uuid env x = Some i \<and> (case plan_row d i of None \<Rightarrow> True | Some q \<Rightarrow> \<not> mayUsePlan actor q))"

definition hidden_subscription :: "tenancy_env \<Rightarrow> actor \<Rightarrow> tenancy \<Rightarrow> go_string \<Rightarrow> bool" where
  "hidden_subscription env actor d x \<longleftrightarrow>
     (\<exists>i. te_uuid env x = Some i \<and>
        (case sub_row d i of None \<Rightarrow> True | Some b \<Rightarrow> \<not> below d (sb_OwnerUserID b) (ta_UserID actor)))"

fun about_hidden :: "tenancy_env \<Rightarrow> actor \<Rightarrow> tenancy \<Rightarrow> tenancy_call \<Rightarrow> bool" where
  "about_hidden env actor d (CallUpdateAccount x _) = hidden_account env actor d x"
| "about_hidden env actor d (CallDeleteAccount x) = hidden_account env actor d x"
| "about_hidden env actor d (CallImpersonate _ x _) = hidden_account env actor d x"
| "about_hidden env actor d (CallCreateSubscription _ owner _ _) = hidden_account env actor d owner"
| "about_hidden env actor d (CallUpdatePlan x _) = hidden_plan env actor d x"
| "about_hidden env actor d (CallDeletePlan x) = hidden_plan env actor d x"
| "about_hidden env actor d (CallUpdateSubscription x _ _) = hidden_subscription env actor d x"
| "about_hidden env actor d (CallSetStatus x _ _) = hidden_subscription env actor d x"
| "about_hidden env actor d (CallDeleteSubscription x) = hidden_subscription env actor d x"
| "about_hidden env actor d (CallAddAddon x _ _) = hidden_subscription env actor d x"
| "about_hidden env actor d (CallRemoveAddon x _) = hidden_subscription env actor d x"
| "about_hidden env actor d (CallAssignWebsite x _) = hidden_subscription env actor d x"
| "about_hidden env actor d (CallReleaseWebsite x _) = hidden_subscription env actor d x"
| "about_hidden env actor d (CallApplyIsolation x) = hidden_subscription env actor d x"
| "about_hidden env actor d (CallMeasure x) = hidden_subscription env actor d x"
| "about_hidden env actor d _ = False"

text \<open>What is wrong with the text of a call, whatever the tables hold.\<close>

fun text_error :: "actor \<Rightarrow> tenancy_call \<Rightarrow> tenancy_err option" where
  "text_error actor (CallImpersonate _ x reason) =
     (if ta_ImpersonatorUserID actor \<noteq> [] then Some ErrAlreadyImpersonating
      else if \<not> Has (ta_Permissions actor) PermTenantImpersonate then Some ErrForbidden
      else map_option Invalid (Reason reason))"
| "text_error actor (CallCreateSubscription _ _ _ name) = map_option Invalid (SubscriptionName name)"
| "text_error actor (CallSetStatus _ status reason) =
     (if status \<notin> {StatusActive, StatusSuspended} then Some ErrInvalidStatus else map_option Invalid (Reason reason))"
| "text_error actor (CallAddAddon _ _ quantity) = map_option Invalid (AddonQuantity quantity)"
| "text_error actor _ = None"

definition answers :: "'a tenancy_op \<Rightarrow> store \<Rightarrow> tenancy_err \<Rightarrow> bool" where
  "answers m s e \<longleftrightarrow> fst (m s) = Inl e \<and> db (snd (m s)) = db s"

lemma answers_stop: "answers m s e \<Longrightarrow> answers (try_then m f) s e"
  by (auto simp: answers_def try_then_def split: prod.splits sum.splits)

lemma answers_void: "answers m s e \<Longrightarrow> answers (void m) s e"
  unfolding void_def by (rule answers_stop)

lemma answers_valid: "answers (try_then (valid_or v) f) s e \<longleftrightarrow> (case v of None \<Rightarrow> answers (f ()) s e | Some i \<Rightarrow> e = Invalid i)"
  by (auto simp: answers_def try_then_def valid_or_def op_simps split: option.splits)

lemma answers_fail: "answers (fail_with e') s e \<longleftrightarrow> e' = e"
  by (auto simp: answers_def op_simps)

lemma requireDescendant_hidden:
  assumes "plain_actor env actor (db s)" "\<forall>n. \<not> te_fails env n" "hidden_account env actor (db s) x"
  shows "answers (requireDescendant env actor x) s ErrNotFound"
proof -
  obtain j where j: "te_uuid env x = Some j" "\<not> below (db s) j (ta_UserID actor)" using assms(3) by (auto simp: hidden_account_def)
  have actor: "te_uuid env (ta_UserID actor) = Some (ta_UserID actor)" "\<not> seesEverything actor" "tree_ok (db s)"
    using assms(1) by (auto simp: plain_actor_def reads_back_def tables_ok_def)
  obtain ds where "descendants (db s) (ta_UserID actor) = Some ds" "\<forall>x. x \<in> set ds \<longleftrightarrow> below (db s) x (ta_UserID actor)"
    using descendants_total [OF actor(3)] by blast
  then show ?thesis
    using actor(1,2) j assms(2)
    by (simp add: answers_def requireDescendant_def IsDescendant_def query_def stmt_def try_then_def op_simps uuid_then_def within_def Let_def)
qed

lemma GetPlan_hidden:
  assumes "\<forall>n. \<not> te_fails env n" "te_uuid env x = Some i" "plan_row (db s) i = None"
  shows "answers (GetPlan env x) s ErrNotFound"
  using assms by (simp add: answers_def GetPlan_def query_def stmt_def uuid_then_def found_def Let_def)

lemma managed_hidden:
  assumes "plain_actor env actor (db s)" "\<forall>n. \<not> te_fails env n" "hidden_subscription env actor (db s) x"
  shows "answers (managed_subscription env actor x) s ErrNotFound"
proof -
  obtain i where i: "te_uuid env x = Some i"
    and row: "case sub_row (db s) i of None \<Rightarrow> True | Some b \<Rightarrow> \<not> below (db s) (sb_OwnerUserID b) (ta_UserID actor)"
    using assms(3) by (auto simp: hidden_subscription_def)
  have get: "GetSubscription env x s = (found (sub_row (db s) i), s\<lparr>ran := Suc (ran s)\<rparr>)"
    using assms(2) i by (simp add: GetSubscription_def query_def stmt_def uuid_then_def Let_def)
  show ?thesis
  proof (cases "sub_row (db s) i")
    case None
    then show ?thesis using get by (simp add: managed_subscription_def answers_def try_then_def found_def)
  next
    case (Some b)
    then have "sb_OwnerUserID b \<in> set (account_ids (db s))"
      using sub_row_Some assms(1) by (fastforce simp: plain_actor_def tables_ok_def subs_ok_def)
    then have "hidden_account env actor (db (s\<lparr>ran := Suc (ran s)\<rparr>)) (sb_OwnerUserID b)"
      using row Some assms(1) by (auto simp: hidden_account_def plain_actor_def reads_back_def)
    then have "answers (requireDescendant env actor (sb_OwnerUserID b)) (s\<lparr>ran := Suc (ran s)\<rparr>) ErrNotFound"
      using requireDescendant_hidden [of env actor "s\<lparr>ran := Suc (ran s)\<rparr>"] assms(1,2) by simp
    then show ?thesis using get Some answers_stop
      by (auto simp: managed_subscription_def answers_def try_then_def found_def split: prod.splits sum.splits)
  qed
qed

lemma plan_hidden:
  assumes "\<forall>n. \<not> te_fails env n" "hidden_plan env actor (db s) x"
  shows "answers (UpdatePlan env actor x req) s ErrNotFound" "answers (DeletePlan env actor x) s ErrNotFound"
proof -
  obtain i where i: "te_uuid env x = Some i" "case plan_row (db s) i of None \<Rightarrow> True | Some q \<Rightarrow> \<not> mayUsePlan actor q"
    using assms(2) by (auto simp: hidden_plan_def)
  have get: "GetPlan env x s = (found (plan_row (db s) i), s\<lparr>ran := Suc (ran s)\<rparr>)"
    using assms(1) i by (simp add: GetPlan_def query_def stmt_def uuid_then_def Let_def)
  have edit: "mayUsePlan actor q" if "mayEditPlan actor q" for q using that by (auto simp: mayEditPlan_def mayUsePlan_def split: if_splits)
  show "answers (UpdatePlan env actor x req) s ErrNotFound" "answers (DeletePlan env actor x) s ErrNotFound"
    using i(2) get edit by (auto simp: answers_def UpdatePlan_def DeletePlan_def try_then_def found_def op_simps split: option.splits)
qed

text \<open>C14: to an account that is not an administrator's, what is not theirs looks exactly like what does not exist: a call
  about an account, plan or subscription that is missing or outside their part answers, unless its text is
  wrong in itself, that nothing was found, and changes nothing.\<close>

theorem hidden_looks_missing:
  assumes "plain_actor env actor (db s)" "\<forall>n. \<not> te_fails env n" "about_hidden env actor (db s) call"
  shows "let e = (case text_error actor call of None \<Rightarrow> ErrNotFound | Some e \<Rightarrow> e) in
    fst (tenancy_perform sv env actor call s) = Inl e \<and> db (snd (tenancy_perform sv env actor call s)) = db s \<and>
    (text_error actor call = None \<longrightarrow> translate e = MissingReply)"
proof -
  have self: "x \<noteq> ta_UserID actor" if "hidden_account env actor (db s) x" for x
    using that assms(1) by (auto simp: hidden_account_def plain_actor_def reads_back_def intro: below_refl)
  note account = requireDescendant_hidden [OF assms(1,2), THEN answers_stop]
  note sub = managed_hidden [OF assms(1,2), THEN answers_stop]
  note plan = plan_hidden [OF assms(2)]
  have "answers (tenancy_perform sv env actor call) s (case text_error actor call of None \<Rightarrow> ErrNotFound | Some e \<Rightarrow> e)"
    using assms(3)
    by (cases call)
      (auto simp: UpdateAccount_def DeleteAccount_def StartImpersonation_def CreateSubscription_def UpdateSubscription_def
        SetSubscriptionStatus_def DeleteSubscription_def AddAddon_def RemoveAddon_def AssignWebsite_def ReleaseWebsite_def ApplyIsolation_def
        MeasureOne_def Let_def answers_valid answers_fail PermTenantImpersonate_def
        intro!: answers_void account sub plan dest: self split: option.splits)
  then show ?thesis by (auto simp: answers_def Let_def translate_def)
qed

text \<open>The reseller of the example asks to delete the administrator.\<close>

definition as_reseller :: actor where
  "as_reseller = \<lparr>ta_UserID = ''acme'', ta_Username = ''acme'', ta_IPAddress = [], ta_UserAgent = [], ta_Tier = TierReseller,
     ta_Permissions = [''tenant.manage''], ta_ImpersonatorUserID = []\<rparr>"

theorem hidden_looks_missing_witness:
  "fst (tenancy_perform demo_service plain_env as_reseller (CallDeleteAccount ''root'') sold) = Inl ErrNotFound \<and>
   ''root'' \<in> set (account_ids (db sold)) \<and> translate ErrNotFound = MissingReply"
proof -
  have ok: "tables_ok (db sold)" using tenancy_system.reach_inv [OF sold_reach] .
  then have tree: "tree_ok (db sold)" by (simp add: tables_ok_def)
  have actor: "plain_actor plain_env as_reseller (db sold)"
    using ok by (simp add: plain_actor_def reads_back_def as_reseller_def seesEverything_def plain_env_def sold_accounts tier_names)
  have "\<not> TierMayOwn (tier_of (db sold) ''acme'') (tier_of (db sold) ''root'')"
    by (simp add: sold_accounts TierMayOwn_iff TierRank_def tier_names)
  then have "\<not> below (db sold) ''root'' ''acme''" using below_tier [OF _ tree, of "''root''" "''acme''"] by auto
  then have hidden: "about_hidden plain_env as_reseller (db sold) (CallDeleteAccount ''root'')"
    by (simp add: hidden_account_def plain_env_def as_reseller_def)
  have "\<forall>n. \<not> te_fails plain_env n" by (simp add: plain_env_def)
  from hidden_looks_missing [OF actor this hidden, of demo_service] show ?thesis
    by (simp add: Let_def sold_accounts)
qed

section \<open>Who is served\<close>

lemma serve_tenancy_needs_permission:
  assumes "serve_tenancy sv env header ip agent call s = (reply, t)" "reply \<notin> {UnauthorizedReply, ForbiddenReply, FaultReply}"
  shows "\<exists>cl p. guarded_route sv (te_auth env) (required_permission call) header (tn_panel (db s)) = (Served cl, p) \<and>
    Has (c_Permissions cl) (required_permission call)"
  using assms
  by (auto simp: serve_tenancy_def guarded_route_def Let_def split: prod.splits sum.splits reply.splits if_splits)

text \<open>The errors of \<open>users\<close> have no status of their own: a name that is not allowed is answered like a failure of
  the server.\<close>

lemma bad_username_is_a_fault:
  assumes "AccountTier (rq_Tier req) = None" "ValidateUsername (NormalizeUsername (rq_Username req)) = Some e"
  shows "fst (CreateAccount sv env new salt actor req s) = Inl ErrInvalidUsername \<and> translate ErrInvalidUsername = FaultReply"
  using assms by (auto simp: CreateAccount_def try_then_def valid_or_def check_or_def op_simps ValidateUsername_def translate_def split: if_splits)

end
