(* ===== verification/Spec2Isabelle.thy ===== *)
theory Spec2Isabelle
  imports Cron_Host Validate_Nginx Agent_Socket Pathsec Agent_Command Firewall_Change Api_Session_System Shared_Seal
    Api_Tenancy_Http
begin

text \<open>
  A verification development of JotHost, a control panel for hosting servers.

  The program has two processes. The API (\<open>src/api\<close>) serves the panel over HTTP, keeps its records
  in PostgreSQL and its tokens and counters in Redis. The Agent (\<open>src/agent\<close>) runs as root on the
  managed host and is reached over a Unix socket only: it accepts typed operations from an
  allowlist and carries them out with the daemons of the host. \<open>src/shared\<close> holds what both sides
  agree on: the protocol and the validators of every value that crosses the socket. The
  development follows a request on its way: the socket, the dispatcher and the job runner, the
  validators, and then the parts of the Agent that change the host and must not break it: the
  crontabs, the firewall, the path validator and the runner of programs. Of the API it models who
  gets in: passwords, second factors, sessions, tokens, permissions, signing in as somebody else and
  the limiter in front of them; and what is sold to whom: accounts below one another, plans,
  subscriptions and their quotas.

  \<^bold>\<open>What the theories hold.\<close>

  \<^item> \<open>Go_Prelude\<close>, \<open>Go_Regexp\<close>, \<open>Go_Time\<close>, \<open>Go_Path\<close>, \<open>Go_Netip\<close>, \<open>Go_Effects\<close>: what the source uses of
    the standard library of Go (strings, regular expressions, times, paths, addresses), and
    operations that change a state and may fail. Strings are lists of bytes.
  \<^item> \<open>Transition_Systems\<close>: reachable states of a step relation and the locale by which a
    preserved predicate holds in all of them.
  \<^item> \<open>Validate_Name\<close>, \<open>Validate_Cron\<close>, \<open>Validate_Nginx\<close>, \<open>Validate_Firewall\<close>: the validators of
    \<open>shared/validate\<close> (\<open>validate.go\<close>, \<open>subdomain.go\<close>, \<open>cron.go\<close>, \<open>nginx.go\<close>, \<open>firewall.go\<close>). A validator
    returns the error it reports, if any. The lemmas say which strings are accepted, that
    normal forms are stable, and that \<open>NextRun\<close> finds the first firing after a given time; when a
    schedule fires is said by an inductive grammar of crontab fields, apart from the matcher.
  \<^item> \<open>Protocol\<close>, \<open>Agent_Jobs\<close>, \<open>Agent_Registry\<close>, \<open>Agent_Socket\<close>: \<open>shared/protocol/protocol.go\<close>,
    \<open>agent/internal/jobs/jobs.go\<close>, \<open>agent/internal/operations/registry.go\<close> and
    \<open>agent/internal/socket\<close>. The job runner is a record of its maps and counters; its goroutines are
    workers with a phase, and a step relation interleaves them with the calls of the client. A step
    is taken at the time the clock shows in it. The lemmas are the invariants of the runner, the life
    of a job, what \<open>Shutdown\<close> brings about, and what a connection can reach.
  \<^item> \<open>Crontab\<close>, \<open>Cron_Host\<close>: \<open>agent/internal/cron\<close>. The first has the text of a crontab and the
    managed block in it, the second the spool directory, logs and index of the host with every
    system call that can fail. What is said of the block is for jobs whose name, schedule and command
    are each on one line, as the panel sends them; \<open>Job.Validate\<close> lets others through.
  \<^item> \<open>Pathsec\<close>: \<open>agent/internal/pathsec/pathsec.go\<close>, over file systems with symbolic links.
  \<^item> \<open>Agent_Command\<close>: \<open>agent/internal/command/command.go\<close>, the runner of external programs.
  \<^item> \<open>Firewall_Rule\<close>, \<open>Firewall_Guard\<close>, \<open>Firewall_Host\<close>, \<open>Firewall_Change\<close>: \<open>agent/internal/firewall\<close>
    (\<open>rule.go\<close>, \<open>guard.go\<close>, \<open>firewall.go\<close> with \<open>backup.go\<close>, \<open>change.go\<close>). The host is a record of the
    rule files, the backups and the marker of a pending change; a change is provisional
    until it is confirmed, and the timers, a restart and the client are steps.
  \<^item> \<open>Api_Ratelimit\<close>: \<open>api/internal/ratelimit/ratelimit.go\<close> with its Redis script.
  \<^item> \<open>Go_Encoding\<close>, \<open>Api_Secrets\<close>: hexadecimal, base 32 and base 64, and \<open>api/internal/secrets\<close>: tokens,
    the format of password hashes, sealed values and one-time codes. The lemmas are round trips
    and the window of a code.
  \<^item> \<open>Api_Sessions\<close>, \<open>Api_Twofactor\<close>: the rows of PostgreSQL and the keys of Redis that sign-in works on, in
    one record \<open>panel\<close>, with the operations of \<open>api/internal/users\<close>, \<open>rbac\<close>, \<open>sessions\<close>, \<open>twofactor\<close> and
    \<open>auth/tokenstore.go\<close> on them. A statement is one atomic change, or fails and changes nothing.
  \<^item> \<open>Api_Auth\<close>, \<open>Api_Signin\<close>: \<open>api/internal/auth\<close> (\<open>service.go\<close>, \<open>impersonation.go\<close>, \<open>middleware.go\<close>), and what
    a sign-in that succeeded must have had: the password, the second factor, the account.
  \<^item> \<open>Api_Session_Moves\<close>, \<open>Api_Session_System\<close>: all these calls in any order as steps of one system. A
    call is a sequence of a few moves on what grants access, whichever store fails in it; the
    invariants of the sessions, what stays ended, and what limits an impersonated session until its
    refresh token is redeemed, are proved of the moves.
  \<^item> \<open>Shared_Seal\<close>: \<open>shared/seal/seal.go\<close>, the encrypted streams of the panel's own backups: the writer and
    the reader with their buffers. The lemmas reduce the reader to a function on the whole
    stream, and show the round trip and that an altered stream is refused.
  \<^item> \<open>Validate_Tenancy\<close>, \<open>Api_Tenancy_Store\<close>, \<open>Api_Tenancy\<close>: \<open>shared/validate/tenancy.go\<close>, the tables of
    \<open>api/internal/tenancy\<close> with the statements on them (\<open>repository.go\<close>), and the service (\<open>service.go\<close>,
    \<open>sampler.go\<close>, \<open>impersonation.go\<close>, and what it uses of \<open>users\<close> and \<open>rbac\<close>). The tables extend the record
    \<open>panel\<close> of sign-in. The recursive query for the accounts below one is a \<open>partial_function\<close>, since
    nothing in it bounds its rounds.
  \<^item> \<open>Api_Tenancy_Rules\<close>, \<open>Api_Tenancy_Tables\<close>, \<open>Api_Tenancy_System\<close>, \<open>Api_Tenancy_Confined\<close>: how a property of the
    tables is read off the text of an operation, what every call keeps of them, all calls in any
    order as a system with the end of the recursive query, and what a reseller cannot touch.
  \<^item> \<open>Api_Quota\<close>, \<open>Api_Tenancy_Properties\<close>, \<open>Api_Tenancy_Http\<close>: \<open>quota.go\<close> with the table of guarded routes in
    \<open>api/internal/server/server.go\<close>, the properties of quotas, bandwidth and impersonation, and
    \<open>handlers.go\<close>: permissions, statuses of errors, and that what is not theirs looks missing.
  \<^item> \<open>Agent_Usage\<close>: the totals of \<open>agent/internal/tenancy/usage.go\<close> over the websites of a subscription, which
    the samples of bandwidth are made of.

  \<^bold>\<open>Interfaces.\<close> \<open>Transition_Systems\<close> states the contract of an invariant as a locale; the job
  runner, the firewall guard, the provisional changes and the sessions interpret it on their own
  steps. \<open>Go_Effects\<close> states as a locale \<open>kept_relation\<close> how what an operation keeps is read off its
  text; the sign-in theories interpret it on what grants access. \<open>Api_Tenancy_Rules\<close> builds the locale
  \<open>table_relation\<close> on it, which is interpreted for reading, for tables in order and for what a reseller
  may change.

  \<^bold>\<open>Errors and effects.\<close> An operation that fails returns \<open>Inl\<close> of its error; system calls that may
  fail are decided by a function of the environment, so that the error properties range over
  every choice of failures. A panic of Go is a value of its own.

  \<^bold>\<open>Parameters.\<close> JSON decoding, the handlers behind the registry, the processes a command starts,
  \<open>ufw\<close>, random identifiers and tokens, and the cryptographic primitives (\<open>primitives\<close> and \<open>seal_crypto\<close>: SHA-256, HMAC,
  Argon2id, HKDF, AES-GCM) are arguments of the definitions. What a theorem relies on about \<open>ufw\<close> is named
  \<open>ufw_documented\<close>, and a witness shows that it can hold; what the session system relies on is that
  identifiers and tokens are drawn afresh (\<open>fresh\<close>). For tenancy the reading of identifiers by
  PostgreSQL (\<open>te_uuid\<close>), the Agent's answers (\<open>te_isolate\<close>, \<open>te_measure\<close>) and the statements that fail
  (\<open>te_fails\<close>) are fields of its environment; that a stored identifier is read back as itself is named
  \<open>reads_back\<close> where it is needed.

  \<^bold>\<open>Fuel and bounds.\<close> \<open>resolve_loop\<close> of \<open>Pathsec\<close> runs with one unit of fuel more than the path has
  bytes, and every turn shortens the path (\<open>Resolve_total\<close>). \<open>EvalSymlinks\<close> gives up after 255
  links and the kernel after 40, as the library and Linux do. \<open>search_from\<close> of \<open>Validate_Cron\<close> is
  recursive on the minutes left to its limit. Integers of Go are 64 bits wide; the values of the
  model stay far below, and where a parser meets one that does not (\<open>atoi\<close>), it fails as
  \<open>strconv.Atoi\<close> does.

  \<^bold>\<open>Not modelled.\<close> Except for tenancy, the packages of the API that keep the records of the other parts of the panel in
  PostgreSQL, whose behaviour is that of SQL statements; the HTTP handlers of sign-in, and of tenancy the decoding of bodies and the overview page; the packages of the Agent that render the configuration of one daemon and
  run its tools; HTTP, logging, configuration and start-up; the frontend. They are listed in the
  manifest with the reason for each.
\<close>

end
